(* ===== verification/Prelude.thy ===== *)
theory Prelude
  imports Main "HOL-Library.List_Lexorder" "HOL-Library.Char_ord" "HOL-Library.Multiset"
begin

text \<open>
  What every component of the development shares: the model of Go's strings, the parts of
  the Go standard library the sources use (package strings, strconv, sort), the locale of
  three-way comparators and the locale of strict orders, and the generic lemmas on lists
  and sorting that the component theories rest on.

  A Go \<open>string\<close> is a sequence of bytes; it is an Isabelle \<open>string\<close> (a list of the 256
  characters), so \<open>len(s)\<close> is \<open>length s\<close> and \<open>s[i]\<close> is a byte. Go compares
  strings bytewise and lexicographically, which is the order of HOL-Library.List_Lexorder
  over that of HOL-Library.Char_ord. \<open>strings.ToLower\<close> and \<open>strings.TrimSpace\<close> also
  treat Unicode letters and spaces outside ASCII; the model covers ASCII, which is what
  package names, versions and identifiers consist of, and leaves other bytes alone.
  A Go \<open>int\<close> is 64 bits wide; where a parse can overflow (\<open>strconv.Atoi\<close>) the
  range check is part of the model.
\<close>

named_theorems order_key \<open>a three-way comparison is the comparison of keys\<close>
named_theorems guard_simps \<open>unfoldings of early-return guards\<close>

section \<open>Bytes\<close>

abbreviation byte :: "char \<Rightarrow> nat" where
  "byte c \<equiv> of_char c"

definition isASCIIDigit :: "char \<Rightarrow> bool" where
  "isASCIIDigit c \<longleftrightarrow> 48 \<le> byte c \<and> byte c \<le> 57"

definition isASCIILetter :: "char \<Rightarrow> bool" where
  "isASCIILetter c \<longleftrightarrow> (97 \<le> byte c \<and> byte c \<le> 122) \<or> (65 \<le> byte c \<and> byte c \<le> 90)"

definition isRPMAlnum :: "char \<Rightarrow> bool" where
  "isRPMAlnum c \<longleftrightarrow> isASCIIDigit c \<or> isASCIILetter c"

definition is_space :: "char \<Rightarrow> bool" where
  "is_space c \<longleftrightarrow> byte c \<in> {9, 10, 11, 12, 13, 32}"

definition lower_char :: "char \<Rightarrow> char" where
  "lower_char c = (if 65 \<le> byte c \<and> byte c \<le> 90 then char_of (byte c + 32) else c)"

definition upper_char :: "char \<Rightarrow> char" where
  "upper_char c = (if 97 \<le> byte c \<and> byte c \<le> 122 then char_of (byte c - 32) else c)"

lemma byte_less_256 [simp]: "byte c < 256"
proof -
  have "of_char c = (of_char c :: nat) mod 256"
    by (metis of_char_mod_256)
  then show ?thesis
    by (metis mod_less_divisor zero_less_numeral)
qed

lemma byte_inject [simp]: "byte c = byte d \<longleftrightarrow> c = d"
  by (rule of_char_eq_iff)

lemma lower_char_idem [simp]: "lower_char (lower_char c) = lower_char c"
  by (auto simp: lower_char_def)

lemma digit_not_letter: "isASCIIDigit c \<Longrightarrow> \<not> isASCIILetter c"
  by (auto simp: isASCIIDigit_def isASCIILetter_def)

section \<open>Package strings\<close>

definition ToLower :: "string \<Rightarrow> string" where
  "ToLower s = map lower_char s"

definition ToUpper :: "string \<Rightarrow> string" where
  "ToUpper s = map upper_char s"

definition TrimLeftSpace :: "string \<Rightarrow> string" where
  "TrimLeftSpace s = dropWhile is_space s"

definition TrimSpace :: "string \<Rightarrow> string" where
  "TrimSpace s = rev (dropWhile is_space (rev (dropWhile is_space s)))"

definition HasPrefix :: "string \<Rightarrow> string \<Rightarrow> bool" where
  "HasPrefix s p \<longleftrightarrow> take (length p) s = p"

definition HasSuffix :: "string \<Rightarrow> string \<Rightarrow> bool" where
  "HasSuffix s p \<longleftrightarrow> HasPrefix (rev s) (rev p)"

fun Contains :: "string \<Rightarrow> string \<Rightarrow> bool" where
  "Contains [] p \<longleftrightarrow> p = []"
| "Contains (c # s) p \<longleftrightarrow> HasPrefix (c # s) p \<or> Contains s p"

text \<open>\<open>strings.Index\<close> and \<open>strings.LastIndex\<close> of one byte; \<open>None\<close> is Go's \<open>-1\<close>.\<close>

fun IndexByte :: "string \<Rightarrow> char \<Rightarrow> nat option" where
  "IndexByte [] c = None"
| "IndexByte (x # s) c = (if x = c then Some 0 else map_option Suc (IndexByte s c))"

definition LastIndexByte :: "string \<Rightarrow> char \<Rightarrow> nat option" where
  "LastIndexByte s c = map_option (\<lambda>i. length s - 1 - i) (IndexByte (rev s) c)"

text \<open>\<open>strings.Split(s, sep)\<close> and \<open>strings.Cut(s, sep)\<close> for a one-byte separator.\<close>

fun Split :: "string \<Rightarrow> char \<Rightarrow> string list" where
  "Split [] c = [[]]"
| "Split (x # s) c =
     (if x = c then [] # Split s c
      else (case Split s c of [] \<Rightarrow> [[x]] | f # fs \<Rightarrow> (x # f) # fs))"

definition CutByte :: "string \<Rightarrow> char \<Rightarrow> string \<times> string \<times> bool" where
  "CutByte s c = (case IndexByte s c of
     None \<Rightarrow> (s, [], False)
   | Some i \<Rightarrow> (take i s, drop (Suc i) s, True))"

fun Join :: "string list \<Rightarrow> string \<Rightarrow> string" where
  "Join [] sep = []"
| "Join [s] sep = s"
| "Join (s # t # ss) sep = s @ sep @ Join (t # ss) sep"

definition ReplaceByte :: "string \<Rightarrow> char \<Rightarrow> char \<Rightarrow> string" where
  "ReplaceByte s a b = map (\<lambda>c. if c = a then b else c) s"

lemma ToLower_idem [simp]: "ToLower (ToLower s) = ToLower s"
  by (simp add: ToLower_def)

lemma length_ToLower [simp]: "length (ToLower s) = length s"
  by (simp add: ToLower_def)

lemma Split_not_Nil [simp]: "Split s c \<noteq> []"
  by (cases s) (auto split: list.splits)

lemma IndexByte_None_iff: "IndexByte s c = None \<longleftrightarrow> c \<notin> set s"
  by (induction s) auto

lemma IndexByte_Some:
  "IndexByte s c = Some i \<Longrightarrow> i < length s \<and> s ! i = c \<and> c \<notin> set (take i s)"
proof (induction s arbitrary: i)
  case (Cons x s)
  then show ?case
    by (cases i) (auto split: if_splits)
qed simp

lemma IndexByte_append: "c \<notin> set xs \<Longrightarrow> IndexByte (xs @ c # ys) c = Some (length xs)"
  by (induction xs) auto

lemma LastIndexByte_append: "c \<notin> set ys \<Longrightarrow> LastIndexByte (xs @ c # ys) c = Some (length xs)"
  by (simp add: LastIndexByte_def IndexByte_append)

lemma LastIndexByte_None_iff: "LastIndexByte s c = None \<longleftrightarrow> c \<notin> set s"
  by (simp add: LastIndexByte_def IndexByte_None_iff)

lemma dropWhile_noop: "(xs = [] \<or> \<not> P (hd xs)) \<Longrightarrow> dropWhile P xs = xs"
  by (cases xs) auto

lemma TrimSpace_noop:
  assumes "s \<noteq> []" "\<not> is_space (hd s)" "\<not> is_space (last s)"
  shows "TrimSpace s = s"
proof -
  have "dropWhile is_space s = s"
    using assms by (simp add: dropWhile_noop)
  moreover have "dropWhile is_space (rev s) = rev s"
    using assms by (simp add: dropWhile_noop hd_rev)
  ultimately show ?thesis
    by (simp add: TrimSpace_def)
qed

lemma set_TrimSpace: "set (TrimSpace s) \<subseteq> set s"
  unfolding TrimSpace_def using set_dropWhileD by (metis (no_types, lifting) set_rev subsetI)

section \<open>Package strconv\<close>

definition digit_val :: "char \<Rightarrow> nat" where
  "digit_val c = byte c - 48"

definition digit_char :: "nat \<Rightarrow> char" where
  "digit_char n = char_of (48 + n)"

definition digits_val :: "string \<Rightarrow> nat" where
  "digits_val s = foldl (\<lambda>n c. 10 * n + digit_val c) 0 s"

definition max_int64 :: int where "max_int64 = 9223372036854775807"
definition min_int64 :: int where "min_int64 = -9223372036854775808"

definition isDigits :: "string \<Rightarrow> bool" where
  "isDigits s \<longleftrightarrow> s \<noteq> [] \<and> list_all isASCIIDigit s"

text \<open>\<open>strconv.Atoi\<close>: an optional sign, decimal digits only, and a value in the range of
  a 64-bit \<open>int\<close>; \<open>None\<close> is the error result.\<close>

definition Atoi :: "string \<Rightarrow> int option" where
  "Atoi s =
    (let (neg, ds) = (case s of
        [] \<Rightarrow> (False, [])
      | c # r \<Rightarrow> if c = CHR ''-'' then (True, r) else if c = CHR ''+'' then (False, r) else (False, s))
     in if \<not> isDigits ds then None
        else (let n = int (digits_val ds); v = (if neg then - n else n)
              in if min_int64 \<le> v \<and> v \<le> max_int64 then Some v else None))"

text \<open>The value \<open>strconv.Atoi\<close> returns beside its error, which \<open>x, _ = strconv.Atoi(s)\<close>
  keeps: zero for a syntax error, the nearest 64-bit value when out of range.\<close>

definition AtoiVal :: "string \<Rightarrow> int" where
  "AtoiVal s =
    (let (neg, ds) = (case s of
        [] \<Rightarrow> (False, [])
      | c # r \<Rightarrow> if c = CHR ''-'' then (True, r) else if c = CHR ''+'' then (False, r) else (False, s))
     in if \<not> isDigits ds then 0
        else (let n = int (digits_val ds) in max min_int64 (min max_int64 (if neg then - n else n))))"

fun itoa_nat :: "nat \<Rightarrow> string" where
  "itoa_nat n = (if n < 10 then [digit_char n] else itoa_nat (n div 10) @ [digit_char (n mod 10)])"

declare itoa_nat.simps [simp del]

definition Itoa :: "int \<Rightarrow> string" where
  "Itoa i = (if i < 0 then CHR ''-'' # itoa_nat (nat (- i)) else itoa_nat (nat i))"

lemma byte_digit_char: "n < 10 \<Longrightarrow> byte (digit_char n) = 48 + n"
  by (simp add: digit_char_def)

lemma digit_val_digit_char [simp]: "n < 10 \<Longrightarrow> digit_val (digit_char n) = n"
  by (simp add: digit_val_def byte_digit_char)

lemma isASCIIDigit_digit_char [simp]: "n < 10 \<Longrightarrow> isASCIIDigit (digit_char n)"
  by (simp add: isASCIIDigit_def byte_digit_char)

lemma digits_val_snoc: "digits_val (s @ [c]) = 10 * digits_val s + digit_val c"
  by (simp add: digits_val_def)

lemma digits_val_itoa_nat [simp]: "digits_val (itoa_nat n) = n"
proof (induction n rule: itoa_nat.induct)
  case (1 n)
  show ?case
  proof (cases "n < 10")
    case True
    then show ?thesis
      by (subst itoa_nat.simps) (simp add: digits_val_def)
  next
    case False
    with 1 show ?thesis
      by (subst itoa_nat.simps) (simp add: digits_val_snoc)
  qed
qed

lemma isDigits_itoa_nat [simp]: "isDigits (itoa_nat n)"
proof (induction n rule: itoa_nat.induct)
  case (1 n)
  then show ?case
    by (cases "n < 10"; subst itoa_nat.simps) (simp_all add: isDigits_def)
qed

lemma itoa_nat_inject [simp]: "itoa_nat m = itoa_nat n \<longleftrightarrow> m = n"
  by (metis digits_val_itoa_nat)

lemma itoa_nat_digits: "c \<in> set (itoa_nat n) \<Longrightarrow> isASCIIDigit c"
  using isDigits_itoa_nat [of n] by (auto simp: isDigits_def list_all_iff)

lemma itoa_nat_no_sign: "itoa_nat n \<noteq> CHR ''-'' # s" "itoa_nat n \<noteq> CHR ''+'' # s"
  using itoa_nat_digits [of "CHR ''-''" n] itoa_nat_digits [of "CHR ''+''" n]
  by (auto simp: isASCIIDigit_def)

lemma Itoa_inject [simp]: "Itoa a = Itoa b \<longleftrightarrow> a = b"
  using itoa_nat_no_sign(1) by (auto simp: Itoa_def nat_eq_iff) (metis itoa_nat_no_sign(1))+

text \<open>\<open>strconv.Atoi\<close> reads back what \<open>strconv.Itoa\<close> writes, for every 64-bit value.\<close>

lemma Atoi_Itoa: "min_int64 \<le> i \<Longrightarrow> i \<le> max_int64 \<Longrightarrow> Atoi (Itoa i) = Some i"
proof (cases "i < 0")
  case True
  assume "min_int64 \<le> i" "i \<le> max_int64"
  with True show ?thesis
    by (simp add: Atoi_def Itoa_def)
next
  case False
  assume r: "min_int64 \<le> i" "i \<le> max_int64"
  obtain c r' where c: "itoa_nat (nat i) = c # r'"
    using isDigits_itoa_nat [of "nat i"] by (cases "itoa_nat (nat i)") (auto simp: isDigits_def)
  have "c \<noteq> CHR ''-''" "c \<noteq> CHR ''+''"
    using itoa_nat_no_sign c by metis+
  moreover have "isDigits (c # r')" "digits_val (c # r') = nat i"
    using c isDigits_itoa_nat [of "nat i"] digits_val_itoa_nat [of "nat i"] by simp_all
  ultimately show ?thesis
    using False r c by (simp add: Atoi_def Itoa_def)
qed

subsection \<open>Decimal strings and their values\<close>

lemma digits_val_Nil [simp]: "digits_val [] = 0"
  by (simp add: digits_val_def)

lemma digits_val_append: "digits_val (xs @ ys) = digits_val xs * 10 ^ length ys + digits_val ys"
  by (induction ys rule: rev_induct)
    (simp_all add: digits_val_snoc algebra_simps flip: append_assoc)

lemma digits_val_Cons: "digits_val (x # xs) = digit_val x * 10 ^ length xs + digits_val xs"
  using digits_val_append [of "[x]" xs] by (simp add: digits_val_def)

lemma digit_val_le_9: "isASCIIDigit c \<Longrightarrow> digit_val c \<le> 9"
  by (auto simp: isASCIIDigit_def digit_val_def)

lemma digits_val_less: "list_all isASCIIDigit xs \<Longrightarrow> digits_val xs < 10 ^ length xs"
proof (induction xs)
  case (Cons x xs)
  have "digit_val x * 10 ^ length xs + digits_val xs < 9 * 10 ^ length xs + 10 ^ length xs"
    using Cons digit_val_le_9 [of x] by (intro add_le_less_mono mult_le_mono1) simp_all
  then show ?case
    by (simp add: digits_val_Cons)
qed simp

lemma digit_val_pos: "isASCIIDigit c \<Longrightarrow> c \<noteq> CHR ''0'' \<Longrightarrow> 1 \<le> digit_val c"
proof -
  assume "isASCIIDigit c" "c \<noteq> CHR ''0''"
  then have "48 \<le> byte c" "byte c \<noteq> byte (CHR ''0'')"
    unfolding isASCIIDigit_def byte_inject by simp_all
  then show ?thesis
    by (simp add: digit_val_def)
qed

lemma digits_val_ge:
  "isASCIIDigit c \<Longrightarrow> c \<noteq> CHR ''0'' \<Longrightarrow> 10 ^ length xs \<le> digits_val (c # xs)"
  using digit_val_pos [of c] by (simp add: digits_val_Cons trans_le_add1)

text \<open>With no leading zero the longer decimal is the larger; of two of the same length the
  lexicographic order decides.\<close>

lemma digits_val_longer:
  assumes "list_all isASCIIDigit xs" "list_all isASCIIDigit ys" "length ys < length xs"
    and "hd xs \<noteq> CHR ''0''"
  shows "digits_val ys < digits_val xs"
proof -
  obtain c r where xs: "xs = c # r"
    using assms(3) by (cases xs) auto
  have "digits_val ys < 10 ^ length ys"
    using assms(2) by (rule digits_val_less)
  also have "(10::nat) ^ length ys \<le> 10 ^ length r"
    using assms(3) xs by (intro power_increasing) auto
  also have "\<dots> \<le> digits_val xs"
    using assms(1,4) xs digits_val_ge by auto
  finally show ?thesis .
qed

lemma digit_less_iff: "isASCIIDigit c \<Longrightarrow> isASCIIDigit d \<Longrightarrow> digit_val c < digit_val d \<longleftrightarrow> c < d"
  by (auto simp: isASCIIDigit_def digit_val_def less_char_def)

lemma digits_val_same_length:
  assumes "length xs = length ys" "list_all isASCIIDigit xs" "list_all isASCIIDigit ys"
  shows "digits_val xs < digits_val ys \<longleftrightarrow> xs < ys"
  using assms
proof (induction xs ys rule: list_induct2)
  case (Cons x xs y ys)
  have lt: "digits_val (x # xs) < digits_val (y # ys)"
    if "x < y" "list_all isASCIIDigit (x # xs)" "list_all isASCIIDigit (y # ys)"
      "length xs = length ys" for x y :: char and xs ys
  proof -
    have "Suc (digit_val x) \<le> digit_val y"
      using that digit_less_iff by (simp add: Suc_le_eq)
    then have "Suc (digit_val x) * 10 ^ length xs \<le> digit_val y * 10 ^ length ys"
      using that(4) by (metis mult_le_mono1)
    then show ?thesis
      using digits_val_less [of xs] that by (simp add: digits_val_Cons)
  qed
  consider "x < y" | "y < x" | "x = y"
    by (meson linorder_neqE)
  then show ?case
  proof cases
    case 1
    then show ?thesis
      using lt [of x y xs ys] Cons by simp
  next
    case 2
    then show ?thesis
      using lt [of y x ys xs] Cons by (auto simp: not_less less_imp_le)
  next
    case 3
    with Cons show ?thesis
      by (simp add: digits_val_Cons)
  qed
qed simp

lemma digits_val_same_length_eq:
  "length xs = length ys \<Longrightarrow> list_all isASCIIDigit xs \<Longrightarrow> list_all isASCIIDigit ys \<Longrightarrow>
   digits_val xs = digits_val ys \<longleftrightarrow> xs = ys"
  using digits_val_same_length [of xs ys] digits_val_same_length [of ys xs]
  by (metis less_irrefl linorder_neqE)

lemma digits_val_strip_zeros [simp]: "digits_val (dropWhile (\<lambda>c. c = CHR ''0'') xs) = digits_val xs"
  by (induction xs) (simp_all add: digits_val_Cons digit_val_def)

section \<open>Three-way comparators\<close>

text \<open>A Go comparison function returns a negative, zero or positive \<open>int\<close>.\<close>

definition normalizeSign :: "int \<Rightarrow> int" where
  "normalizeSign n = (if n < 0 then - 1 else if n > 0 then 1 else 0)"

definition cmp_lin :: "'a::linorder \<Rightarrow> 'a \<Rightarrow> int" where
  "cmp_lin x y = (if x < y then - 1 else if y < x then 1 else 0)"

lemma normalizeSign_simps [simp]:
  "normalizeSign 0 = 0" "normalizeSign (- 1) = - 1" "normalizeSign 1 = 1"
  by (simp_all add: normalizeSign_def)

lemma normalizeSign_signs [simp]:
  "normalizeSign n < 0 \<longleftrightarrow> n < 0" "0 < normalizeSign n \<longleftrightarrow> 0 < n" "normalizeSign n = 0 \<longleftrightarrow> n = 0"
  "normalizeSign (- n) = - normalizeSign n"
  by (auto simp: normalizeSign_def)

lemma normalizeSign_range: "normalizeSign n \<in> {- 1, 0, 1}"
  by (auto simp: normalizeSign_def)

lemma cmp_lin_signs [simp]:
  "cmp_lin x y < 0 \<longleftrightarrow> x < y" "0 < cmp_lin x y \<longleftrightarrow> y < x" "cmp_lin x y = 0 \<longleftrightarrow> x = y"
  by (auto simp: cmp_lin_def)

lemma cmp_lin_flip: "cmp_lin y x = - cmp_lin x y"
  by (auto simp: cmp_lin_def)

lemma list_all_takeWhile [simp]: "list_all P (takeWhile P xs)"
  by (induction xs) auto

text \<open>Two numbers with their leading zeros gone: the longer run wins, otherwise the
  lexicographic order decides, which is the comparison of the values.\<close>

lemma number_compare:
  assumes "da = dropWhile (\<lambda>c. c = CHR ''0'') xs" "db = dropWhile (\<lambda>c. c = CHR ''0'') ys"
    and "list_all isASCIIDigit da" "list_all isASCIIDigit db"
  shows "cmp_lin (digits_val xs) (digits_val ys) =
    (if length db < length da then 1 else if length da < length db then - 1
     else cmp_lin da db)"
proof -
  have v: "digits_val xs = digits_val da" "digits_val ys = digits_val db"
    using assms by simp_all
  have nz: "hd da \<noteq> CHR ''0''" if "da \<noteq> []"
    using that hd_dropWhile [of "\<lambda>c. c = CHR ''0''" xs] unfolding assms(1) by simp
  have nz': "hd db \<noteq> CHR ''0''" if "db \<noteq> []"
    using that hd_dropWhile [of "\<lambda>c. c = CHR ''0''" ys] unfolding assms(2) by simp
  consider "length db < length da" | "length da < length db" | "length da = length db"
    by linarith
  then show ?thesis
  proof cases
    case 1
    then have "digits_val db < digits_val da"
      using digits_val_longer [OF assms(3,4)] nz by force
    with 1 show ?thesis
      by (simp add: v cmp_lin_def)
  next
    case 2
    then have "digits_val da < digits_val db"
      using digits_val_longer [OF assms(4,3)] nz' by force
    with 2 show ?thesis
      by (simp add: v cmp_lin_def)
  next
    case 3
    then show ?thesis
      using digits_val_same_length [of da db] digits_val_same_length [of db da] assms(3,4)
      by (simp add: v cmp_lin_def)
  qed
qed

lemma cmp_lin_int: "cmp_lin (int m) (int n) = cmp_lin m n"
  by (simp add: cmp_lin_def)

locale comparator =
  fixes cmp :: "'a \<Rightarrow> 'a \<Rightarrow> int"
  assumes cmp_flip: "cmp y x < 0 \<longleftrightarrow> 0 < cmp x y"
    and cmp_trans: "cmp x y \<le> 0 \<Longrightarrow> cmp y z \<le> 0 \<Longrightarrow> cmp x z \<le> 0"
begin

lemma cmp_refl: "cmp x x = 0"
  using cmp_flip [of x x] by linarith

lemma cmp_le_total: "cmp x y \<le> 0 \<or> cmp y x \<le> 0"
  using cmp_flip [of x y] cmp_flip [of y x] by linarith

lemma cmp_ge_flip: "0 \<le> cmp x y \<longleftrightarrow> cmp y x \<le> 0"
  using cmp_flip [of x y] by (simp flip: linorder_not_less)

lemma cmp_eq_flip: "cmp x y = 0 \<longleftrightarrow> cmp y x = 0"
  by (metis cmp_flip less_irrefl linorder_neqE)

lemma cmp_less_trans: "cmp x y < 0 \<Longrightarrow> cmp y z < 0 \<Longrightarrow> cmp x z < 0"
  by (metis cmp_flip cmp_trans linorder_not_less order_less_imp_le)

lemma cmp_le_less_trans: "cmp x y \<le> 0 \<Longrightarrow> cmp y z < 0 \<Longrightarrow> cmp x z < 0"
  by (metis cmp_flip cmp_trans linorder_not_less)

lemma cmp_less_le_trans: "cmp x y < 0 \<Longrightarrow> cmp y z \<le> 0 \<Longrightarrow> cmp x z < 0"
  by (metis cmp_flip cmp_trans linorder_not_less)

lemma cmp_eq_trans: "cmp x y = 0 \<Longrightarrow> cmp y z = 0 \<Longrightarrow> cmp x z = 0"
  by (metis cmp_eq_flip cmp_flip cmp_trans less_irrefl linorder_neqE linorder_not_less order_refl)

lemma cmp_cong_left: "cmp x y = 0 \<Longrightarrow> cmp x z < 0 \<longleftrightarrow> cmp y z < 0"
  by (metis cmp_eq_flip cmp_le_less_trans order_refl)

end

text \<open>A comparator that compares keys, each of which is compared by a comparator.\<close>

lemma comparator_key:
  assumes "comparator cmp"
  shows "comparator (\<lambda>x y. cmp (f x) (f y))"
  using assms by (auto simp: comparator_def)

lemma comparator_cmp_lin: "comparator (cmp_lin :: 'a::linorder \<Rightarrow> 'a \<Rightarrow> int)"
  by unfold_locales (auto simp: cmp_lin_def split: if_splits)

lemma comparator_normalize: "comparator cmp \<Longrightarrow> comparator (\<lambda>x y. normalizeSign (cmp x y))"
  by (auto simp: comparator_def simp flip: linorder_not_less)

text \<open>Lexicographic combination: the second decides only where the first says equal.\<close>

definition cmp_then :: "int \<Rightarrow> int \<Rightarrow> int" where
  "cmp_then c d = (if c \<noteq> 0 then c else d)"

lemma comparator_then:
  assumes f: "comparator f" and g: "comparator g"
  shows "comparator (\<lambda>x y. cmp_then (f x y) (g x y))"
proof
  fix x y
  show "cmp_then (f y x) (g y x) < 0 \<longleftrightarrow> 0 < cmp_then (f x y) (g x y)"
    using comparator.cmp_flip [OF f, of y x] comparator.cmp_flip [OF g, of y x]
      comparator.cmp_eq_flip [OF f, of x y]
    by (simp add: cmp_then_def)
next
  fix x y z
  assume "cmp_then (f x y) (g x y) \<le> 0" "cmp_then (f y z) (g y z) \<le> 0"
  then show "cmp_then (f x z) (g x z) \<le> 0"
    using comparator.cmp_less_trans [OF f, of x y z] comparator.cmp_le_less_trans [OF f, of x y z]
      comparator.cmp_less_le_trans [OF f, of x y z] comparator.cmp_eq_trans [OF f, of x y z]
      comparator.cmp_trans [OF g, of x y z]
    by (auto simp: cmp_then_def split: if_splits)
qed

section \<open>Package sort\<close>

text \<open>\<open>sort.SliceStable(xs, lt)\<close>. \<open>sort.Slice\<close> and \<open>sort.Strings\<close> may leave
  elements that neither \<open>less\<close> puts first in any order; where the sources rely on the
  result, \<open>less\<close> separates the elements and the sorted list is unique
  (\<open>go_sort_unique\<close>), so this sort is the one Go computes.\<close>

fun insert_by :: "('a \<Rightarrow> 'a \<Rightarrow> bool) \<Rightarrow> 'a \<Rightarrow> 'a list \<Rightarrow> 'a list" where
  "insert_by lt x [] = [x]"
| "insert_by lt x (y # ys) = (if lt y x then y # insert_by lt x ys else x # y # ys)"

definition go_sort :: "('a \<Rightarrow> 'a \<Rightarrow> bool) \<Rightarrow> 'a list \<Rightarrow> 'a list" where
  "go_sort lt xs = foldr (insert_by lt) xs []"

lemma mset_insert_by [simp]: "mset (insert_by lt x ys) = add_mset x (mset ys)"
  by (induction ys) auto

lemma mset_go_sort [simp]: "mset (go_sort lt xs) = mset xs"
  by (induction xs) (auto simp: go_sort_def)

lemma set_insert_by [simp]: "set (insert_by lt x ys) = insert x (set ys)"
  by (induction ys) auto

lemma set_go_sort [simp]: "set (go_sort lt xs) = set xs"
  by (metis mset_go_sort set_mset_mset)

lemma length_go_sort [simp]: "length (go_sort lt xs) = length xs"
  by (metis mset_go_sort size_mset)

lemma go_sort_Nil [simp]: "go_sort lt [] = []"
  by (simp add: go_sort_def)

lemma go_sort_Cons: "go_sort lt (x # xs) = insert_by lt x (go_sort lt xs)"
  by (simp add: go_sort_def)

lemma go_sort_empty_iff [simp]: "go_sort lt xs = [] \<longleftrightarrow> xs = []"
  by (metis length_0_conv length_go_sort)

lemma distinct_go_sort [simp]: "distinct (go_sort lt xs) \<longleftrightarrow> distinct xs"
  by (metis mset_eq_imp_distinct_iff mset_go_sort)

lemma insert_by_first: "(\<And>y. y \<in> set ys \<Longrightarrow> \<not> lt y x) \<Longrightarrow> insert_by lt x ys = x # ys"
  by (cases ys) simp_all

lemma insert_by_cong:
  "(\<And>y. y \<in> set ys \<Longrightarrow> lt y x = lt' y x) \<Longrightarrow> insert_by lt x ys = insert_by lt' x ys"
  by (induction ys) auto

lemma go_sort_cong:
  "(\<And>x y. x \<in> set xs \<Longrightarrow> y \<in> set xs \<Longrightarrow> lt x y = lt' x y) \<Longrightarrow> go_sort lt xs = go_sort lt' xs"
proof (induction xs)
  case (Cons x xs)
  then show ?case
    using insert_by_cong [of "go_sort lt' xs" lt x lt'] by (simp add: go_sort_Cons)
qed simp

text \<open>A strict weak order on the elements of a set, which is what a \<open>less\<close> function has to
  be for Go's sort to mean anything.\<close>

locale strict_weak =
  fixes lt :: "'a \<Rightarrow> 'a \<Rightarrow> bool"
  assumes less_asym: "lt x y \<Longrightarrow> \<not> lt y x"
    and notless_trans: "\<not> lt y x \<Longrightarrow> \<not> lt z y \<Longrightarrow> \<not> lt z x"
begin

abbreviation le :: "'a \<Rightarrow> 'a \<Rightarrow> bool" where "le x y \<equiv> \<not> lt y x"

lemma less_irrefl: "\<not> lt x x"
  using less_asym by blast

lemma sorted_insert_by: "sorted_wrt le ys \<Longrightarrow> sorted_wrt le (insert_by lt x ys)"
proof (induction ys)
  case (Cons y ys)
  show ?case
  proof (cases "lt y x")
    case True
    with Cons less_asym show ?thesis
      by auto
  next
    case False
    then have "le x z" if "z \<in> set ys" for z
      using Cons.prems that notless_trans [of y x z] by simp
    with False Cons.prems show ?thesis
      by simp
  qed
qed simp

lemma sorted_go_sort: "sorted_wrt le (go_sort lt xs)"
  by (induction xs) (simp_all add: go_sort_Cons sorted_insert_by)

text \<open>Any two sorted arrangements agree where the order separates distinct elements.\<close>

lemma sorted_unique:
  assumes "sorted_wrt le xs" "sorted_wrt le ys" "mset xs = mset ys"
    and sep: "\<And>x y. x \<in> set xs \<Longrightarrow> y \<in> set xs \<Longrightarrow> \<not> lt x y \<Longrightarrow> \<not> lt y x \<Longrightarrow> x = y"
  shows "xs = ys"
  using assms
proof (induction xs arbitrary: ys)
  case (Cons x xs)
  from Cons.prems(3) obtain y ys' where ys: "ys = y # ys'"
    by (cases ys) auto
  have "y \<in> set (x # xs)" "x \<in> set ys"
    using Cons.prems(3) ys by (metis list.set_intros(1) set_mset_mset)+
  then have "le x y" "le y x"
    using Cons.prems(1,2) ys less_irrefl by auto
  then have "x = y"
    using Cons.prems(4) \<open>y \<in> set (x # xs)\<close> by auto
  moreover have "xs = ys'"
    using Cons.prems ys \<open>x = y\<close> by (intro Cons.IH) auto
  ultimately show ?case
    using ys by simp
qed simp

lemma go_sort_unique:
  assumes "mset xs = mset ys"
    and "\<And>x y. x \<in> set xs \<Longrightarrow> y \<in> set xs \<Longrightarrow> \<not> lt x y \<Longrightarrow> \<not> lt y x \<Longrightarrow> x = y"
  shows "go_sort lt xs = go_sort lt ys"
  using assms by (intro sorted_unique) (simp_all add: sorted_go_sort)

lemma go_sort_hd_le: "xs \<noteq> [] \<Longrightarrow> x \<in> set xs \<Longrightarrow> le (hd (go_sort lt xs)) x"
proof -
  assume "xs \<noteq> []" "x \<in> set xs"
  then obtain y ys where ys: "go_sort lt xs = y # ys"
    by (cases "go_sort lt xs") auto
  have "x \<in> set (y # ys)"
    using \<open>x \<in> set xs\<close> by (metis set_go_sort ys)
  then show ?thesis
    using sorted_go_sort [of xs] less_irrefl ys by auto
qed

end

lemma sorted_wrt_le_hd:
  assumes "sorted_wrt P xs" "x \<in> set xs" "x \<noteq> hd xs"
  shows "P (hd xs) x"
  using assms by (cases xs) auto

text \<open>Every comparator is a strict weak order.\<close>

sublocale comparator \<subseteq> cmp: strict_weak "\<lambda>x y. cmp x y < 0"
proof
  fix x y z
  show "cmp x y < 0 \<Longrightarrow> \<not> cmp y x < 0"
    using cmp_flip [of x y] by simp
  assume "\<not> cmp y x < 0" "\<not> cmp z y < 0"
  then show "\<not> cmp z x < 0"
    using cmp_trans [of x y z] cmp_flip [of y x] cmp_flip [of z y] cmp_flip [of z x] by simp
qed

definition sort_strings :: "string list \<Rightarrow> string list" where
  "sort_strings xs = go_sort (<) xs"

interpretation str: strict_weak "(<) :: string \<Rightarrow> string \<Rightarrow> bool"
  by unfold_locales auto

lemma sorted_sort_strings: "sorted (sort_strings xs)"
  using str.sorted_go_sort [of xs] by (simp add: sort_strings_def not_less)

lemma sort_strings_props [simp]:
  "set (sort_strings xs) = set xs" "mset (sort_strings xs) = mset xs"
  "length (sort_strings xs) = length xs" "sort_strings [] = []"
  "distinct (sort_strings xs) \<longleftrightarrow> distinct xs"
  by (simp_all add: sort_strings_def)

lemma sort_strings_cong: "mset xs = mset ys \<Longrightarrow> sort_strings xs = sort_strings ys"
  unfolding sort_strings_def by (rule str.go_sort_unique) auto

lemma set_map_filter: "set (List.map_filter f xs) = {y. \<exists>x \<in> set xs. f x = Some y}"
  by (induction xs) (auto simp: List.map_filter_simps split: option.splits)

section \<open>Maps built in insertion order\<close>

text \<open>A Go map filled in a loop whose keys are then walked in the order they first appeared
  (the sources keep an \<open>order\<close> slice beside such a map): an association list in that order.\<close>

fun upd_assoc :: "'k \<Rightarrow> ('v option \<Rightarrow> 'v) \<Rightarrow> ('k \<times> 'v) list \<Rightarrow> ('k \<times> 'v) list" where
  "upd_assoc k f [] = [(k, f None)]"
| "upd_assoc k f ((k', v) # m) =
     (if k' = k then (k, f (Some v)) # m else (k', v) # upd_assoc k f m)"

lemma map_of_upd_assoc: "map_of (upd_assoc k f m) = (map_of m)(k \<mapsto> f (map_of m k))"
  by (induction m) auto

lemma keys_upd_assoc: "set (map fst (upd_assoc k f m)) = insert k (set (map fst m))"
  by (induction m) (simp_all add: insert_commute split_paired_all del: set_map)

lemma distinct_upd_assoc: "distinct (map fst m) \<Longrightarrow> distinct (map fst (upd_assoc k f m))"
proof (induction m)
  case (Cons p m)
  then show ?case
    using keys_upd_assoc [of k f m] by (cases p) (auto simp del: set_map)
qed simp

lemma map_fst_upd_assoc:
  "map fst (upd_assoc k f m) = (if k \<in> set (map fst m) then map fst m else map fst m @ [k])"
  by (induction m) (auto simp del: set_map)

text \<open>\<open>remdups\<close> that keeps first occurrences: the keys of a set filled in a loop.\<close>

definition first_occurrences :: "'a list \<Rightarrow> 'a list" where
  "first_occurrences xs = rev (remdups (rev xs))"

lemma first_occurrences_props [simp]:
  "set (first_occurrences xs) = set xs" "distinct (first_occurrences xs)"
  by (simp_all add: first_occurrences_def)

section \<open>Scanning\<close>

text \<open>\<open>for i < len(s) && p(s[i]) { i++ }\<close>.\<close>

function scan :: "(char \<Rightarrow> bool) \<Rightarrow> string \<Rightarrow> nat \<Rightarrow> nat" where
  "scan p s i = (if i < length s \<and> p (s ! i) then scan p s (Suc i) else i)"
  by pat_completeness auto
termination
  by (relation "measure (\<lambda>(p, s, i). length s - i)") auto

declare scan.simps [simp del]

text \<open>The slice \<open>s[i:j]\<close>.\<close>

definition slice :: "string \<Rightarrow> nat \<Rightarrow> nat \<Rightarrow> string" where
  "slice s i j = take (j - i) (drop i s)"

lemma scan_spec: "scan p s i = i + length (takeWhile p (drop i s))"
proof (induction p s i rule: scan.induct)
  case (1 p s i)
  show ?case
  proof (cases "i < length s")
    case True
    with 1 show ?thesis
      by (simp add: scan.simps [of p s i] flip: Cons_nth_drop_Suc)
  next
    case False
    then show ?thesis
      by (simp add: scan.simps [of p s i])
  qed
qed

lemma drop_scan: "drop (scan p s i) s = dropWhile p (drop i s)"
  by (simp add: scan_spec dropWhile_eq_drop add.commute)

lemma slice_scan: "slice s i (scan p s i) = takeWhile p (drop i s)"
  by (simp add: slice_def scan_spec takeWhile_eq_take [symmetric])

lemma scan_ge: "i \<le> scan p s i"
  by (simp add: scan_spec)

end
