(* ===== verification/Go_Regex.thy ===== *)
theory Go_Regex
  imports Prelude
begin

text \<open>
  The part of Go's package regexp the sources use: \<open>FindStringSubmatch\<close> and
  \<open>MatchString\<close> with leftmost-first (Perl) semantics. An expression is run from a position
  and yields the list of its matches in the order a backtracking matcher tries them, each with
  its end and its capture groups; the first one is the match Go reports. The expressions of the
  sources never star an expression that matches the empty string, so a star that makes no
  progress contributes no further match.
\<close>

datatype rx =
    RSet "char \<Rightarrow> bool"
  | REmpty
  | RSeq rx rx
  | RAlt rx rx
  | RStar rx
  | RGroup nat rx
  | RBegin
  | RFinish
  | RWordB

type_synonym caps = "(nat \<times> string) list"

definition is_word :: "char \<Rightarrow> bool" where
  "is_word c \<longleftrightarrow> isASCIIDigit c \<or> isASCIILetter c \<or> c = CHR ''_''"

definition word_at :: "string \<Rightarrow> nat \<Rightarrow> bool" where
  "word_at s i \<longleftrightarrow> i < length s \<and> is_word (s ! i)"

definition word_before :: "string \<Rightarrow> nat \<Rightarrow> bool" where
  "word_before s i \<longleftrightarrow> 0 < i \<and> i \<le> length s \<and> is_word (s ! (i - 1))"

function rx_run :: "rx \<Rightarrow> string \<Rightarrow> nat \<Rightarrow> caps \<Rightarrow> (nat \<times> caps) list" where
  "rx_run (RSet p) s i cs = (if i < length s \<and> p (s ! i) then [(Suc i, cs)] else [])"
| "rx_run REmpty s i cs = [(i, cs)]"
| "rx_run (RSeq r q) s i cs = concat (map (\<lambda>(j, cs'). rx_run q s j cs') (rx_run r s i cs))"
| "rx_run (RAlt r q) s i cs = rx_run r s i cs @ rx_run q s i cs"
| "rx_run (RStar r) s i cs =
     concat (map (\<lambda>(j, cs'). if i < j \<and> j \<le> length s then rx_run (RStar r) s j cs' else [])
       (rx_run r s i cs)) @ [(i, cs)]"
| "rx_run (RGroup n r) s i cs = map (\<lambda>(j, cs'). (j, (n, slice s i j) # cs')) (rx_run r s i cs)"
| "rx_run RBegin s i cs = (if i = 0 then [(i, cs)] else [])"
| "rx_run RFinish s i cs = (if length s \<le> i then [(i, cs)] else [])"
| "rx_run RWordB s i cs = (if word_before s i \<noteq> word_at s i then [(i, cs)] else [])"
  by pat_completeness auto
termination
  by (relation "measures [\<lambda>(r, s, i, cs). size r, \<lambda>(r, s, i, cs). length s - i]") auto

declare rx_run.simps(5) [simp del]

text \<open>The submatches of the leftmost match; group 0 is the whole match, a group that took no
  part is the empty string.\<close>

fun rx_find_from :: "rx \<Rightarrow> string \<Rightarrow> nat list \<Rightarrow> (nat \<times> nat \<times> caps) option" where
  "rx_find_from r s [] = None"
| "rx_find_from r s (i # is) =
     (case rx_run r s i [] of [] \<Rightarrow> rx_find_from r s is | (j, cs) # _ \<Rightarrow> Some (i, j, cs))"

definition FindStringSubmatch :: "rx \<Rightarrow> string \<Rightarrow> (nat \<Rightarrow> string) option" where
  "FindStringSubmatch r s =
     (case rx_find_from r s [0..<Suc (length s)] of
        None \<Rightarrow> None
      | Some (i, j, cs) \<Rightarrow>
          Some (\<lambda>n. if n = 0 then slice s i j
                    else case map_of cs n of Some t \<Rightarrow> t | None \<Rightarrow> []))"

definition MatchString :: "rx \<Rightarrow> string \<Rightarrow> bool" where
  "MatchString r s \<longleftrightarrow> rx_find_from r s [0..<Suc (length s)] \<noteq> None"

subsection \<open>Syntax of the expressions\<close>

fun rseq :: "rx list \<Rightarrow> rx" where
  "rseq [] = REmpty"
| "rseq [r] = r"
| "rseq (r # q # rs) = RSeq r (rseq (q # rs))"

fun ralt :: "rx list \<Rightarrow> rx" where
  "ralt [] = RSet (\<lambda>_. False)"
| "ralt [r] = r"
| "ralt (r # q # rs) = RAlt r (ralt (q # rs))"

definition rchr :: "char \<Rightarrow> rx" where "rchr c = RSet (\<lambda>x. x = c)"
definition rlit :: "string \<Rightarrow> rx" where "rlit s = rseq (map rchr s)"
definition rlit_i :: "string \<Rightarrow> rx" where "rlit_i s = rseq (map (\<lambda>c. RSet (\<lambda>x. lower_char x = c)) s)"
definition rdigit :: rx where "rdigit = RSet isASCIIDigit"
definition rdot :: rx where "rdot = RSet (\<lambda>c. byte c \<noteq> 10)"
definition ropt :: "rx \<Rightarrow> rx" where "ropt r = RAlt r REmpty"
definition rplus :: "rx \<Rightarrow> rx" where "rplus r = RSeq r (RStar r)"

text \<open>\<open>r{m,n}\<close>, greedy.\<close>

fun rupto :: "nat \<Rightarrow> rx \<Rightarrow> rx" where
  "rupto 0 r = REmpty"
| "rupto (Suc n) r = ropt (RSeq r (rupto n r))"

definition rrep :: "nat \<Rightarrow> nat \<Rightarrow> rx \<Rightarrow> rx" where
  "rrep m n r = RSeq (rseq (replicate m r)) (rupto (n - m) r)"

definition is_re_space :: "char \<Rightarrow> bool" where
  "is_re_space c \<longleftrightarrow> byte c \<in> {9, 10, 12, 13, 32}"

lemmas rx_defs =
  rchr_def rlit_def rlit_i_def rdigit_def rdot_def ropt_def rplus_def rrep_def

text \<open>Positions only move forward and stay inside the string.\<close>

lemma rx_run_bounds:
  "i \<le> length s \<Longrightarrow> (j, cs') \<in> set (rx_run r s i cs) \<Longrightarrow> i \<le> j \<and> j \<le> length s"
proof (induction r s i cs arbitrary: j cs' rule: rx_run.induct)
  case (3 r q s i cs)
  from 3(4) obtain k cs1 where k: "(k, cs1) \<in> set (rx_run r s i cs)" "(j, cs') \<in> set (rx_run q s k cs1)"
    by auto
  show ?case
    using 3(1) [OF 3(3) k(1)] 3(2) [OF k(1) refl _ k(2)] by simp
next
  case (5 r s i cs)
  from 5(4) [unfolded rx_run.simps(5) [of r s i cs]] consider "j = i"
    | k cs1 where "(k, cs1) \<in> set (rx_run r s i cs)" "i < k" "k \<le> length s"
        "(j, cs') \<in> set (rx_run (RStar r) s k cs1)"
    by (auto split: if_splits)
  then show ?case
  proof cases
    case 1
    then show ?thesis using 5(3) by simp
  next
    case (2 k cs1)
    then show ?thesis
      using 5(2) [OF 2(1) refl _ _ 2(4)] by auto
  qed
qed (auto split: if_splits)

text \<open>An expression anchored at the beginning can only match at position 0.\<close>

lemma rx_find_anchored:
  assumes "0 \<notin> set is"
  shows "rx_find_from (RSeq RBegin r) s is = None"
  using assms by (induction "is") auto

lemma upt_Suc_0: "[0..<Suc n] = 0 # [1..<Suc n]"
  by (simp add: upt_conv_Cons)

lemma FindStringSubmatch_anchored:
  "FindStringSubmatch (RSeq RBegin r) s =
     (case rx_run r s 0 [] of
        [] \<Rightarrow> None
      | (j, cs) # _ \<Rightarrow>
          Some (\<lambda>n. if n = 0 then take j s else case map_of cs n of Some t \<Rightarrow> t | None \<Rightarrow> []))"
  unfolding FindStringSubmatch_def upt_Suc_0
  by (auto simp: rx_find_anchored slice_def simp del: upt_Suc split: list.split)

text \<open>A run of a character set: the star takes the longest prefix first.\<close>

lemma star_set_run:
  "rx_run (RStar (RSet p)) s i cs =
   map (\<lambda>k. (i + k, cs)) (rev [0..<Suc (length (takeWhile p (drop i s)))])"
proof (induction "length s - i" arbitrary: i)
  case 0
  then show ?case by (simp add: rx_run.simps(5) [of "RSet p" s i])
next
  case (Suc n)
  then have i: "i < length s" by simp
  then have d: "drop i s = s ! i # drop (Suc i) s"
    by (simp add: Cons_nth_drop_Suc)
  show ?case
  proof (cases "p (s ! i)")
    case True
    have IH: "rx_run (RStar (RSet p)) s (Suc i) cs =
        map (\<lambda>k. (Suc i + k, cs)) (rev [0..<Suc (length (takeWhile p (drop (Suc i) s)))])"
      using Suc by (intro Suc.hyps(1)) simp
    have "rx_run (RStar (RSet p)) s i cs = rx_run (RStar (RSet p)) s (Suc i) cs @ [(i, cs)]"
      using i True by (subst rx_run.simps(5)) simp
    also have "\<dots> = map (\<lambda>k. (i + k, cs)) (map Suc (rev [0..<Suc (length (takeWhile p (drop (Suc i) s)))])) @
        [(i, cs)]"
      unfolding IH by simp
    also have "\<dots> = map (\<lambda>k. (i + k, cs)) (rev [0..<Suc (length (takeWhile p (drop i s)))])"
      using True unfolding d
      by (simp add: rev_map [symmetric] map_Suc_upt upt_conv_Cons del: upt_Suc)
    finally show ?thesis .
  next
    case False
    then show ?thesis
      using i d by (subst rx_run.simps(5)) simp
  qed
qed

text \<open>What a match consists of: an expression built from sets inside \<open>p\<close> matches only
  characters of \<open>p\<close>, and so does what its groups capture.\<close>

fun rx_only :: "(char \<Rightarrow> bool) \<Rightarrow> rx \<Rightarrow> bool" where
  "rx_only p (RSet q) \<longleftrightarrow> (\<forall>c. q c \<longrightarrow> p c)"
| "rx_only p (RSeq r q) \<longleftrightarrow> rx_only p r \<and> rx_only p q"
| "rx_only p (RAlt r q) \<longleftrightarrow> rx_only p r \<and> rx_only p q"
| "rx_only p (RStar r) \<longleftrightarrow> rx_only p r"
| "rx_only p (RGroup n r) \<longleftrightarrow> rx_only p r"
| "rx_only p _ \<longleftrightarrow> True"

fun groups_only :: "(char \<Rightarrow> bool) \<Rightarrow> rx \<Rightarrow> bool" where
  "groups_only p (RSeq r q) \<longleftrightarrow> groups_only p r \<and> groups_only p q"
| "groups_only p (RAlt r q) \<longleftrightarrow> groups_only p r \<and> groups_only p q"
| "groups_only p (RStar r) \<longleftrightarrow> groups_only p r"
| "groups_only p (RGroup n r) \<longleftrightarrow> rx_only p r \<and> groups_only p r"
| "groups_only p _ \<longleftrightarrow> True"

definition all_between :: "(char \<Rightarrow> bool) \<Rightarrow> string \<Rightarrow> nat \<Rightarrow> nat \<Rightarrow> bool" where
  "all_between p s i j \<longleftrightarrow> (\<forall>k. i \<le> k \<and> k < j \<longrightarrow> p (s ! k))"

lemma all_between_trans: "all_between p s i j \<Longrightarrow> all_between p s j k \<Longrightarrow> all_between p s i k"
  unfolding all_between_def by (meson linorder_not_less)

lemma all_between_refl [simp]: "all_between p s i i"
  by (auto simp: all_between_def)

lemma all_between_slice: "all_between p s i j \<Longrightarrow> j \<le> length s \<Longrightarrow> list_all p (slice s i j)"
  by (auto simp: slice_def all_between_def list_all_length)

lemma rx_only_run:
  "rx_only p r \<Longrightarrow> (j, cs') \<in> set (rx_run r s i cs) \<Longrightarrow> all_between p s i j"
proof (induction r s i cs arbitrary: j cs' rule: rx_run.induct)
  case (1 q s i cs)
  then show ?case
    by (auto simp: all_between_def less_Suc_eq split: if_splits)
next
  case (3 r q s i cs)
  from 3(4) obtain k cs1 where k: "(k, cs1) \<in> set (rx_run r s i cs)" "(j, cs') \<in> set (rx_run q s k cs1)"
    by auto
  have "all_between p s i k" "all_between p s k j"
    using 3(1) [OF _ k(1)] 3(2) [OF k(1) refl _ k(2)] 3(3) by simp_all
  then show ?case
    by (rule all_between_trans)
next
  case (5 r s i cs)
  from 5(4) [unfolded rx_run.simps(5) [of r s i cs]] consider "j = i"
    | k cs1 where "(k, cs1) \<in> set (rx_run r s i cs)" "i < k" "k \<le> length s"
        "(j, cs') \<in> set (rx_run (RStar r) s k cs1)"
    by (auto split: if_splits)
  then show ?case
  proof cases
    case (2 k cs1)
    have "all_between p s i k" "all_between p s k j"
      using 5(1) [OF _ 2(1)] 5(2) [OF 2(1) refl _ _ 2(4)] 2(2,3) 5(3) by simp_all
    then show ?thesis
      by (rule all_between_trans)
  qed simp
qed (auto split: if_splits)

lemma groups_only_run:
  "groups_only p r \<Longrightarrow> i \<le> length s \<Longrightarrow> (\<forall>(n, t) \<in> set cs. list_all p t) \<Longrightarrow> (j, cs') \<in> set (rx_run r s i cs) \<Longrightarrow>
   \<forall>(n, t) \<in> set cs'. list_all p t"
proof (induction r s i cs arbitrary: j cs' rule: rx_run.induct)
  case (3 r q s i cs)
  from 3(6) obtain k cs1 where k: "(k, cs1) \<in> set (rx_run r s i cs)" "(j, cs') \<in> set (rx_run q s k cs1)"
    by auto
  have "k \<le> length s"
    using rx_run_bounds [OF 3(4) k(1)] by simp
  then show ?case
    using 3(1) [OF _ 3(4,5) k(1)] 3(2) [OF k(1) refl _ _ _ k(2)] 3(3) by simp
next
  case (4 r q s i cs)
  from 4(6) consider "(j, cs') \<in> set (rx_run r s i cs)" | "(j, cs') \<in> set (rx_run q s i cs)"
    by auto
  then show ?case
    using 4 by cases simp_all
next
  case (5 r s i cs)
  from 5(6) [unfolded rx_run.simps(5) [of r s i cs]] consider "cs' = cs"
    | k cs1 where "(k, cs1) \<in> set (rx_run r s i cs)" "i < k" "k \<le> length s"
        "(j, cs') \<in> set (rx_run (RStar r) s k cs1)"
    by (auto split: if_splits)
  then show ?case
  proof cases
    case 1
    with 5(5) show ?thesis by simp
  next
    case (2 k cs1)
    then show ?thesis
      using 5(1) [OF _ 5(4,5) 2(1)] 5(2) [OF 2(1) refl _ _ 2(3) _ 2(4)] 5(3) by simp
  qed
next
  case (6 n r s i cs)
  from 6(5) obtain cs1 where m: "(j, cs1) \<in> set (rx_run r s i cs)" "cs' = (n, slice s i j) # cs1"
    by auto
  have "list_all p (slice s i j)"
    using rx_only_run [OF _ m(1)] rx_run_bounds [OF 6(3) m(1)] 6(2) by (simp add: all_between_slice)
  then show ?case
    using 6(1) [OF _ 6(3,4) m(1)] 6(2) m(2) by simp
qed (auto split: if_splits)

lemma rx_only_rep: "rx_only p r \<Longrightarrow> rx_only p (rrep m n r)"
proof -
  assume r: "rx_only p r"
  have "rx_only p (rupto k r)" for k
    using r by (induction k) (simp_all add: ropt_def)
  moreover have "rx_only p (rseq (replicate k r))" for k
    using r by (induction k rule: induct_nat_012) simp_all
  ultimately show ?thesis
    by (simp add: rrep_def)
qed

lemma groups_only_rep: "groups_only p r \<Longrightarrow> groups_only p (rrep m n r)"
proof -
  assume r: "groups_only p r"
  have "groups_only p (rupto k r)" for k
    using r by (induction k) (simp_all add: ropt_def)
  moreover have "groups_only p (rseq (replicate k r))" for k
    using r by (induction k rule: induct_nat_012) simp_all
  ultimately show ?thesis
    by (simp add: rrep_def)
qed

lemma FindStringSubmatch_groups:
  assumes "FindStringSubmatch r s = Some m" "groups_only p r" "0 < n"
  shows "list_all p (m n)"
proof -
  obtain i j cs where f: "rx_find_from r s [0..<Suc (length s)] = Some (i, j, cs)"
    and m: "m n = (case map_of cs n of Some t \<Rightarrow> t | None \<Rightarrow> [])"
    using assms(1,3) by (auto simp: FindStringSubmatch_def simp del: upt_Suc split: option.splits)
  have run: "i \<in> set is \<and> (j, cs) \<in> set (rx_run r s i [])" if "rx_find_from r s is = Some (i, j, cs)" for "is"
    using that by (induction "is") (auto split: list.splits)
  have "\<forall>(n, t) \<in> set cs. list_all p t"
    using run [OF f] groups_only_run [OF assms(2), of i s "[]" j cs] by (auto simp del: upt_Suc)
  then show ?thesis
    using m by (auto dest: map_of_SomeD split: option.splits)
qed

end
