(* ===== verification/Lifecycle_Map.thy ===== *)
theory Lifecycle_Map
  imports Go_Regex
begin

text \<open>
  internal/lifecycle/origin.go and mapping.go: where a package came from (the distribution, a
  third party, unknown) and which product and release cycle of endoflife.date it is. The table
  of rules is translated entry by entry, its regular expressions included.
\<close>

section \<open>Origins (origin.go)\<close>

datatype Origin = OriginDistro | OriginThirdParty | OriginUnknown

definition ManagerDPKG :: string where "ManagerDPKG = ''dpkg''"
definition ManagerRPM :: string where "ManagerRPM = ''rpm''"

definition distroLabels :: "(string \<times> string list) list" where
  "distroLabels =
     [(''debian'', [''debian'']),
      (''ubuntu'', [''ubuntu'', ''ubuntuesm'', ''ubuntuesmapps'']),
      (''raspbian'', [''raspbian'', ''debian'']),
      (''rocky'', [''rocky enterprise software foundation'', ''rocky linux'', ''rocky'']),
      (''almalinux'', [''almalinux'', ''almalinux os foundation'']),
      (''rhel'', [''red hat, inc.'', ''red hat'']),
      (''centos'', [''centos'', ''red hat, inc.'']),
      (''ol'', [''oracle america'', ''oracle'']),
      (''fedora'', [''fedora project'', ''fedora'']),
      (''amzn'', [''amazon linux'', ''amazon.com'', ''amazon'']),
      (''opensuse-leap'', [''suse llc'', ''suse'', ''opensuse'']),
      (''opensuse-tumbleweed'', [''suse llc'', ''suse'', ''opensuse'']),
      (''sles'', [''suse llc'', ''suse''])]"

definition KnownDistro :: "string \<Rightarrow> bool" where
  "KnownDistro distro \<longleftrightarrow> map_of distroLabels (ToLower (TrimSpace distro)) \<noteq> None"

definition OwnLabel :: "string \<Rightarrow> string \<Rightarrow> bool" where
  "OwnLabel distro label0 =
     (let label = ToLower (TrimSpace label0)
      in if label = [] then False
         else case map_of distroLabels (ToLower (TrimSpace distro)) of
                Some ls \<Rightarrow> list_ex (\<lambda>l. label = l) ls
              | None \<Rightarrow> False)"

definition thirdPartyMarkers :: "(rx \<times> string) list" where
  "thirdPartyMarkers =
     [(rlit_i ''sury'', ''Sury''),
      (rlit_i ''nodesource'', ''NodeSource''),
      (rlit_i ''pgdg'', ''PostgreSQL (PGDG)''),
      (rlit_i ''+maria~'', ''MariaDB''),
      (rseq [rlit_i ''.remi'', RGroup 1 (RAlt (rlit ''.'') RFinish)], ''Remi''),
      (rlit_i ''1rl1'', ''Redis''),
      (ralt [RSeq (rlit_i ''+ppa'') rdigit, RSeq (rlit_i ''~ppa'') rdigit,
             rseq [rlit_i ''ppa'', rplus rdigit, rlit ''~'']], ''PPA'')]"

fun marker_label :: "(rx \<times> string) list \<Rightarrow> string \<Rightarrow> string option" where
  "marker_label [] version = None"
| "marker_label ((re, label) # ms) version =
     (if MatchString re version then Some label else marker_label ms version)"

definition ClassifyOrigin ::
  "string \<Rightarrow> string \<Rightarrow> string \<Rightarrow> string \<Rightarrow> string \<Rightarrow> Origin \<times> string" where
  "ClassifyOrigin distro manager version label0 repo =
     (let label = TrimSpace label0
      in if manager = [] \<and> TrimSpace distro = [] then
           (OriginThirdParty, ''installed outside a package manager'')
         else if label \<noteq> [] then
           (if \<not> KnownDistro distro then (OriginUnknown, label)
            else if OwnLabel distro label then (OriginDistro, label)
            else (OriginThirdParty, label))
         else case marker_label thirdPartyMarkers version of
                Some l \<Rightarrow> (OriginThirdParty, l)
              | None \<Rightarrow> (OriginUnknown, []))"

section \<open>The mapping table (mapping.go)\<close>

record Match =
  ma_Product :: string
  ma_Cycles :: "string list"

text \<open>A rule's \<open>fromName\<close> builds the cycle from the capture groups of the name; without one
  the cycle is read from the version, \<open>maxParts\<close> components of it.\<close>

record rule =
  ru_product :: string
  ru_manager :: string
  ru_name :: rx
  ru_fromName :: "((nat \<Rightarrow> string) \<Rightarrow> string) option"
  ru_maxParts :: nat

definition fromGroup :: "(nat \<Rightarrow> string) \<Rightarrow> string" where
  "fromGroup m = m 1"

definition pgCycle :: "(nat \<Rightarrow> string) \<Rightarrow> string" where
  "pgCycle m =
     (let d = m 1
      in if length d = 2 \<and> hd d = CHR ''9'' then ''9.'' @ tl d else d)"

definition joinGroups :: "string \<Rightarrow> (nat \<Rightarrow> string) \<Rightarrow> string" where
  "joinGroups sep m = m 1 @ sep @ m 2"

definition sqlServerCycles :: "(string \<times> string) list" where
  "sqlServerCycles =
     [(''2008'', ''10.0''), (''2008 r2'', ''10.50''), (''2012'', ''11.0''), (''2014'', ''12.0''),
      (''2016'', ''13.0''), (''2017'', ''14.0''), (''2019'', ''15.0''), (''2022'', ''16.0''),
      (''2025'', ''17.0'')]"

abbreviation named :: "string \<Rightarrow> string \<Rightarrow> rx list \<Rightarrow> ((nat \<Rightarrow> string) \<Rightarrow> string) \<Rightarrow> rule" where
  "named p m r f \<equiv> \<lparr>ru_product = p, ru_manager = m, ru_name = RSeq RBegin (rseq r),
     ru_fromName = Some f, ru_maxParts = 0\<rparr>"

abbreviation versioned :: "string \<Rightarrow> string \<Rightarrow> rx list \<Rightarrow> nat \<Rightarrow> rule" where
  "versioned p m r n \<equiv> \<lparr>ru_product = p, ru_manager = m, ru_name = RSeq RBegin (rseq r),
     ru_fromName = None, ru_maxParts = n\<rparr>"

abbreviation (input) "rdotted \<equiv> rseq [rplus rdigit, rlit ''.'', rplus rdigit]"
abbreviation (input) "rtail \<equiv> ropt (RSeq (rlit ''-'') (rplus rdot))"

definition rules :: "rule list" where
  "rules =
     [named ''php'' ManagerDPKG
        [ropt (RAlt (rlit ''libapache2-mod-'') (rlit ''lib'')), rlit ''php'', RGroup 1 rdotted, rtail, RFinish]
        fromGroup,
      named ''php'' ManagerRPM
        [rlit ''php'', RGroup 1 rdigit, RGroup 2 rdigit, rlit ''-php'', rtail, RFinish] (joinGroups ''.''),
      versioned ''php'' ManagerRPM
        [rlit ''php'', ropt (ralt [rlit ''-cli'', rlit ''-fpm'', rlit ''-cgi'', rlit ''-common'']), RFinish] 2,
      versioned ''nodejs'' [] [rlit ''nodejs'', RFinish] 1,
      named ''python'' ManagerDPKG
        [ropt (rlit ''lib''), rlit ''python'', RGroup 1 (RSeq (rlit ''3.'') (rplus rdigit)),
         ropt (RSeq (rlit ''-'') (ralt (map rlit [''minimal'', ''stdlib'', ''venv'', ''dev'', ''dbg'',
           ''full'', ''distutils'', ''lib2to3'', ''tk'', ''gdbm'', ''doc'', ''examples'', ''nopie'']))),
         RFinish] fromGroup,
      named ''python'' ManagerRPM
        [rlit ''python'', RGroup 1 (RSeq (rlit ''3.'') (rplus rdigit)), rtail, RFinish] fromGroup,
      named ''python'' ManagerRPM
        [rlit ''python3'', RGroup 1 (rrep 1 2 rdigit), rtail, RFinish] (\<lambda>m. ''3.'' @ m 1),
      named ''postgresql'' ManagerDPKG
        [rlit ''postgresql-'', RGroup 1 (RSeq (rplus rdigit) (ropt (RSeq (rlit ''.'') (rplus rdigit)))), RFinish]
        fromGroup,
      named ''postgresql'' ManagerRPM
        [rlit ''postgresql'', RGroup 1 (rrep 2 3 rdigit), ropt (rlit ''-server''), RFinish] pgCycle,
      versioned ''mysql'' [] [rlit ''mysql-community-server'', RFinish] 2,
      versioned ''mysql'' [] [rlit ''mysql-server'', RFinish] 2,
      named ''mysql'' ManagerDPKG
        [rlit ''mysql-server'', ropt (rlit ''-core''), rlit ''-'', RGroup 1 rdotted, RFinish] fromGroup,
      versioned ''mariadb'' [] [rlit_i ''mariadb'', rlit ''-server'', RFinish] 2,
      named ''mariadb'' ManagerDPKG
        [rlit ''mariadb-server'', ropt (rlit ''-core''), rlit ''-'', RGroup 1 rdotted, RFinish] fromGroup,
      versioned ''nginx'' [] [rlit ''nginx'', RFinish] 2,
      versioned ''apache-http-server'' ManagerDPKG [rlit ''apache2'', RFinish] 2,
      versioned ''apache-http-server'' ManagerRPM [rlit ''httpd'', RFinish] 2,
      versioned ''redis'' [] [rlit ''redis'', ropt (rlit ''-server''), RFinish] 2,
      versioned ''mongodb'' []
        [rlit ''mongodb-'', ralt (map rlit [''org'', ''org-server'', ''org-mongos'', ''enterprise-server'']), RFinish] 2,
      named ''dotnet'' []
        [ralt (map rlit [''dotnet-sdk'', ''dotnet-runtime'', ''aspnetcore-runtime'', ''dotnet-hostfxr'']),
         rlit ''-'', RGroup 1 rdotted, RFinish] fromGroup,
      named ''eclipse-temurin'' []
        [rlit ''temurin-'', RGroup 1 (rplus rdigit), rlit ''-'', RAlt (rlit ''jdk'') (rlit ''jre''),
         ropt (rlit ''-headless''), RFinish] fromGroup,
      named ''amazon-corretto'' []
        [rlit ''java-'', RGroup 1 (rplus rdigit), rlit ''-amazon-corretto'', rtail, RFinish] fromGroup,
      named ''amazon-corretto'' []
        [rlit ''amazon-corretto-'', RGroup 1 (rplus rdigit), rtail, RFinish] fromGroup,
      named ''microsoft-build-of-openjdk'' []
        [rlit ''msopenjdk-'', RGroup 1 (rplus rdigit), RFinish] fromGroup,
      named ''dotnet'' ''none''
        [rlit ''Microsoft '',
         ralt [RSeq (rlit ''.NET '') (ralt [rlit ''Runtime'', rlit ''SDK'', rlit ''Host FX Resolver'',
                 rlit ''Windows Desktop Runtime'',
                 rseq [rlit ''AspNetCore'', RStar (RSet (\<lambda>c. c \<noteq> CHR ''-'')), rlit ''Runtime'']]),
               rlit ''Windows Desktop Runtime'', rlit ''ASP.NET Core''],
         rlit '' '', ropt (rlit ''-''), ropt (rlit '' ''), RGroup 1 rdotted, rlit ''.'', rplus rdigit] fromGroup,
      named ''mssqlserver'' ''none''
        [rlit ''Microsoft SQL Server '',
         RGroup 1 (RAlt (rlit ''2008 R2'') (rseq [rlit ''20'', rdigit, rdigit])), RWordB]
        (\<lambda>m. case map_of sqlServerCycles (ToLower (m 1)) of Some c \<Rightarrow> c | None \<Rightarrow> []),
      named ''eclipse-temurin'' ''none''
        [rlit ''Eclipse Temurin JDK with Hotspot '', RGroup 1 (rplus rdigit), rlit ''.''] fromGroup]"

definition Products :: "string list" where
  "Products = sort_strings (first_occurrences (map ru_product rules))"

definition OSProducts :: "string list" where
  "OSProducts = [''windows'', ''windows-server'']"

definition FeedProducts :: "string list" where
  "FeedProducts = Products @ OSProducts"

definition managerKey :: "string \<Rightarrow> string" where
  "managerKey manager = (if manager = [] then ''none'' else manager)"

definition leadingVersion :: rx where
  "leadingVersion =
     RSeq RBegin (RGroup 1 (RSeq (rplus rdigit) (RStar (RSeq (rlit ''.'') (rplus rdigit)))))"

definition upstreamVersion :: "string \<Rightarrow> string" where
  "upstreamVersion v0 =
     (let v1 = TrimSpace v0;
          v = (case IndexByte v1 CHR '':'' of
                 Some i \<Rightarrow> if 0 < i \<and> isDigits (take i v1) then drop (Suc i) v1 else v1
               | None \<Rightarrow> v1)
      in case FindStringSubmatch leadingVersion v of Some m \<Rightarrow> m 1 | None \<Rightarrow> [])"

definition cycleCandidates :: "string \<Rightarrow> nat \<Rightarrow> string list" where
  "cycleCandidates base maxParts =
     (let parts0 = Split base CHR ''.'';
          parts = (if 0 < maxParts \<and> maxParts < length parts0 then take maxParts parts0 else parts0)
      in map (\<lambda>n. Join (take n parts) ''.'') (rev [1..<Suc (length parts)]))"

definition try_rule :: "string \<Rightarrow> string \<Rightarrow> string \<Rightarrow> rule \<Rightarrow> Match option" where
  "try_rule key name version r =
     (if ru_manager r \<noteq> [] \<and> ru_manager r \<noteq> key then None
      else if ru_manager r = [] \<and> key = ''none'' then None
      else case FindStringSubmatch (ru_name r) name of
             None \<Rightarrow> None
           | Some m \<Rightarrow>
               let (base, parts) =
                     (case ru_fromName r of
                        Some f \<Rightarrow> (f m, 0)
                      | None \<Rightarrow> (upstreamVersion version, ru_maxParts r))
               in if base = [] then None
                  else let cycles = cycleCandidates base parts
                       in if cycles = [] then None
                          else Some \<lparr>ma_Product = ru_product r, ma_Cycles = cycles\<rparr>)"

fun first_rule :: "rule list \<Rightarrow> string \<Rightarrow> string \<Rightarrow> string \<Rightarrow> Match option" where
  "first_rule [] key name version = None"
| "first_rule (r # rs) key name version =
     (case try_rule key name version r of
        Some m \<Rightarrow> Some m
      | None \<Rightarrow> first_rule rs key name version)"

definition Map :: "string \<Rightarrow> string \<Rightarrow> string \<Rightarrow> Match option" where
  "Map manager name version = first_rule rules (managerKey manager) name version"

end
