(* ===== verification/Go_Time.thy ===== *)
theory Go_Time
  imports Prelude
begin

text \<open>
  The part of Go's package time the sources use. A \<open>time.Time\<close> in UTC is a number of
  nanoseconds since 1970-01-01T00:00:00Z, a \<open>time.Duration\<close> a number of nanoseconds. The
  calendar date of a time is computed in the proleptic Gregorian calendar, with years counted
  from March so that a leap day ends the year. Formats are for the years 0 to 9999.
\<close>

type_synonym time = int
type_synonym duration = int

definition Nanosecond :: duration where "Nanosecond = 1"
definition Second :: duration where "Second = 1000000000"
definition Minute :: duration where "Minute = 60 * Second"
definition Hour :: duration where "Hour = 60 * Minute"
definition Day :: duration where "Day = 24 * Hour"

lemmas duration_defs = Nanosecond_def Second_def Minute_def Hour_def Day_def

definition Before :: "time \<Rightarrow> time \<Rightarrow> bool" where "Before t u \<longleftrightarrow> t < u"
definition After :: "time \<Rightarrow> time \<Rightarrow> bool" where "After t u \<longleftrightarrow> u < t"
definition Sub :: "time \<Rightarrow> time \<Rightarrow> duration" where "Sub t u = t - u"

text \<open>Days since the epoch, and the date of a day.\<close>

definition day_number :: "time \<Rightarrow> int" where
  "day_number t = t div Day"

definition civil :: "int \<Rightarrow> int \<times> int \<times> int" where
  "civil days =
     (let z = days + 719468;
          era = z div 146097;
          doe = z mod 146097;
          yoe = (doe - doe div 1460 + doe div 36524 - doe div 146096) div 365;
          doy = doe - (365 * yoe + yoe div 4 - yoe div 100);
          mp = (5 * doy + 2) div 153;
          d = doy - (153 * mp + 2) div 5 + 1;
          m = (if mp < 10 then mp + 3 else mp - 9);
          y = yoe + era * 400 + (if m \<le> 2 then 1 else 0)
      in (y, m, d))"

fun pad :: "nat \<Rightarrow> string \<Rightarrow> string" where
  "pad n s = replicate (n - length s) (CHR ''0'') @ s"

definition FormatDate :: "time \<Rightarrow> string" where
  "FormatDate t =
     (case civil (day_number t) of (y, m, d) \<Rightarrow>
        pad 4 (Itoa y) @ ''-'' @ pad 2 (Itoa m) @ ''-'' @ pad 2 (Itoa d))"

definition clock :: "time \<Rightarrow> string" where
  "clock t =
     (let s = (t mod Day) div Second
      in pad 2 (Itoa (s div 3600)) @ '':'' @ pad 2 (Itoa ((s mod 3600) div 60)) @ '':'' @ pad 2 (Itoa (s mod 60)))"

definition FormatRFC3339 :: "time \<Rightarrow> string" where
  "FormatRFC3339 t = FormatDate t @ ''T'' @ clock t @ ''Z''"

text \<open>\<open>time.RFC3339Nano\<close>: the fraction without its trailing zeros, none if it is zero.\<close>

definition fraction :: "time \<Rightarrow> string" where
  "fraction t =
     (let n = t mod Second
      in if n = 0 then [] else CHR ''.'' # rev (dropWhile (\<lambda>c. c = CHR ''0'') (rev (pad 9 (Itoa n)))))"

definition FormatRFC3339Nano :: "time \<Rightarrow> string" where
  "FormatRFC3339Nano t = FormatDate t @ ''T'' @ clock t @ fraction t @ ''Z''"

text \<open>\<open>t.Truncate(24 * time.Hour)\<close> in UTC.\<close>

definition TruncateDay :: "time \<Rightarrow> time" where
  "TruncateDay t = day_number t * Day"

lemma TruncateDay_less_iff: "TruncateDay t < TruncateDay u \<longleftrightarrow> day_number t < day_number u"
  by (simp add: TruncateDay_def duration_defs)

text \<open>Integer division as Go does it, towards zero.\<close>

definition go_div :: "int \<Rightarrow> int \<Rightarrow> int" where
  "go_div a b = (if (0 \<le> a) = (0 < b) then \<bar>a\<bar> div \<bar>b\<bar> else - (\<bar>a\<bar> div \<bar>b\<bar>))"

end
