(* ===== verification/Dpkg_Version.thy ===== *)
theory Dpkg_Version
  imports Prelude
begin

text \<open>
  internal/vuln/dpkg.go: Debian version comparison. The loops of \<open>dpkgVerRevCmp\<close> are
  translated index by index, with \<open>byteAt\<close> reading NUL past the end. The outer loop makes
  no progress on a NUL byte inside a string, so it is a partial function: \<open>None\<close> is "does
  not return". On strings without NUL it returns, and its sign is the comparison of two keys
  (\<open>dkey\<close>), lists of integers compared lexicographically with zeros after the end; the
  order laws of Debian versions follow from that.
\<close>

section \<open>The code\<close>

abbreviation NUL :: char where "NUL \<equiv> CHR 0x00"

definition dpkgOrder :: "char \<Rightarrow> int" where
  "dpkgOrder c =
     (if isASCIIDigit c then 0
      else if isASCIILetter c then int (byte c)
      else if c = CHR ''~'' then - 1
      else if c = NUL then 0
      else int (byte c) + 256)"

definition byteAt :: "string \<Rightarrow> nat \<Rightarrow> char" where
  "byteAt s i = (if i < length s then s ! i else NUL)"

definition in_nondigit :: "string \<Rightarrow> nat \<Rightarrow> bool" where
  "in_nondigit s i \<longleftrightarrow> byteAt s i \<noteq> NUL \<and> \<not> isASCIIDigit (byteAt s i)"

text \<open>The first inner loop: the non-digit runs, bytewise; \<open>Inl\<close> is the early return.\<close>

function nondigit_run :: "string \<Rightarrow> string \<Rightarrow> nat \<Rightarrow> nat \<Rightarrow> int + nat \<times> nat" where
  "nondigit_run a b i j =
     (if in_nondigit a i \<or> in_nondigit b j then
        (let ac = dpkgOrder (byteAt a i); bc = dpkgOrder (byteAt b j)
         in if ac \<noteq> bc then Inl (ac - bc) else nondigit_run a b (Suc i) (Suc j))
      else Inr (i, j))"
  by pat_completeness auto
termination
  by (relation "measure (\<lambda>(a, b, i, j). (length a - i) + (length b - j))")
    (auto simp: in_nondigit_def byteAt_def split: if_splits)

function skip_zeros :: "string \<Rightarrow> nat \<Rightarrow> nat" where
  "skip_zeros s i = (if byteAt s i = CHR ''0'' then skip_zeros s (Suc i) else i)"
  by pat_completeness auto
termination
  by (relation "measure (\<lambda>(s, i). length s - i)") (auto simp: byteAt_def split: if_splits)

function digit_run :: "string \<Rightarrow> string \<Rightarrow> nat \<Rightarrow> nat \<Rightarrow> int \<Rightarrow> nat \<times> nat \<times> int" where
  "digit_run a b i j firstDiff =
     (if isASCIIDigit (byteAt a i) \<and> isASCIIDigit (byteAt b j) then
        digit_run a b (Suc i) (Suc j)
          (if firstDiff = 0 then int (byte (byteAt a i)) - int (byte (byteAt b j)) else firstDiff)
      else (i, j, firstDiff))"
  by pat_completeness auto
termination
  by (relation "measure (\<lambda>(a, b, i, j, d). length a - i)")
    (auto simp: byteAt_def isASCIIDigit_def split: if_splits)

declare nondigit_run.simps [simp del] skip_zeros.simps [simp del] digit_run.simps [simp del]

partial_function (option) dpkg_loop :: "string \<Rightarrow> string \<Rightarrow> nat \<Rightarrow> nat \<Rightarrow> int option" where
  "dpkg_loop a b i j =
     (if i < length a \<or> j < length b then
        (case nondigit_run a b i j of
           Inl d \<Rightarrow> Some d
         | Inr (i1, j1) \<Rightarrow>
             (case digit_run a b (skip_zeros a i1) (skip_zeros b j1) 0 of (i2, j2, firstDiff) \<Rightarrow>
                if isASCIIDigit (byteAt a i2) then Some 1
                else if isASCIIDigit (byteAt b j2) then Some (- 1)
                else if firstDiff \<noteq> 0 then Some firstDiff
                else dpkg_loop a b i2 j2))
      else Some 0)"

definition dpkgVerRevCmp :: "string \<Rightarrow> string \<Rightarrow> int option" where
  "dpkgVerRevCmp a b = dpkg_loop a b 0 0"

record DpkgVersion =
  dv_Epoch :: int
  dv_Upstream :: string
  dv_Revision :: string

definition HasRevision :: "DpkgVersion \<Rightarrow> bool" where
  "HasRevision v \<longleftrightarrow> dv_Revision v \<noteq> []"

text \<open>The epoch prefix that \<open>ParseDpkg\<close> and \<open>ParseRPM\<close> strip: digits before the first
  colon, which is not the first byte.\<close>

definition split_epoch :: "string \<Rightarrow> int \<times> string" where
  "split_epoch s =
     (case IndexByte s CHR '':'' of
        None \<Rightarrow> (0, s)
      | Some i \<Rightarrow>
          if 0 < i then
            (case Atoi (take i s) of
               Some n \<Rightarrow> if 0 \<le> n then (n, drop (Suc i) s) else (0, s)
             | None \<Rightarrow> (0, s))
          else (0, s))"

definition ParseDpkg :: "string \<Rightarrow> DpkgVersion" where
  "ParseDpkg raw =
     (let (epoch, s) = split_epoch (TrimSpace raw)
      in case LastIndexByte s CHR ''-'' of
           Some i \<Rightarrow> \<lparr>dv_Epoch = epoch, dv_Upstream = take i s, dv_Revision = drop (Suc i) s\<rparr>
         | None \<Rightarrow> \<lparr>dv_Epoch = epoch, dv_Upstream = s, dv_Revision = []\<rparr>)"

definition CompareDpkg :: "string \<Rightarrow> string \<Rightarrow> int option" where
  "CompareDpkg a b =
     (let va = ParseDpkg a; vb = ParseDpkg b
      in if dv_Epoch va \<noteq> dv_Epoch vb then (if dv_Epoch va < dv_Epoch vb then Some (- 1) else Some 1)
         else case dpkgVerRevCmp (dv_Upstream va) (dv_Upstream vb) of
                None \<Rightarrow> None
              | Some c \<Rightarrow>
                  if c \<noteq> 0 then Some (normalizeSign c)
                  else map_option normalizeSign (dpkgVerRevCmp (dv_Revision va) (dv_Revision vb)))"

section \<open>The reference: a key per component\<close>

text \<open>Lexicographic comparison of integer lists, zeros standing after the end.\<close>

fun padcmp :: "int list \<Rightarrow> int list \<Rightarrow> int" where
  "padcmp [] [] = 0"
| "padcmp (x # xs) [] = cmp_then (cmp_lin x 0) (padcmp xs [])"
| "padcmp [] (y # ys) = cmp_then (cmp_lin 0 y) (padcmp [] ys)"
| "padcmp (x # xs) (y # ys) = cmp_then (cmp_lin x y) (padcmp xs ys)"

text \<open>A component is read as runs: the orders of its non-digits, a zero that ends the run
  (digits and the end order as zero), the value of the digit run, and so on.\<close>

function dkey :: "string \<Rightarrow> int list" where
  "dkey s =
     (if s = [] then []
      else (let nd = takeWhile (\<lambda>c. \<not> isASCIIDigit c) s;
                r = dropWhile (\<lambda>c. \<not> isASCIIDigit c) s;
                ds = takeWhile isASCIIDigit r
            in map dpkgOrder nd @ 0 # int (digits_val ds) # dkey (dropWhile isASCIIDigit r)))"
  by pat_completeness auto
termination
proof (relation "measure length", goal_cases)
  case (2 s nd r ds)
  have "length (dropWhile isASCIIDigit r) \<le> length r" "length r \<le> length s"
    using 2 by (simp_all add: length_dropWhile_le)
  moreover have "length (dropWhile isASCIIDigit r) < length s"
  proof (cases r)
    case Nil
    with 2 show ?thesis by simp
  next
    case (Cons c r')
    then have "isASCIIDigit c"
      using 2 by (metis dropWhile_eq_Cons_conv)
    with Cons show ?thesis
      using \<open>length r \<le> length s\<close> length_dropWhile_le [of isASCIIDigit r'] by simp
  qed
  ultimately show ?case by simp
qed simp

declare dkey.simps [simp del]

definition dpkg_ref :: "string \<Rightarrow> string \<Rightarrow> int" where
  "dpkg_ref a b = padcmp (dkey a) (dkey b)"

definition nul_free :: "string \<Rightarrow> bool" where
  "nul_free s \<longleftrightarrow> NUL \<notin> set s"

section \<open>The key comparison is a total preorder\<close>

definition hd0 :: "int list \<Rightarrow> int" where
  "hd0 xs = (case xs of [] \<Rightarrow> 0 | x # _ \<Rightarrow> x)"

lemma padcmp_step: "padcmp xs ys = cmp_then (cmp_lin (hd0 xs) (hd0 ys)) (padcmp (tl xs) (tl ys))"
  by (cases xs; cases ys) (auto simp: hd0_def cmp_then_def)

lemma padcmp_flip: "padcmp ys xs = - padcmp xs ys"
proof (induction xs ys rule: padcmp.induct)
  case (2 x xs) then show ?case using cmp_lin_flip [of 0 x] by (auto simp: cmp_then_def)
next
  case (3 y ys) then show ?case using cmp_lin_flip [of y 0] by (auto simp: cmp_then_def)
next
  case (4 x xs y ys) then show ?case using cmp_lin_flip [of y x] by (auto simp: cmp_then_def)
qed simp

lemma padcmp_trans: "padcmp xs ys \<le> 0 \<Longrightarrow> padcmp ys zs \<le> 0 \<Longrightarrow> padcmp xs zs \<le> 0"
proof (induction "length xs + length ys + length zs" arbitrary: xs ys zs rule: less_induct)
  case less
  show ?case
  proof (cases "xs = [] \<and> ys = [] \<and> zs = []")
    case False
    then have "length (tl xs) + length (tl ys) + length (tl zs) < length xs + length ys + length zs"
      by (cases xs; cases ys; cases zs) auto
    then have IH: "padcmp (tl xs) (tl ys) \<le> 0 \<Longrightarrow> padcmp (tl ys) (tl zs) \<le> 0 \<Longrightarrow>
        padcmp (tl xs) (tl zs) \<le> 0"
      using less.hyps by blast
    show ?thesis
      using less.prems IH unfolding padcmp_step [of xs] padcmp_step [of ys zs]
      by (auto simp: cmp_then_def cmp_lin_def split: if_splits)
  qed simp
qed

interpretation pad: comparator padcmp
proof
  show "padcmp y x < 0 \<longleftrightarrow> 0 < padcmp x y" for x y
    using padcmp_flip [of y x] by simp
qed (rule padcmp_trans)

lemma padcmp_range: "padcmp xs ys \<in> {- 1, 0, 1}"
  by (induction xs ys rule: padcmp.induct) (auto simp: cmp_then_def cmp_lin_def)

lemma normalizeSign_padcmp [simp]: "normalizeSign (padcmp xs ys) = padcmp xs ys"
  using padcmp_range [of xs ys] by auto

interpretation dref: comparator dpkg_ref
  unfolding dpkg_ref_def by (rule comparator_key) (rule pad.comparator_axioms)

section \<open>The loops compute the key comparison\<close>

text \<open>The key of a suffix, with the zeros of an ended string written out.\<close>

definition dk :: "string \<Rightarrow> int list" where
  "dk s = (if s = [] then [0, 0] else dkey s)"

lemma padcmp_dk: "padcmp (dk s) (dk t) = padcmp (dkey s) (dkey t)"
proof -
  have z: "padcmp [0, 0] xs = padcmp [] xs" "padcmp xs [0, 0] = padcmp xs []" for xs
    by (cases xs rule: list.exhaust; case_tac "tl xs"; auto simp: cmp_then_def cmp_lin_def)+
  have "dkey [] = []"
    by (simp add: dkey.simps)
  then show ?thesis
    by (auto simp: dk_def z cmp_then_def cmp_lin_def)
qed

lemma dk_nondigit: "\<not> isASCIIDigit c \<Longrightarrow> dk (c # s) = dpkgOrder c # dk s"
  using dkey.simps [of "c # s"] dkey.simps [of s] by (cases "s = []") (simp_all add: dk_def Let_def dkey.simps [of "[]"])

lemma dk_number:
  assumes "s = [] \<or> isASCIIDigit (hd s)"
  shows "dk s = 0 # int (digits_val (takeWhile isASCIIDigit s)) # dkey (dropWhile isASCIIDigit s)"
  using assms by (cases s) (simp_all add: dk_def dkey.simps [of "[]"] dkey.simps [of "_ # _"])

lemma nul_free_byteAt: "nul_free s \<Longrightarrow> byteAt s i = NUL \<longleftrightarrow> length s \<le> i"
  by (auto simp: nul_free_def byteAt_def not_less dest: nth_mem)

lemma drop_byteAt: "i < length s \<Longrightarrow> drop i s = byteAt s i # drop (Suc i) s"
  by (simp add: byteAt_def Cons_nth_drop_Suc)

lemma dpkgOrder_zero: "dpkgOrder c = 0 \<longleftrightarrow> isASCIIDigit c \<or> c = NUL"
  by (auto simp: dpkgOrder_def isASCIILetter_def)

lemma in_nondigit_order:
  "in_nondigit s i \<longleftrightarrow> dpkgOrder (byteAt s i) \<noteq> 0"
  by (auto simp: in_nondigit_def dpkgOrder_zero)

lemma in_nondigit_drop:
  "in_nondigit s i \<Longrightarrow> dk (drop i s) = dpkgOrder (byteAt s i) # dk (drop (Suc i) s)"
  using drop_byteAt [of i s] dk_nondigit [of "byteAt s i"]
  by (cases "i < length s") (auto simp: in_nondigit_def byteAt_def)

lemma at_number_drop:
  assumes "nul_free s" "\<not> in_nondigit s i"
  shows "drop i s = [] \<or> isASCIIDigit (hd (drop i s))"
  using assms nul_free_byteAt [of s i] drop_byteAt [of i s]
  by (cases "i < length s") (auto simp: in_nondigit_def)

lemma hd_dk_number: "s = [] \<or> isASCIIDigit (hd s) \<Longrightarrow> hd0 (dk s) = 0"
  by (simp add: dk_number hd0_def)

lemma nondigit_run_spec:
  assumes "nul_free a" "nul_free b"
  shows "case nondigit_run a b i j of
      Inl d \<Rightarrow> normalizeSign d = padcmp (dk (drop i a)) (dk (drop j b))
    | Inr (i', j') \<Rightarrow> padcmp (dk (drop i a)) (dk (drop j b)) = padcmp (dk (drop i' a)) (dk (drop j' b))
        \<and> \<not> in_nondigit a i' \<and> \<not> in_nondigit b j' \<and> i \<le> i' \<and> j \<le> j'"
  using assms
proof (induction a b i j rule: nondigit_run.induct)
  case (1 a b i j)
  let ?ac = "dpkgOrder (byteAt a i)" and ?bc = "dpkgOrder (byteAt b j)"
  have hd: "hd0 (dk (drop k s)) = dpkgOrder (byteAt s k)" if "nul_free s" for s k
    using that in_nondigit_drop [of s k] at_number_drop [of s k] hd_dk_number [of "drop k s"]
      in_nondigit_order [of s k]
    by (cases "in_nondigit s k") (auto simp: hd0_def)
  consider (stop) "\<not> (in_nondigit a i \<or> in_nondigit b j)"
    | (diff) "in_nondigit a i \<or> in_nondigit b j" "?ac \<noteq> ?bc"
    | (same) "in_nondigit a i" "in_nondigit b j" "?ac = ?bc"
    using in_nondigit_order by metis
  then show ?case
  proof cases
    case stop
    then show ?thesis
      by (simp add: nondigit_run.simps [of a b i j])
  next
    case diff
    have "padcmp (dk (drop i a)) (dk (drop j b)) = cmp_lin ?ac ?bc"
      unfolding padcmp_step [of "dk _"] hd [OF 1(2)] hd [OF 1(3)] using diff(2)
      by (simp add: cmp_then_def)
    with diff show ?thesis
      by (simp add: nondigit_run.simps [of a b i j] normalizeSign_def cmp_lin_def)
  next
    case same
    then have "padcmp (dk (drop i a)) (dk (drop j b)) =
        padcmp (dk (drop (Suc i) a)) (dk (drop (Suc j) b))"
      by (simp add: in_nondigit_drop cmp_then_def cmp_lin_def)
    with same 1(1) [OF _ refl refl] 1(2,3) show ?thesis
      by (simp add: nondigit_run.simps [of a b i j] Suc_le_eq less_imp_le split: sum.splits prod.splits)
  qed
qed

lemma skip_zeros_spec:
  "drop (skip_zeros s i) s = dropWhile (\<lambda>c. c = CHR ''0'') (drop i s) \<and> i \<le> skip_zeros s i"
proof (induction s i rule: skip_zeros.induct)
  case (1 s i)
  show ?case
  proof (cases "byteAt s i = CHR ''0''")
    case True
    then have "i < length s"
      by (auto simp: byteAt_def split: if_splits)
    with True 1 show ?thesis
      by (simp add: skip_zeros.simps [of s i] drop_byteAt)
  next
    case False
    then show ?thesis
      by (cases "i < length s") (simp_all add: skip_zeros.simps [of s i] drop_byteAt)
  qed
qed

fun first_diff :: "string \<Rightarrow> string \<Rightarrow> int" where
  "first_diff (x # xs) (y # ys) =
     (if x = y then first_diff xs ys else int (byte x) - int (byte y))"
| "first_diff _ _ = 0"

abbreviation "digits_at s i \<equiv> takeWhile isASCIIDigit (drop i s)"

lemma digits_at_Cons: "isASCIIDigit (byteAt s i) \<Longrightarrow> digits_at s i = byteAt s i # digits_at s (Suc i)"
  by (cases "i < length s") (auto simp: drop_byteAt byteAt_def isASCIIDigit_def)

lemma digits_at_Nil: "\<not> isASCIIDigit (byteAt s i) \<Longrightarrow> digits_at s i = []"
  by (cases "i < length s") (auto simp: drop_byteAt)

lemma digit_run_spec:
  "digit_run a b i j fd =
     (i + min (length (digits_at a i)) (length (digits_at b j)),
      j + min (length (digits_at a i)) (length (digits_at b j)),
      if fd \<noteq> 0 then fd else first_diff (digits_at a i) (digits_at b j))"
proof (induction a b i j fd rule: digit_run.induct)
  case (1 a b i j fd)
  show ?case
  proof (cases "isASCIIDigit (byteAt a i) \<and> isASCIIDigit (byteAt b j)")
    case True
    with 1 show ?thesis
      by (simp add: digit_run.simps [of a b i j fd] digits_at_Cons)
  next
    case False
    then have "digits_at a i = [] \<or> digits_at b j = []"
      using digits_at_Nil by blast
    moreover have "first_diff (digits_at a i) (digits_at b j) = 0"
      using calculation by (cases "digits_at a i"; cases "digits_at b j") auto
    ultimately show ?thesis
      using False by (auto simp: digit_run.simps [of a b i j fd])
  qed
qed

lemma first_diff_zero: "length xs = length ys \<Longrightarrow> first_diff xs ys = 0 \<longleftrightarrow> xs = ys"
  by (induction xs ys rule: list_induct2) auto

lemma first_diff_sign:
  "length xs = length ys \<Longrightarrow> normalizeSign (first_diff xs ys) = cmp_lin xs ys"
proof (induction xs ys rule: list_induct2)
  case (Cons x xs y ys)
  then show ?case
    by (cases "x = y") (auto simp: cmp_lin_def normalizeSign_def less_char_def)
qed (simp add: cmp_lin_def)

lemma byteAt_after_digits:
  "n \<le> length (digits_at s i) \<Longrightarrow>
   isASCIIDigit (byteAt s (i + n)) \<longleftrightarrow> n < length (digits_at s i)"
proof (induction n arbitrary: i)
  case 0
  then show ?case
    using digits_at_Cons [of s i] digits_at_Nil [of s i] by auto
next
  case (Suc n)
  then have "isASCIIDigit (byteAt s i)"
    using digits_at_Nil by fastforce
  with Suc.prems Suc.IH [of "Suc i"] show ?case
    by (simp add: digits_at_Cons)
qed

lemma dropWhile_digits_strip:
  "dropWhile isASCIIDigit (dropWhile (\<lambda>c. c = CHR ''0'') s) = dropWhile isASCIIDigit s"
  by (induction s) (auto simp: isASCIIDigit_def)

lemma takeWhile_digits_strip:
  "takeWhile isASCIIDigit (dropWhile (\<lambda>c. c = CHR ''0'') s) =
   dropWhile (\<lambda>c. c = CHR ''0'') (takeWhile isASCIIDigit s)"
  by (induction s) (auto simp: isASCIIDigit_def)

lemma after_number:
  "drop (skip_zeros s i + length (digits_at s (skip_zeros s i))) s =
   dropWhile isASCIIDigit (drop i s)"
proof -
  have "drop (skip_zeros s i + length (digits_at s (skip_zeros s i))) s =
      drop (length (digits_at s (skip_zeros s i))) (drop (skip_zeros s i) s)"
    by (simp add: add.commute)
  also have "\<dots> = dropWhile isASCIIDigit (drop (skip_zeros s i) s)"
    by (simp add: dropWhile_eq_drop)
  finally show ?thesis
    by (simp add: skip_zeros_spec dropWhile_digits_strip)
qed

lemma number_compare_diff:
  assumes "da = dropWhile (\<lambda>c. c = CHR ''0'') xs" "db = dropWhile (\<lambda>c. c = CHR ''0'') ys"
    and "list_all isASCIIDigit da" "list_all isASCIIDigit db"
  shows "cmp_lin (digits_val xs) (digits_val ys) =
    (if length db < length da then 1 else if length da < length db then - 1
     else normalizeSign (first_diff da db))"
  using number_compare [OF assms] first_diff_sign [of da db] by auto

lemma dk_number_cmp:
  assumes "s = [] \<or> isASCIIDigit (hd s)" "t = [] \<or> isASCIIDigit (hd t)"
  shows "padcmp (dk s) (dk t) =
    cmp_then (cmp_lin (digits_val (takeWhile isASCIIDigit s)) (digits_val (takeWhile isASCIIDigit t)))
      (padcmp (dkey (dropWhile isASCIIDigit s)) (dkey (dropWhile isASCIIDigit t)))"
  using assms by (simp add: dk_number cmp_then_def cmp_lin_int)

lemma dpkg_loop_ref:
  assumes "nul_free a" "nul_free b"
  shows "\<exists>c. dpkg_loop a b i j = Some c \<and> normalizeSign c = padcmp (dkey (drop i a)) (dkey (drop j b))"
proof (induction "(length a - i) + (length b - j)" arbitrary: i j rule: less_induct)
  case less
  show ?case
  proof (cases "i < length a \<or> j < length b")
    case False
    then show ?thesis
      by (simp add: dpkg_loop.simps dkey.simps)
  next
    case True
    note spec = nondigit_run_spec [OF assms, of i j]
    show ?thesis
    proof (cases "nondigit_run a b i j")
      case (Inl d)
      with spec True show ?thesis
        by (simp add: dpkg_loop.simps [of a b i j] padcmp_dk)
    next
      case (Inr p)
      obtain i1 j1 where ij: "nondigit_run a b i j = Inr (i1, j1)"
        using Inr by (cases p) auto
      let ?s = "drop i1 a" and ?t = "drop j1 b"
      define i2 j2 where "i2 = skip_zeros a i1" and "j2 = skip_zeros b j1"
      define da db where "da = digits_at a i2" and "db = digits_at b j2"
      have spec': "padcmp (dkey (drop i a)) (dkey (drop j b)) = padcmp (dk ?s) (dk ?t)"
        "\<not> in_nondigit a i1" "\<not> in_nondigit b j1" "i \<le> i1" "j \<le> j1"
        using spec ij by (simp_all add: padcmp_dk)
      have start: "?s = [] \<or> isASCIIDigit (hd ?s)" "?t = [] \<or> isASCIIDigit (hd ?t)"
        using at_number_drop assms spec' by blast+
      have z: "da = dropWhile (\<lambda>c. c = CHR ''0'') (takeWhile isASCIIDigit ?s)"
        "db = dropWhile (\<lambda>c. c = CHR ''0'') (takeWhile isASCIIDigit ?t)"
        "i1 \<le> i2" "j1 \<le> j2"
        unfolding da_def db_def i2_def j2_def
        by (simp_all add: skip_zeros_spec takeWhile_digits_strip)
      have num: "cmp_lin (digits_val (takeWhile isASCIIDigit ?s)) (digits_val (takeWhile isASCIIDigit ?t)) =
        (if length db < length da then 1 else if length da < length db then - 1
         else normalizeSign (first_diff da db))"
        by (rule number_compare_diff [OF z(1,2)]) (simp_all add: da_def db_def)
      define n where "n = min (length da) (length db)"
      have ends: "isASCIIDigit (byteAt a (i2 + n)) \<longleftrightarrow> length db < length da"
        "isASCIIDigit (byteAt b (j2 + n)) \<longleftrightarrow> length da < length db"
        unfolding da_def db_def n_def by (simp_all add: byteAt_after_digits min_less_iff_disj)
      have run: "digit_run a b i2 j2 0 = (i2 + n, j2 + n, first_diff da db)"
        by (simp add: digit_run_spec n_def da_def db_def)
      have unf: "dpkg_loop a b i j =
        (if length db < length da then Some 1 else if length da < length db then Some (- 1)
         else if first_diff da db \<noteq> 0 then Some (first_diff da db)
         else dpkg_loop a b (i2 + n) (j2 + n))"
        using True ij ends run by (simp add: dpkg_loop.simps [of a b i j] flip: i2_def j2_def)
      show ?thesis
      proof (cases "length da = length db \<and> first_diff da db = 0")
        case False
        then show ?thesis
          using spec'(1) num unfolding unf dk_number_cmp [OF start]
          by (auto simp: cmp_then_def)
      next
        case eq: True
        then have n: "n = length da" "n = length db"
          by (simp_all add: n_def)
        have tail: "drop (i2 + length da) a = dropWhile isASCIIDigit ?s"
          "drop (j2 + length db) b = dropWhile isASCIIDigit ?t"
          unfolding da_def db_def i2_def j2_def by (rule after_number)+
        have "length (dropWhile isASCIIDigit ?s) < length ?s \<or> ?s = []"
          "length (dropWhile isASCIIDigit ?t) < length ?t \<or> ?t = []"
          using start by (cases ?s; cases ?t; simp add: le_imp_less_Suc length_dropWhile_le)+
        moreover have "?s = [] \<Longrightarrow> ?t = [] \<Longrightarrow> i < i1 \<or> j < j1"
          using True spec' by auto
        ultimately have "(length a - (i2 + length da)) + (length b - (j2 + length db)) <
            (length a - i) + (length b - j)"
          using True spec'(4,5) unfolding tail [THEN arg_cong [where f = length], unfolded length_drop]
          by auto
        with less [of "i2 + length da" "j2 + length db"] eq show ?thesis
          using spec'(1) num unfolding unf dk_number_cmp [OF start]
          by (simp add: cmp_then_def tail n(1)) (simp add: n flip: tail)
      qed
    qed
  qed
qed

lemma dpkgVerRevCmp_ref:
  "nul_free a \<Longrightarrow> nul_free b \<Longrightarrow>
   \<exists>c. dpkgVerRevCmp a b = Some c \<and> normalizeSign c = dpkg_ref a b"
  using dpkg_loop_ref [of a b 0 0] by (simp add: dpkgVerRevCmp_def dpkg_ref_def)

section \<open>Whole versions\<close>

definition dpkg_version_ref :: "string \<Rightarrow> string \<Rightarrow> int" where
  "dpkg_version_ref a b =
     cmp_then (cmp_lin (dv_Epoch (ParseDpkg a)) (dv_Epoch (ParseDpkg b)))
       (cmp_then (dpkg_ref (dv_Upstream (ParseDpkg a)) (dv_Upstream (ParseDpkg b)))
         (dpkg_ref (dv_Revision (ParseDpkg a)) (dv_Revision (ParseDpkg b))))"

interpretation dver: comparator dpkg_version_ref
  unfolding dpkg_version_ref_def
  by (rule comparator_then
      [OF comparator_key [OF comparator_cmp_lin, where f = "\<lambda>v. dv_Epoch (ParseDpkg v)"]
        comparator_then
          [OF comparator_key [OF dref.comparator_axioms, where f = "\<lambda>v. dv_Upstream (ParseDpkg v)"]
            comparator_key [OF dref.comparator_axioms, where f = "\<lambda>v. dv_Revision (ParseDpkg v)"]]])

lemma set_split_epoch: "set (snd (split_epoch s)) \<subseteq> set s"
  by (auto simp: split_epoch_def split: option.splits dest: in_set_dropD)

lemma nul_free_ParseDpkg:
  assumes "nul_free s"
  shows "nul_free (dv_Upstream (ParseDpkg s))" "nul_free (dv_Revision (ParseDpkg s))"
proof -
  let ?t = "snd (split_epoch (TrimSpace s))"
  have t: "set ?t \<subseteq> set s"
    using set_split_epoch [of "TrimSpace s"] set_TrimSpace [of s] by (rule subset_trans)
  have "set (dv_Upstream (ParseDpkg s)) \<subseteq> set ?t" "set (dv_Revision (ParseDpkg s)) \<subseteq> set ?t"
    by (simp_all add: ParseDpkg_def case_prod_beta set_take_subset set_drop_subset split: option.split)
  then show "nul_free (dv_Upstream (ParseDpkg s))" "nul_free (dv_Revision (ParseDpkg s))"
    using t assms by (auto simp: nul_free_def)
qed

lemma CompareDpkg_ref:
  assumes "nul_free a" "nul_free b"
  shows "CompareDpkg a b = Some (dpkg_version_ref a b)"
proof -
  obtain c where c: "dpkgVerRevCmp (dv_Upstream (ParseDpkg a)) (dv_Upstream (ParseDpkg b)) = Some c"
    "normalizeSign c = dpkg_ref (dv_Upstream (ParseDpkg a)) (dv_Upstream (ParseDpkg b))"
    using dpkgVerRevCmp_ref nul_free_ParseDpkg assms by blast
  obtain d where d: "dpkgVerRevCmp (dv_Revision (ParseDpkg a)) (dv_Revision (ParseDpkg b)) = Some d"
    "normalizeSign d = dpkg_ref (dv_Revision (ParseDpkg a)) (dv_Revision (ParseDpkg b))"
    using dpkgVerRevCmp_ref nul_free_ParseDpkg assms by blast
  show ?thesis
    by (simp add: CompareDpkg_def dpkg_version_ref_def c(1) d(1) cmp_then_def cmp_lin_def
        flip: c(2) d(2))
qed

text \<open>Two versions that are equal are equal in epoch and in both components.\<close>

lemma dpkg_version_ref_range: "dpkg_version_ref a b \<in> {- 1, 0, 1}"
  using padcmp_range by (auto simp: dpkg_version_ref_def dpkg_ref_def cmp_then_def cmp_lin_def)

text \<open>A tilde sorts before everything, the end of the string included.\<close>

lemma dk_tilde: "padcmp (dk (v @ CHR ''~'' # x)) (dk v) = - 1"
proof (induction "length v" arbitrary: v rule: less_induct)
  case less
  have tilde: "\<not> isASCIIDigit (CHR ''~'')" "dpkgOrder (CHR ''~'') = - 1"
    by (simp_all add: isASCIIDigit_def dpkgOrder_def isASCIILetter_def)
  show ?case
  proof (cases v)
    case Nil
    then show ?thesis
      using tilde by (simp add: dk_nondigit) (simp add: dk_def cmp_then_def cmp_lin_def)
  next
    case (Cons c r)
    show ?thesis
    proof (cases "isASCIIDigit c")
      case False
      with Cons less [of r] show ?thesis
        by (simp add: dk_nondigit cmp_then_def)
    next
      case True
      let ?w = "dropWhile isASCIIDigit v"
      have split: "takeWhile isASCIIDigit (v @ CHR ''~'' # x) = takeWhile isASCIIDigit v"
        "dropWhile isASCIIDigit (v @ CHR ''~'' # x) = ?w @ CHR ''~'' # x"
        using tilde by (induction v) auto
      have "length ?w < length v"
        using True Cons by (simp add: le_imp_less_Suc length_dropWhile_le)
      from less [OF this] show ?thesis
        using True Cons split by (simp add: dk_number padcmp_dk cmp_then_def)
    qed
  qed
qed

section \<open>A NUL byte stops the loop from ending\<close>

lemma dpkg_loop_NUL: "dpkg_loop [NUL] [] 0 0 = None"
proof (rule ccontr)
  assume "dpkg_loop [NUL] [] 0 0 \<noteq> None"
  then obtain r where r: "dpkg_loop [NUL] [] 0 0 = Some r"
    by auto
  have "\<not> ([NUL] = [NUL] \<and> ([] :: string) = [] \<and> (0::nat) = 0 \<and> (0::nat) = 0)"
  proof (rule dpkg_loop.raw_induct
      [where P = "\<lambda>a b i j r. \<not> (a = [NUL] \<and> b = [] \<and> i = 0 \<and> j = 0)", OF _ r], goal_cases)
    case (1 f a b i j r)
    have run: "nondigit_run [NUL] [] 0 0 = Inr (0, 0)" "skip_zeros [NUL] 0 = 0" "skip_zeros [] 0 = 0"
      "digit_run [NUL] [] 0 0 0 = (0, 0, 0)"
      by (simp_all add: nondigit_run.simps skip_zeros.simps digit_run.simps in_nondigit_def byteAt_def
          isASCIIDigit_def)
    have IH: "f [NUL] [] 0 0 \<noteq> Some r"
      using 1(1) by blast
    show ?case
    proof
      assume "a = [NUL] \<and> b = [] \<and> i = 0 \<and> j = 0"
      with 1(2) IH show False
        by (simp add: run byteAt_def isASCIIDigit_def)
    qed
  qed
  then show False
    by simp
qed

section \<open>Properties\<close>

lemma dpkg_version_ref_flip: "dpkg_version_ref b a = - dpkg_version_ref a b"
  using padcmp_flip [of "dkey (dv_Upstream (ParseDpkg b))" "dkey (dv_Upstream (ParseDpkg a))"]
    padcmp_flip [of "dkey (dv_Revision (ParseDpkg b))" "dkey (dv_Revision (ParseDpkg a))"]
    cmp_lin_flip [of "dv_Epoch (ParseDpkg b)" "dv_Epoch (ParseDpkg a)"]
  by (simp add: dpkg_version_ref_def dpkg_ref_def cmp_then_def)

text \<open>C1: Debian version comparison always returns on versions without a NUL byte, and is a
  total preorder: swapping the versions flips the sign, and "not after" is transitive.\<close>

theorem CompareDpkg_total_preorder:
  assumes "nul_free a" "nul_free b" "nul_free c"
  shows "\<exists>x y z. CompareDpkg a b = Some x \<and> CompareDpkg b a = Some (- x) \<and>
    CompareDpkg b c = Some y \<and> CompareDpkg a c = Some z \<and> x \<in> {- 1, 0, 1} \<and>
    (x \<le> 0 \<and> y \<le> 0 \<longrightarrow> z \<le> 0)"
  using assms dver.cmp_trans [of a b c] dpkg_version_ref_range [of a b]
  by (simp add: CompareDpkg_ref dpkg_version_ref_flip [of b a])

theorem CompareDpkg_total_preorder_witness:
  "\<exists>x y z. CompareDpkg ''1.0~rc1-1'' ''1.0-1'' = Some x \<and> CompareDpkg ''1.0-1'' ''1.0~rc1-1'' = Some (- x) \<and>
    CompareDpkg ''1.0-1'' ''1:0.9-1'' = Some y \<and> CompareDpkg ''1.0~rc1-1'' ''1:0.9-1'' = Some z \<and>
    x \<in> {- 1, 0, 1} \<and> (x \<le> 0 \<and> y \<le> 0 \<longrightarrow> z \<le> 0)"
  by (rule CompareDpkg_total_preorder) (simp_all add: nul_free_def)

text \<open>C2: The index loops of \<open>dpkgVerRevCmp\<close> terminate on strings without NUL, and the sign of
  their result is the lexicographic comparison of the two keys: the orders of each non-digit
  run, the value of each digit run, zeros after the end.\<close>

theorem dpkgVerRevCmp_refines:
  assumes "nul_free a" "nul_free b"
  shows "\<exists>c. dpkgVerRevCmp a b = Some c \<and> normalizeSign c = padcmp (dkey a) (dkey b)"
  using dpkgVerRevCmp_ref [OF assms] by (simp add: dpkg_ref_def)

theorem dpkgVerRevCmp_refines_witness:
  "\<exists>c. dpkgVerRevCmp ''1.10'' ''1.9'' = Some c \<and>
     normalizeSign c = padcmp (dkey ''1.10'') (dkey ''1.9'')"
  by (rule dpkgVerRevCmp_refines) (simp_all add: nul_free_def)

text \<open>A tilde sorts before everything, the end of the string included: appending a tilde
  and anything to a component makes it sort strictly before the component, so a release
  candidate (1.0~rc1) is older than the release (1.0).\<close>

theorem dpkgVerRevCmp_tilde:
  assumes "nul_free v" "nul_free x"
  shows "\<exists>c < 0. dpkgVerRevCmp (v @ CHR ''~'' # x) v = Some c"
proof -
  have "nul_free (v @ CHR ''~'' # x)"
    using assms by (simp add: nul_free_def)
  then obtain c where "dpkgVerRevCmp (v @ CHR ''~'' # x) v = Some c"
    "normalizeSign c = dpkg_ref (v @ CHR ''~'' # x) v"
    using dpkgVerRevCmp_ref assms(1) by blast
  then show ?thesis
    using dk_tilde [of v x] normalizeSign_signs(1) [of c] by (auto simp: dpkg_ref_def padcmp_dk)
qed

theorem dpkgVerRevCmp_tilde_witness: "\<exists>c < 0. dpkgVerRevCmp ''1.0~rc1'' ''1.0'' = Some c"
  using dpkgVerRevCmp_tilde [of "''1.0''" "''rc1''"] by (simp add: nul_free_def)


end
