(* ===== verification/Lifecycle_Assess.thy ===== *)
theory Lifecycle_Assess
  imports Lifecycle_Map Go_Time Dpkg_Version
begin

text \<open>
  internal/lifecycle/assess.go: application end-of-life. Only software that did not come from
  the host's own distribution is judged against the upstream release calendar; what the table
  does not know, or whose origin cannot be told, is counted and not assessed. The release
  calendar is the argument \<open>src\<close>, the model of the interface \<open>lifecycle.Source\<close>.
\<close>

section \<open>Data\<close>

record Release =
  re_Product :: string
  re_Label :: string
  re_Cycle :: string
  re_ReleaseDate :: string
  re_EoasFrom :: string
  re_EolFrom :: string
  re_EoesFrom :: string
  re_IsEol :: bool
  re_IsLTS :: bool
  re_Latest :: string
  re_Link :: string
  re_SnapshotID :: "int option"
  re_FeedDate :: "time option"

datatype Stage = StageNone | StageEOL | StageEOAS

definition StageOf :: "Release \<Rightarrow> string \<Rightarrow> Stage" where
  "StageOf r asOf =
     (if re_EolFrom r \<noteq> [] \<and> re_EolFrom r \<le> asOf then StageEOL
      else if re_EolFrom r = [] \<and> re_IsEol r then StageEOL
      else if re_EoasFrom r \<noteq> [] \<and> re_EoasFrom r \<le> asOf then StageEOAS
      else StageNone)"

record LPackage =
  lp_Name :: string
  lp_Version :: string
  lp_Origin :: string
  lp_OriginRepo :: string

record LHost =
  lh_Distro :: string
  lh_Manager :: string
  lh_Packages :: "LPackage list"
  lh_AsOf :: "time option"

record LFinding =
  lf_Product :: string
  lf_ProductLabel :: string
  lf_Cycle :: string
  lf_Stage :: Stage
  lf_StageFrom :: string
  lf_EolFrom :: string
  lf_EoasFrom :: string
  lf_EoesFrom :: string
  lf_Package :: string
  lf_Installed :: string
  lf_Packages :: "string list"
  lf_Origin :: Origin
  lf_OriginLabel :: string
  lf_OriginRepo :: string
  lf_UpgradeTo :: string
  lf_UpgradeToSupportedUntil :: string
  lf_Fixed :: string
  lf_Latest :: string
  lf_Link :: string
  lf_SnapshotID :: "int option"
  lf_FeedDate :: "time option"
  lf_Reason :: string

definition lf_AdvisoryID :: "LFinding \<Rightarrow> string" where
  "lf_AdvisoryID f = ''EOL:'' @ lf_Product f @ '':'' @ lf_Cycle f"

record LStats =
  ls_Mapped :: nat
  ls_DistroOrigin :: nat
  ls_OriginUnknown :: nat
  ls_NoRelease :: nat
  ls_Supported :: nat
  ls_Findings :: nat

section \<open>The upgrade path\<close>

definition numericCycle :: "string \<Rightarrow> bool" where
  "numericCycle c \<longleftrightarrow> c \<noteq> [] \<and> list_all (\<lambda>p. Atoi p \<noteq> None) (Split c CHR ''.'')"

fun cmp_parts :: "string list \<Rightarrow> string list \<Rightarrow> int" where
  "cmp_parts [] [] = 0"
| "cmp_parts pa pb =
     (let x = (case pa of [] \<Rightarrow> 0 | p # _ \<Rightarrow> AtoiVal p);
          y = (case pb of [] \<Rightarrow> 0 | p # _ \<Rightarrow> AtoiVal p)
      in if x \<noteq> y then (if x < y then - 1 else 1) else cmp_parts (tl pa) (tl pb))"

definition cmpCycle :: "string \<Rightarrow> string \<Rightarrow> int" where
  "cmpCycle a b = cmp_parts (Split a CHR ''.'') (Split b CHR ''.'')"

definition upgradePath :: "(string \<times> Release) list \<Rightarrow> string \<Rightarrow> string \<Rightarrow> string \<times> string \<times> string" where
  "upgradePath rels cycle day =
     (let newer = filter (\<lambda>r. \<not> (cmpCycle (re_Cycle r) cycle \<le> 0 \<or> \<not> numericCycle (re_Cycle r))
                          \<and> StageOf r day \<noteq> StageEOL) (map snd rels);
          sorted = go_sort (\<lambda>r q. cmpCycle (re_Cycle r) (re_Cycle q) < 0) newer
      in case sorted of
           [] \<Rightarrow> ([], [], [])
         | r0 # _ \<Rightarrow>
             let pick = (case filter (\<lambda>r. StageOf r day = StageNone) sorted of [] \<Rightarrow> r0 | r # _ \<Rightarrow> r)
             in (re_Cycle pick, re_EolFrom pick, re_Cycle r0))"

definition lf_reason :: "LFinding \<Rightarrow> string" where
  "lf_reason f =
     (let name = lf_ProductLabel f @ '' '' @ lf_Cycle f;
          r1 = (if lf_Stage f = StageEOL then
                  (if lf_EolFrom f \<noteq> [] then
                     name @ '' reached end of life on '' @ lf_EolFrom f @ '': upstream no longer issues security fixes for it''
                   else name @ '' is end of life: upstream no longer issues security fixes for it'')
                else name @ '' left active support on '' @ lf_EoasFrom f @
                  (if lf_EolFrom f \<noteq> [] then ''; security fixes continue until '' @ lf_EolFrom f else []));
          r2 = r1 @ ''. It came from a repository that is not the distribution''  @ [CHR 0x27] @ ''s'' @
                 (if lf_OriginLabel f \<noteq> [] then '' ('' @ lf_OriginLabel f @ '')'' else []) @
                 '', so nobody else is patching it'';
          r3 = r2 @ (if lf_UpgradeTo f \<noteq> [] then
                  ''; upgrading to '' @ lf_ProductLabel f @ '' '' @ lf_UpgradeTo f @ '' fixes it'' @
                  (if lf_UpgradeToSupportedUntil f \<noteq> [] then
                     '' (security support until '' @ lf_UpgradeToSupportedUntil f @ '')'' else [])
                else [])
      in r3 @ ''.'')"

section \<open>The judgement\<close>

record lcand =
  lc_pkg :: LPackage
  lc_match :: Match
  lc_class :: Origin
  lc_label :: string

text \<open>The first loop of \<open>Assess\<close>: which packages are candidates.\<close>

fun collect :: "LHost \<Rightarrow> LPackage list \<Rightarrow> LStats \<Rightarrow> LStats \<times> lcand list" where
  "collect h [] st = (st, [])"
| "collect h (p # ps) st =
     (if TrimSpace (lp_Name p) = [] \<or> TrimSpace (lp_Version p) = [] then collect h ps st
      else case Map (lh_Manager h) (lp_Name p) (lp_Version p) of
             None \<Rightarrow> collect h ps st
           | Some m \<Rightarrow>
               (let st1 = st\<lparr>ls_Mapped := ls_Mapped st + 1\<rparr>
                in case ClassifyOrigin (lh_Distro h) (lh_Manager h) (lp_Version p) (lp_Origin p) (lp_OriginRepo p) of
                     (OriginDistro, _) \<Rightarrow> collect h ps (st1\<lparr>ls_DistroOrigin := ls_DistroOrigin st1 + 1\<rparr>)
                   | (OriginUnknown, _) \<Rightarrow> collect h ps (st1\<lparr>ls_OriginUnknown := ls_OriginUnknown st1 + 1\<rparr>)
                   | (class, label) \<Rightarrow>
                       (case collect h ps st1 of (st2, cs) \<Rightarrow>
                          (st2, \<lparr>lc_pkg = p, lc_match = m, lc_class = class, lc_label = label\<rparr> # cs))))"

text \<open>\<open>byProduct[p]\<close>: the releases of a product by cycle, a later row replacing an earlier.\<close>

definition releases_of :: "Release list \<Rightarrow> string \<Rightarrow> (string \<times> Release) list" where
  "releases_of rels p =
     foldl (\<lambda>m r. upd_assoc (re_Cycle r) (\<lambda>_. r) m) [] (filter (\<lambda>r. re_Product r = p) rels)"

fun find_release :: "(string \<times> Release) list \<Rightarrow> string list \<Rightarrow> Release option" where
  "find_release cycles [] = None"
| "find_release cycles (cy # cys) =
     (case map_of cycles cy of Some r \<Rightarrow> Some r | None \<Rightarrow> find_release cycles cys)"

definition new_group :: "Release \<Rightarrow> Stage \<Rightarrow> lcand \<Rightarrow> LFinding" where
  "new_group rel stage c =
     \<lparr>lf_Product = re_Product rel,
      lf_ProductLabel = (if re_Label rel = [] then re_Product rel else re_Label rel),
      lf_Cycle = re_Cycle rel, lf_Stage = stage,
      lf_StageFrom = (if stage = StageEOL then re_EolFrom rel else re_EoasFrom rel),
      lf_EolFrom = re_EolFrom rel, lf_EoasFrom = re_EoasFrom rel, lf_EoesFrom = re_EoesFrom rel,
      lf_Package = lp_Name (lc_pkg c), lf_Installed = lp_Version (lc_pkg c), lf_Packages = [],
      lf_Origin = lc_class c, lf_OriginLabel = lc_label c, lf_OriginRepo = lp_OriginRepo (lc_pkg c),
      lf_UpgradeTo = [], lf_UpgradeToSupportedUntil = [], lf_Fixed = [],
      lf_Latest = re_Latest rel, lf_Link = re_Link rel,
      lf_SnapshotID = re_SnapshotID rel, lf_FeedDate = re_FeedDate rel, lf_Reason = []\<rparr>"

definition join_group :: "lcand \<Rightarrow> LFinding \<Rightarrow> LFinding" where
  "join_group c g =
     (let g1 = g\<lparr>lf_Packages := lf_Packages g @ [lp_Name (lc_pkg c)]\<rparr>
      in if lp_Name (lc_pkg c) < lf_Package g1 then
           g1\<lparr>lf_Package := lp_Name (lc_pkg c), lf_Installed := lp_Version (lc_pkg c),
              lf_OriginLabel := lc_label c, lf_OriginRepo := lp_OriginRepo (lc_pkg c)\<rparr>
         else g1)"

type_synonym lgroups = "(string \<times> LFinding) list"

definition group_key :: "Release \<Rightarrow> string" where
  "group_key rel = re_Product rel @ NUL # re_Cycle rel"

text \<open>The second loop: the release of a candidate, its stage, its group (keyed by product and
  cycle).\<close>

definition group_step :: "Release list \<Rightarrow> string \<Rightarrow> LStats \<times> lgroups \<Rightarrow> lcand \<Rightarrow> LStats \<times> lgroups" where
  "group_step rels day sg c =
     (case sg of (st, groups) \<Rightarrow>
        case find_release (releases_of rels (ma_Product (lc_match c))) (ma_Cycles (lc_match c)) of
          None \<Rightarrow> (st\<lparr>ls_NoRelease := ls_NoRelease st + 1\<rparr>, groups)
        | Some rel \<Rightarrow>
            (let stage = StageOf rel day
             in if stage = StageNone then (st\<lparr>ls_Supported := ls_Supported st + 1\<rparr>, groups)
                else (st, upd_assoc (group_key rel)
                       (\<lambda>g. join_group c (case g of Some f \<Rightarrow> f | None \<Rightarrow> new_group rel stage c)) groups)))"

definition dedupe :: "string list \<Rightarrow> string list" where
  "dedupe s = remdups_adj s"

definition finish_group :: "Release list \<Rightarrow> string \<Rightarrow> LFinding \<Rightarrow> LFinding" where
  "finish_group rels day g =
     (let g1 = g\<lparr>lf_Packages := dedupe (sort_strings (lf_Packages g))\<rparr>
      in case upgradePath (releases_of rels (lf_Product g1)) (lf_Cycle g1) day of
           (to, until, fixed) \<Rightarrow>
             (let g2 = g1\<lparr>lf_UpgradeTo := to, lf_UpgradeToSupportedUntil := until, lf_Fixed := fixed\<rparr>
              in g2\<lparr>lf_Reason := lf_reason g2\<rparr>))"

definition lf_less :: "LFinding \<Rightarrow> LFinding \<Rightarrow> bool" where
  "lf_less a b =
     (if lf_Stage a \<noteq> lf_Stage b then lf_Stage a = StageEOL
      else lf_AdvisoryID a < lf_AdvisoryID b)"

definition zero_stats :: LStats where
  "zero_stats = \<lparr>ls_Mapped = 0, ls_DistroOrigin = 0, ls_OriginUnknown = 0, ls_NoRelease = 0,
     ls_Supported = 0, ls_Findings = 0\<rparr>"

definition lc_products :: "lcand list \<Rightarrow> string list" where
  "lc_products cs = sort_strings (first_occurrences (map (\<lambda>c. ma_Product (lc_match c)) cs))"

definition LAssess ::
  "(string list \<Rightarrow> string + Release list) \<Rightarrow> time \<Rightarrow> LHost \<Rightarrow> string + LFinding list \<times> LStats" where
  "LAssess src now h =
     (let day = FormatDate (case lh_AsOf h of Some t \<Rightarrow> t | None \<Rightarrow> now)
      in case collect h (lh_Packages h) zero_stats of (st, cands) \<Rightarrow>
           if cands = [] then Inr ([], st)
           else case src (lc_products cands) of
                  Inl e \<Rightarrow> Inl e
                | Inr rels \<Rightarrow>
                    (case foldl (group_step rels day) (st, []) cands of (st1, groups) \<Rightarrow>
                       let out = go_sort lf_less (map (\<lambda>(k, g). finish_group rels day g) groups)
                       in Inr (out, st1\<lparr>ls_Findings := length out\<rparr>)))"

section \<open>What the loops keep\<close>

lemma cmp_parts_padcmp: "cmp_parts pa pb = padcmp (map AtoiVal pa) (map AtoiVal pb)"
proof (induction pa pb rule: cmp_parts.induct, goal_cases)
  case (2 v va pb)
  then show ?case
    by (cases pb) (auto simp: cmp_then_def cmp_lin_def Let_def)
next
  case (3 pa v va)
  then show ?case
    by (cases pa) (auto simp: cmp_then_def cmp_lin_def Let_def)
qed simp

interpretation cyc: comparator cmpCycle
  unfolding cmpCycle_def cmp_parts_padcmp
  by (rule comparator_key [OF pad.comparator_axioms, where f = "\<lambda>s. map AtoiVal (Split s CHR ''.'')"])

lemma releases_of_Some:
  "(cy, r) \<in> set (releases_of rels p) \<Longrightarrow> r \<in> set rels \<and> re_Product r = p \<and> re_Cycle r = cy"
proof -
  have upd: "(cy, r) \<in> set (upd_assoc k (\<lambda>_. v) m) \<Longrightarrow> (cy = k \<and> r = v) \<or> (cy, r) \<in> set m" for k v m
    by (induction m) (auto split: if_splits)
  have "(cy, r) \<in> set (foldl (\<lambda>m r. upd_assoc (re_Cycle r) (\<lambda>_. r) m) m xs) \<Longrightarrow>
      (cy, r) \<in> set m \<or> (r \<in> set xs \<and> re_Cycle r = cy)" for m and xs
    by (induction xs arbitrary: m) (auto dest: upd)
  then show "(cy, r) \<in> set (releases_of rels p) \<Longrightarrow> r \<in> set rels \<and> re_Product r = p \<and> re_Cycle r = cy"
    by (fastforce simp: releases_of_def)
qed

lemma find_release_Some:
  "find_release (releases_of rels p) cys = Some r \<Longrightarrow>
   r \<in> set rels \<and> re_Product r = p \<and> re_Cycle r \<in> set cys"
  by (induction cys) (auto dest!: map_of_SomeD releases_of_Some split: option.splits)

definition cand_ok :: "LHost \<Rightarrow> lcand \<Rightarrow> bool" where
  "cand_ok h c \<longleftrightarrow> lc_pkg c \<in> set (lh_Packages h) \<and> lc_class c = OriginThirdParty \<and>
     ClassifyOrigin (lh_Distro h) (lh_Manager h) (lp_Version (lc_pkg c)) (lp_Origin (lc_pkg c))
       (lp_OriginRepo (lc_pkg c)) = (lc_class c, lc_label c) \<and>
     Map (lh_Manager h) (lp_Name (lc_pkg c)) (lp_Version (lc_pkg c)) = Some (lc_match c)"

lemma collect_ok:
  "set ps \<subseteq> set (lh_Packages h) \<Longrightarrow> c \<in> set (snd (collect h ps st)) \<Longrightarrow> cand_ok h c"
  by (induction h ps st rule: collect.induct)
    (auto simp: Let_def cand_ok_def split: if_splits option.splits prod.splits Origin.splits)

lemma collect_counts:
  "ls_Mapped (fst (collect h ps st)) + ls_DistroOrigin st + ls_OriginUnknown st =
     ls_Mapped st + ls_DistroOrigin (fst (collect h ps st)) + ls_OriginUnknown (fst (collect h ps st)) +
     length (snd (collect h ps st)) \<and>
   ls_NoRelease (fst (collect h ps st)) = ls_NoRelease st \<and>
   ls_Supported (fst (collect h ps st)) = ls_Supported st \<and>
   ls_Findings (fst (collect h ps st)) = ls_Findings st"
proof (induction h ps st rule: collect.induct)
  case (2 h p ps st)
  show ?case
  proof (cases "TrimSpace (lp_Name p) = [] \<or> TrimSpace (lp_Version p) = []")
    case True
    with 2(1) show ?thesis by simp
  next
    case False
    show ?thesis
    proof (cases "Map (lh_Manager h) (lp_Name p) (lp_Version p)")
      case None
      with False 2(2) show ?thesis by simp
    next
      case (Some m)
      obtain cls label where cl: "ClassifyOrigin (lh_Distro h) (lh_Manager h) (lp_Version p)
          (lp_Origin p) (lp_OriginRepo p) = (cls, label)"
        by force
      note IH = 2(3-5) [OF False Some refl cl [symmetric]]
      show ?thesis
        using False Some cl IH by (cases cls) (simp_all add: Let_def case_prod_beta)
    qed
  qed
qed simp

definition group_ok :: "Release list \<Rightarrow> string \<Rightarrow> lcand list \<Rightarrow> string \<Rightarrow> LFinding \<Rightarrow> bool" where
  "group_ok rels day cs k g \<longleftrightarrow> lf_Packages g \<noteq> [] \<and> lf_Stage g \<noteq> StageNone \<and>
     (\<exists>rel \<in> set rels. k = group_key rel \<and> re_Product rel = lf_Product g \<and> re_Cycle rel = lf_Cycle g) \<and>
     (\<forall>n \<in> set (lf_Packages g). \<exists>c \<in> set cs. lp_Name (lc_pkg c) = n \<and>
        (\<exists>rel. find_release (releases_of rels (ma_Product (lc_match c))) (ma_Cycles (lc_match c)) = Some rel \<and>
           StageOf rel day \<noteq> StageNone \<and> group_key rel = k))"

lemma group_ok_mono: "group_ok rels day cs k g \<Longrightarrow> group_ok rels day (cs @ [c]) k g"
  unfolding group_ok_def by (simp; blast)

lemma join_group_fields [simp]:
  "lf_Packages (join_group c g) = lf_Packages g @ [lp_Name (lc_pkg c)]"
  "lf_Stage (join_group c g) = lf_Stage g" "lf_Product (join_group c g) = lf_Product g"
  "lf_Cycle (join_group c g) = lf_Cycle g"
  by (simp_all add: join_group_def Let_def)

lemma new_group_fields [simp]:
  "lf_Packages (new_group rel stage c) = []" "lf_Stage (new_group rel stage c) = stage"
  "lf_Product (new_group rel stage c) = re_Product rel" "lf_Cycle (new_group rel stage c) = re_Cycle rel"
  by (simp_all add: new_group_def)

lemma upd_assoc_elem:
  "(k', g) \<in> set (upd_assoc k f m) \<Longrightarrow>
   (k', g) \<in> set m \<or> (k' = k \<and> (g = f None \<or> (\<exists>g0. (k, g0) \<in> set m \<and> g = f (Some g0))))"
  by (induction m) (auto split: if_splits)

lemma group_step_ok:
  assumes "\<And>k g. (k, g) \<in> set groups \<Longrightarrow> group_ok rels day cs k g"
    and "(k, g) \<in> set (snd (group_step rels day (st, groups) c))"
  shows "group_ok rels day (cs @ [c]) k g"
proof (cases "find_release (releases_of rels (ma_Product (lc_match c))) (ma_Cycles (lc_match c))")
  case None
  then show ?thesis
    using assms group_ok_mono [of rels day cs k g c] by (simp add: group_step_def)
next
  case (Some rel)
  show ?thesis
  proof (cases "StageOf rel day = StageNone")
    case True
    then show ?thesis
      using Some assms group_ok_mono [of rels day cs k g c] by (simp add: group_step_def)
  next
    case False
    have rel: "rel \<in> set rels"
      using Some find_release_Some by blast
    have "(k, g) \<in> set (upd_assoc (group_key rel)
        (\<lambda>g. join_group c (case g of Some f \<Rightarrow> f | None \<Rightarrow> new_group rel (StageOf rel day) c)) groups)"
      using assms(2) Some False by (simp add: group_step_def)
    from upd_assoc_elem [OF this] consider
        (old) "(k, g) \<in> set groups"
      | (new) "k = group_key rel" "g = join_group c (new_group rel (StageOf rel day) c)"
      | (join) g0 where "k = group_key rel" "(k, g0) \<in> set groups" "g = join_group c g0"
      by auto
    then show ?thesis
    proof cases
      case old
      then show ?thesis
        using assms(1) group_ok_mono [of rels day cs k g c] by simp
    next
      case new
      then show ?thesis
        using rel Some False by (auto simp: group_ok_def)
    next
      case (join g0)
      then have "group_ok rels day (cs @ [c]) k g0"
        using assms(1) group_ok_mono [of rels day cs k g0 c] by simp
      then show ?thesis
        using join Some False by (auto simp: group_ok_def)
    qed
  qed
qed

lemma groups_ok:
  assumes "(k, g) \<in> set (snd (foldl (group_step rels day) (st, []) cs))"
  shows "group_ok rels day cs k g"
  using assms
proof (induction cs arbitrary: k g rule: rev_induct)
  case (snoc c cs)
  obtain st' groups where "foldl (group_step rels day) (st, []) cs = (st', groups)"
    by force
  with snoc show ?case
    using group_step_ok [of groups rels day cs k g st' c] by simp
qed simp

lemma group_step_distinct:
  "distinct (map fst (snd sg)) \<Longrightarrow> distinct (map fst (snd (group_step rels day sg c)))"
  by (cases sg) (simp add: group_step_def distinct_upd_assoc Let_def split: option.split)

lemma groups_distinct: "distinct (map fst (snd (foldl (group_step rels day) (st, []) cs)))"
  by (induction cs rule: rev_induct) (simp_all add: group_step_distinct)

lemma sum_upd_assoc:
  "sum_list (map ((\<lambda>g. length (lf_Packages g)) \<circ> snd)
     (upd_assoc k (\<lambda>g. join_group c (case g of None \<Rightarrow> new_group rel s c | Some f \<Rightarrow> f)) m)) =
   Suc (sum_list (map ((\<lambda>g. length (lf_Packages g)) \<circ> snd) m))"
  by (induction m) auto

lemma groups_counts:
  assumes "foldl (group_step rels day) (st, []) cs = (st', groups)"
  shows "ls_Mapped st' = ls_Mapped st \<and> ls_DistroOrigin st' = ls_DistroOrigin st \<and>
    ls_OriginUnknown st' = ls_OriginUnknown st \<and>
    ls_NoRelease st' + ls_Supported st' + (\<Sum>g \<leftarrow> map snd groups. length (lf_Packages g)) =
      ls_NoRelease st + ls_Supported st + length cs"
  using assms
proof (induction cs arbitrary: st' groups rule: rev_induct)
  case (snoc c cs)
  obtain st1 gr where fold: "foldl (group_step rels day) (st, []) cs = (st1, gr)"
    by force
  have step: "group_step rels day (st1, gr) c = (st', groups)"
    using snoc.prems fold by simp
  show ?case
    using snoc.IH [OF fold] step
    by (auto simp: sum_upd_assoc group_step_def Let_def split: option.splits if_splits)
qed simp

lemma finish_group_fields [simp]:
  "set (lf_Packages (finish_group rels day g)) = set (lf_Packages g)"
  "lf_Stage (finish_group rels day g) = lf_Stage g"
  "lf_Product (finish_group rels day g) = lf_Product g"
  "lf_Cycle (finish_group rels day g) = lf_Cycle g"
  by (simp_all add: finish_group_def dedupe_def Let_def split: prod.split)

lemma LAssess_finding:
  assumes "LAssess src now h = Inr (fs, st)" "f \<in> set fs"
  obtains rels day g cs k where "day = FormatDate (case lh_AsOf h of Some t \<Rightarrow> t | None \<Rightarrow> now)"
    "cs = snd (collect h (lh_Packages h) zero_stats)" "src (lc_products cs) = Inr rels"
    "group_ok rels day cs k g" "f = finish_group rels day g"
proof -
  let ?day = "FormatDate (case lh_AsOf h of Some t \<Rightarrow> t | None \<Rightarrow> now)"
  obtain st0 cs where cs: "collect h (lh_Packages h) zero_stats = (st0, cs)"
    by force
  have "cs \<noteq> []"
    using assms cs by (auto simp: LAssess_def)
  then obtain rels where rels: "src (lc_products cs) = Inr rels"
    using assms cs by (auto simp: LAssess_def Let_def split: sum.splits)
  obtain st1 groups where gr: "foldl (group_step rels ?day) (st0, []) cs = (st1, groups)"
    by force
  have "fs = go_sort lf_less (map (\<lambda>(k, g). finish_group rels ?day g) groups)"
    using assms cs rels gr \<open>cs \<noteq> []\<close> by (auto simp: LAssess_def Let_def)
  then obtain k g where "(k, g) \<in> set groups" "f = finish_group rels ?day g"
    using assms(2) by auto
  then show ?thesis
    using that [OF refl _ rels] cs gr groups_ok [of k g rels ?day st0 cs] by simp
qed

interpretation crel: comparator "\<lambda>r q. cmpCycle (re_Cycle r) (re_Cycle q)"
  by (rule comparator_key [OF cyc.comparator_axioms, where f = re_Cycle])

definition upgrade_candidates :: "(string \<times> Release) list \<Rightarrow> string \<Rightarrow> string \<Rightarrow> Release list" where
  "upgrade_candidates rels cycle day =
     filter (\<lambda>r. \<not> (cmpCycle (re_Cycle r) cycle \<le> 0 \<or> \<not> numericCycle (re_Cycle r))
                 \<and> StageOf r day \<noteq> StageEOL) (map snd rels)"

lemma set_upgrade_candidates:
  "set (upgrade_candidates rels cycle day) =
     {r \<in> snd ` set rels. 0 < cmpCycle (re_Cycle r) cycle \<and> numericCycle (re_Cycle r) \<and> StageOf r day \<noteq> StageEOL}"
  by (auto simp: upgrade_candidates_def)

lemma sorted_first:
  assumes "sorted_wrt crel.cmp.le rs" "filter P rs = r # qs" "q \<in> set rs" "P q"
  shows "cmpCycle (re_Cycle r) (re_Cycle q) \<le> 0"
proof -
  have "sorted_wrt crel.cmp.le (r # qs)"
    using assms(1,2) sorted_wrt_filter by metis
  moreover have "q \<in> set (r # qs)"
  proof -
    have "q \<in> set (filter P rs)"
      using assms(3,4) by simp
    then show ?thesis
      unfolding assms(2) .
  qed
  ultimately show ?thesis
    using crel.cmp_refl [of r] crel.cmp_ge_flip [of q r] by (auto simp: not_less)
qed

section \<open>Properties\<close>

text \<open>C6: Origin decides. Every package an end-of-life finding names is installed on the host,
  is known to the mapping table and was classified as third-party: software of the host's own
  distribution, and software whose origin cannot be told, is in no finding; and a finding is
  about a release past active or security support.\<close>

theorem LAssess_third_party_only:
  assumes "LAssess src now h = Inr (fs, st)" "f \<in> set fs" "n \<in> set (lf_Packages f)"
  shows "lf_Stage f \<noteq> StageNone \<and>
    (\<exists>p \<in> set (lh_Packages h). lp_Name p = n \<and> Map (lh_Manager h) n (lp_Version p) \<noteq> None \<and>
      fst (ClassifyOrigin (lh_Distro h) (lh_Manager h) (lp_Version p) (lp_Origin p) (lp_OriginRepo p)) =
        OriginThirdParty)"
proof -
  obtain rels day g cs k where fin: "cs = snd (collect h (lh_Packages h) zero_stats)"
    "group_ok rels day cs k g" "f = finish_group rels day g"
    using LAssess_finding [OF assms(1,2)] by metis
  then obtain c where c: "c \<in> set cs" "lp_Name (lc_pkg c) = n"
    using assms(3) by (auto simp: group_ok_def)
  have "cand_ok h c"
    using collect_ok [of "lh_Packages h" h c zero_stats] c fin by simp
  then show ?thesis
    using c fin by (auto simp: cand_ok_def group_ok_def)
qed

definition ex_release :: "string \<Rightarrow> string \<Rightarrow> string \<Rightarrow> Release" where
  "ex_release cycle eoas eol =
     \<lparr>re_Product = ''php'', re_Label = ''PHP'', re_Cycle = cycle, re_ReleaseDate = [],
      re_EoasFrom = eoas, re_EolFrom = eol, re_EoesFrom = [], re_IsEol = False, re_IsLTS = False,
      re_Latest = [], re_Link = [], re_SnapshotID = None, re_FeedDate = None\<rparr>"

definition ex_lhost :: LHost where
  "ex_lhost = \<lparr>lh_Distro = ''ubuntu'', lh_Manager = ''dpkg'',
     lh_Packages = [\<lparr>lp_Name = ''php8.0-cli'', lp_Version = ''8.0.30'', lp_Origin = ''deb.sury.org'', lp_OriginRepo = []\<rparr>,
                    \<lparr>lp_Name = ''python3.10'', lp_Version = ''3.10.12'', lp_Origin = ''Ubuntu'', lp_OriginRepo = []\<rparr>],
     lh_AsOf = Some 1700000000000000000\<rparr>"

definition ex_calendar :: "string list \<Rightarrow> string + Release list" where
  "ex_calendar ps = Inr [ex_release ''8.0'' ''2022-11-26'' ''2023-11-14'',
     ex_release ''8.1'' ''2023-11-13'' ''2025-12-31'', ex_release ''8.2'' ''2024-12-31'' ''2026-12-31'']"

text \<open>What the example shows: PHP 8.0 from a third party is end of life, Python from Ubuntu is
  not judged, and the upgrade skips 8.1, which has left active support.\<close>

lemma ex_lhost_result:
  "(case LAssess ex_calendar 0 ex_lhost of
      Inl e \<Rightarrow> None
    | Inr (fs, st) \<Rightarrow> Some (map (\<lambda>f. (lf_Stage f, lf_Packages f, lf_UpgradeTo f, lf_Fixed f)) fs, ls_DistroOrigin st)) =
   Some ([(StageEOL, [''php8.0-cli''], ''8.2'', ''8.1'')], 1)"
  by code_simp

lemma ex_lhost_finding:
  obtains fs st f where "LAssess ex_calendar 0 ex_lhost = Inr (fs, st)" "f \<in> set fs"
    "''php8.0-cli'' \<in> set (lf_Packages f)"
  using ex_lhost_result by (auto split: sum.splits)

theorem LAssess_third_party_only_witness:
  "\<exists>fs st f. LAssess ex_calendar 0 ex_lhost = Inr (fs, st) \<and> f \<in> set fs \<and>
    ''php8.0-cli'' \<in> set (lf_Packages f) \<and> lf_Stage f \<noteq> StageNone"
  using ex_lhost_finding LAssess_third_party_only by metis

text \<open>Nothing is silently clean. Every mapped package is counted as the distribution's own,
  of unknown origin, of a release the calendar does not list, or supported, or it is in a
  finding: there is no finding exactly when the four counts add up to the mapped packages.\<close>

theorem LAssess_accounts:
  assumes "LAssess src now h = Inr (fs, st)"
  shows "ls_Findings st = length fs \<and>
    ls_DistroOrigin st + ls_OriginUnknown st + ls_NoRelease st + ls_Supported st \<le> ls_Mapped st \<and>
    (fs = [] \<longleftrightarrow> ls_DistroOrigin st + ls_OriginUnknown st + ls_NoRelease st + ls_Supported st = ls_Mapped st)"
proof -
  let ?day = "FormatDate (case lh_AsOf h of Some t \<Rightarrow> t | None \<Rightarrow> now)"
  obtain st0 cs where cs: "collect h (lh_Packages h) zero_stats = (st0, cs)"
    by force
  have c0: "ls_Mapped st0 = ls_DistroOrigin st0 + ls_OriginUnknown st0 + length cs"
    "ls_NoRelease st0 = 0" "ls_Supported st0 = 0"
    using collect_counts [of h "lh_Packages h" zero_stats] cs by (simp_all add: zero_stats_def)
  show ?thesis
  proof (cases "cs = []")
    case True
    have "ls_Findings st0 = 0"
      using collect_counts [of h "lh_Packages h" zero_stats] cs by (simp add: zero_stats_def)
    with True assms cs c0 show ?thesis
      by (simp add: LAssess_def)
  next
    case False
    obtain rels where rels: "src (lc_products cs) = Inr rels"
      using assms cs False by (auto simp: LAssess_def Let_def split: sum.splits)
    obtain st1 groups where gr: "foldl (group_step rels ?day) (st0, []) cs = (st1, groups)"
      by force
    have res: "fs = go_sort lf_less (map (\<lambda>(k, g). finish_group rels ?day g) groups)"
      "st = st1\<lparr>ls_Findings := length fs\<rparr>"
      using assms cs rels gr False by (auto simp: LAssess_def Let_def)
    have nonempty: "lf_Packages g \<noteq> []" if "(k, g) \<in> set groups" for k g
      using groups_ok [of k g rels ?day st0 cs] gr that by (simp add: group_ok_def)
    define total where "total = (\<Sum>g \<leftarrow> map snd groups. length (lf_Packages g))"
    have "total = 0 \<longleftrightarrow> groups = []"
      unfolding total_def
      using nonempty [of "fst (hd groups)" "snd (hd groups)"] by (cases groups) auto
    moreover have "fs = [] \<longleftrightarrow> groups = []"
      by (simp add: res(1))
    ultimately show ?thesis
      using groups_counts [OF gr, folded total_def] c0 res(2) by auto
  qed
qed

theorem LAssess_accounts_witness:
  "\<exists>fs st. LAssess ex_calendar 0 ex_lhost = Inr (fs, st) \<and> ls_Findings st = length fs \<and>
     ls_DistroOrigin st + ls_OriginUnknown st + ls_NoRelease st + ls_Supported st < ls_Mapped st"
proof -
  obtain fs st f where r: "LAssess ex_calendar 0 ex_lhost = Inr (fs, st)" "f \<in> set fs"
    using ex_lhost_finding by metis
  then show ?thesis
    using LAssess_accounts [OF r(1)] by (intro exI [of _ fs] exI [of _ st]) auto
qed

text \<open>The upgrade path. When some newer numeric cycle is not past security support, the
  release to move to is one of those, with its own end-of-life date; \<open>fixed\<close> is the oldest of
  them; and if any of them still has active support, the release chosen has it and is the
  oldest that does.\<close>

theorem upgradePath_sound:
  assumes "upgradePath rels cycle day = (to, until, fixed)" "upgrade_candidates rels cycle day \<noteq> []"
  shows "\<exists>r r0. r \<in> set (upgrade_candidates rels cycle day) \<and> r0 \<in> set (upgrade_candidates rels cycle day) \<and>
    to = re_Cycle r \<and> until = re_EolFrom r \<and> fixed = re_Cycle r0 \<and>
    (\<forall>q \<in> set (upgrade_candidates rels cycle day). cmpCycle fixed (re_Cycle q) \<le> 0 \<and>
       (StageOf q day = StageNone \<longrightarrow> StageOf r day = StageNone \<and> cmpCycle to (re_Cycle q) \<le> 0))"
proof -
  let ?c = "upgrade_candidates rels cycle day"
  define rs where "rs = go_sort (\<lambda>r q. cmpCycle (re_Cycle r) (re_Cycle q) < 0) ?c"
  have set_rs: "set rs = set ?c" and rs: "sorted_wrt crel.cmp.le rs"
    unfolding rs_def by (simp_all add: crel.cmp.sorted_go_sort)
  have up: "upgradePath rels cycle day = (case rs of [] \<Rightarrow> ([], [], [])
     | r0 # _ \<Rightarrow> let pick = (case filter (\<lambda>r. StageOf r day = StageNone) rs of [] \<Rightarrow> r0 | r # _ \<Rightarrow> r)
         in (re_Cycle pick, re_EolFrom pick, re_Cycle r0))"
    by (simp only: upgradePath_def rs_def upgrade_candidates_def Let_def)
  obtain r0 rest where r0: "rs = r0 # rest"
    using assms(2) set_rs by (cases rs) auto
  have first: "cmpCycle (re_Cycle r0) (re_Cycle q) \<le> 0" if "q \<in> set ?c" for q
  proof -
    have "q \<in> set rs"
      using that set_rs by simp
    then show ?thesis
      using sorted_first [OF rs, of "\<lambda>_. True" r0 rest q] r0 by simp
  qed
  show ?thesis
  proof (cases "filter (\<lambda>r. StageOf r day = StageNone) rs")
    case Nil
    then have "StageOf q day \<noteq> StageNone" if "q \<in> set ?c" for q
      using that set_rs by (auto simp: filter_empty_conv)
    then show ?thesis
      using assms(1) up r0 Nil first set_rs by (intro exI [of _ r0]) auto
  next
    case (Cons r qs)
    then have "r \<in> set (filter (\<lambda>r. StageOf r day = StageNone) rs)"
      by simp
    then have "r \<in> set ?c" "StageOf r day = StageNone"
      using set_rs by simp_all
    moreover have "cmpCycle (re_Cycle r) (re_Cycle q) \<le> 0" if "q \<in> set ?c" "StageOf q day = StageNone" for q
      using sorted_first [OF rs Cons, of q] that set_rs by simp
    ultimately show ?thesis
      using assms(1) up r0 Cons first set_rs by (intro exI [of _ r] exI [of _ r0]) auto
  qed
qed

definition ex_cycles :: "(string \<times> Release) list" where
  "ex_cycles = [(''8.2'', ex_release ''8.2'' ''2024-12-31'' ''2026-12-31''),
     (''8.1'', ex_release ''8.1'' ''2023-11-13'' ''2025-12-31'')]"

lemma ex_cycles_values:
  "upgradePath ex_cycles ''8.0'' ''2023-11-14'' = (''8.2'', ''2026-12-31'', ''8.1'')"
  "upgrade_candidates ex_cycles ''8.0'' ''2023-11-14'' = map snd ex_cycles"
  by code_simp+

theorem upgradePath_sound_witness:
  "\<exists>r r0. r \<in> snd ` set ex_cycles \<and> r0 \<in> snd ` set ex_cycles \<and> ''8.2'' = re_Cycle r \<and>
     ''2026-12-31'' = re_EolFrom r \<and> ''8.1'' = re_Cycle r0 \<and>
     (\<forall>q \<in> snd ` set ex_cycles. cmpCycle ''8.1'' (re_Cycle q) \<le> 0)"
  using upgradePath_sound [OF ex_cycles_values(1)] unfolding ex_cycles_values(2)
  by (auto simp: ex_cycles_def)

end
