(* ===== verification/Repo_Health.thy ===== *)
theory Repo_Health
  imports Go_Time
begin

text \<open>
  internal/repohealth/types.go and assess.go: what a host reports about its package
  repositories, and the judgement whether its list of pending updates can be believed. A
  nil pointer to a time is \<open>None\<close>. \<open>days\<close> divides by a day exactly where the source
  goes through a float64, which is the same whole number of days for ages whose remainder is
  more than a microsecond.
\<close>

section \<open>Evidence (types.go)\<close>

definition ManagerApt :: string where "ManagerApt = ''apt''"
definition ManagerDNF :: string where "ManagerDNF = ''dnf''"
definition ManagerZypper :: string where "ManagerZypper = ''zypper''"

text \<open>\<open>SigOther\<close> is any other value of the string type, an unknown one of a newer agent.\<close>

datatype Sig =
    SigGood | SigExpiredKey | SigNoPubkey | SigBad | SigRevoked | SigUnsigned | SigNoIndex
  | SigNotChecked | SigUnverified | SigOther string

fun Sig_string :: "Sig \<Rightarrow> string" where
  "Sig_string SigGood = ''good''"
| "Sig_string SigExpiredKey = ''expired_key''"
| "Sig_string SigNoPubkey = ''no_pubkey''"
| "Sig_string SigBad = ''bad_signature''"
| "Sig_string SigRevoked = ''revoked_key''"
| "Sig_string SigUnsigned = ''unsigned''"
| "Sig_string SigNoIndex = ''no_index''"
| "Sig_string SigNotChecked = ''not_checked''"
| "Sig_string SigUnverified = ''unverified''"
| "Sig_string (SigOther s) = s"

record Repo =
  rp_ID :: string
  rp_Label :: string
  rp_URI :: string
  rp_Suite :: string
  rp_Source :: string
  rp_Signature :: Sig
  rp_KeyID :: string
  rp_Detail :: string
  rp_SignedBy :: string
  rp_ReleaseDate :: "time option"
  rp_ValidUntil :: "time option"
  rp_IgnoreValidUntil :: bool
  rp_MetadataTime :: "time option"
  rp_KeyExpires :: "time option"

text \<open>The fields \<open>Assessment\<close> and \<open>AssessedAt\<close> of a report are set by the server
  after the judgement and never read by it; they are left out.\<close>

record Report =
  rr_Manager :: string
  rr_LastRefresh :: "time option"
  rr_LastRefreshSource :: string
  rr_Repos :: "Repo list"
  rr_Limits :: "string list"

definition Report_Empty :: "Report \<Rightarrow> bool" where
  "Report_Empty r \<longleftrightarrow> rr_Manager r = []"

definition SeverityHigh :: string where "SeverityHigh = ''high''"
definition SeverityMedium :: string where "SeverityMedium = ''medium''"

definition DefaultStaleAfter :: duration where
  "DefaultStaleAfter = 7 * 24 * Hour"

section \<open>Judgement (assess.go)\<close>

definition CodeKeyExpired :: string where "CodeKeyExpired = ''key_expired''"
definition CodeKeyMissing :: string where "CodeKeyMissing = ''key_missing''"
definition CodeKeyRevoked :: string where "CodeKeyRevoked = ''key_revoked''"
definition CodeSigBad :: string where "CodeSigBad = ''signature_bad''"
definition CodeUnsigned :: string where "CodeUnsigned = ''unsigned''"
definition CodeNoIndex :: string where "CodeNoIndex = ''no_index''"
definition CodeIndexExpired :: string where "CodeIndexExpired = ''index_expired''"
definition CodeIndexStale :: string where "CodeIndexStale = ''index_stale''"

lemmas repo_code_defs =
  CodeKeyExpired_def CodeKeyMissing_def CodeKeyRevoked_def CodeSigBad_def CodeUnsigned_def
  CodeNoIndex_def CodeIndexExpired_def CodeIndexStale_def

record Problem =
  pr_RepoID :: string
  pr_Code :: string
  pr_Severity :: string
  pr_Title :: string
  pr_Detail :: string

datatype Reliability = Reliable | Unreliable | Unassessed

record RepoAssessment =
  ra_Reliability :: Reliability
  ra_Reasons :: "string list"
  ra_Problems :: "Problem list"
  ra_Checked :: nat

definition day :: "time \<Rightarrow> string" where
  "day t = FormatDate t"

definition days :: "duration \<Rightarrow> string" where
  "days d = (let n = go_div d Day in if n = 1 then ''1 day'' else Itoa n @ '' days'')"

definition refreshNote :: "Report \<Rightarrow> time \<Rightarrow> string" where
  "refreshNote r asOf =
     (case rr_LastRefresh r of
        None \<Rightarrow> ''the host has no record of ever refreshing its indexes''
      | Some t \<Rightarrow> ''the host last refreshed its indexes on '' @ day t @ '' ('' @ days (Sub asOf t) @
          '' ago, per the '' @ rr_LastRefreshSource r @ '')'')"

definition apos :: string where "apos = [CHR 0x27]"

text \<open>The closure \<open>add\<close> of \<open>assessRepo\<close>: one problem of this repository.\<close>

definition add_problem :: "Repo \<Rightarrow> string \<Rightarrow> string \<Rightarrow> string \<Rightarrow> string \<Rightarrow> Problem list" where
  "add_problem repo code sev title detail =
     [\<lparr>pr_RepoID = rp_ID repo, pr_Code = code, pr_Severity = sev, pr_Title = title, pr_Detail = detail\<rparr>]"

text \<open>The switch of \<open>assessRepo\<close> on the state of the signature.\<close>

definition sig_problems :: "Report \<Rightarrow> Repo \<Rightarrow> Problem list" where
  "sig_problems r repo =
     (let add = add_problem repo;
          key = (if rp_KeyID repo \<noteq> [] then '' '' @ rp_KeyID repo else rp_KeyID repo)
      in case rp_Signature repo of
           SigExpiredKey \<Rightarrow>
             add CodeKeyExpired SeverityHigh (''signing key'' @ key @ '' has expired'')
               (''The key that signs this repository has expired, so '' @ rr_Manager r @
                '' will not accept its index: updates from it have stopped'' @
                '' while the host keeps using whatever it fetched earlier. '' @ rp_Detail repo)
         | SigNoPubkey \<Rightarrow>
             add CodeKeyMissing SeverityHigh (''signing key'' @ key @ '' is not trusted by this host'')
               (''The repository is signed by a key that the keyring its source uses does not contain, so '' @
                rr_Manager r @ '' will not accept its index. '' @ rp_Detail repo)
         | SigRevoked \<Rightarrow>
             add CodeKeyRevoked SeverityHigh (''signing key'' @ key @ '' has been revoked'')
               (''The vendor revoked the key that signs this repository; its index is no longer accepted. '' @ rp_Detail repo)
         | SigBad \<Rightarrow>
             add CodeSigBad SeverityHigh ''signature does not verify''
               (''The index'' @ apos @ ''s signature does not match its contents (or the signature itself has expired). '' @
                rp_Detail repo)
         | SigUnsigned \<Rightarrow>
             add CodeUnsigned SeverityHigh ''index carries no signature the host accepts''
               (''The repository is not marked trusted and its index has no valid signature, so '' @ rr_Manager r @
                '' refuses it. '' @ rp_Detail repo)
         | SigNoIndex \<Rightarrow>
             (if rr_Manager r = ManagerApt then
                add CodeNoIndex SeverityHigh ''the host has no index for this repository''
                  (''The repository is enabled but apt holds no Release file for it: it was never fetched, or apt fetched it and refused it. '' @
                   ''An expired or untrusted signing key is the usual cause, and `apt-get update` names it. '' @ rp_Detail repo)
              else
                add CodeNoIndex SeverityMedium ''the host has no cached metadata for this repository''
                  (''The repository is enabled but '' @ rr_Manager r @
                   '' has no cached repomd.xml for it, so it cannot list pending updates from it without a refresh. '' @ rp_Detail repo))
         | _ \<Rightarrow> [])"

text \<open>The checks of its dates: apt's Release file, then the metadata of the other managers.\<close>

definition release_stale :: "Report \<Rightarrow> Repo \<Rightarrow> time \<Rightarrow> duration \<Rightarrow> bool \<Rightarrow> Problem list" where
  "release_stale r repo asOf staleAfter refreshOld =
     (case rp_ReleaseDate repo of
        None \<Rightarrow> []
      | Some rd \<Rightarrow>
          if staleAfter < Sub asOf rd \<and> refreshOld then
            add_problem repo CodeIndexStale SeverityMedium
              (''index is '' @ days (Sub asOf rd) @ '' old and has not been refreshed'')
              (''The Release file is dated '' @ day rd @ '' and '' @ refreshNote r asOf @
               '': nothing says this index is still current, so pending updates computed from it may be missing newer packages.'')
          else [])"

definition apt_age :: "Report \<Rightarrow> Repo \<Rightarrow> time \<Rightarrow> duration \<Rightarrow> bool \<Rightarrow> Problem list" where
  "apt_age r repo asOf staleAfter refreshOld =
     (case rp_ValidUntil repo of
        None \<Rightarrow> release_stale r repo asOf staleAfter refreshOld
      | Some vu \<Rightarrow>
          if \<not> rp_IgnoreValidUntil repo \<and> After asOf vu then
            add_problem repo CodeIndexExpired SeverityMedium (''index expired on '' @ day vu)
              (''The repository'' @ apos @ ''s Release file says Valid-Until '' @ day vu @
               ''; apt refuses an index past that date, so the host receives nothing new from it.'')
          else release_stale r repo asOf staleAfter refreshOld)"

definition rpm_age :: "Repo \<Rightarrow> time \<Rightarrow> duration \<Rightarrow> Problem list" where
  "rpm_age repo asOf staleAfter =
     (case rp_MetadataTime repo of
        None \<Rightarrow> []
      | Some mt \<Rightarrow>
          if staleAfter < Sub asOf mt then
            add_problem repo CodeIndexStale SeverityMedium (''cached metadata is '' @ days (Sub asOf mt) @ '' old'')
              (''The cached repository metadata was last fetched or revalidated on '' @ day mt @
               '', so pending updates computed from it may be missing newer packages.'')
          else [])"

definition age_problems :: "Report \<Rightarrow> Repo \<Rightarrow> time \<Rightarrow> duration \<Rightarrow> bool \<Rightarrow> Problem list" where
  "age_problems r repo asOf staleAfter refreshOld =
     (if rr_Manager r = ManagerApt \<and> rp_Signature repo \<noteq> SigNoIndex
      then apt_age r repo asOf staleAfter refreshOld else []) @
     (if rr_Manager r \<noteq> ManagerApt \<and> rp_Signature repo \<noteq> SigNoIndex
      then rpm_age repo asOf staleAfter else [])"

definition assessRepo :: "Report \<Rightarrow> Repo \<Rightarrow> time \<Rightarrow> duration \<Rightarrow> bool \<Rightarrow> Problem list" where
  "assessRepo r repo asOf staleAfter refreshOld =
     sig_problems r repo @ age_problems r repo asOf staleAfter refreshOld"

definition problem_less :: "Problem \<Rightarrow> Problem \<Rightarrow> bool" where
  "problem_less p q =
     (if pr_RepoID p \<noteq> pr_RepoID q then pr_RepoID p < pr_RepoID q
      else if pr_Severity p \<noteq> pr_Severity q then pr_Severity p = SeverityHigh
      else pr_Code p < pr_Code q)"

definition unverified_note :: "Repo \<Rightarrow> string list" where
  "unverified_note repo =
     (if rp_Signature repo = SigUnverified then
        [rp_Label repo @ '': could not be verified'' @
         (if rp_Detail repo \<noteq> [] then '' ('' @ rp_Detail repo @ '')'' else [])]
      else [])"

text \<open>\<open>labels[id]\<close>: a later repository of the same id replaces an earlier one; a missing
  key reads as the empty string.\<close>

definition repo_label :: "Repo list \<Rightarrow> string \<Rightarrow> string" where
  "repo_label repos rid =
     (case map_of (rev (map (\<lambda>r. (rp_ID r, rp_Label r)) repos)) rid of None \<Rightarrow> [] | Some l \<Rightarrow> l)"

definition stale_after :: "duration \<Rightarrow> duration" where
  "stale_after d = (if d \<le> 0 then DefaultStaleAfter else d)"

definition refresh_old :: "Report \<Rightarrow> time \<Rightarrow> duration \<Rightarrow> bool" where
  "refresh_old r asOf staleAfter \<longleftrightarrow>
     (case rr_LastRefresh r of None \<Rightarrow> True | Some t \<Rightarrow> staleAfter < Sub asOf t)"

definition RAssess :: "Report \<Rightarrow> time \<Rightarrow> duration \<Rightarrow> RepoAssessment" where
  "RAssess r asOf staleAfter0 =
     (let staleAfter = stale_after staleAfter0
      in if Report_Empty r then
           \<lparr>ra_Reliability = Unassessed, ra_Reasons = [], ra_Problems = [], ra_Checked = 0\<rparr>
         else
           let refreshOld = refresh_old r asOf staleAfter;
               problems = go_sort problem_less
                 (concat (map (\<lambda>repo. assessRepo r repo asOf staleAfter refreshOld) (rr_Repos r)));
               reasons = concat (map unverified_note (rr_Repos r)) @
                 map (\<lambda>p. repo_label (rr_Repos r) (pr_RepoID p) @ '': '' @ pr_Title p) problems @ rr_Limits r
           in \<lparr>ra_Reliability = (if reasons \<noteq> [] then Unreliable else Reliable),
               ra_Reasons = reasons, ra_Problems = problems, ra_Checked = length (rr_Repos r)\<rparr>)"

text \<open>\<open>Highest\<close> walks the problems with the best so far; \<open>None\<close> is Go's \<open>false\<close>.\<close>

definition highest_step :: "Problem option \<Rightarrow> Problem \<Rightarrow> Problem option" where
  "highest_step best p =
     (case best of
        None \<Rightarrow> Some p
      | Some b \<Rightarrow> if pr_Severity p = SeverityHigh \<and> pr_Severity b \<noteq> SeverityHigh then Some p else Some b)"

definition Highest :: "Problem list \<Rightarrow> Problem option" where
  "Highest ps = foldl highest_step None ps"

definition ForRepo :: "RepoAssessment \<Rightarrow> string \<Rightarrow> Problem list" where
  "ForRepo a rid = filter (\<lambda>p. pr_RepoID p = rid) (ra_Problems a)"

text \<open>\<open>Fix\<close>: what an administrator is told to do.\<close>

definition fix_apt_key :: string where
  "fix_apt_key =
     ''Get the vendor'' @ apos @ ''s current signing key from the vendor itself and check its fingerprint against the vendor'' @ apos @ ''s site. '' @
     ''Install it as its own keyring, for example /etc/apt/keyrings/<vendor>.gpg (or the vendor'' @ apos @ ''s keyring package, which installs under /usr/share/keyrings), '' @
     ''and name it in the repository'' @ apos @ ''s source line: deb [signed-by=/etc/apt/keyrings/<vendor>.gpg] <uri> <suite> <components>, '' @
     ''or Signed-By: in a .sources file. Do not use apt-key or drop the key into /etc/apt/trusted.gpg.d: that trusts it for every repository. '' @
     ''Then run apt-get update, confirm it prints no GPG warning for the repository, and check that `apt list --upgradable` now shows what you expect. '' @
     ''If the repository is no longer used, remove its source file instead.''"

definition fix_apt_index :: string where
  "fix_apt_index =
     ''Run apt-get update and read its output for warnings. If it succeeds, check that the periodic refresh runs '' @
     ''(systemctl status apt-daily.timer) so the indexes do not age again; if the repository itself no longer publishes, remove its source.''"

definition fix_rpm_key :: "string \<Rightarrow> string" where
  "fix_rpm_key refresh =
     ''Get the vendor'' @ apos @ ''s current signing key from the vendor itself, check its fingerprint against the vendor'' @ apos @ ''s site, '' @
     ''replace the file named by the repository'' @ apos @ ''s gpgkey= line, and import it (rpm --import <file>). Then run '' @ refresh @ '' and confirm it reports no signature error. '' @
     ''If the repository is no longer used, disable or remove its .repo file.''"

definition fix_rpm_index :: "string \<Rightarrow> string" where
  "fix_rpm_index refresh =
     ''Run '' @ refresh @ '' and read its output for errors. If it succeeds, check that the periodic refresh is enabled '' @
     ''(dnf-makecache.timer on dnf hosts) so the cached metadata does not age again.''"

definition Fix :: "string \<Rightarrow> string \<Rightarrow> string" where
  "Fix manager code =
     (if manager = ManagerApt then
        (if code \<in> {CodeKeyExpired, CodeKeyMissing, CodeKeyRevoked, CodeSigBad, CodeUnsigned, CodeNoIndex} then fix_apt_key
         else if code \<in> {CodeIndexExpired, CodeIndexStale} then fix_apt_index
         else [])
      else if manager = ManagerDNF \<or> manager = ManagerZypper then
        (let refresh = (if manager = ManagerZypper then ''zypper refresh'' else ''dnf makecache'')
         in if code \<in> {CodeKeyExpired, CodeKeyMissing, CodeKeyRevoked, CodeSigBad, CodeUnsigned} then fix_rpm_key refresh
            else if code \<in> {CodeNoIndex, CodeIndexStale} then fix_rpm_index refresh
            else [])
      else [])"

section \<open>What a repository's problems are\<close>

lemma Day_pos [simp]: "0 < Day"
  by (simp add: duration_defs)

lemma stale_after_pos [simp]: "0 < stale_after d"
  by (simp add: stale_after_def DefaultStaleAfter_def duration_defs)

text \<open>Every problem of a repository names it, has one of the two severities, and has a code
  for which its manager has a fix text.\<close>

definition problem_ok :: "Report \<Rightarrow> Repo \<Rightarrow> Problem \<Rightarrow> bool" where
  "problem_ok r repo p \<longleftrightarrow> pr_RepoID p = rp_ID repo \<and> pr_Severity p \<in> {SeverityHigh, SeverityMedium} \<and>
     (rr_Manager r \<in> {ManagerApt, ManagerDNF, ManagerZypper} \<longrightarrow> Fix (rr_Manager r) (pr_Code p) \<noteq> [])"

lemma managers_distinct [simp]:
  "ManagerApt \<noteq> ManagerDNF" "ManagerApt \<noteq> ManagerZypper" "ManagerDNF \<noteq> ManagerZypper"
  "ManagerDNF \<noteq> ManagerApt" "ManagerZypper \<noteq> ManagerApt" "ManagerZypper \<noteq> ManagerDNF"
  by (simp_all add: ManagerApt_def ManagerDNF_def ManagerZypper_def)

lemma fix_texts [simp]:
  "fix_apt_key \<noteq> []" "fix_apt_index \<noteq> []" "fix_rpm_key s \<noteq> []" "fix_rpm_index s \<noteq> []"
  by (simp_all add: fix_apt_key_def fix_apt_index_def fix_rpm_key_def fix_rpm_index_def)

lemma Fix_keys [simp]:
  assumes "m \<in> {ManagerApt, ManagerDNF, ManagerZypper}"
    and "code \<in> {CodeKeyExpired, CodeKeyMissing, CodeKeyRevoked, CodeSigBad, CodeUnsigned, CodeNoIndex, CodeIndexStale}"
  shows "Fix m code \<noteq> []"
  using assms by (auto simp: Fix_def Let_def)

lemma Fix_index_expired [simp]: "Fix ManagerApt CodeIndexExpired \<noteq> []"
  by (simp add: Fix_def)

lemma in_add_problem:
  "p \<in> set (add_problem repo code sev title detail) \<longleftrightarrow>
     p = \<lparr>pr_RepoID = rp_ID repo, pr_Code = code, pr_Severity = sev, pr_Title = title, pr_Detail = detail\<rparr>"
  by (simp add: add_problem_def)

lemma add_problem_Nil [simp]: "add_problem repo code sev title detail \<noteq> []"
  by (simp add: add_problem_def)

lemma sig_problems_ok: "p \<in> set (sig_problems r repo) \<Longrightarrow> problem_ok r repo p"
  by (cases "rp_Signature repo")
    (auto simp: sig_problems_def problem_ok_def Let_def in_add_problem split: if_splits)

lemma release_stale_in:
  "p \<in> set (release_stale r repo asOf sa old) \<Longrightarrow>
   pr_RepoID p = rp_ID repo \<and> pr_Severity p = SeverityMedium \<and> pr_Code p = CodeIndexStale"
  by (auto simp: release_stale_def in_add_problem split: option.splits if_splits)

lemma age_problems_cases:
  "p \<in> set (age_problems r repo asOf sa old) \<Longrightarrow>
   pr_RepoID p = rp_ID repo \<and> pr_Severity p = SeverityMedium \<and>
    (pr_Code p = CodeIndexStale \<or> rr_Manager r = ManagerApt \<and> pr_Code p = CodeIndexExpired)"
  by (auto simp: age_problems_def apt_age_def rpm_age_def in_add_problem release_stale_in
      split: option.splits if_splits)

lemma age_problems_ok: "p \<in> set (age_problems r repo asOf sa old) \<Longrightarrow> problem_ok r repo p"
  using age_problems_cases [of p r repo asOf sa old] by (auto simp: problem_ok_def)

lemma assessRepo_ok: "p \<in> set (assessRepo r repo asOf sa old) \<Longrightarrow> problem_ok r repo p"
  by (auto simp: assessRepo_def sig_problems_ok age_problems_ok)

text \<open>When a repository has no problem.\<close>

definition sig_fine :: "Sig \<Rightarrow> bool" where
  "sig_fine s \<longleftrightarrow> s \<notin> {SigExpiredKey, SigNoPubkey, SigBad, SigRevoked, SigUnsigned, SigNoIndex}"

definition index_current :: "Report \<Rightarrow> Repo \<Rightarrow> time \<Rightarrow> duration \<Rightarrow> bool" where
  "index_current r repo asOf sa \<longleftrightarrow>
     (if rr_Manager r = ManagerApt then
        (\<forall>vu. rp_ValidUntil repo = Some vu \<longrightarrow> asOf \<le> vu \<or> rp_IgnoreValidUntil repo) \<and>
        (\<forall>rd. rp_ReleaseDate repo = Some rd \<longrightarrow> asOf - rd \<le> sa \<or>
          (\<exists>t. rr_LastRefresh r = Some t \<and> asOf - t \<le> sa))
      else (\<forall>mt. rp_MetadataTime repo = Some mt \<longrightarrow> asOf - mt \<le> sa))"

lemma sig_problems_Nil: "sig_problems r repo = [] \<longleftrightarrow> sig_fine (rp_Signature repo)"
  by (cases "rp_Signature repo") (simp_all add: sig_problems_def sig_fine_def Let_def)

lemma age_problems_Nil:
  assumes "rp_Signature repo \<noteq> SigNoIndex"
  shows "age_problems r repo asOf sa (refresh_old r asOf sa) = [] \<longleftrightarrow> index_current r repo asOf sa"
  using assms
  by (cases "rp_ValidUntil repo"; cases "rp_ReleaseDate repo"; cases "rp_MetadataTime repo"; cases "rr_LastRefresh r")
    (auto simp: age_problems_def apt_age_def rpm_age_def release_stale_def index_current_def refresh_old_def
        Sub_def After_def)

lemma assessRepo_Nil:
  "assessRepo r repo asOf sa (refresh_old r asOf sa) = [] \<longleftrightarrow>
     sig_fine (rp_Signature repo) \<and> index_current r repo asOf sa"
  using age_problems_Nil [of repo r asOf sa] sig_problems_Nil [of r repo]
  by (auto simp: assessRepo_def sig_fine_def)

section \<open>The order of the problems\<close>

definition severity_key :: "string \<Rightarrow> nat" where
  "severity_key s = (if s = SeverityHigh then 0 else 1)"

definition problem_cmp :: "Problem \<Rightarrow> Problem \<Rightarrow> int" where
  "problem_cmp p q = cmp_then (cmp_lin (pr_RepoID p) (pr_RepoID q))
     (cmp_then (cmp_lin (severity_key (pr_Severity p)) (severity_key (pr_Severity q)))
       (cmp_lin (pr_Code p) (pr_Code q)))"

interpretation prob: comparator problem_cmp
  unfolding problem_cmp_def
  by (rule comparator_then [OF comparator_key [OF comparator_cmp_lin, where f = pr_RepoID]
      comparator_then [OF comparator_key [OF comparator_cmp_lin, where f = "\<lambda>p. severity_key (pr_Severity p)"]
        comparator_key [OF comparator_cmp_lin, where f = pr_Code]]])

lemma problem_less_cmp:
  "pr_Severity p \<in> {SeverityHigh, SeverityMedium} \<Longrightarrow> pr_Severity q \<in> {SeverityHigh, SeverityMedium} \<Longrightarrow>
   problem_less p q \<longleftrightarrow> problem_cmp p q < 0"
  by (auto simp: problem_less_def problem_cmp_def cmp_then_def cmp_lin_def severity_key_def
      SeverityHigh_def SeverityMedium_def)

lemma unverified_note_Nil [simp]: "unverified_note repo = [] \<longleftrightarrow> rp_Signature repo \<noteq> SigUnverified"
  by (simp add: unverified_note_def)

definition report_problems :: "Report \<Rightarrow> time \<Rightarrow> duration \<Rightarrow> Problem list" where
  "report_problems r asOf sa =
     concat (map (\<lambda>repo. assessRepo r repo asOf sa (refresh_old r asOf sa)) (rr_Repos r))"

lemma report_problems_ok:
  "p \<in> set (report_problems r asOf sa) \<Longrightarrow> \<exists>repo \<in> set (rr_Repos r). problem_ok r repo p"
  using assessRepo_ok by (fastforce simp: report_problems_def)

lemma report_problems_severity:
  "p \<in> set (report_problems r asOf sa) \<Longrightarrow> pr_Severity p \<in> {SeverityHigh, SeverityMedium}"
  using report_problems_ok unfolding problem_ok_def by blast

lemma RAssess_problems:
  assumes "\<not> Report_Empty r"
  shows "ra_Problems (RAssess r asOf d) =
    go_sort (\<lambda>p q. problem_cmp p q < 0) (report_problems r asOf (stale_after d))"
proof -
  have "go_sort problem_less (report_problems r asOf (stale_after d)) =
      go_sort (\<lambda>p q. problem_cmp p q < 0) (report_problems r asOf (stale_after d))"
    by (intro go_sort_cong problem_less_cmp report_problems_severity)
  then show ?thesis
    using assms by (simp add: RAssess_def Let_def report_problems_def)
qed

lemma RAssess_Empty [simp]: "Report_Empty r \<Longrightarrow> ra_Problems (RAssess r asOf d) = []"
  by (simp add: RAssess_def)

lemma set_RAssess_problems:
  "p \<in> set (ra_Problems (RAssess r asOf d)) \<longleftrightarrow>
     \<not> Report_Empty r \<and> p \<in> set (report_problems r asOf (stale_after d))"
  by (cases "Report_Empty r") (simp_all add: RAssess_problems)

lemma Highest_first:
  assumes "ps \<noteq> []" "\<And>p. p \<in> set ps \<Longrightarrow> pr_Severity p = SeverityHigh \<Longrightarrow> pr_Severity (hd ps) = SeverityHigh"
  shows "Highest ps = Some (hd ps)"
proof -
  have keep: "foldl highest_step (Some b) qs = Some b"
    if "\<forall>p \<in> set qs. pr_Severity p = SeverityHigh \<longrightarrow> pr_Severity b = SeverityHigh" for b qs
    using that by (induction qs) (auto simp add: highest_step_def)
  obtain b qs where ps: "ps = b # qs"
    using assms(1) by (cases ps) simp_all
  have "\<forall>p \<in> set qs. pr_Severity p = SeverityHigh \<longrightarrow> pr_Severity b = SeverityHigh"
    using assms(2) unfolding ps by (metis list.sel(1) list.set_intros(2))
  then show ?thesis
    using keep by (simp add: Highest_def highest_step_def ps)
qed

lemma Highest_ForRepo:
  assumes "ForRepo (RAssess r asOf d) rid \<noteq> []"
  shows "Highest (ForRepo (RAssess r asOf d) rid) = Some (hd (ForRepo (RAssess r asOf d) rid))"
proof (rule Highest_first [OF assms])
  fix p
  let ?ps = "ForRepo (RAssess r asOf d) rid"
  assume p: "p \<in> set ?ps" "pr_Severity p = SeverityHigh"
  have ne: "\<not> Report_Empty r"
    using assms by (auto simp: ForRepo_def)
  have "sorted_wrt prob.cmp.le (ra_Problems (RAssess r asOf d))"
    unfolding RAssess_problems [OF ne] by (rule prob.cmp.sorted_go_sort)
  then have "sorted_wrt prob.cmp.le ?ps"
    unfolding ForRepo_def by (rule sorted_wrt_filter)
  then have "p = hd ?ps \<or> problem_cmp (hd ?ps) p \<le> 0"
    using sorted_wrt_le_hd [of prob.cmp.le ?ps p] p(1) prob.cmp_ge_flip [of p "hd ?ps"] by (auto simp: not_less)
  moreover have "hd ?ps \<in> set ?ps"
    using assms by simp
  then have "pr_RepoID (hd ?ps) = pr_RepoID p"
    using p(1) by (simp add: ForRepo_def)
  ultimately show "pr_Severity (hd ?ps) = SeverityHigh"
    using p(2) by (auto simp: problem_cmp_def cmp_then_def severity_key_def cmp_lin_def split: if_splits)
qed

section \<open>Properties\<close>


definition ex_repo :: "Sig \<Rightarrow> Repo" where
  "ex_repo sig =
     \<lparr>rp_ID = ''https://example.org/apt stable'', rp_Label = ''example'', rp_URI = ''https://example.org/apt'',
      rp_Suite = ''stable'', rp_Source = ''/etc/apt/sources.list'', rp_Signature = sig, rp_KeyID = ''ABCD'',
      rp_Detail = [], rp_SignedBy = [], rp_ReleaseDate = Some 0, rp_ValidUntil = None,
      rp_IgnoreValidUntil = False, rp_MetadataTime = None, rp_KeyExpires = None\<rparr>"

definition ex_report :: "Sig \<Rightarrow> Report" where
  "ex_report sig = \<lparr>rr_Manager = ManagerApt, rr_LastRefresh = Some (20 * Day), rr_LastRefreshSource = [],
     rr_Repos = [ex_repo sig], rr_Limits = []\<rparr>"


text \<open>Every problem is about a repository of the report, comes with a fix text when the
  report is apt's, dnf's or zypper's, and the problem reported first for its repository is the
  most severe of them.\<close>

theorem RAssess_problem_actionable:
  assumes "p \<in> set (ra_Problems (RAssess r asOf d))" "rr_Manager r \<in> {ManagerApt, ManagerDNF, ManagerZypper}"
  shows "(\<exists>repo \<in> set (rr_Repos r). pr_RepoID p = rp_ID repo) \<and> Fix (rr_Manager r) (pr_Code p) \<noteq> [] \<and>
    Highest (ForRepo (RAssess r asOf d) (pr_RepoID p)) =
      Some (hd (ForRepo (RAssess r asOf d) (pr_RepoID p)))"
proof -
  have "p \<in> set (ForRepo (RAssess r asOf d) (pr_RepoID p))"
    using assms(1) by (simp add: ForRepo_def)
  then have "ForRepo (RAssess r asOf d) (pr_RepoID p) \<noteq> []"
    by auto
  then show ?thesis
    using Highest_ForRepo report_problems_ok [of p r asOf "stale_after d"] assms
    by (auto simp: set_RAssess_problems problem_ok_def)
qed

theorem RAssess_problem_actionable_witness:
  "\<exists>p \<in> set (ra_Problems (RAssess (ex_report SigExpiredKey) (30 * Day) 0)).
     Fix ManagerApt (pr_Code p) \<noteq> []"
proof -
  obtain p where p: "p \<in> set (ra_Problems (RAssess (ex_report SigExpiredKey) (30 * Day) 0))"
    by (auto simp: set_RAssess_problems report_problems_def ex_report_def ex_repo_def assessRepo_def
        sig_problems_def in_add_problem Let_def Report_Empty_def ManagerApt_def)
  then show ?thesis
    using RAssess_problem_actionable [OF p] by (auto simp: ex_report_def)
qed

end
