(* ===== verification/Rpm_Version.thy ===== *)
theory Rpm_Version
  imports Dpkg_Version
begin

text \<open>
  internal/vuln/rpm.go: RPM version comparison (\<open>rpmVerCmp\<close>, \<open>ParseRPM\<close>,
  \<open>CompareRPM\<close>). The loop is translated index by index. Its result is the lexicographic
  comparison of two token lists (\<open>rtoks\<close>): a tilde, the end of the string, a caret, an
  alphabetic and a numeric segment, in ascending order.
\<close>

section \<open>The code\<close>

definition is_sep :: "char \<Rightarrow> bool" where
  "is_sep c \<longleftrightarrow> \<not> isRPMAlnum c \<and> c \<noteq> CHR ''~'' \<and> c \<noteq> CHR ''^''"

definition TrimLeftZeros :: "string \<Rightarrow> string" where
  "TrimLeftZeros s = dropWhile (\<lambda>c. c = CHR ''0'') s"

definition at_char :: "string \<Rightarrow> nat \<Rightarrow> char \<Rightarrow> bool" where
  "at_char s i c \<longleftrightarrow> i < length s \<and> s ! i = c"

definition rpm_tail :: "string \<Rightarrow> string \<Rightarrow> nat \<Rightarrow> nat \<Rightarrow> int" where
  "rpm_tail a b one two =
     (if length a \<le> one \<and> length b \<le> two then 0 else if length a \<le> one then - 1 else 1)"

lemma scan_progress: "i < length s \<Longrightarrow> p (s ! i) \<Longrightarrow> i < scan p s i"
  by (simp add: scan.simps [of p s i] Suc_le_lessD scan_ge)

lemma scan_le_length: "i \<le> length s \<Longrightarrow> scan p s i \<le> length s"
  using length_takeWhile_le [of p "drop i s"] by (simp add: scan_spec)

lemma scan_stop: "scan p s i < length s \<Longrightarrow> \<not> p (s ! scan p s i)"
proof (induction p s i rule: scan.induct)
  case (1 p s i)
  then show ?case
    by (cases "i < length s \<and> p (s ! i)") (simp_all add: scan.simps [of p s i])
qed

function rpm_loop :: "string \<Rightarrow> string \<Rightarrow> nat \<Rightarrow> nat \<Rightarrow> int" where
  "rpm_loop a b one0 two0 =
     (if one0 < length a \<or> two0 < length b then
        let one = scan is_sep a one0;
            two = scan is_sep b two0;
            aTilde = at_char a one CHR ''~'';
            bTilde = at_char b two CHR ''~'';
            aCaret = at_char a one CHR ''^'';
            bCaret = at_char b two CHR ''^''
        in if aTilde \<or> bTilde then
             (if \<not> aTilde then 1 else if \<not> bTilde then - 1 else rpm_loop a b (Suc one) (Suc two))
           else if aCaret \<or> bCaret then
             (if length a \<le> one then - 1 else if length b \<le> two then 1
              else if \<not> aCaret then 1 else if \<not> bCaret then - 1
              else rpm_loop a b (Suc one) (Suc two))
           else if length a \<le> one \<or> length b \<le> two then rpm_tail a b one two
           else
             let isNum = isASCIIDigit (a ! one);
                 p = (if isNum then isASCIIDigit else isASCIILetter);
                 s1 = scan p a one;
                 s2 = scan p b two;
                 segA = slice a one s1;
                 segB = slice b two s2
             in if segB = [] then (if isNum then 1 else - 1)
                else
                  let segA' = (if isNum then TrimLeftZeros segA else segA);
                      segB' = (if isNum then TrimLeftZeros segB else segB)
                  in if isNum \<and> length segA' \<noteq> length segB' then
                       (if length segB' < length segA' then 1 else - 1)
                     else if cmp_lin segA' segB' \<noteq> 0 then normalizeSign (cmp_lin segA' segB')
                     else rpm_loop a b s1 s2
      else rpm_tail a b one0 two0)"
  by pat_completeness auto
termination
proof (relation "measure (\<lambda>(a, b, i, j). (length a - i) + (length b - j))", goal_cases)
  case (2 a b one0 two0 one two)
  then show ?case
    using scan_ge [of one0 is_sep a] scan_ge [of two0 is_sep b] by (auto simp: at_char_def)
next
  case (3 a b one0 two0 one two)
  then show ?case
    using scan_ge [of one0 is_sep a] scan_ge [of two0 is_sep b] by (auto simp: at_char_def)
next
  case (4 a b one0 two0 one two aT bT aC bC isNum p s1 s2)
  then have "one < length a" "two < length b" "one0 \<le> one" "two0 \<le> two"
    using scan_ge [of one0 is_sep a] scan_ge [of two0 is_sep b] by auto
  moreover have "\<not> is_sep (a ! one)"
    using 4 calculation scan_stop [of is_sep a one0] by simp
  then have "p (a ! one)"
    using 4 calculation by (auto simp: is_sep_def at_char_def isRPMAlnum_def)
  then have "one < s1"
    using 4 calculation scan_progress by simp
  moreover have "two \<le> s2"
    using 4 scan_ge by simp
  ultimately show ?case
    by simp
qed simp

declare rpm_loop.simps [simp del]

definition rpmVerCmp :: "string \<Rightarrow> string \<Rightarrow> int" where
  "rpmVerCmp a b = (if a = b then 0 else rpm_loop a b 0 0)"

record RPMVersion =
  rv_Epoch :: int
  rv_Version :: string
  rv_Release :: string

definition HasRelease :: "RPMVersion \<Rightarrow> bool" where
  "HasRelease v \<longleftrightarrow> rv_Release v \<noteq> []"

definition ParseRPM :: "string \<Rightarrow> RPMVersion" where
  "ParseRPM raw =
     (let (epoch, s) = split_epoch (TrimSpace raw)
      in case IndexByte s CHR ''-'' of
           Some i \<Rightarrow> \<lparr>rv_Epoch = epoch, rv_Version = take i s, rv_Release = drop (Suc i) s\<rparr>
         | None \<Rightarrow> \<lparr>rv_Epoch = epoch, rv_Version = s, rv_Release = []\<rparr>)"

definition CompareRPM :: "string \<Rightarrow> string \<Rightarrow> int" where
  "CompareRPM a b =
     (let va = ParseRPM a; vb = ParseRPM b
      in if rv_Epoch va \<noteq> rv_Epoch vb then (if rv_Epoch va < rv_Epoch vb then - 1 else 1)
         else let c = rpmVerCmp (rv_Version va) (rv_Version vb)
              in if c \<noteq> 0 then c else rpmVerCmp (rv_Release va) (rv_Release vb))"

section \<open>The reference: token lists\<close>

datatype rtok = RTilde | REnd | RCaret | RAlpha string | RNum nat

fun rtok_rank :: "rtok \<Rightarrow> nat" where
  "rtok_rank RTilde = 0"
| "rtok_rank REnd = 1"
| "rtok_rank RCaret = 2"
| "rtok_rank (RAlpha _) = 3"
| "rtok_rank (RNum _) = 4"

instantiation rtok :: linorder
begin

fun less_rtok :: "rtok \<Rightarrow> rtok \<Rightarrow> bool" where
  "less_rtok (RAlpha s) (RAlpha t) \<longleftrightarrow> s < t"
| "less_rtok (RNum m) (RNum n) \<longleftrightarrow> m < n"
| "less_rtok x y \<longleftrightarrow> rtok_rank x < rtok_rank y"

definition less_eq_rtok :: "rtok \<Rightarrow> rtok \<Rightarrow> bool" where
  "less_eq_rtok x y \<longleftrightarrow> x < y \<or> x = y"

instance
proof
  fix x y z :: rtok
  have trans: "x < y \<Longrightarrow> y < z \<Longrightarrow> x < z"
    by (cases x; cases y; cases z) auto
  have asym: "x < y \<Longrightarrow> \<not> y < x" for x y :: rtok
    by (cases x; cases y) auto
  show "x < y \<longleftrightarrow> x \<le> y \<and> \<not> y \<le> x"
    using asym [of x y] asym [of x x] by (auto simp: less_eq_rtok_def)
  show "x \<le> x"
    by (simp add: less_eq_rtok_def)
  show "x \<le> y \<Longrightarrow> y \<le> z \<Longrightarrow> x \<le> z"
    using trans by (auto simp: less_eq_rtok_def)
  show "x \<le> y \<Longrightarrow> y \<le> x \<Longrightarrow> x = y"
    using asym by (auto simp: less_eq_rtok_def)
  show "x \<le> y \<or> y \<le> x"
    by (cases x; cases y) (auto simp: less_eq_rtok_def)
qed

end

function rtoks :: "string \<Rightarrow> rtok list" where
  "rtoks s =
     (case dropWhile is_sep s of
        [] \<Rightarrow> [REnd]
      | c # r \<Rightarrow>
          if c = CHR ''~'' then RTilde # rtoks r
          else if c = CHR ''^'' then RCaret # rtoks r
          else if isASCIIDigit c then
            RNum (digits_val (takeWhile isASCIIDigit (c # r))) # rtoks (dropWhile isASCIIDigit (c # r))
          else RAlpha (takeWhile isASCIILetter (c # r)) # rtoks (dropWhile isASCIILetter (c # r)))"
  by pat_completeness auto
termination
proof (relation "measure length", goal_cases)
  case (2 s c r)
  then show ?case
    using length_dropWhile_le [of is_sep s] by simp
next
  case (3 s c r)
  then show ?case
    using length_dropWhile_le [of is_sep s] by simp
next
  case (4 s c r)
  then show ?case
    using length_dropWhile_le [of is_sep s] length_dropWhile_le [of isASCIIDigit r] by simp
next
  case (5 s c r)
  then have "\<not> is_sep c"
    by (metis dropWhile_eq_Cons_conv)
  then have "isASCIILetter c"
    using 5 by (simp add: is_sep_def isRPMAlnum_def)
  with 5 show ?case
    using length_dropWhile_le [of is_sep s] length_dropWhile_le [of isASCIILetter r] by simp
qed simp

declare rtoks.simps [simp del]

definition rpm_ref :: "string \<Rightarrow> string \<Rightarrow> int" where
  "rpm_ref a b = cmp_lin (rtoks a) (rtoks b)"

section \<open>The loop computes the token comparison\<close>

lemma cmp_lin_Cons: "cmp_lin (x # xs) (y # ys) = cmp_then (cmp_lin x y) (cmp_lin xs ys)"
  by (auto simp: cmp_lin_def cmp_then_def)

lemma cmp_lin_rtok [simp]:
  "cmp_lin (RAlpha s) (RAlpha t) = cmp_lin s t" "cmp_lin (RNum m) (RNum n) = cmp_lin m n"
  by (simp_all add: cmp_lin_def)

lemma sep_head: "dropWhile is_sep s = c # r \<Longrightarrow> \<not> is_sep c"
  by (metis dropWhile_eq_Cons_conv)

text \<open>What can follow the separators: the end, a tilde, a caret, a number or a word.\<close>

datatype rhead = HEnd | HTilde | HCaret | HNum | HAlpha

definition rhead :: "string \<Rightarrow> rhead" where
  "rhead s = (case dropWhile is_sep s of
     [] \<Rightarrow> HEnd
   | c # _ \<Rightarrow> if c = CHR ''~'' then HTilde else if c = CHR ''^'' then HCaret
             else if isASCIIDigit c then HNum else HAlpha)"

definition seg_pred :: "rhead \<Rightarrow> char \<Rightarrow> bool" where
  "seg_pred h = (if h = HNum then isASCIIDigit else isASCIILetter)"

abbreviation "seg h s \<equiv> takeWhile (seg_pred h) (dropWhile is_sep s)"
abbreviation "after h s \<equiv> dropWhile (seg_pred h) (dropWhile is_sep s)"

lemma rtoks_head:
  "rtoks s = (case rhead s of
     HEnd \<Rightarrow> [REnd]
   | HTilde \<Rightarrow> RTilde # rtoks (tl (dropWhile is_sep s))
   | HCaret \<Rightarrow> RCaret # rtoks (tl (dropWhile is_sep s))
   | HNum \<Rightarrow> RNum (digits_val (seg HNum s)) # rtoks (after HNum s)
   | HAlpha \<Rightarrow> RAlpha (seg HAlpha s) # rtoks (after HAlpha s))"
  by (subst rtoks.simps)
    (cases "dropWhile is_sep s"; simp add: rhead_def seg_pred_def del: dropWhile_eq_Nil_conv)

lemma tilde_caret_not_alnum:
  "\<not> isASCIIDigit (CHR ''~'')" "\<not> isASCIIDigit (CHR ''^'')"
  "\<not> isASCIILetter (CHR ''~'')" "\<not> isASCIILetter (CHR ''^'')"
  by (simp_all add: isASCIIDigit_def isASCIILetter_def)

lemma rhead_alpha: "rhead s = HAlpha \<Longrightarrow> isASCIILetter (hd (dropWhile is_sep s))"
  using sep_head [of s]
  by (auto simp: rhead_def is_sep_def isRPMAlnum_def split: list.splits if_splits)

lemma rhead_num: "rhead s = HNum \<Longrightarrow> isASCIIDigit (hd (dropWhile is_sep s))"
  by (auto simp: rhead_def split: list.splits if_splits)

lemma seg_nonempty: "rhead s \<in> {HNum, HAlpha} \<Longrightarrow> seg (rhead s) s \<noteq> []"
proof -
  assume h: "rhead s \<in> {HNum, HAlpha}"
  then obtain c r where cr: "dropWhile is_sep s = c # r"
    by (cases "dropWhile is_sep s") (auto simp: rhead_def simp del: dropWhile_eq_Nil_conv)
  then show ?thesis
    using h rhead_alpha [of s] rhead_num [of s] by (auto simp: seg_pred_def)
qed

lemma seg_other:
  "rhead s = HAlpha \<Longrightarrow> seg HNum s = []" "rhead s = HNum \<Longrightarrow> seg HAlpha s = []"
proof -
  show "rhead s = HAlpha \<Longrightarrow> seg HNum s = []"
    using rhead_alpha [of s] digit_not_letter
    by (cases "dropWhile is_sep s") (auto simp: seg_pred_def simp del: dropWhile_eq_Nil_conv)
  show "rhead s = HNum \<Longrightarrow> seg HAlpha s = []"
    using rhead_num [of s] digit_not_letter
    by (cases "dropWhile is_sep s") (auto simp: seg_pred_def simp del: dropWhile_eq_Nil_conv)
qed

lemma at_scan:
  "at_char s (scan is_sep s i) (CHR ''~'') \<longleftrightarrow> rhead (drop i s) = HTilde"
  "at_char s (scan is_sep s i) (CHR ''^'') \<longleftrightarrow> rhead (drop i s) = HCaret"
  "length s \<le> scan is_sep s i \<longleftrightarrow> rhead (drop i s) = HEnd"
  "scan is_sep s i < length s \<Longrightarrow> isASCIIDigit (s ! scan is_sep s i) \<longleftrightarrow> rhead (drop i s) = HNum"
proof -
  have d: "drop (scan is_sep s i) s = dropWhile is_sep (drop i s)"
    by (rule drop_scan)
  have "scan is_sep s i < length s \<Longrightarrow>
      dropWhile is_sep (drop i s) = s ! scan is_sep s i # drop (Suc (scan is_sep s i)) s"
    by (metis Cons_nth_drop_Suc d)
  moreover have "\<not> scan is_sep s i < length s \<Longrightarrow> dropWhile is_sep (drop i s) = []"
    by (metis d drop_all linorder_not_less)
  ultimately show
    "at_char s (scan is_sep s i) (CHR ''~'') \<longleftrightarrow> rhead (drop i s) = HTilde"
    "at_char s (scan is_sep s i) (CHR ''^'') \<longleftrightarrow> rhead (drop i s) = HCaret"
    "length s \<le> scan is_sep s i \<longleftrightarrow> rhead (drop i s) = HEnd"
    "scan is_sep s i < length s \<Longrightarrow> isASCIIDigit (s ! scan is_sep s i) \<longleftrightarrow> rhead (drop i s) = HNum"
    using tilde_caret_not_alnum
    by (cases "scan is_sep s i < length s"; auto simp: at_char_def rhead_def simp del: dropWhile_eq_Nil_conv)+
qed

lemma seg_compare:
  assumes "rhead s = h" "rhead t = h" "h \<in> {HNum, HAlpha}"
  defines "x \<equiv> (if h = HNum then TrimLeftZeros (seg h s) else seg h s)"
    and "y \<equiv> (if h = HNum then TrimLeftZeros (seg h t) else seg h t)"
  shows "cmp_lin (rtoks s) (rtoks t) =
    (if h = HNum \<and> length x \<noteq> length y then (if length y < length x then 1 else - 1)
     else cmp_then (cmp_lin x y) (cmp_lin (rtoks (after h s)) (rtoks (after h t))))"
proof (cases "h = HNum")
  case True
  have d: "list_all isASCIIDigit (TrimLeftZeros (seg HNum u))" for u
    by (simp add: TrimLeftZeros_def seg_pred_def flip: takeWhile_digits_strip)
  have "cmp_lin (digits_val (seg HNum s)) (digits_val (seg HNum t)) =
      (if length y < length x then 1 else if length x < length y then - 1 else cmp_lin x y)"
    unfolding x_def y_def using True d by (intro number_compare) (simp_all add: TrimLeftZeros_def)
  with True assms(1,2) show ?thesis
    by (simp add: rtoks_head [of s] rtoks_head [of t] cmp_lin_Cons) (simp add: cmp_then_def)
next
  case False
  with assms show ?thesis
    by (simp add: rtoks_head [of s] rtoks_head [of t] cmp_lin_Cons)
qed

lemma rpm_loop_ref: "rpm_loop a b i j = cmp_lin (rtoks (drop i a)) (rtoks (drop j b))"
proof (induction a b i j rule: rpm_loop.induct)
  case (1 a b i j)
  show ?case
  proof (cases "i < length a \<or> j < length b")
    case False
    then show ?thesis
      by (simp add: rpm_loop.simps [of a b i j] rpm_tail_def rtoks.simps)
  next
    case True
    let ?s = "drop i a" and ?t = "drop j b"
    define one two where "one = scan is_sep a i" and "two = scan is_sep b j"
    note sc = at_scan [of a i, folded one_def] at_scan [of b j, folded two_def]
    have tl: "drop (Suc one) a = tl (dropWhile is_sep ?s)" "drop (Suc two) b = tl (dropWhile is_sep ?t)"
      unfolding one_def two_def by (simp_all add: drop_Suc tl_drop flip: drop_scan)
    note IH = 1 [OF True one_def two_def refl refl refl refl]
    have IHt: "rhead ?s = HTilde \<Longrightarrow> rhead ?t = HTilde \<Longrightarrow> rpm_loop a b (Suc one) (Suc two) =
        cmp_lin (rtoks (tl (dropWhile is_sep ?s))) (rtoks (tl (dropWhile is_sep ?t)))"
      using IH(1) sc by (simp add: tl)
    have IHc: "rhead ?s = HCaret \<Longrightarrow> rhead ?t = HCaret \<Longrightarrow> rpm_loop a b (Suc one) (Suc two) =
        cmp_lin (rtoks (tl (dropWhile is_sep ?s))) (rtoks (tl (dropWhile is_sep ?t)))"
      using IH(2) sc by (simp add: tl)
    show ?thesis
    proof (cases "rhead ?s \<in> {HNum, HAlpha} \<and> rhead ?t \<in> {HNum, HAlpha}")
      case other: False
      have "rpm_loop a b i j =
         (if rhead ?s = HTilde \<or> rhead ?t = HTilde then
            (if rhead ?s \<noteq> HTilde then 1 else if rhead ?t \<noteq> HTilde then - 1
             else rpm_loop a b (Suc one) (Suc two))
          else if rhead ?s = HCaret \<or> rhead ?t = HCaret then
            (if rhead ?s = HEnd then - 1 else if rhead ?t = HEnd then 1
             else if rhead ?s \<noteq> HCaret then 1 else if rhead ?t \<noteq> HCaret then - 1
             else rpm_loop a b (Suc one) (Suc two))
          else if rhead ?s = HEnd \<and> rhead ?t = HEnd then 0 else if rhead ?s = HEnd then - 1 else 1)"
        using True other
        by (subst rpm_loop.simps)
          (cases "rhead ?s"; cases "rhead ?t"; simp add: Let_def sc rpm_tail_def flip: one_def two_def)
      then show ?thesis
        using IHt IHc other
        by (cases "rhead ?s"; cases "rhead ?t";
            simp add: rtoks_head [of ?s] rtoks_head [of ?t] cmp_lin_Cons; simp add: cmp_lin_def cmp_then_def)
    next
      case heads: True
      let ?h = "rhead ?s"
      have in_range: "length a \<le> one \<longleftrightarrow> False" "length b \<le> two \<longleftrightarrow> False"
        and marks: "at_char a one CHR ''~'' \<longleftrightarrow> False" "at_char b two CHR ''~'' \<longleftrightarrow> False"
          "at_char a one CHR ''^'' \<longleftrightarrow> False" "at_char b two CHR ''^'' \<longleftrightarrow> False"
        using heads unfolding sc(1-3,5-7) by auto
      have num: "isASCIIDigit (a ! one) \<longleftrightarrow> ?h = HNum"
        using sc(4) in_range by simp
      have p: "(if ?h = HNum then isASCIIDigit else isASCIILetter) = seg_pred ?h"
        by (simp add: seg_pred_def)
      have segs: "slice a one (scan (seg_pred ?h) a one) = seg ?h ?s"
        "slice b two (scan (seg_pred ?h) b two) = seg ?h ?t"
        "drop (scan (seg_pred ?h) a one) a = after ?h ?s"
        "drop (scan (seg_pred ?h) b two) b = after ?h ?t"
        unfolding slice_scan drop_scan one_def two_def by simp_all
      define x where "x = (if ?h = HNum then TrimLeftZeros (seg ?h ?s) else seg ?h ?s)"
      define y where "y = (if ?h = HNum then TrimLeftZeros (seg ?h ?t) else seg ?h ?t)"
      have unf: "rpm_loop a b i j =
          (if seg ?h ?t = [] then (if ?h = HNum then 1 else - 1)
           else if ?h = HNum \<and> length x \<noteq> length y then (if length y < length x then 1 else - 1)
           else if cmp_lin x y \<noteq> 0 then normalizeSign (cmp_lin x y)
           else rpm_loop a b (scan (seg_pred ?h) a one) (scan (seg_pred ?h) b two))"
        using True unfolding x_def y_def
        by (subst rpm_loop.simps)
          (simp only: Let_def marks in_range num p segs if_True if_False simp_thms
            flip: one_def two_def)
      show ?thesis
      proof (cases "rhead ?t = ?h")
        case False
        with heads have "seg ?h ?t = []"
          using seg_other [of ?t] by auto
        with unf False heads show ?thesis
          by (auto simp: rtoks_head [of ?s] rtoks_head [of ?t] cmp_lin_Cons)
            (simp_all add: cmp_lin_def cmp_then_def)
      next
        case same: True
        have ne: "seg ?h ?t \<noteq> []"
          using seg_nonempty [of ?t] same heads by simp
        have rest: "rpm_loop a b (scan (seg_pred ?h) a one) (scan (seg_pred ?h) b two) =
            cmp_lin (rtoks (after ?h ?s)) (rtoks (after ?h ?t))"
          if "\<not> (?h = HNum \<and> length x \<noteq> length y)" "cmp_lin x y = 0"
          using IH(3) [OF _ _ _ refl refl refl refl refl refl _ refl refl] that ne
          unfolding marks in_range num p segs x_def y_def by simp
        have "normalizeSign (cmp_lin x y) = cmp_lin x y"
          by (simp add: cmp_lin_def)
        then show ?thesis
          using seg_compare [OF refl same, folded x_def y_def] heads unf ne rest
          by (auto simp: cmp_then_def)
      qed
    qed
  qed
qed

lemma rpmVerCmp_ref: "rpmVerCmp a b = rpm_ref a b"
  using rpm_loop_ref [of a b 0 0] by (simp add: rpmVerCmp_def rpm_ref_def)

definition rpm_version_ref :: "string \<Rightarrow> string \<Rightarrow> int" where
  "rpm_version_ref a b =
     cmp_then (cmp_lin (rv_Epoch (ParseRPM a)) (rv_Epoch (ParseRPM b)))
       (cmp_then (rpm_ref (rv_Version (ParseRPM a)) (rv_Version (ParseRPM b)))
         (rpm_ref (rv_Release (ParseRPM a)) (rv_Release (ParseRPM b))))"

lemma CompareRPM_ref: "CompareRPM a b = rpm_version_ref a b"
  by (simp add: CompareRPM_def rpm_version_ref_def rpmVerCmp_ref cmp_then_def Let_def)
    (simp add: cmp_lin_def)

interpretation rref: comparator rpm_ref
  unfolding rpm_ref_def by (rule comparator_key) (rule comparator_cmp_lin)

interpretation rver: comparator rpm_version_ref
  unfolding rpm_version_ref_def
  by (rule comparator_then
      [OF comparator_key [OF comparator_cmp_lin, where f = "\<lambda>v. rv_Epoch (ParseRPM v)"]
        comparator_then
          [OF comparator_key [OF rref.comparator_axioms, where f = "\<lambda>v. rv_Version (ParseRPM v)"]
            comparator_key [OF rref.comparator_axioms, where f = "\<lambda>v. rv_Release (ParseRPM v)"]]])

lemma rpm_version_ref_flip: "rpm_version_ref b a = - rpm_version_ref a b"
  using cmp_lin_flip [of "rv_Epoch (ParseRPM b)" "rv_Epoch (ParseRPM a)"]
    cmp_lin_flip [of "rtoks (rv_Version (ParseRPM b))" "rtoks (rv_Version (ParseRPM a))"]
    cmp_lin_flip [of "rtoks (rv_Release (ParseRPM b))" "rtoks (rv_Release (ParseRPM a))"]
  by (simp add: rpm_version_ref_def rpm_ref_def cmp_then_def)

lemma rpm_version_ref_range: "rpm_version_ref a b \<in> {- 1, 0, 1}"
  by (simp add: rpm_version_ref_def rpm_ref_def cmp_then_def cmp_lin_def)

lemma rtoks_tilde: "rtoks (v @ CHR ''~'' # x) < rtoks v"
proof (induction v rule: rtoks.induct)
  case (1 v)
  have t: "\<not> is_sep (CHR ''~'')"
    by (simp add: is_sep_def)
  show ?case
  proof (cases "dropWhile is_sep v")
    case Nil
    then have "dropWhile is_sep (v @ CHR ''~'' # x) = CHR ''~'' # x"
      using t by (simp add: dropWhile_append)
    then have "rtoks (v @ CHR ''~'' # x) = RTilde # rtoks x" "rtoks v = [REnd]"
      using Nil by (simp_all add: rtoks.simps [of v] rtoks.simps [of "v @ _"] del: dropWhile_eq_Nil_conv)
    then show ?thesis
      by simp
  next
    case (Cons c r)
    then have app: "dropWhile is_sep (v @ CHR ''~'' # x) = c # (r @ CHR ''~'' # x)"
      by (metis append_Cons dropWhile_append dropWhile_eq_Nil_conv list.distinct(1))
    have seg: "takeWhile p (r @ CHR ''~'' # x) = takeWhile p r"
      "dropWhile p (r @ CHR ''~'' # x) = dropWhile p r @ CHR ''~'' # x" if "\<not> p (CHR ''~'')" for p
      using that by (induction r) auto
    note segs = seg [of isASCIIDigit] seg [of isASCIILetter]
    have sep: "\<not> is_sep c"
      using Cons by (rule sep_head)
    consider "c = CHR ''~''" | "c = CHR ''^''" | "isASCIIDigit c" "c \<noteq> CHR ''~''" "c \<noteq> CHR ''^''"
      | "\<not> isASCIIDigit c" "isASCIILetter c" "c \<noteq> CHR ''~''" "c \<noteq> CHR ''^''"
      using sep by (auto simp: is_sep_def isRPMAlnum_def)
    then show ?thesis
    proof cases
      case 1
      then show ?thesis
        using "1.IH"(1) [OF Cons] Cons by (simp add: rtoks.simps [of v] rtoks.simps [of "v @ _"] app)
    next
      case 2
      then show ?thesis
        using "1.IH"(2) [OF Cons] Cons by (simp add: rtoks.simps [of v] rtoks.simps [of "v @ _"] app)
    next
      case 3
      then show ?thesis
        using "1.IH"(3) [OF Cons] Cons segs tilde_caret_not_alnum
        by (simp add: rtoks.simps [of v] rtoks.simps [of "v @ _"] app)
    next
      case 4
      then show ?thesis
        using "1.IH"(4) [OF Cons] Cons segs tilde_caret_not_alnum
        by (simp add: rtoks.simps [of v] rtoks.simps [of "v @ _"] app)
    qed
  qed
qed

section \<open>Properties\<close>

text \<open>C4: The index loop of \<open>rpmVerCmp\<close> terminates on all strings and computes the
  lexicographic comparison of the two token lists.\<close>

theorem rpmVerCmp_refines: "rpmVerCmp a b = cmp_lin (rtoks a) (rtoks b)"
  by (simp add: rpmVerCmp_ref rpm_ref_def)

text \<open>RPM version comparison is a total preorder with results -1, 0 and 1, and a tilde
  suffix makes a component strictly older.\<close>

theorem CompareRPM_total_preorder:
  "CompareRPM b a = - CompareRPM a b \<and> CompareRPM a b \<in> {- 1, 0, 1} \<and>
   (CompareRPM a b \<le> 0 \<and> CompareRPM b c \<le> 0 \<longrightarrow> CompareRPM a c \<le> 0) \<and>
   rpmVerCmp (v @ CHR ''~'' # x) v = - 1"
  using rver.cmp_trans [of a b c] rpm_version_ref_range [of a b] rtoks_tilde [of v x]
  by (simp add: CompareRPM_ref rpm_version_ref_flip [of b a] rpmVerCmp_ref rpm_ref_def cmp_lin_def)

theorem CompareRPM_total_preorder_witness:
  "CompareRPM ''1.10-1'' ''1.9-1'' = - CompareRPM ''1.9-1'' ''1.10-1'' \<and>
   rpmVerCmp ''2.0~rc1'' ''2.0'' = - 1"
  using CompareRPM_total_preorder [of "''1.10-1''" "''1.9-1''" "[]" "''2.0''" "''rc1''"] by simp

end
