(* ===== verification/Version_Compare.thy ===== *)
theory Version_Compare
  imports Rpm_Version
begin

text \<open>
  internal/vuln/compare.go and internal/vuln/vuln.go: the choice of a version scheme, the
  three-valued verdict on an installed version against an upstream floor, and the matching of
  package names. The result of a comparison is an \<open>option\<close>, \<open>None\<close> being a comparison
  that does not return (see Dpkg_Version).
\<close>

section \<open>The code\<close>

datatype Scheme = SchemeAuto | SchemeDpkg | SchemeRPM

definition rpmReleaseMarkers :: "string list" where
  "rpmReleaseMarkers =
     [''.el'', ''.fc'', ''.amzn'', ''.sles'', ''.suse'', ''.oe'', ''.ky'', ''.ocs'', ''.rocky'', ''.alma'']"

definition dpkgRevisionMarkers :: "string list" where
  "dpkgRevisionMarkers = [''ubuntu'', ''deb'', ''+really'', ''~bpo'', ''build'']"

definition any_marker :: "string list \<Rightarrow> string list \<Rightarrow> bool" where
  "any_marker markers versions \<longleftrightarrow>
     list_ex (\<lambda>v. list_ex (\<lambda>m. Contains (ToLower v) m) markers) versions"

definition DetectScheme :: "string list \<Rightarrow> Scheme" where
  "DetectScheme versions =
     (if any_marker rpmReleaseMarkers versions then SchemeRPM
      else if any_marker dpkgRevisionMarkers versions then SchemeDpkg
      else SchemeDpkg)"

text \<open>The default branch calls \<open>Compare\<close> again with the detected scheme, which is never
  \<open>SchemeAuto\<close>.\<close>

fun Compare_known :: "string \<Rightarrow> string \<Rightarrow> Scheme \<Rightarrow> int option" where
  "Compare_known a b SchemeRPM = Some (CompareRPM a b)"
| "Compare_known a b _ = CompareDpkg a b"

definition Compare :: "string \<Rightarrow> string \<Rightarrow> Scheme \<Rightarrow> int option" where
  "Compare a b scheme =
     (case scheme of
        SchemeRPM \<Rightarrow> Some (CompareRPM a b)
      | SchemeDpkg \<Rightarrow> CompareDpkg a b
      | SchemeAuto \<Rightarrow> Compare_known a b (DetectScheme [a, b]))"

datatype Verdict = VerdictUnknown | VerdictVulnerable | VerdictNotVulnerable

fun Verdict_String :: "Verdict \<Rightarrow> string" where
  "Verdict_String VerdictVulnerable = ''vulnerable''"
| "Verdict_String VerdictNotVulnerable = ''not-vulnerable''"
| "Verdict_String VerdictUnknown = ''unknown''"

record Assessment =
  as_Verdict :: Verdict
  as_Reason :: string

definition hasDistroRevision :: "string \<Rightarrow> Scheme \<Rightarrow> bool" where
  "hasDistroRevision version scheme =
     (if scheme = SchemeRPM then HasRelease (ParseRPM version) else HasRevision (ParseDpkg version))"

definition upstreamOf :: "string \<Rightarrow> Scheme \<Rightarrow> string" where
  "upstreamOf version scheme =
     (if scheme = SchemeRPM then rv_Version (ParseRPM version) else dv_Upstream (ParseDpkg version))"

definition Assess :: "string \<Rightarrow> string \<Rightarrow> Scheme \<Rightarrow> Assessment option" where
  "Assess installed0 floor0 scheme0 =
     (let installed = TrimSpace installed0; flr = TrimSpace floor0
      in if installed = [] \<or> flr = [] then
           Some \<lparr>as_Verdict = VerdictUnknown, as_Reason = ''missing version or advisory floor''\<rparr>
         else
           let scheme = (if scheme0 = SchemeAuto then DetectScheme [installed, flr] else scheme0)
           in case Compare (upstreamOf installed scheme) (upstreamOf flr scheme) scheme of
                None \<Rightarrow> None
              | Some upstreamCmp \<Rightarrow>
                  if 0 \<le> upstreamCmp then
                    Some \<lparr>as_Verdict = VerdictNotVulnerable,
                          as_Reason = ''installed version is at or above the advisory floor''\<rparr>
                  else if hasDistroRevision installed scheme \<and> \<not> hasDistroRevision flr scheme then
                    Some \<lparr>as_Verdict = VerdictUnknown,
                          as_Reason = ''distro-packaged build below an upstream floor; a backported fix cannot be ruled out without a distro security feed''\<rparr>
                  else
                    Some \<lparr>as_Verdict = VerdictVulnerable,
                          as_Reason = ''installed version is below the advisory floor''\<rparr>)"

subsection \<open>Package names (vuln.go)\<close>

definition packageAliases :: "(string \<times> string) list" where
  "packageAliases =
     [(''docker.io'', ''docker''), (''docker-ce'', ''docker''), (''docker-ee'', ''docker''),
      (''google-chrome'', ''google chrome''), (''google-chrome-stable'', ''google chrome''),
      (''google chrome'', ''google chrome''), (''adobe-photoshop'', ''adobe photoshop''),
      (''openssh'', ''openssh''), (''openssh-server'', ''openssh''), (''openssh-clients'', ''openssh''),
      (''openssl'', ''openssl''), (''openssl-libs'', ''openssl''), (''openssl-devel'', ''openssl''),
      (''kernel'', ''kernel''), (''kernel-core'', ''kernel''), (''kernel-modules'', ''kernel''),
      (''glibc'', ''glibc''), (''glibc-common'', ''glibc''),
      (''curl'', ''curl''), (''libcurl'', ''curl''), (''libcurl-minimal'', ''curl'')]"

definition StripDebianEpoch :: "string \<Rightarrow> string" where
  "StripDebianEpoch raw =
     (let s = TrimSpace raw
      in case IndexByte s CHR '':'' of None \<Rightarrow> s | Some i \<Rightarrow> drop (Suc i) s)"

definition VersionOlderThan :: "string \<Rightarrow> string \<Rightarrow> bool option" where
  "VersionOlderThan installed flr =
     map_option (\<lambda>a. as_Verdict a = VerdictVulnerable) (Assess installed flr SchemeAuto)"

definition canonicalPackage :: "string \<Rightarrow> string" where
  "canonicalPackage name =
     (let lower = ToLower (TrimSpace name)
      in case map_of packageAliases lower of
           Some v \<Rightarrow> v
         | None \<Rightarrow>
             let dashed = ReplaceByte lower CHR ''_'' CHR ''-''
             in case map_of packageAliases dashed of
                  Some v \<Rightarrow> v
                | None \<Rightarrow> ReplaceByte dashed CHR ''-'' CHR '' '')"

definition PackageMatches :: "string \<Rightarrow> string \<Rightarrow> bool" where
  "PackageMatches advisoryPackage installedName \<longleftrightarrow>
     canonicalPackage installedName = canonicalPackage advisoryPackage"

definition IsHighOrCritical :: "string \<Rightarrow> bool" where
  "IsHighOrCritical severity \<longleftrightarrow> ToLower (TrimSpace severity) \<in> {''high'', ''critical''}"

section \<open>The comparator of a scheme\<close>

text \<open>The total comparator of a fixed scheme, which \<open>Compare\<close> computes on versions without
  NUL. \<open>SchemeAuto\<close> chooses per pair of versions, so it is no single order.\<close>

definition scheme_cmp :: "Scheme \<Rightarrow> string \<Rightarrow> string \<Rightarrow> int" where
  "scheme_cmp scheme = (if scheme = SchemeRPM then rpm_version_ref else dpkg_version_ref)"

definition compare_ref :: "Scheme \<Rightarrow> string \<Rightarrow> string \<Rightarrow> int" where
  "compare_ref scheme a b =
     scheme_cmp (if scheme = SchemeAuto then DetectScheme [a, b] else scheme) a b"

interpretation scm: comparator "scheme_cmp scheme" for scheme
  using rver.comparator_axioms dver.comparator_axioms by (simp add: scheme_cmp_def)

lemma DetectScheme_not_Auto [simp]: "DetectScheme vs \<noteq> SchemeAuto" "SchemeAuto \<noteq> DetectScheme vs"
  by (simp_all add: DetectScheme_def)

lemma Compare_known_ref:
  "nul_free a \<Longrightarrow> nul_free b \<Longrightarrow> scheme \<noteq> SchemeAuto \<Longrightarrow>
   Compare_known a b scheme = Some (scheme_cmp scheme a b)"
  by (cases scheme) (simp_all add: scheme_cmp_def CompareDpkg_ref CompareRPM_ref)

lemma Compare_ref [simp]:
  "nul_free a \<Longrightarrow> nul_free b \<Longrightarrow> Compare a b scheme = Some (compare_ref scheme a b)"
  by (cases scheme)
    (simp_all add: Compare_def compare_ref_def Compare_known_ref scheme_cmp_def CompareDpkg_ref CompareRPM_ref)

lemma compare_ref_known: "scheme \<noteq> SchemeAuto \<Longrightarrow> compare_ref scheme = scheme_cmp scheme"
  by (simp add: compare_ref_def fun_eq_iff)

lemma nul_free_TrimSpace [simp]: "nul_free s \<Longrightarrow> nul_free (TrimSpace s)"
  using set_TrimSpace [of s] by (auto simp: nul_free_def)

lemma nul_free_upstreamOf: "nul_free s \<Longrightarrow> nul_free (upstreamOf s SchemeDpkg)"
  by (simp add: upstreamOf_def nul_free_ParseDpkg)

lemma nul_free_ParseRPM:
  assumes "nul_free s"
  shows "nul_free (rv_Version (ParseRPM s))" "nul_free (rv_Release (ParseRPM s))"
proof -
  let ?t = "snd (split_epoch (TrimSpace s))"
  have t: "set ?t \<subseteq> set s"
    using set_split_epoch [of "TrimSpace s"] set_TrimSpace [of s] by (rule subset_trans)
  have "set (rv_Version (ParseRPM s)) \<subseteq> set ?t" "set (rv_Release (ParseRPM s)) \<subseteq> set ?t"
    by (simp_all add: ParseRPM_def case_prod_beta set_take_subset set_drop_subset split: option.split)
  then show "nul_free (rv_Version (ParseRPM s))" "nul_free (rv_Release (ParseRPM s))"
    using t assms by (auto simp: nul_free_def)
qed

lemma nul_free_upstream [simp]: "nul_free s \<Longrightarrow> nul_free (upstreamOf s scheme)"
  by (simp add: upstreamOf_def nul_free_ParseDpkg nul_free_ParseRPM)

lemma Assess_returns:
  "nul_free installed \<Longrightarrow> nul_free flr \<Longrightarrow> \<exists>a. Assess installed flr scheme = Some a"
  by (simp add: Assess_def Let_def)

section \<open>Properties\<close>



end
