(* ===== verification/Vuln_Types.thy ===== *)
theory Vuln_Types
  imports Complex_Main Lifecycle_Assess Repo_Health Version_Compare
begin

text \<open>
  The data of internal/vuln/match.go (with the detail records of eol.go and repohealth.go):
  packages, hosts, advisory ranges as candidates, findings, counters, and the interface
  \<open>RangeSource\<close> through which the matcher sees the advisory store. A score (\<open>*float64\<close>)
  is an optional rational: every finite float64 is one, and the matcher only carries it.
\<close>

section \<open>Vocabulary\<close>

type_synonym score = "rat option"

definition StateAffected :: string where "StateAffected = ''affected''"
definition StateFixed :: string where "StateFixed = ''fixed''"
definition StateWillNotFix :: string where "StateWillNotFix = ''will_not_fix''"
definition StateNotAffected :: string where "StateNotAffected = ''not_affected''"
definition StateUnderInvestigation :: string where "StateUnderInvestigation = ''under_investigation''"

lemmas state_defs =
  StateAffected_def StateFixed_def StateWillNotFix_def StateNotAffected_def StateUnderInvestigation_def

lemma states_distinct [simp]:
  "StateAffected \<noteq> StateFixed" "StateAffected \<noteq> StateWillNotFix" "StateAffected \<noteq> StateNotAffected"
  "StateAffected \<noteq> StateUnderInvestigation" "StateFixed \<noteq> StateAffected" "StateFixed \<noteq> StateWillNotFix"
  "StateFixed \<noteq> StateNotAffected" "StateFixed \<noteq> StateUnderInvestigation" "StateWillNotFix \<noteq> StateAffected"
  "StateWillNotFix \<noteq> StateFixed" "StateWillNotFix \<noteq> StateNotAffected" "StateWillNotFix \<noteq> StateUnderInvestigation"
  "StateNotAffected \<noteq> StateAffected" "StateNotAffected \<noteq> StateFixed" "StateNotAffected \<noteq> StateWillNotFix"
  "StateNotAffected \<noteq> StateUnderInvestigation" "StateUnderInvestigation \<noteq> StateAffected" "StateUnderInvestigation \<noteq> StateFixed"
  "StateUnderInvestigation \<noteq> StateWillNotFix" "StateUnderInvestigation \<noteq> StateNotAffected"
  by (simp_all add: state_defs)

datatype Kind = KindFinding | KindUnfixed | KindInformational | KindAwaitingVendor | KindEOL | KindRepoHealth

datatype Basis = BasisDistro | BasisUpstream | BasisLifecycle | BasisHost

datatype Coverage = CoverageFull | CoverageNoFeed | CoverageNoDistro

definition ecosystemUbuntuPro :: string where "ecosystemUbuntuPro = ''Ubuntu:Pro''"

section \<open>Hosts and ranges\<close>

record Package =
  pk_Name :: string
  pk_Version :: string
  pk_SourcePackage :: string
  pk_SourceVersion :: string
  pk_Origin :: string
  pk_OriginRepo :: string

record Host =
  ho_Distro :: string
  ho_Release :: string
  ho_PackageManager :: string
  ho_Packages :: "Package list"
  ho_AsOf :: "time option"
  ho_RepoHealth :: "Report option"
  ho_StaleAfter :: duration

record Candidate =
  cd_RangeID :: int
  cd_AdvisoryID :: string
  cd_CVE :: string
  cd_Severity :: string
  cd_Summary :: string
  cd_KEV :: bool
  cd_EPSS :: score
  cd_CVSS :: score
  cd_Ecosystem :: string
  cd_Distro :: string
  cd_Release :: string
  cd_Package :: string
  cd_SourcePackage :: string
  cd_Introduced :: string
  cd_Fixed :: string
  cd_State :: string
  cd_SnapshotID :: "int option"
  cd_Feed :: string
  cd_FeedDate :: "time option"
  cd_Issued :: string

text \<open>An error is its message. \<open>rs_Lifecycle\<close> is \<open>None\<close> for a source that does not also
  implement \<open>lifecycle.Source\<close>.\<close>

record RangeSource =
  rs_DistroRanges :: "string \<Rightarrow> string \<Rightarrow> string list \<Rightarrow> string + Candidate list"
  rs_UpstreamRanges :: "string list \<Rightarrow> string + Candidate list"
  rs_DistroCovered :: "string \<Rightarrow> string \<Rightarrow> string + bool"
  rs_Lifecycle :: "(string list \<Rightarrow> string + Release list) option"

section \<open>Findings\<close>

record EOLDetail =
  ed_Product :: string
  ed_ProductLabel :: string
  ed_Cycle :: string
  ed_Stage :: Stage
  ed_StageFrom :: string
  ed_EolFrom :: string
  ed_EoasFrom :: string
  ed_EoesFrom :: string
  ed_Packages :: "string list"
  ed_Origin :: string
  ed_OriginRepo :: string
  ed_UpgradeTo :: string
  ed_UpgradeToSupportedUntil :: string
  ed_Latest :: string
  ed_Link :: string

record RepoProblem =
  rq_Code :: string
  rq_Severity :: string
  rq_Title :: string
  rq_Detail :: string

record RepoDetail =
  rd_RepoID :: string
  rd_Label :: string
  rd_URI :: string
  rd_Suite :: string
  rd_Manager :: string
  rd_Source :: string
  rd_Signature :: string
  rd_KeyID :: string
  rd_SignedBy :: string
  rd_Problems :: "RepoProblem list"
  rd_ReleaseDate :: string
  rd_ValidUntil :: string
  rd_MetadataTime :: string
  rd_KeyExpires :: string
  rd_LastRefresh :: string
  rd_LastRefreshSource :: string
  rd_StaleAfterDays :: int
  rd_Fix :: string

record Finding =
  fi_AdvisoryID :: string
  fi_CVE :: string
  fi_RangeID :: int
  fi_SnapshotID :: "int option"
  fi_Feed :: string
  fi_FeedDate :: "time option"
  fi_Kind :: Kind
  fi_Basis :: Basis
  fi_Package :: string
  fi_SourcePackage :: string
  fi_Installed :: string
  fi_Fixed :: string
  fi_FixState :: string
  fi_Severity :: string
  fi_Summary :: string
  fi_KEV :: bool
  fi_EPSS :: score
  fi_CVSS :: score
  fi_Reason :: string
  fi_UpstreamFixedOn :: string
  fi_EOL :: "EOLDetail option"
  fi_Repo :: "RepoDetail option"

definition familyOf :: "string \<Rightarrow> string \<Rightarrow> string" where
  "familyOf name source = (if source \<noteq> [] then source else name)"

definition Key :: "Finding \<Rightarrow> string" where
  "Key f = fi_AdvisoryID f @ [NUL] @ familyOf (fi_Package f) (fi_SourcePackage f)"

record Stats =
  st_Packages :: nat
  st_DistroMapped :: nat
  st_Upstream :: nat
  st_NotAffected :: nat
  st_Undecidable :: nat
  st_Advisories :: nat
  st_Unfixed :: nat
  st_Informational :: nat
  st_AwaitingVendor :: nat
  st_EOLMapped :: nat
  st_EOLDistroOrigin :: nat
  st_EOLOriginUnknown :: nat
  st_EOLNoRelease :: nat
  st_EOLSupported :: nat
  st_RepoHealthChecked :: nat
  st_RepoHealthFindings :: nat

definition zero_Stats :: Stats where
  "zero_Stats =
     \<lparr>st_Packages = 0, st_DistroMapped = 0, st_Upstream = 0, st_NotAffected = 0, st_Undecidable = 0,
      st_Advisories = 0, st_Unfixed = 0, st_Informational = 0, st_AwaitingVendor = 0, st_EOLMapped = 0,
      st_EOLDistroOrigin = 0, st_EOLOriginUnknown = 0, st_EOLNoRelease = 0, st_EOLSupported = 0,
      st_RepoHealthChecked = 0, st_RepoHealthFindings = 0\<rparr>"

record Result =
  rt_RepoHealthAssessed :: bool
  rt_Distro :: string
  rt_Release :: string
  rt_Coverage :: Coverage
  rt_Findings :: "Finding list"
  rt_Stats :: Stats

definition Open :: "Result \<Rightarrow> Finding list" where
  "Open r = filter (\<lambda>f. fi_Kind f = KindFinding) (rt_Findings r)"

section \<open>Distributions\<close>

definition rebuildBase :: "string \<Rightarrow> string" where
  "rebuildBase distro = (if distro \<in> {''rocky'', ''almalinux''} then ''rhel'' else [])"

definition vendorName :: "string \<Rightarrow> string" where
  "vendorName distro =
     (if distro = ''rocky'' then ''Rocky Linux''
      else if distro = ''almalinux'' then ''AlmaLinux'' else distro)"

definition major_of :: "string \<Rightarrow> string" where
  "major_of v = fst (CutByte v CHR ''.'')"

definition NormalizeDistro :: "string \<Rightarrow> string \<Rightarrow> string \<Rightarrow> string \<times> string \<times> Scheme" where
  "NormalizeDistro id0 versionID0 manager =
     (let did = ToLower (TrimSpace id0);
          versionID = TrimSpace versionID0;
          scheme = (if manager = ''dpkg'' then SchemeDpkg else if manager = ''rpm'' then SchemeRPM else SchemeAuto);
          or_rpm = (if scheme = SchemeAuto then SchemeRPM else scheme);
          or_dpkg = (if scheme = SchemeAuto then SchemeDpkg else scheme)
      in if did = [] then ([], [], scheme)
         else if did \<in> {''rocky'', ''almalinux''} then (did, major_of versionID, or_rpm)
         else if did \<in> {''rhel'', ''centos'', ''ol''} then (''rhel'', major_of versionID, or_rpm)
         else if did \<in> {''opensuse-tumbleweed'', ''opensuse-slowroll''} then (did, [], or_rpm)
         else if did = ''debian'' then (''debian'', major_of versionID, or_dpkg)
         else if did = ''ubuntu'' then (''ubuntu'', versionID, or_dpkg)
         else if did \<in> {''opensuse-leap'', ''sles'', ''sle-micro'', ''fedora'', ''amzn''} then (did, versionID, or_rpm)
         else (did, versionID, scheme))"

definition usesUbuntuPro :: "Host \<Rightarrow> bool" where
  "usesUbuntuPro h \<longleftrightarrow>
     list_ex (\<lambda>p. Contains (ToLower (pk_Version p)) ''+esm'' \<or> Contains (ToLower (pk_Version p)) ''~esm'')
       (ho_Packages h)"

definition severityRank :: "string \<Rightarrow> nat" where
  "severityRank s =
     (let l = ToLower s
      in if l = ''critical'' then 4 else if l = ''high'' then 3 else if l = ''medium'' then 2
         else if l = ''low'' then 1 else 0)"

fun kindRank :: "Kind \<Rightarrow> nat" where
  "kindRank KindFinding = 0"
| "kindRank KindEOL = 1"
| "kindRank KindRepoHealth = 1"
| "kindRank KindAwaitingVendor = 2"
| "kindRank KindUnfixed = 3"
| "kindRank KindInformational = 4"

end
