(* ===== verification/Vuln_Judge.thy ===== *)
theory Vuln_Judge
  imports Vuln_Types "HOL-Library.Monad_Syntax"
begin

text \<open>
  The judgement of internal/vuln/match.go: one advisory, one package, all ranges of the
  advisory that apply to the package. A comparison of versions may not return (see
  Dpkg_Version), so the judgement is an \<open>option\<close>. The second part gives the judgement a
  specification: every range has a class (the distribution clears it, the installed version
  has reached its fix, a fix is above it, ...), and the judgement is decided by which classes
  occur.
\<close>

section \<open>The code\<close>

definition rangeAppliesTo :: "Candidate \<Rightarrow> Package \<Rightarrow> bool" where
  "rangeAppliesTo c p =
     (if cd_SourcePackage c \<noteq> [] then
        (if pk_SourcePackage p \<noteq> [] then cd_SourcePackage c = pk_SourcePackage p
         else cd_SourcePackage c = pk_Name p \<or> cd_Package c = pk_Name p)
      else cd_Package c = pk_Name p \<or> pk_SourcePackage p \<noteq> [] \<and> cd_Package c = pk_SourcePackage p)"

definition hasEpoch :: "string \<Rightarrow> bool" where
  "hasEpoch v =
     (case IndexByte v CHR '':'' of
        None \<Rightarrow> False
      | Some i \<Rightarrow> 0 < i \<and> list_all isASCIIDigit (take i v))"

definition inheritEpoch :: "string \<Rightarrow> string \<Rightarrow> string" where
  "inheritEpoch srcVer binVer =
     (if hasEpoch srcVer then srcVer
      else case IndexByte binVer CHR '':'' of
             None \<Rightarrow> srcVer
           | Some i \<Rightarrow> if 0 < i \<and> hasEpoch (take (Suc i) binVer) then take (Suc i) binVer @ srcVer else srcVer)"

definition versionFor :: "Candidate \<Rightarrow> Package \<Rightarrow> string" where
  "versionFor c p =
     (if cd_SourcePackage c \<noteq> [] \<and> pk_SourcePackage p \<noteq> [] \<and> pk_SourceVersion p \<noteq> [] \<and>
         cd_SourcePackage c = pk_SourcePackage p
      then inheritEpoch (pk_SourceVersion p) (pk_Version p)
      else pk_Version p)"

definition awaitingReason :: "Candidate \<Rightarrow> string \<Rightarrow> string" where
  "awaitingReason up distro =
     ''fixed upstream by Red Hat in '' @ cd_Fixed up @
     (if cd_Issued up \<noteq> [] then '' on '' @ cd_Issued up else []) @
     ''; not yet released by '' @ vendorName distro"

definition newFinding :: "Candidate \<Rightarrow> Package \<Rightarrow> string \<Rightarrow> Basis \<Rightarrow> Kind \<Rightarrow> string \<Rightarrow> Finding" where
  "newFinding c p installed basis kind reason =
     \<lparr>fi_AdvisoryID = cd_AdvisoryID c, fi_CVE = cd_CVE c, fi_RangeID = cd_RangeID c,
      fi_SnapshotID = cd_SnapshotID c, fi_Feed = cd_Feed c, fi_FeedDate = cd_FeedDate c,
      fi_Kind = kind, fi_Basis = basis, fi_Package = pk_Name p, fi_SourcePackage = pk_SourcePackage p,
      fi_Installed = installed, fi_Fixed = cd_Fixed c, fi_FixState = cd_State c,
      fi_Severity = cd_Severity c, fi_Summary = cd_Summary c, fi_KEV = cd_KEV c, fi_EPSS = cd_EPSS c,
      fi_CVSS = cd_CVSS c, fi_Reason = reason, fi_UpstreamFixedOn = [], fi_EOL = None, fi_Repo = None\<rparr>"

datatype judgement = judgeClean | judgeNotAffected | judgeFinding Finding

text \<open>The variables of \<open>judge\<close>; \<open>bestFixed\<close> and \<open>bestUp\<close> carry the version beside
  the range.\<close>

record jstate =
  j_bestFixed :: "(Candidate \<times> string) option"
  j_bestUp :: "(Candidate \<times> string) option"
  j_affected :: "Candidate option"
  j_informative :: "Candidate option"
  j_proOnly :: "Candidate option"
  j_clean :: bool
  j_notAff :: bool

definition j_init :: jstate where
  "j_init = \<lparr>j_bestFixed = None, j_bestUp = None, j_affected = None, j_informative = None,
     j_proOnly = None, j_clean = False, j_notAff = False\<rparr>"

definition lower_fix :: "Scheme \<Rightarrow> Candidate \<Rightarrow> (Candidate \<times> string) option \<Rightarrow> bool option" where
  "lower_fix scheme c best =
     (case best of
        None \<Rightarrow> Some True
      | Some (b, _) \<Rightarrow> map_option (\<lambda>k. k < 0) (Compare (cd_Fixed c) (cd_Fixed b) scheme))"

definition judge_step :: "Package \<Rightarrow> Scheme \<Rightarrow> bool \<Rightarrow> string \<Rightarrow> jstate \<Rightarrow> Candidate \<Rightarrow> jstate option" where
  "judge_step p scheme onPro base s c =
     (let ver = versionFor c p in
      do {
        predates \<leftarrow> (if cd_Introduced c \<noteq> [] then map_option (\<lambda>k. k < 0) (Compare ver (cd_Introduced c) scheme)
                    else Some False);
        if predates then Some s
        else if cd_Ecosystem c = ecosystemUbuntuPro \<and> \<not> onPro \<and> cd_State c = StateFixed then do {
          k \<leftarrow> Compare ver (cd_Fixed c) scheme;
          Some (if k < 0 then s\<lparr>j_proOnly := Some c\<rparr> else s\<lparr>j_clean := True\<rparr>)
        }
        else if cd_State c = StateNotAffected then Some (s\<lparr>j_notAff := True\<rparr>)
        else if cd_State c = StateFixed then
          (if cd_Fixed c = [] then Some s
           else do {
             k \<leftarrow> Compare ver (cd_Fixed c) scheme;
             if 0 \<le> k then Some (s\<lparr>j_clean := True\<rparr>)
             else if base \<noteq> [] \<and> cd_Distro c = base then do {
               lower \<leftarrow> lower_fix scheme c (j_bestUp s);
               Some (if lower then s\<lparr>j_bestUp := Some (c, ver)\<rparr> else s)
             }
             else do {
               lower \<leftarrow> lower_fix scheme c (j_bestFixed s);
               Some (if lower then s\<lparr>j_bestFixed := Some (c, ver)\<rparr> else s)
             }
           })
        else if cd_State c = StateAffected then do {
          reached \<leftarrow> (if cd_Fixed c \<noteq> [] then map_option (\<lambda>k. 0 \<le> k) (Compare ver (cd_Fixed c) scheme)
                     else Some False);
          Some (if reached then s\<lparr>j_clean := True\<rparr> else s\<lparr>j_affected := Some c\<rparr>)
        }
        else if cd_State c = StateWillNotFix \<or> cd_State c = StateUnderInvestigation then
          Some (s\<lparr>j_informative := Some c\<rparr>)
        else Some s
      })"

fun judge_loop :: "Package \<Rightarrow> Scheme \<Rightarrow> bool \<Rightarrow> string \<Rightarrow> jstate \<Rightarrow> Candidate list \<Rightarrow> jstate option" where
  "judge_loop p scheme onPro base s [] = Some s"
| "judge_loop p scheme onPro base s (c # cs) =
     do { s' \<leftarrow> judge_step p scheme onPro base s c; judge_loop p scheme onPro base s' cs }"

text \<open>The switch after the loop.\<close>

definition judge_result :: "Package \<Rightarrow> string \<Rightarrow> jstate \<Rightarrow> judgement" where
  "judge_result p distro s =
     (if j_notAff s then judgeNotAffected
      else if j_clean s then judgeClean
      else case j_bestFixed s of
        Some (c, ver) \<Rightarrow>
          judgeFinding (newFinding c p ver BasisDistro KindFinding
            ''installed version is below the version the distro fixed this in'')
      | None \<Rightarrow> (case j_bestUp s of
        Some (c, ver) \<Rightarrow>
          judgeFinding ((newFinding c p ver BasisDistro KindAwaitingVendor (awaitingReason c distro))
            \<lparr>fi_UpstreamFixedOn := cd_Issued c\<rparr>)
      | None \<Rightarrow> (case j_proOnly s of
        Some c \<Rightarrow>
          judgeFinding (newFinding c p (versionFor c p) BasisDistro KindUnfixed
            ''the fix ships only through Ubuntu Pro (ESM) and this host does not appear to use it'')
      | None \<Rightarrow> (case j_affected s of
        Some c \<Rightarrow>
          judgeFinding (newFinding c p (pk_Version p) BasisDistro KindUnfixed
            ''the distro lists this package as affected and has published no fix'')
      | None \<Rightarrow> (case j_informative s of
        Some c \<Rightarrow>
          judgeFinding (newFinding c p (pk_Version p) BasisDistro KindInformational
            (if cd_State c = StateUnderInvestigation then ''the distro is still investigating this''
             else ''the distro has decided not to fix this''))
      | None \<Rightarrow> judgeClean)))))"

definition judge :: "Package \<Rightarrow> Candidate list \<Rightarrow> Scheme \<Rightarrow> bool \<Rightarrow> string \<Rightarrow> string \<Rightarrow> judgement option" where
  "judge p cands scheme onPro distro base =
     map_option (judge_result p distro) (judge_loop p scheme onPro base j_init cands)"

text \<open>Without any condition on the versions, a finding quotes one of the ranges.\<close>

definition quoted_in :: "Candidate set \<Rightarrow> jstate \<Rightarrow> bool" where
  "quoted_in cs s \<longleftrightarrow>
     (\<forall>c v. j_bestFixed s = Some (c, v) \<longrightarrow> c \<in> cs) \<and> (\<forall>c v. j_bestUp s = Some (c, v) \<longrightarrow> c \<in> cs) \<and>
     (\<forall>c. j_affected s = Some c \<longrightarrow> c \<in> cs) \<and> (\<forall>c. j_informative s = Some c \<longrightarrow> c \<in> cs) \<and>
     (\<forall>c. j_proOnly s = Some c \<longrightarrow> c \<in> cs)"

lemma judge_step_cases:
  assumes "judge_step p scheme onPro base s c = Some s'"
  shows "s' = s \<or> s' = s\<lparr>j_proOnly := Some c\<rparr> \<or> s' = s\<lparr>j_clean := True\<rparr> \<or> s' = s\<lparr>j_notAff := True\<rparr> \<or>
    s' = s\<lparr>j_bestUp := Some (c, versionFor c p)\<rparr> \<or> s' = s\<lparr>j_bestFixed := Some (c, versionFor c p)\<rparr> \<or>
    s' = s\<lparr>j_affected := Some c\<rparr> \<or> s' = s\<lparr>j_informative := Some c\<rparr>"
  using assms unfolding judge_step_def Let_def
  by (simp split: Option.bind_split_asm if_split_asm)

lemma judge_step_quoted:
  assumes "judge_step p scheme onPro base s c = Some s'" "quoted_in cs s" "c \<in> cs"
  shows "quoted_in cs s'"
  using judge_step_cases [OF assms(1)] assms(2,3) by (elim disjE) (simp_all add: quoted_in_def)

lemma judge_loop_quoted:
  assumes "judge_loop p scheme onPro base s cs = Some s'" "quoted_in ds s" "set cs \<subseteq> ds"
  shows "quoted_in ds s'"
  using assms
proof (induction cs arbitrary: s)
  case (Cons c cs)
  obtain s1 where "judge_step p scheme onPro base s c = Some s1" "judge_loop p scheme onPro base s1 cs = Some s'"
    using Cons.prems(1) by (auto split: Option.bind_splits)
  then show ?case
    using Cons judge_step_quoted [of p scheme onPro base s c s1 ds] by simp
qed simp

lemma judge_quotes:
  assumes "judge p cs scheme onPro distro base = Some (judgeFinding f)"
  shows "fi_Package f = pk_Name p \<and> fi_SourcePackage f = pk_SourcePackage p \<and> fi_Basis f = BasisDistro \<and>
    (\<exists>c \<in> set cs. fi_AdvisoryID f = cd_AdvisoryID c \<and> fi_RangeID f = cd_RangeID c)"
proof -
  obtain s where s: "judge_loop p scheme onPro base j_init cs = Some s" "judge_result p distro s = judgeFinding f"
    using assms by (auto simp: judge_def)
  have "quoted_in (set cs) s"
    using judge_loop_quoted [OF s(1)] by (simp add: quoted_in_def j_init_def)
  then show ?thesis
    using s(2) by (auto simp: judge_result_def quoted_in_def newFinding_def split: if_splits option.splits)
qed

section \<open>The classes of ranges\<close>

text \<open>What one range says of one package: nothing (\<open>RSkip\<close>), not affected, patched, a fix
  above the installed version in the host's own feed or in its vendor's, a fix that needs
  Ubuntu Pro, affected without a fix to reach, or informational.\<close>

datatype rclass = RSkip | RNotAff | RClean | RFixHere | RFixUp | RPro | RAff | RInfo

definition predates :: "Scheme \<Rightarrow> Package \<Rightarrow> Candidate \<Rightarrow> bool" where
  "predates scheme p c \<longleftrightarrow>
     cd_Introduced c \<noteq> [] \<and> compare_ref scheme (versionFor c p) (cd_Introduced c) < 0"

definition below_fix :: "Scheme \<Rightarrow> Package \<Rightarrow> Candidate \<Rightarrow> bool" where
  "below_fix scheme p c \<longleftrightarrow> compare_ref scheme (versionFor c p) (cd_Fixed c) < 0"

definition range_class :: "Package \<Rightarrow> Scheme \<Rightarrow> bool \<Rightarrow> string \<Rightarrow> Candidate \<Rightarrow> rclass" where
  "range_class p scheme onPro base c =
     (if predates scheme p c then RSkip
      else if cd_Ecosystem c = ecosystemUbuntuPro \<and> \<not> onPro \<and> cd_State c = StateFixed then
        (if below_fix scheme p c then RPro else RClean)
      else if cd_State c = StateNotAffected then RNotAff
      else if cd_State c = StateFixed then
        (if cd_Fixed c = [] then RSkip
         else if \<not> below_fix scheme p c then RClean
         else if base \<noteq> [] \<and> cd_Distro c = base then RFixUp else RFixHere)
      else if cd_State c = StateAffected then
        (if cd_Fixed c \<noteq> [] \<and> \<not> below_fix scheme p c then RClean else RAff)
      else if cd_State c = StateWillNotFix \<or> cd_State c = StateUnderInvestigation then RInfo
      else RSkip)"

definition keep_lower :: "Scheme \<Rightarrow> Package \<Rightarrow> Candidate \<Rightarrow> (Candidate \<times> string) option \<Rightarrow> (Candidate \<times> string) option" where
  "keep_lower scheme p c best =
     (case best of
        None \<Rightarrow> Some (c, versionFor c p)
      | Some (b, v) \<Rightarrow>
          if compare_ref scheme (cd_Fixed c) (cd_Fixed b) < 0 then Some (c, versionFor c p) else Some (b, v))"

definition class_step :: "Package \<Rightarrow> Scheme \<Rightarrow> bool \<Rightarrow> string \<Rightarrow> jstate \<Rightarrow> Candidate \<Rightarrow> jstate" where
  "class_step p scheme onPro base s c =
     (case range_class p scheme onPro base c of
        RSkip \<Rightarrow> s
      | RNotAff \<Rightarrow> s\<lparr>j_notAff := True\<rparr>
      | RClean \<Rightarrow> s\<lparr>j_clean := True\<rparr>
      | RFixHere \<Rightarrow> s\<lparr>j_bestFixed := keep_lower scheme p c (j_bestFixed s)\<rparr>
      | RFixUp \<Rightarrow> s\<lparr>j_bestUp := keep_lower scheme p c (j_bestUp s)\<rparr>
      | RPro \<Rightarrow> s\<lparr>j_proOnly := Some c\<rparr>
      | RAff \<Rightarrow> s\<lparr>j_affected := Some c\<rparr>
      | RInfo \<Rightarrow> s\<lparr>j_informative := Some c\<rparr>)"

text \<open>Versions without NUL, which is what every comparison needs to return.\<close>

definition cand_plain :: "Candidate \<Rightarrow> bool" where
  "cand_plain c \<longleftrightarrow> nul_free (cd_Introduced c) \<and> nul_free (cd_Fixed c)"

definition pkg_plain :: "Package \<Rightarrow> bool" where
  "pkg_plain p \<longleftrightarrow> nul_free (pk_Version p) \<and> nul_free (pk_SourceVersion p)"

definition best_plain :: "(Candidate \<times> string) option \<Rightarrow> bool" where
  "best_plain b \<longleftrightarrow> (\<forall>c v. b = Some (c, v) \<longrightarrow> cand_plain c)"

lemma nul_free_versionFor:
  assumes "pkg_plain p"
  shows "nul_free (versionFor c p)"
  using assms
  by (auto simp: versionFor_def inheritEpoch_def pkg_plain_def nul_free_def dest: in_set_takeD split: option.splits)

lemma lower_fix_plain:
  "cand_plain c \<Longrightarrow> best_plain b \<Longrightarrow>
   \<exists>l. lower_fix scheme c b = Some l \<and>
     (if l then Some (c, versionFor c p) else b) = keep_lower scheme p c b"
  by (auto simp: lower_fix_def keep_lower_def best_plain_def cand_plain_def split: option.split prod.split)

lemma best_plain_keep_lower:
  "cand_plain c \<Longrightarrow> best_plain b \<Longrightarrow> best_plain (keep_lower scheme p c b)"
  by (auto simp: keep_lower_def best_plain_def split: option.splits prod.splits if_splits)

lemma judge_step_class:
  assumes c: "cand_plain c" and p: "pkg_plain p"
    and s: "best_plain (j_bestFixed s)" "best_plain (j_bestUp s)"
  shows "judge_step p scheme onPro base s c = Some (class_step p scheme onPro base s c)"
proof -
  have ver: "nul_free (versionFor c p)"
    using p by (rule nul_free_versionFor)
  have intro: "(if cd_Introduced c \<noteq> [] then map_option (\<lambda>k. k < 0) (Compare (versionFor c p) (cd_Introduced c) scheme)
      else Some False) = Some (predates scheme p c)"
    using c ver by (simp add: predates_def cand_plain_def)
  have fix_cmp: "Compare (versionFor c p) (cd_Fixed c) scheme = Some (compare_ref scheme (versionFor c p) (cd_Fixed c))"
    using c ver by (simp add: cand_plain_def)
  obtain l where l: "lower_fix scheme c (j_bestFixed s) = Some l"
    "(if l then Some (c, versionFor c p) else j_bestFixed s) = keep_lower scheme p c (j_bestFixed s)"
    using lower_fix_plain [OF c s(1)] by blast
  obtain l' where l': "lower_fix scheme c (j_bestUp s) = Some l'"
    "(if l' then Some (c, versionFor c p) else j_bestUp s) = keep_lower scheme p c (j_bestUp s)"
    using lower_fix_plain [OF c s(2)] by blast
  show ?thesis
    unfolding judge_step_def class_step_def range_class_def intro fix_cmp Let_def l(1) l'(1)
      l(2) [symmetric] l'(2) [symmetric]
    by (auto simp: below_fix_def not_less)
qed

lemma class_step_plain:
  assumes "cand_plain c" "best_plain (j_bestFixed s)" "best_plain (j_bestUp s)"
  shows "best_plain (j_bestFixed (class_step p scheme onPro base s c)) \<and>
    best_plain (j_bestUp (class_step p scheme onPro base s c))"
  using assms by (simp add: class_step_def best_plain_keep_lower split: rclass.split)

lemma judge_loop_class:
  assumes "\<forall>c \<in> set cs. cand_plain c" "pkg_plain p" "best_plain (j_bestFixed s)" "best_plain (j_bestUp s)"
  shows "judge_loop p scheme onPro base s cs = Some (foldl (class_step p scheme onPro base) s cs)"
  using assms
  by (induction cs arbitrary: s) (simp_all add: judge_step_class class_step_plain)

lemma judge_class:
  assumes "\<forall>c \<in> set cs. cand_plain c" "pkg_plain p"
  shows "judge p cs scheme onPro distro base =
    Some (judge_result p distro (foldl (class_step p scheme onPro base) j_init cs))"
  using judge_loop_class [OF assms, of j_init] by (simp add: judge_def j_init_def best_plain_def)

section \<open>What the loop has found\<close>

definition lowest :: "Package \<Rightarrow> Scheme \<Rightarrow> (Candidate \<Rightarrow> bool) \<Rightarrow> Candidate list \<Rightarrow> (Candidate \<times> string) option \<Rightarrow> bool" where
  "lowest p scheme P cs b \<longleftrightarrow>
     (case b of
        None \<Rightarrow> \<forall>c \<in> set cs. \<not> P c
      | Some (c, v) \<Rightarrow> c \<in> set cs \<and> P c \<and> v = versionFor c p \<and>
          (\<forall>c' \<in> set cs. P c' \<longrightarrow> scheme_cmp scheme (cd_Fixed c) (cd_Fixed c') \<le> 0))"

definition some_of :: "(Candidate \<Rightarrow> bool) \<Rightarrow> Candidate list \<Rightarrow> Candidate option \<Rightarrow> bool" where
  "some_of P cs b \<longleftrightarrow>
     (case b of None \<Rightarrow> \<forall>c \<in> set cs. \<not> P c | Some c \<Rightarrow> c \<in> set cs \<and> P c)"

lemma lowest_snoc_skip: "\<not> P c \<Longrightarrow> lowest p scheme P cs b \<Longrightarrow> lowest p scheme P (cs @ [c]) b"
  by (auto simp: lowest_def split: option.splits)

lemma lowest_snoc:
  assumes "scheme \<noteq> SchemeAuto" "P c" "lowest p scheme P cs b"
  shows "lowest p scheme P (cs @ [c]) (keep_lower scheme p c b)"
proof (cases b)
  case None
  then show ?thesis
    using assms scm.cmp_refl by (simp add: lowest_def keep_lower_def)
next
  case (Some bv)
  obtain d v where bv: "bv = (d, v)"
    by force
  have d: "d \<in> set cs" "P d" "v = versionFor d p"
    "\<forall>c' \<in> set cs. P c' \<longrightarrow> scheme_cmp scheme (cd_Fixed d) (cd_Fixed c') \<le> 0"
    using assms(3) Some bv by (simp_all add: lowest_def)
  show ?thesis
  proof (cases "scheme_cmp scheme (cd_Fixed c) (cd_Fixed d) < 0")
    case True
    then have "scheme_cmp scheme (cd_Fixed c) (cd_Fixed c') \<le> 0" if "c' \<in> set cs" "P c'" for c'
      using d(4) that scm.cmp_trans [of scheme "cd_Fixed c" "cd_Fixed d" "cd_Fixed c'"] by auto
    with True Some bv assms show ?thesis
      by (simp add: lowest_def keep_lower_def compare_ref_known scm.cmp_refl)
  next
    case False
    then have "scheme_cmp scheme (cd_Fixed d) (cd_Fixed c) \<le> 0"
      using scm.cmp_ge_flip [of scheme "cd_Fixed c" "cd_Fixed d"] by simp
    with False Some bv d assms show ?thesis
      by (auto simp: lowest_def keep_lower_def compare_ref_known)
  qed
qed

lemma some_of_snoc: "some_of P cs b \<Longrightarrow> some_of P (cs @ [c]) (if P c then Some c else b)"
  by (auto simp: some_of_def split: option.splits)

definition loop_ok :: "Package \<Rightarrow> Scheme \<Rightarrow> (Candidate \<Rightarrow> rclass) \<Rightarrow> Candidate list \<Rightarrow> jstate \<Rightarrow> bool" where
  "loop_ok p scheme cls cs s \<longleftrightarrow>
     (j_notAff s \<longleftrightarrow> RNotAff \<in> cls ` set cs) \<and> (j_clean s \<longleftrightarrow> RClean \<in> cls ` set cs) \<and>
     lowest p scheme (\<lambda>c. cls c = RFixHere) cs (j_bestFixed s) \<and>
     lowest p scheme (\<lambda>c. cls c = RFixUp) cs (j_bestUp s) \<and>
     some_of (\<lambda>c. cls c = RPro) cs (j_proOnly s) \<and> some_of (\<lambda>c. cls c = RAff) cs (j_affected s) \<and>
     some_of (\<lambda>c. cls c = RInfo) cs (j_informative s)"

lemma loop_ok_step:
  assumes "scheme \<noteq> SchemeAuto" "loop_ok p scheme (range_class p scheme onPro base) cs s"
  shows "loop_ok p scheme (range_class p scheme onPro base) (cs @ [c]) (class_step p scheme onPro base s c)"
  using assms
    some_of_snoc [of "\<lambda>c. range_class p scheme onPro base c = RPro" cs "j_proOnly s" c]
    some_of_snoc [of "\<lambda>c. range_class p scheme onPro base c = RAff" cs "j_affected s" c]
    some_of_snoc [of "\<lambda>c. range_class p scheme onPro base c = RInfo" cs "j_informative s" c]
  by (cases "range_class p scheme onPro base c")
    (simp_all add: loop_ok_def class_step_def lowest_snoc lowest_snoc_skip)

lemma loop_ok_fold:
  assumes "scheme \<noteq> SchemeAuto"
  shows "loop_ok p scheme (range_class p scheme onPro base) cs (foldl (class_step p scheme onPro base) j_init cs)"
proof (induction cs rule: rev_induct)
  case Nil
  show ?case
    by (simp add: loop_ok_def j_init_def lowest_def some_of_def)
next
  case (snoc c cs)
  then show ?case
    using loop_ok_step [OF assms] by simp
qed

text \<open>The outcome by classes.\<close>

definition outcome_ok :: "Package \<Rightarrow> Scheme \<Rightarrow> (Candidate \<Rightarrow> rclass) \<Rightarrow> Candidate list \<Rightarrow> Finding \<Rightarrow> bool" where
  "outcome_ok p scheme cls cs f \<longleftrightarrow>
     fi_Package f = pk_Name p \<and> fi_SourcePackage f = pk_SourcePackage p \<and> fi_Basis f = BasisDistro \<and>
     (\<exists>c \<in> set cs. fi_AdvisoryID f = cd_AdvisoryID c \<and> fi_RangeID f = cd_RangeID c \<and>
        fi_Fixed f = cd_Fixed c \<and> fi_FixState f = cd_State c \<and> fi_KEV f = cd_KEV c \<and>
        cls c \<in> (case fi_Kind f of KindFinding \<Rightarrow> {RFixHere} | KindAwaitingVendor \<Rightarrow> {RFixUp}
                 | KindUnfixed \<Rightarrow> {RPro, RAff} | KindInformational \<Rightarrow> {RInfo} | _ \<Rightarrow> {}) \<and>
        (cls c \<in> {RFixHere, RFixUp} \<longrightarrow> fi_Installed f = versionFor c p \<and>
          (\<forall>c' \<in> set cs. cls c' = cls c \<longrightarrow> scheme_cmp scheme (fi_Fixed f) (cd_Fixed c') \<le> 0)))"

text \<open>The first class of the priority order that occurs.\<close>

definition kind_of_classes :: "rclass set \<Rightarrow> Kind option" where
  "kind_of_classes ks =
     (if RNotAff \<in> ks \<or> RClean \<in> ks then None
      else if RFixHere \<in> ks then Some KindFinding
      else if RFixUp \<in> ks then Some KindAwaitingVendor
      else if RPro \<in> ks \<or> RAff \<in> ks then Some KindUnfixed
      else if RInfo \<in> ks then Some KindInformational
      else None)"

lemma lowest_None: "lowest p scheme P cs None \<longleftrightarrow> (\<forall>c \<in> set cs. \<not> P c)"
  by (simp add: lowest_def)

lemma lowest_Some:
  "lowest p scheme P cs (Some (c, v)) \<longleftrightarrow> c \<in> set cs \<and> P c \<and> v = versionFor c p \<and>
     (\<forall>c' \<in> set cs. P c' \<longrightarrow> scheme_cmp scheme (cd_Fixed c) (cd_Fixed c') \<le> 0)"
  by (simp add: lowest_def)

lemma judge_result_ok:
  assumes "loop_ok p scheme cls cs s"
  shows "case judge_result p distro s of
      judgeNotAffected \<Rightarrow> RNotAff \<in> cls ` set cs
    | judgeClean \<Rightarrow> RNotAff \<notin> cls ` set cs \<and> kind_of_classes (cls ` set cs) = None
    | judgeFinding f \<Rightarrow> kind_of_classes (cls ` set cs) = Some (fi_Kind f) \<and> outcome_ok p scheme cls cs f"
proof -
  have flags: "j_notAff s \<longleftrightarrow> RNotAff \<in> cls ` set cs" "j_clean s \<longleftrightarrow> RClean \<in> cls ` set cs"
    and here: "lowest p scheme (\<lambda>c. cls c = RFixHere) cs (j_bestFixed s)"
    and up: "lowest p scheme (\<lambda>c. cls c = RFixUp) cs (j_bestUp s)"
    and pro: "some_of (\<lambda>c. cls c = RPro) cs (j_proOnly s)"
    and aff: "some_of (\<lambda>c. cls c = RAff) cs (j_affected s)"
    and info: "some_of (\<lambda>c. cls c = RInfo) cs (j_informative s)"
    using assms by (simp_all add: loop_ok_def)
  have no: "k \<notin> cls ` set cs" if "\<forall>c \<in> set cs. cls c \<noteq> k" for k
    using that by auto
  have yes: "k \<in> cls ` set cs" if "c \<in> set cs" "cls c = k" for k c
    using that by auto
  show ?thesis
  proof (cases "j_notAff s \<or> j_clean s")
    case True
    then show ?thesis
      using flags by (auto simp: judge_result_def kind_of_classes_def)
  next
    case False
    note fl = False flags
    show ?thesis
    proof (cases "j_bestFixed s")
      case (Some cv)
      obtain c v where "cv = (c, v)" by force
      with Some here fl yes show ?thesis
        by (auto simp: judge_result_def kind_of_classes_def lowest_Some outcome_ok_def newFinding_def intro!: bexI [of _ c])
    next
      case None
      then have nh: "RFixHere \<notin> cls ` set cs"
        using here no by (simp add: lowest_None)
      show ?thesis
      proof (cases "j_bestUp s")
        case (Some cv)
        obtain c v where "cv = (c, v)" by force
        with Some None nh up fl yes show ?thesis
          by (auto simp: judge_result_def kind_of_classes_def lowest_Some outcome_ok_def newFinding_def intro!: bexI [of _ c])
      next
        case up_None: None
        then have nu: "RFixUp \<notin> cls ` set cs"
          using up no by (simp add: lowest_None)
        consider c where "j_proOnly s = Some c" | c where "j_proOnly s = None" "j_affected s = Some c"
          | c where "j_proOnly s = None" "j_affected s = None" "j_informative s = Some c"
          | "j_proOnly s = None" "j_affected s = None" "j_informative s = None"
          by fastforce
        then show ?thesis
          using None up_None nh nu pro aff info fl no yes
          by cases (auto simp: judge_result_def kind_of_classes_def some_of_def outcome_ok_def newFinding_def)
      qed
    qed
  qed
qed

text \<open>When no kind results there is no finding; a fix that has been reached makes none result.\<close>

lemma judge_no_finding:
  assumes "\<forall>c \<in> set cs. cand_plain c" "pkg_plain p" "scheme \<noteq> SchemeAuto"
    and "kind_of_classes (range_class p scheme onPro base ` set cs) = None"
  shows "judge p cs scheme onPro distro base \<in> {Some judgeClean, Some judgeNotAffected}"
  using judge_class [OF assms(1,2), of scheme onPro distro base]
    judge_result_ok [OF loop_ok_fold [OF assms(3), of p onPro base cs], of distro] assms(4)
  by (cases "judge_result p distro (foldl (class_step p scheme onPro base) j_init cs)") auto

lemma reached_class:
  assumes "\<forall>c \<in> set cs. cand_plain c" "pkg_plain p"
    and "c \<in> set cs" "cd_State c \<in> {StateFixed, StateAffected}" "cd_Fixed c \<noteq> []" "cd_Introduced c = []"
    and "Compare (versionFor c p) (cd_Fixed c) scheme = Some k" "0 \<le> k"
  shows "kind_of_classes (range_class p scheme onPro base ` set cs) = None"
proof -
  have "nul_free (versionFor c p)" "nul_free (cd_Fixed c)"
    using assms(1-3) by (simp_all add: nul_free_versionFor cand_plain_def)
  then have "\<not> below_fix scheme p c"
    using assms(7,8) by (simp add: below_fix_def)
  then have "range_class p scheme onPro base c = RClean"
    using assms(4-6) by (auto simp: range_class_def predates_def)
  then have "RClean \<in> range_class p scheme onPro base ` set cs"
    using assms(3) by (metis image_eqI)
  then show ?thesis
    unfolding kind_of_classes_def by argo
qed

section \<open>Properties\<close>

text \<open>C8: The judgement is decided by the classes of the ranges. On plain versions and a fixed
  scheme \<open>judge\<close> returns; it says not affected exactly when a range of the distribution says
  so; otherwise it makes a finding exactly when no range clears the installed version and some
  range exposes it, and the kind is that of the first class in the order: a fix to install, a
  fix of the vendor's only, no fix, informational. The finding quotes one of the ranges, and
  the fix it names is the lowest of those of its class.\<close>

theorem judge_decides:
  assumes "\<forall>c \<in> set cs. cand_plain c" "pkg_plain p" "scheme \<noteq> SchemeAuto"
  shows "\<exists>j. judge p cs scheme onPro distro base = Some j \<and>
    (case j of
       judgeNotAffected \<Rightarrow> RNotAff \<in> range_class p scheme onPro base ` set cs
     | judgeClean \<Rightarrow> RNotAff \<notin> range_class p scheme onPro base ` set cs \<and>
         kind_of_classes (range_class p scheme onPro base ` set cs) = None
     | judgeFinding f \<Rightarrow> kind_of_classes (range_class p scheme onPro base ` set cs) = Some (fi_Kind f) \<and>
         outcome_ok p scheme (range_class p scheme onPro base) cs f)"
  using judge_class [OF assms(1,2)] judge_result_ok [OF loop_ok_fold [OF assms(3)]] by blast

definition ex_cand :: "string \<Rightarrow> string \<Rightarrow> string \<Rightarrow> Candidate" where
  "ex_cand distro state fixed =
     \<lparr>cd_RangeID = 1, cd_AdvisoryID = ''CVE-2024-6387'', cd_CVE = ''CVE-2024-6387'', cd_Severity = ''high'',
      cd_Summary = [], cd_KEV = False, cd_EPSS = None, cd_CVSS = None, cd_Ecosystem = ''Ubuntu'',
      cd_Distro = distro, cd_Release = ''22.04'', cd_Package = ''openssh'', cd_SourcePackage = ''openssh'',
      cd_Introduced = [], cd_Fixed = fixed, cd_State = state, cd_SnapshotID = None, cd_Feed = [],
      cd_FeedDate = None, cd_Issued = []\<rparr>"

definition ex_pkg :: "string \<Rightarrow> Package" where
  "ex_pkg v = \<lparr>pk_Name = ''openssh-server'', pk_Version = v, pk_SourcePackage = ''openssh'',
     pk_SourceVersion = [], pk_Origin = [], pk_OriginRepo = []\<rparr>"

lemma ex_plain [simp]:
  "cand_plain (ex_cand d s ''1:8.9p1-3ubuntu0.10'')" "cand_plain (ex_cand d s [])"
  "pkg_plain (ex_pkg ''1:8.9p1-3ubuntu0.10'')" "pkg_plain (ex_pkg ''1:8.9p1-3ubuntu0.3'')"
  by (simp_all add: cand_plain_def pkg_plain_def nul_free_def ex_cand_def ex_pkg_def)

theorem judge_decides_witness:
  "\<exists>j. judge (ex_pkg ''1:8.9p1-3ubuntu0.3'')
      [ex_cand ''ubuntu'' StateFixed ''1:8.9p1-3ubuntu0.10'', ex_cand ''ubuntu'' StateNotAffected []]
      SchemeDpkg False ''ubuntu'' [] = Some j \<and> j = judgeNotAffected"
proof -
  let ?cs = "[ex_cand ''ubuntu'' StateFixed ''1:8.9p1-3ubuntu0.10'', ex_cand ''ubuntu'' StateNotAffected []]"
  let ?p = "ex_pkg ''1:8.9p1-3ubuntu0.3''"
  have "range_class ?p SchemeDpkg False [] (ex_cand ''ubuntu'' StateNotAffected []) = RNotAff"
    by (simp add: range_class_def predates_def ex_cand_def)
  then have na: "RNotAff \<in> range_class ?p SchemeDpkg False [] ` set ?cs"
    by (metis image_eqI list.set_intros(1,2))
  obtain j where j: "judge ?p ?cs SchemeDpkg False ''ubuntu'' [] = Some j"
    "case j of judgeNotAffected \<Rightarrow> RNotAff \<in> range_class ?p SchemeDpkg False [] ` set ?cs
     | judgeClean \<Rightarrow> RNotAff \<notin> range_class ?p SchemeDpkg False [] ` set ?cs \<and>
         kind_of_classes (range_class ?p SchemeDpkg False [] ` set ?cs) = None
     | judgeFinding f \<Rightarrow> kind_of_classes (range_class ?p SchemeDpkg False [] ` set ?cs) = Some (fi_Kind f) \<and>
         outcome_ok ?p SchemeDpkg (range_class ?p SchemeDpkg False []) ?cs f"
    using judge_decides [of ?cs ?p SchemeDpkg False "''ubuntu''" "[]"] by auto
  have "kind_of_classes (range_class ?p SchemeDpkg False [] ` set ?cs) = None"
    using na unfolding kind_of_classes_def by argo
  with j na show ?thesis
    by (cases j) (simp_all del: image_insert set_simps)
qed

text \<open>A patched host is never flagged. If one of the ranges of an advisory is a fix the
  installed version has reached, or lists the package as affected below a version it has
  reached, then whatever the other ranges say the advisory makes no finding.\<close>

theorem judge_never_flags_patched:
  assumes "\<forall>c \<in> set cs. cand_plain c" "pkg_plain p" "scheme \<noteq> SchemeAuto"
    and "c \<in> set cs" "cd_State c \<in> {StateFixed, StateAffected}" "cd_Fixed c \<noteq> []" "cd_Introduced c = []"
    and "Compare (versionFor c p) (cd_Fixed c) scheme = Some k" "0 \<le> k"
  shows "judge p cs scheme onPro distro base \<in> {Some judgeClean, Some judgeNotAffected}"
  using judge_no_finding [OF assms(1-3) reached_class [OF assms(1,2) assms(4-9)]] .

theorem judge_never_flags_patched_witness:
  "judge (ex_pkg ''1:8.9p1-3ubuntu0.10'')
     [ex_cand ''ubuntu'' StateFixed ''1:8.9p1-3ubuntu0.10'', ex_cand ''ubuntu'' StateAffected []]
     SchemeDpkg False ''ubuntu'' [] \<in> {Some judgeClean, Some judgeNotAffected}"
proof (rule judge_never_flags_patched [where k = 0])
  show "ex_cand ''ubuntu'' StateFixed ''1:8.9p1-3ubuntu0.10'' \<in>
    set [ex_cand ''ubuntu'' StateFixed ''1:8.9p1-3ubuntu0.10'', ex_cand ''ubuntu'' StateAffected []]"
    by simp
qed (simp_all add: ex_cand_def ex_pkg_def versionFor_def cand_plain_def pkg_plain_def nul_free_def
    compare_ref_known scm.cmp_refl)

text \<open>A rebuild host is asked to install only what its own distribution has released. A
  finding of kind "finding" never quotes a range of the distribution the host's is rebuilt
  from; a fix that only that vendor has released is reported as awaiting the vendor, and only
  when the host's own distribution has no fix above the installed version.\<close>

theorem judge_rebuild:
  assumes "\<forall>c \<in> set cs. cand_plain c" "pkg_plain p" "scheme \<noteq> SchemeAuto" "base \<noteq> []"
    and "judge p cs scheme onPro distro base = Some (judgeFinding f)"
  shows "(fi_Kind f = KindFinding \<longrightarrow> (\<exists>c \<in> set cs. fi_RangeID f = cd_RangeID c \<and> cd_Distro c \<noteq> base)) \<and>
    (fi_Kind f = KindAwaitingVendor \<longrightarrow>
      (\<exists>c \<in> set cs. fi_RangeID f = cd_RangeID c \<and> cd_Distro c = base) \<and>
      (\<forall>c \<in> set cs. cd_Distro c \<noteq> base \<and> cd_State c = StateFixed \<and> cd_Fixed c \<noteq> [] \<and>
         cd_Ecosystem c \<noteq> ecosystemUbuntuPro \<longrightarrow> predates scheme p c))"
proof -
  let ?cls = "range_class p scheme onPro base"
  have res: "judge_result p distro (foldl (class_step p scheme onPro base) j_init cs) = judgeFinding f"
    using assms(5) unfolding judge_class [OF assms(1,2)] by simp
  have k: "kind_of_classes (?cls ` set cs) = Some (fi_Kind f)" and o: "outcome_ok p scheme ?cls cs f"
    using judge_result_ok [OF loop_ok_fold [OF assms(3), of p onPro base cs], of distro]
    unfolding res by simp_all
  have here: "cd_Distro c \<noteq> base" if "?cls c = RFixHere" for c
    using that assms(4) by (auto simp: range_class_def split: if_splits)
  have up: "cd_Distro c = base" if "?cls c = RFixUp" for c
    using that by (auto simp: range_class_def split: if_splits)
  have own: "?cls c \<in> {RClean, RFixHere}"
    if "cd_Distro c \<noteq> base" "cd_State c = StateFixed" "cd_Fixed c \<noteq> []"
      "cd_Ecosystem c \<noteq> ecosystemUbuntuPro" "\<not> predates scheme p c" for c
    using that by (auto simp: range_class_def)
  have "predates scheme p c"
    if aw: "fi_Kind f = KindAwaitingVendor" and c: "c \<in> set cs" "cd_Distro c \<noteq> base" "cd_State c = StateFixed"
      "cd_Fixed c \<noteq> []" "cd_Ecosystem c \<noteq> ecosystemUbuntuPro" for c
  proof (rule ccontr)
    assume "\<not> predates scheme p c"
    then have "?cls c \<in> {RClean, RFixHere}"
      using own c by blast
    then have "RClean \<in> ?cls ` set cs \<or> RFixHere \<in> ?cls ` set cs"
      using c(1) by (metis image_eqI insertE singletonD)
    then show False
      using k aw by (auto simp: kind_of_classes_def split: if_splits)
  qed
  moreover obtain c where c: "c \<in> set cs" "fi_RangeID f = cd_RangeID c"
    "?cls c \<in> (case fi_Kind f of KindFinding \<Rightarrow> {RFixHere} | KindAwaitingVendor \<Rightarrow> {RFixUp}
       | KindUnfixed \<Rightarrow> {RPro, RAff} | KindInformational \<Rightarrow> {RInfo} | _ \<Rightarrow> {})"
    using o unfolding outcome_ok_def by blast
  ultimately show ?thesis
    using here [of c] up [of c] by (intro conjI impI bexI [of _ c]) auto
qed

definition ex_rocky :: "Candidate list" where
  "ex_rocky = [ex_cand ''rhel'' StateFixed ''8.7p1-38.el9_4.1'']"

lemma ex_rocky_judged:
  "\<exists>f. judge (ex_pkg ''8.7p1-38.el9'') ex_rocky SchemeRPM False ''rocky'' ''rhel'' = Some (judgeFinding f) \<and>
     fi_Kind f = KindAwaitingVendor"
proof -
  have "(case judge (ex_pkg ''8.7p1-38.el9'') ex_rocky SchemeRPM False ''rocky'' ''rhel'' of
      Some (judgeFinding f) \<Rightarrow> fi_Kind f | _ \<Rightarrow> KindEOL) = KindAwaitingVendor"
    by code_simp
  then show ?thesis
    by (auto split: option.splits judgement.splits)
qed

theorem judge_rebuild_witness:
  "\<exists>f. judge (ex_pkg ''8.7p1-38.el9'') ex_rocky SchemeRPM False ''rocky'' ''rhel'' = Some (judgeFinding f) \<and>
     (\<exists>c \<in> set ex_rocky. fi_RangeID f = cd_RangeID c \<and> cd_Distro c = ''rhel'')"
proof -
  obtain f where f: "judge (ex_pkg ''8.7p1-38.el9'') ex_rocky SchemeRPM False ''rocky'' ''rhel'' =
      Some (judgeFinding f)" "fi_Kind f = KindAwaitingVendor"
    using ex_rocky_judged by blast
  have "\<forall>c \<in> set ex_rocky. cand_plain c"
    by (simp add: ex_rocky_def ex_cand_def cand_plain_def nul_free_def)
  then show ?thesis
    using judge_rebuild [OF _ _ _ _ f(1)] f by (simp add: ex_pkg_def pkg_plain_def nul_free_def)
qed

end
