(* ===== verification/Sha256.thy ===== *)
theory Sha256
  imports Prelude "HOL-Library.Word"
begin

unbundle bit_operations_syntax

text \<open>
  SHA-256 (package crypto/sha256 of the Go standard library, FIPS 180-4) on 32-bit words, and
  package encoding/hex. The sources hash audit records, repository identifiers and payloads
  with it. The definitions compute; what the development uses of them is the shape of a
  digest (32 bytes, 64 lower-case hexadecimal digits) and that hexadecimal is injective. That
  two different inputs have different digests is never assumed: where the code relies on it,
  the theorem exhibits the collision.
\<close>

section \<open>The compression function\<close>

type_synonym w32 = "32 word"

definition sha_K :: "w32 list" where
  "sha_K = [
      0x428A2F98, 0x71374491, 0xB5C0FBCF, 0xE9B5DBA5, 0x3956C25B, 0x59F111F1, 0x923F82A4, 0xAB1C5ED5,
      0xD807AA98, 0x12835B01, 0x243185BE, 0x550C7DC3, 0x72BE5D74, 0x80DEB1FE, 0x9BDC06A7, 0xC19BF174,
      0xE49B69C1, 0xEFBE4786, 0x0FC19DC6, 0x240CA1CC, 0x2DE92C6F, 0x4A7484AA, 0x5CB0A9DC, 0x76F988DA,
      0x983E5152, 0xA831C66D, 0xB00327C8, 0xBF597FC7, 0xC6E00BF3, 0xD5A79147, 0x06CA6351, 0x14292967,
      0x27B70A85, 0x2E1B2138, 0x4D2C6DFC, 0x53380D13, 0x650A7354, 0x766A0ABB, 0x81C2C92E, 0x92722C85,
      0xA2BFE8A1, 0xA81A664B, 0xC24B8B70, 0xC76C51A3, 0xD192E819, 0xD6990624, 0xF40E3585, 0x106AA070,
      0x19A4C116, 0x1E376C08, 0x2748774C, 0x34B0BCB5, 0x391C0CB3, 0x4ED8AA4A, 0x5B9CCA4F, 0x682E6FF3,
      0x748F82EE, 0x78A5636F, 0x84C87814, 0x8CC70208, 0x90BEFFFA, 0xA4506CEB, 0xBEF9A3F7, 0xC67178F2]"

definition sha_H0 :: "w32 list" where
  "sha_H0 = [
      0x6A09E667, 0xBB67AE85, 0x3C6EF372, 0xA54FF53A, 0x510E527F, 0x9B05688C, 0x1F83D9AB, 0x5BE0CD19]"

definition rotr :: "nat \<Rightarrow> w32 \<Rightarrow> w32" where
  "rotr n x = (drop_bit n x) OR (push_bit (32 - n) x)"

definition sha_ch :: "w32 \<Rightarrow> w32 \<Rightarrow> w32 \<Rightarrow> w32" where
  "sha_ch x y z = (x AND y) XOR (NOT x AND z)"

definition sha_maj :: "w32 \<Rightarrow> w32 \<Rightarrow> w32 \<Rightarrow> w32" where
  "sha_maj x y z = (x AND y) XOR (x AND z) XOR (y AND z)"

definition big_sigma0 :: "w32 \<Rightarrow> w32" where
  "big_sigma0 x = rotr 2 x XOR rotr 13 x XOR rotr 22 x"

definition big_sigma1 :: "w32 \<Rightarrow> w32" where
  "big_sigma1 x = rotr 6 x XOR rotr 11 x XOR rotr 25 x"

definition small_sigma0 :: "w32 \<Rightarrow> w32" where
  "small_sigma0 x = rotr 7 x XOR rotr 18 x XOR drop_bit 3 x"

definition small_sigma1 :: "w32 \<Rightarrow> w32" where
  "small_sigma1 x = rotr 17 x XOR rotr 19 x XOR drop_bit 10 x"

text \<open>The message schedule, newest word first: \<open>extend n ws\<close> adds \<open>n\<close> words to
  the (at least 16) words so far.\<close>

fun extend :: "nat \<Rightarrow> w32 list \<Rightarrow> w32 list" where
  "extend 0 ws = ws"
| "extend (Suc n) ws =
     extend n ((small_sigma1 (ws ! 1) + ws ! 6 + small_sigma0 (ws ! 14) + ws ! 15) # ws)"

fun sha_round :: "w32 list \<Rightarrow> w32 \<times> w32 \<Rightarrow> w32 list" where
  "sha_round [a, b, c, d, e, f, g, h] (k, w) =
     (let t1 = h + big_sigma1 e + sha_ch e f g + k + w;
          t2 = big_sigma0 a + sha_maj a b c
      in [t1 + t2, a, b, c, d + t1, e, f, g])"
| "sha_round s kw = s"

definition compress :: "w32 list \<Rightarrow> w32 list \<Rightarrow> w32 list" where
  "compress s block = map2 (+) s (foldl sha_round s (zip sha_K (rev (extend 48 (rev block)))))"

section \<open>Padding and the digest\<close>

definition be_bytes :: "nat \<Rightarrow> 'a::len word \<Rightarrow> string" where
  "be_bytes k w = map (\<lambda>i. char_of (unat (drop_bit (8 * (k - 1 - i)) w AND 255))) [0..<k]"

definition sha_pad :: "string \<Rightarrow> string" where
  "sha_pad m = m @ [char_of (128 :: nat)] @ replicate ((119 - length m mod 64) mod 64) (char_of (0 :: nat)) @
     be_bytes 8 (of_nat (8 * length m) :: 64 word)"

definition be_word :: "string \<Rightarrow> w32" where
  "be_word cs = foldl (\<lambda>w c. push_bit 8 w OR of_nat (byte c)) 0 cs"

fun chunks :: "nat \<Rightarrow> nat \<Rightarrow> 'a list \<Rightarrow> 'a list list" where
  "chunks k 0 xs = []"
| "chunks k (Suc n) xs = take k xs # chunks k n (drop k xs)"

definition sha_blocks :: "string \<Rightarrow> w32 list list" where
  "sha_blocks m =
     (let p = sha_pad m
      in map (\<lambda>b. map be_word (chunks 4 16 b)) (chunks 64 (length p div 64) p))"

definition word_bytes :: "w32 \<Rightarrow> string" where
  "word_bytes w = be_bytes 4 w"

definition Sum256 :: "string \<Rightarrow> string" where
  "Sum256 m = concat (map word_bytes (foldl compress sha_H0 (sha_blocks m)))"

section \<open>Package encoding/hex\<close>

definition hex_digit :: "nat \<Rightarrow> char" where
  "hex_digit n = (if n < 10 then char_of (48 + n) else char_of (87 + n))"

fun EncodeToString :: "string \<Rightarrow> string" where
  "EncodeToString [] = []"
| "EncodeToString (c # s) = hex_digit (byte c div 16) # hex_digit (byte c mod 16) # EncodeToString s"

definition is_hex_digit :: "char \<Rightarrow> bool" where
  "is_hex_digit c \<longleftrightarrow> isASCIIDigit c \<or> 97 \<le> byte c \<and> byte c \<le> 102"

definition sha256_hex :: "string \<Rightarrow> string" where
  "sha256_hex s = EncodeToString (Sum256 s)"

section \<open>The shape of a digest\<close>

lemma length_be_bytes [simp]: "length (be_bytes k n) = k"
  by (simp add: be_bytes_def)

lemma length_compress: "length s = 8 \<Longrightarrow> length (compress s b) = 8"
proof -
  have round: "length (sha_round s kw) = length s" for s kw
    by (cases "(s, kw)" rule: sha_round.cases) (simp_all add: Let_def)
  have "length (foldl sha_round s kws) = length s" for kws
    by (induction kws rule: rev_induct) (simp_all add: round)
  then show "length s = 8 \<Longrightarrow> length (compress s b) = 8"
    by (simp add: compress_def)
qed

lemma length_Sum256 [simp]: "length (Sum256 m) = 32"
proof -
  have "length (foldl compress sha_H0 bs) = 8" for bs
    by (induction bs rule: rev_induct) (simp_all add: length_compress sha_H0_def)
  then show ?thesis
    by (simp add: Sum256_def length_concat word_bytes_def o_def sum_list_triv)
qed

lemma length_EncodeToString [simp]: "length (EncodeToString s) = 2 * length s"
  by (induction s) simp_all

lemma hex_digit_byte: "n < 16 \<Longrightarrow> byte (hex_digit n) = (if n < 10 then 48 + n else 87 + n)"
  by (simp add: hex_digit_def)

lemma hex_digit_inject: "m < 16 \<Longrightarrow> n < 16 \<Longrightarrow> hex_digit m = hex_digit n \<longleftrightarrow> m = n"
proof
  assume "m < 16" "n < 16" "hex_digit m = hex_digit n"
  then have "(if m < 10 then 48 + m else 87 + m) = (if n < 10 then 48 + n else 87 + n)"
    by (metis hex_digit_byte)
  then show "m = n"
    by (simp split: if_splits)
qed simp

lemma is_hex_digit_hex_digit: "n < 16 \<Longrightarrow> is_hex_digit (hex_digit n)"
  using hex_digit_byte [of n] by (auto simp: is_hex_digit_def isASCIIDigit_def)

lemma byte_div_less: "byte c div 16 < 16"
  using byte_less_256 [of c] by (simp add: less_mult_imp_div_less)

lemma EncodeToString_hex: "list_all is_hex_digit (EncodeToString s)"
  by (induction s) (simp_all add: is_hex_digit_hex_digit byte_div_less)

lemma EncodeToString_inject [simp]: "EncodeToString s = EncodeToString t \<longleftrightarrow> s = t"
proof (induction s arbitrary: t)
  case Nil
  then show ?case
    by (cases t) simp_all
next
  case (Cons c s)
  have nibbles: "byte c = byte d" if "byte c div 16 = byte d div 16" "byte c mod 16 = byte d mod 16" for d
    using that by (metis div_mult_mod_eq)
  show ?case
    using Cons nibbles by (cases t) (auto simp: hex_digit_inject byte_div_less)
qed

lemma sha256_hex_shape: "length (sha256_hex s) = 64 \<and> list_all is_hex_digit (sha256_hex s)"
  by (simp add: sha256_hex_def EncodeToString_hex)

end
