(* ===== verification/Vuln_Match.thy ===== *)
theory Vuln_Match
  imports Vuln_Judge Sha256
begin

text \<open>
  internal/vuln/match.go, eol.go and repohealth.go: the assessment of one host. The matcher
  reads the advisory store only through a \<open>RangeSource\<close>; \<open>now\<close> is what \<open>time.Now()\<close>
  returns. A result is \<open>None\<close> if a comparison of versions does not return, \<open>Inl\<close> an error
  of the source, \<open>Inr\<close> the assessment.

  Go walks the map of merged findings in an unspecified order before it sorts them. The model
  walks it in the order the keys were first added; \<open>finding_sort_unique\<close> shows which lists
  have only one sorted order.
\<close>

section \<open>Merging findings\<close>

text \<open>What \<open>addFinding\<close> leaves in the map at the key of \<open>f\<close>.\<close>

definition better :: "Finding \<Rightarrow> Finding \<Rightarrow> Finding" where
  "better prev f =
     (if fi_Kind prev \<noteq> fi_Kind f then (if kindRank (fi_Kind f) < kindRank (fi_Kind prev) then f else prev)
      else if fi_Package f < fi_Package prev then f else prev)"

type_synonym merged = "(string \<times> Finding) list"

definition addFinding :: "merged \<Rightarrow> Finding \<Rightarrow> merged" where
  "addFinding m f = upd_assoc (Key f) (\<lambda>prev. case prev of None \<Rightarrow> f | Some p \<Rightarrow> better p f) m"

definition finding_less :: "Finding \<Rightarrow> Finding \<Rightarrow> bool" where
  "finding_less a b =
     (if fi_Kind a \<noteq> fi_Kind b then kindRank (fi_Kind a) < kindRank (fi_Kind b)
      else if fi_KEV a \<noteq> fi_KEV b then fi_KEV a
      else if severityRank (fi_Severity a) \<noteq> severityRank (fi_Severity b) then
        severityRank (fi_Severity b) < severityRank (fi_Severity a)
      else Key a < Key b)"

section \<open>The packages and their ranges\<close>

record work =
  wk_pkg :: Package
  wk_family :: string
  wk_mapped :: bool
  wk_byAdv :: "(string \<times> Candidate list) list"

definition host_works :: "Host \<Rightarrow> work list" where
  "host_works h =
     map (\<lambda>p. \<lparr>wk_pkg = p, wk_family = familyOf (pk_Name p) (pk_SourcePackage p), wk_mapped = False, wk_byAdv = []\<rparr>)
       (filter (\<lambda>p. \<not> (TrimSpace (pk_Name p) = [] \<or> TrimSpace (pk_Version p) = [])) (ho_Packages h))"

definition match_names :: "work list \<Rightarrow> string list" where
  "match_names ws =
     sort_strings (first_occurrences (concat (map (\<lambda>w. pk_Name (wk_pkg w) #
       (if pk_SourcePackage (wk_pkg w) \<noteq> [] then [pk_SourcePackage (wk_pkg w)] else [])) ws)))"

text \<open>The two indexes over the ranges: the positions a key holds, in order.\<close>

definition bySource :: "Candidate list \<Rightarrow> string \<Rightarrow> nat list" where
  "bySource cands k =
     filter (\<lambda>i. cd_SourcePackage (cands ! i) \<noteq> [] \<and> cd_SourcePackage (cands ! i) = k) [0..<length cands]"

definition byName :: "Candidate list \<Rightarrow> string \<Rightarrow> nat list" where
  "byName cands k =
     filter (\<lambda>i. (cd_SourcePackage (cands ! i) = [] \<or> cd_Package (cands ! i) \<noteq> []) \<and> cd_Package (cands ! i) = k)
       [0..<length cands]"

definition attach_step :: "Candidate list \<Rightarrow> work \<times> nat list \<Rightarrow> nat \<Rightarrow> work \<times> nat list" where
  "attach_step cands ws i =
     (case ws of (w, seen) \<Rightarrow>
        if i \<in> set seen then (w, seen)
        else
          let c = cands ! i in
          if \<not> rangeAppliesTo c (wk_pkg w) then (w, i # seen)
          else (w\<lparr>wk_mapped := True,
                  wk_byAdv := upd_assoc (cd_AdvisoryID c) (\<lambda>g. (case g of None \<Rightarrow> [] | Some cs \<Rightarrow> cs) @ [c]) (wk_byAdv w)\<rparr>,
                i # seen))"

definition attach_order :: "Candidate list \<Rightarrow> Package \<Rightarrow> nat list" where
  "attach_order cands p =
     (if pk_SourcePackage p \<noteq> [] then bySource cands (pk_SourcePackage p) else []) @
     byName cands (pk_Name p) @
     (if pk_SourcePackage p = [] then bySource cands (pk_Name p) else [])"

definition attach_all :: "Candidate list \<Rightarrow> work \<Rightarrow> work" where
  "attach_all cands w = fst (foldl (attach_step cands) (w, []) (attach_order cands (wk_pkg w)))"

section \<open>The three loops that make findings\<close>

record mstate =
  ms_stats :: Stats
  ms_merged :: merged
  ms_advSeen :: "string list"

definition see_adv :: "string \<Rightarrow> mstate \<Rightarrow> mstate" where
  "see_adv a s = s\<lparr>ms_advSeen := List.insert a (ms_advSeen s)\<rparr>"

text \<open>The advisories of one mapped package.\<close>

fun judge_advs :: "Package \<Rightarrow> Scheme \<Rightarrow> bool \<Rightarrow> string \<Rightarrow> string \<Rightarrow> mstate \<Rightarrow> (string \<times> Candidate list) list \<Rightarrow> mstate option" where
  "judge_advs p scheme onPro distro base s [] = Some s"
| "judge_advs p scheme onPro distro base s ((adv, cs) # advs) =
     (case judge p cs scheme onPro distro base of
        None \<Rightarrow> None
      | Some j \<Rightarrow>
          let s1 = see_adv adv s;
              s2 = (case j of
                  judgeNotAffected \<Rightarrow> s1\<lparr>ms_stats := (ms_stats s1)\<lparr>st_NotAffected := st_NotAffected (ms_stats s1) + 1\<rparr>\<rparr>
                | judgeFinding f \<Rightarrow> s1\<lparr>ms_merged := addFinding (ms_merged s1) f\<rparr>
                | judgeClean \<Rightarrow> s1)
          in judge_advs p scheme onPro distro base s2 advs)"

fun judge_works :: "Scheme \<Rightarrow> bool \<Rightarrow> string \<Rightarrow> string \<Rightarrow> mstate \<Rightarrow> work list \<Rightarrow> mstate option" where
  "judge_works scheme onPro distro base s [] = Some s"
| "judge_works scheme onPro distro base s (w # ws) =
     (if \<not> wk_mapped w then judge_works scheme onPro distro base s ws
      else
        let s1 = s\<lparr>ms_stats := (ms_stats s)\<lparr>st_DistroMapped := st_DistroMapped (ms_stats s) + 1\<rparr>\<rparr>
        in case judge_advs (wk_pkg w) scheme onPro distro base s1 (wk_byAdv w) of
             None \<Rightarrow> None
           | Some s2 \<Rightarrow> judge_works scheme onPro distro base s2 ws)"

text \<open>The upstream floors of one package the distribution's feed does not mention; the flag is
  \<open>hit\<close>.\<close>

fun upstream_cands :: "Package \<Rightarrow> Scheme \<Rightarrow> mstate \<Rightarrow> bool \<Rightarrow> Candidate list \<Rightarrow> (mstate \<times> bool) option" where
  "upstream_cands p scheme s hit [] = Some (s, hit)"
| "upstream_cands p scheme s hit (c # cs) =
     (if cd_State c \<noteq> StateFixed \<or> cd_Fixed c = [] \<or> \<not> PackageMatches (cd_Package c) (pk_Name p) then
        upstream_cands p scheme s hit cs
      else case Assess (pk_Version p) (cd_Fixed c) scheme of
        None \<Rightarrow> None
      | Some a \<Rightarrow>
          let s1 = see_adv (cd_AdvisoryID c) s;
              s2 = (case as_Verdict a of
                  VerdictVulnerable \<Rightarrow> s1\<lparr>ms_merged := addFinding (ms_merged s1)
                      (newFinding c p (pk_Version p) BasisUpstream KindFinding (as_Reason a))\<rparr>
                | VerdictUnknown \<Rightarrow> s1\<lparr>ms_stats := (ms_stats s1)\<lparr>st_Undecidable := st_Undecidable (ms_stats s1) + 1\<rparr>\<rparr>
                | VerdictNotVulnerable \<Rightarrow> s1)
          in upstream_cands p scheme s2 True cs)"

fun upstream_works :: "Scheme \<Rightarrow> Candidate list \<Rightarrow> mstate \<Rightarrow> work list \<Rightarrow> mstate option" where
  "upstream_works scheme ups s [] = Some s"
| "upstream_works scheme ups s (w # ws) =
     (case upstream_cands (wk_pkg w) scheme s False ups of
        None \<Rightarrow> None
      | Some (s1, hit) \<Rightarrow>
          upstream_works scheme ups
            (if hit then s1\<lparr>ms_stats := (ms_stats s1)\<lparr>st_Upstream := st_Upstream (ms_stats s1) + 1\<rparr>\<rparr> else s1) ws)"

section \<open>Application end of life (eol.go)\<close>

definition SeverityEOL :: string where "SeverityEOL = ''high''"
definition SeverityEOAS :: string where "SeverityEOAS = ''low''"

definition eolFinding :: "LFinding \<Rightarrow> Finding" where
  "eolFinding lf =
     (let name = lf_ProductLabel lf @ '' '' @ lf_Cycle lf;
          eoas = (lf_Stage lf = StageEOAS);
          summary = (if eoas then name @ '' left active support on '' @ lf_EoasFrom lf
                     else if lf_EolFrom lf \<noteq> [] \<and> lf_Stage lf = StageEOL then
                       name @ '' reached end of life on '' @ lf_EolFrom lf
                     else name @ '' is end of life'')
      in \<lparr>fi_AdvisoryID = lf_AdvisoryID lf, fi_CVE = [], fi_RangeID = 0, fi_SnapshotID = lf_SnapshotID lf,
          fi_Feed = ''endoflife'', fi_FeedDate = lf_FeedDate lf, fi_Kind = KindEOL, fi_Basis = BasisLifecycle,
          fi_Package = lf_Package lf, fi_SourcePackage = lf_Product lf, fi_Installed = lf_Installed lf,
          fi_Fixed = [], fi_FixState = (if eoas then ''end_of_active_support'' else ''end_of_life''),
          fi_Severity = (if eoas then SeverityEOAS else SeverityEOL), fi_Summary = summary, fi_KEV = False,
          fi_EPSS = None, fi_CVSS = None, fi_Reason = lf_Reason lf, fi_UpstreamFixedOn = [],
          fi_EOL = Some
            \<lparr>ed_Product = lf_Product lf, ed_ProductLabel = lf_ProductLabel lf, ed_Cycle = lf_Cycle lf,
             ed_Stage = lf_Stage lf, ed_StageFrom = lf_StageFrom lf, ed_EolFrom = lf_EolFrom lf,
             ed_EoasFrom = lf_EoasFrom lf, ed_EoesFrom = lf_EoesFrom lf, ed_Packages = lf_Packages lf,
             ed_Origin = lf_OriginLabel lf, ed_OriginRepo = lf_OriginRepo lf, ed_UpgradeTo = lf_UpgradeTo lf,
             ed_UpgradeToSupportedUntil = lf_UpgradeToSupportedUntil lf, ed_Latest = lf_Latest lf,
             ed_Link = lf_Link lf\<rparr>,
          fi_Repo = None\<rparr>)"

definition eol_host :: "Host \<Rightarrow> LHost" where
  "eol_host h =
     \<lparr>lh_Distro = ToLower (TrimSpace (ho_Distro h)), lh_Manager = ho_PackageManager h,
      lh_Packages = map (\<lambda>p. \<lparr>lp_Name = pk_Name p, lp_Version = pk_Version p, lp_Origin = pk_Origin p,
          lp_OriginRepo = pk_OriginRepo p\<rparr>) (ho_Packages h),
      lh_AsOf = ho_AsOf h\<rparr>"

definition assessEOL ::
  "(string list \<Rightarrow> string + Release list) \<Rightarrow> time \<Rightarrow> Host \<Rightarrow> Result \<Rightarrow> string + Result" where
  "assessEOL src now h res =
     (case LAssess src now (eol_host h) of
        Inl e \<Rightarrow> Inl e
      | Inr (found, st) \<Rightarrow>
          Inr (res\<lparr>rt_Stats := (rt_Stats res)\<lparr>st_EOLMapped := ls_Mapped st,
                     st_EOLDistroOrigin := ls_DistroOrigin st, st_EOLOriginUnknown := ls_OriginUnknown st,
                     st_EOLNoRelease := ls_NoRelease st, st_EOLSupported := ls_Supported st\<rparr>,
                   rt_Findings := rt_Findings res @ map eolFinding found\<rparr>))"

section \<open>Repository health (repohealth.go)\<close>

definition RepoAdvisoryPrefix :: string where "RepoAdvisoryPrefix = ''REPO:''"

definition RepoAdvisoryID :: "string \<Rightarrow> string" where
  "RepoAdvisoryID rid = RepoAdvisoryPrefix @ take 12 (sha256_hex rid)"

definition ts :: "time option \<Rightarrow> string" where
  "ts t = (case t of None \<Rightarrow> [] | Some u \<Rightarrow> FormatRFC3339 u)"

definition reasonOf :: "Problem list \<Rightarrow> string" where
  "reasonOf ps = Join (map (\<lambda>p. TrimSpace (pr_Title p @ ''. '' @ pr_Detail p)) ps) '' ''"

definition staleDays :: "duration \<Rightarrow> int" where
  "staleDays d = (if d \<le> 0 then go_div DefaultStaleAfter (24 * Hour) else go_div (d + 12 * Hour) (24 * Hour))"

text \<open>\<open>byRepo\<close>: a later repository of an id replaces an earlier one.\<close>

definition repo_by_id :: "Repo list \<Rightarrow> string \<Rightarrow> Repo option" where
  "repo_by_id repos rid = map_of (rev (map (\<lambda>r. (rp_ID r, r)) repos)) rid"

definition repo_finding :: "Report \<Rightarrow> duration \<Rightarrow> Repo \<Rightarrow> Problem list \<Rightarrow> Problem \<Rightarrow> Finding" where
  "repo_finding rep staleAfter repo all worst =
     \<lparr>fi_AdvisoryID = RepoAdvisoryID (rp_ID repo), fi_CVE = [], fi_RangeID = 0, fi_SnapshotID = None,
      fi_Feed = ''repohealth'', fi_FeedDate = None, fi_Kind = KindRepoHealth, fi_Basis = BasisHost,
      fi_Package = rp_Label repo, fi_SourcePackage = rp_ID repo, fi_Installed = [], fi_Fixed = [],
      fi_FixState = pr_Code worst, fi_Severity = pr_Severity worst,
      fi_Summary = rp_Label repo @ '': '' @ pr_Title worst, fi_KEV = False, fi_EPSS = None, fi_CVSS = None,
      fi_Reason = reasonOf all, fi_UpstreamFixedOn = [], fi_EOL = None,
      fi_Repo = Some
        \<lparr>rd_RepoID = rp_ID repo, rd_Label = rp_Label repo, rd_URI = rp_URI repo, rd_Suite = rp_Suite repo,
         rd_Manager = rr_Manager rep, rd_Source = rp_Source repo, rd_Signature = Sig_string (rp_Signature repo),
         rd_KeyID = rp_KeyID repo, rd_SignedBy = rp_SignedBy repo,
         rd_Problems = map (\<lambda>q. \<lparr>rq_Code = pr_Code q, rq_Severity = pr_Severity q, rq_Title = pr_Title q,
             rq_Detail = pr_Detail q\<rparr>) all,
         rd_ReleaseDate = ts (rp_ReleaseDate repo), rd_ValidUntil = ts (rp_ValidUntil repo),
         rd_MetadataTime = ts (rp_MetadataTime repo), rd_KeyExpires = ts (rp_KeyExpires repo),
         rd_LastRefresh = ts (rr_LastRefresh rep), rd_LastRefreshSource = rr_LastRefreshSource rep,
         rd_StaleAfterDays = staleDays staleAfter, rd_Fix = Fix (rr_Manager rep) (pr_Code worst)\<rparr>\<rparr>"

text \<open>The loop over the problems makes one finding per repository id, at its first problem.
  Every problem names a repository of the report and is in its own \<open>ForRepo\<close> list
  (\<open>repo_findings_total\<close>), so neither lookup below misses.\<close>

definition repo_findings :: "Report \<Rightarrow> duration \<Rightarrow> RepoAssessment \<Rightarrow> Finding list" where
  "repo_findings rep staleAfter asm =
     List.map_filter (\<lambda>rid. case (repo_by_id (rr_Repos rep) rid, Highest (ForRepo asm rid)) of
           (Some repo, Some worst) \<Rightarrow> Some (repo_finding rep staleAfter repo (ForRepo asm rid) worst)
         | _ \<Rightarrow> None)
       (first_occurrences (map pr_RepoID (ra_Problems asm)))"

definition assessRepoHealth :: "time \<Rightarrow> Host \<Rightarrow> Result \<Rightarrow> Result" where
  "assessRepoHealth now h res =
     (case ho_RepoHealth h of
        None \<Rightarrow> res
      | Some rep \<Rightarrow>
          if Report_Empty rep then res
          else
            let asOf = (case ho_AsOf h of Some t \<Rightarrow> t | None \<Rightarrow> now);
                asm = RAssess rep asOf (ho_StaleAfter h);
                fs = repo_findings rep (ho_StaleAfter h) asm
            in res\<lparr>rt_RepoHealthAssessed := True,
                   rt_Stats := (rt_Stats res)\<lparr>st_RepoHealthChecked := ra_Checked asm,
                     st_RepoHealthFindings := st_RepoHealthFindings (rt_Stats res) + length fs\<rparr>,
                   rt_Findings := rt_Findings res @ fs\<rparr>)"

section \<open>The assessment of a host\<close>

text \<open>The switch on the coverage of the distribution.\<close>

definition host_coverage :: "RangeSource \<Rightarrow> string \<Rightarrow> string \<Rightarrow> string + Coverage" where
  "host_coverage src distro release =
     (if distro = [] then Inr CoverageNoDistro
      else case rs_DistroCovered src distro release of
             Inl e \<Rightarrow> Inl e
           | Inr ok \<Rightarrow> Inr (if ok then CoverageFull else CoverageNoFeed))"

text \<open>The ranges asked of the distribution's feed, and of its vendor's for a rebuild.\<close>

definition distro_cands :: "RangeSource \<Rightarrow> string \<Rightarrow> string \<Rightarrow> string list \<Rightarrow> string + Candidate list" where
  "distro_cands src distro release names =
     (case rs_DistroRanges src distro release names of
        Inl e \<Rightarrow> Inl e
      | Inr cands \<Rightarrow>
          if rebuildBase distro = [] then Inr cands
          else case rs_DistroRanges src (rebuildBase distro) release names of
                 Inl e \<Rightarrow> Inl e
               | Inr up \<Rightarrow> Inr (cands @ up))"

definition match_works :: "RangeSource \<Rightarrow> string \<Rightarrow> string \<Rightarrow> Coverage \<Rightarrow> work list \<Rightarrow> string + work list" where
  "match_works src distro release cov ws =
     (if cov = CoverageFull then
        (case distro_cands src distro release (match_names ws) of
           Inl e \<Rightarrow> Inl e
         | Inr cands \<Rightarrow> Inr (map (attach_all cands) ws))
      else Inr ws)"

text \<open>The upstream floors, asked for only if some package is left.\<close>

definition match_upstream :: "RangeSource \<Rightarrow> Scheme \<Rightarrow> work list \<Rightarrow> mstate \<Rightarrow> (string + mstate) option" where
  "match_upstream src scheme ws s =
     (let unmapped = filter (\<lambda>w. \<not> wk_mapped w) ws
      in if unmapped = [] then Some (Inr s)
         else case rs_UpstreamRanges src (sort_strings (map (\<lambda>w. pk_Name (wk_pkg w)) unmapped)) of
                Inl e \<Rightarrow> Some (Inl e)
              | Inr ups \<Rightarrow> map_option Inr (upstream_works scheme ups s unmapped))"

text \<open>The end of \<open>Match\<close>: the findings of the host itself, then the merged ones, counted
  and sorted.\<close>

definition count_kind :: "Kind \<Rightarrow> Finding list \<Rightarrow> nat" where
  "count_kind k fs = length (filter (\<lambda>f. fi_Kind f = k) fs)"

definition finish_match :: "RangeSource \<Rightarrow> time \<Rightarrow> Host \<Rightarrow> Result \<Rightarrow> mstate \<Rightarrow> string + Result" where
  "finish_match src now h res s =
     (case (case rs_Lifecycle src of None \<Rightarrow> Inr (res\<lparr>rt_Stats := ms_stats s\<rparr>)
            | Some ls \<Rightarrow> assessEOL ls now h (res\<lparr>rt_Stats := ms_stats s\<rparr>)) of
        Inl e \<Rightarrow> Inl e
      | Inr res1 \<Rightarrow>
          let res2 = assessRepoHealth now h res1;
              fs = map snd (ms_merged s)
          in Inr (res2\<lparr>rt_Stats := (rt_Stats res2)\<lparr>st_Advisories := length (ms_advSeen s),
                         st_Unfixed := count_kind KindUnfixed fs,
                         st_Informational := count_kind KindInformational fs,
                         st_AwaitingVendor := count_kind KindAwaitingVendor fs\<rparr>,
                       rt_Findings := go_sort finding_less (rt_Findings res2 @ fs)\<rparr>))"

definition MatchHost :: "RangeSource \<Rightarrow> time \<Rightarrow> Host \<Rightarrow> (string + Result) option" where
  "MatchHost src now h =
     (case NormalizeDistro (ho_Distro h) (ho_Release h) (ho_PackageManager h) of (distro, release, scheme) \<Rightarrow>
        (case host_coverage src distro release of
           Inl e \<Rightarrow> Some (Inl e)
         | Inr cov \<Rightarrow>
             (let res = \<lparr>rt_RepoHealthAssessed = False, rt_Distro = distro, rt_Release = release,
                    rt_Coverage = cov, rt_Findings = [], rt_Stats = zero_Stats\<rparr>;
                  s0 = \<lparr>ms_stats = zero_Stats\<lparr>st_Packages := length (ho_Packages h)\<rparr>, ms_merged = [], ms_advSeen = []\<rparr>
              in case match_works src distro release cov (host_works h) of
                   Inl e \<Rightarrow> Some (Inl e)
                 | Inr ws \<Rightarrow>
                     (case judge_works scheme (usesUbuntuPro h) distro (rebuildBase distro) s0 ws of
                        None \<Rightarrow> None
                      | Some s1 \<Rightarrow>
                          (case match_upstream src scheme ws s1 of
                             None \<Rightarrow> None
                           | Some (Inl e) \<Rightarrow> Some (Inl e)
                           | Some (Inr s2) \<Rightarrow> Some (finish_match src now h res s2))))))"

section \<open>What is attached to a package\<close>

text \<open>The ranges the indexes reach: by the source package, or by the binary's name. A range
  that has no source package and names the source of \<open>p\<close> in its package field applies by
  \<open>rangeAppliesTo\<close> but is reached only if the binary has that name too.\<close>

definition attached :: "Candidate \<Rightarrow> Package \<Rightarrow> bool" where
  "attached c p \<longleftrightarrow> rangeAppliesTo c p \<and> (cd_SourcePackage c \<noteq> [] \<or> cd_Package c = pk_Name p)"

lemma set_attach_order:
  assumes "pk_Name p \<noteq> []"
  shows "{i \<in> set (attach_order cands p). rangeAppliesTo (cands ! i) p} =
    {i. i < length cands \<and> attached (cands ! i) p}"
  using assms
  by (auto simp: attach_order_def bySource_def byName_def attached_def rangeAppliesTo_def)

definition group_has :: "work \<Rightarrow> string \<Rightarrow> Candidate list" where
  "group_has w a = (case map_of (wk_byAdv w) a of None \<Rightarrow> [] | Some cs \<Rightarrow> cs)"

definition attach_inv :: "Candidate list \<Rightarrow> Package \<Rightarrow> nat set \<Rightarrow> work \<times> nat list \<Rightarrow> bool" where
  "attach_inv cands p is ws \<longleftrightarrow>
     wk_pkg (fst ws) = p \<and> set (snd ws) = is \<and> distinct (map fst (wk_byAdv (fst ws))) \<and>
     (\<forall>a. set (group_has (fst ws) a) = {c. \<exists>i \<in> is. c = cands ! i \<and> rangeAppliesTo c p \<and> cd_AdvisoryID c = a}) \<and>
     (\<forall>a cs. (a, cs) \<in> set (wk_byAdv (fst ws)) \<longrightarrow> cs \<noteq> []) \<and>
     (wk_mapped (fst ws) \<longleftrightarrow> wk_byAdv (fst ws) \<noteq> [])"

lemma upd_assoc_not_Nil [simp]: "upd_assoc k f m \<noteq> []"
  by (induction k f m rule: upd_assoc.induct) simp_all

lemma upd_assoc_all:
  "list_all (\<lambda>p. P (snd p)) m \<Longrightarrow> (\<And>g. P (f g)) \<Longrightarrow> list_all (\<lambda>p. P (snd p)) (upd_assoc k f m)"
  by (induction k f m rule: upd_assoc.induct) simp_all

lemma upd_assoc_nonempty:
  assumes "\<forall>a cs. (a, cs) \<in> set m \<longrightarrow> cs \<noteq> []" "\<And>g. f g \<noteq> []" "(a, cs) \<in> set (upd_assoc k f m)"
  shows "cs \<noteq> []"
proof -
  have "\<forall>p \<in> set m. snd p \<noteq> []"
    using assms(1) by auto
  then have "\<forall>p \<in> set (upd_assoc k f m). snd p \<noteq> []"
    using upd_assoc_all [of "\<lambda>cs. cs \<noteq> []" m f k] assms(2) by (simp add: list_all_iff)
  then show ?thesis
    using assms(3) by force
qed

lemma attach_step_inv:
  assumes "attach_inv cands p is (w, seen)"
  shows "attach_inv cands p (insert i is) (attach_step cands (w, seen) i)"
proof -
  have w: "wk_pkg w = p" "set seen = is" "distinct (map fst (wk_byAdv w))"
    and g: "\<And>a. set (group_has w a) = {c. \<exists>i \<in> is. c = cands ! i \<and> rangeAppliesTo c p \<and> cd_AdvisoryID c = a}"
    and ne: "\<forall>a cs. (a, cs) \<in> set (wk_byAdv w) \<longrightarrow> cs \<noteq> []"
    and m: "wk_mapped w \<longleftrightarrow> wk_byAdv w \<noteq> []"
    using assms by (simp_all add: attach_inv_def)
  show ?thesis
  proof (cases "i \<in> is")
    case True
    then show ?thesis
      using assms w by (simp add: attach_step_def insert_absorb)
  next
    case False
    show ?thesis
    proof (cases "rangeAppliesTo (cands ! i) p")
      case no: False
      have "{c. \<exists>j \<in> insert i is. c = cands ! j \<and> rangeAppliesTo c p \<and> cd_AdvisoryID c = a} =
          {c. \<exists>j \<in> is. c = cands ! j \<and> rangeAppliesTo c p \<and> cd_AdvisoryID c = a}" for a
        using no by auto
      with no False w g ne m show ?thesis
        by (simp add: attach_step_def attach_inv_def)
    next
      case yes: True
      let ?c = "cands ! i"
      let ?f = "\<lambda>g. (case g of None \<Rightarrow> [] | Some cs \<Rightarrow> cs) @ [?c]"
      let ?w = "w\<lparr>wk_mapped := True, wk_byAdv := upd_assoc (cd_AdvisoryID ?c) ?f (wk_byAdv w)\<rparr>"
      have step: "attach_step cands (w, seen) i = (?w, i # seen)"
        using yes False w by (simp add: attach_step_def Let_def)
      have "set (group_has ?w a) = set (group_has w a) \<union> (if cd_AdvisoryID ?c = a then {?c} else {})" for a
        by (auto simp: group_has_def map_of_upd_assoc split: option.splits)
      then have "set (group_has ?w a) =
          {c. \<exists>j \<in> insert i is. c = cands ! j \<and> rangeAppliesTo c p \<and> cd_AdvisoryID c = a}" for a
        using g yes by auto
      moreover have "(a, cs) \<in> set (upd_assoc (cd_AdvisoryID ?c) ?f (wk_byAdv w)) \<Longrightarrow> cs \<noteq> []" for a cs
        using upd_assoc_nonempty [OF ne, of ?f a cs "cd_AdvisoryID ?c"] by simp
      ultimately show ?thesis
        using w by (simp add: step attach_inv_def distinct_upd_assoc)
    qed
  qed
qed

lemma attach_fold_inv:
  assumes "attach_inv cands p {} ws"
  shows "attach_inv cands p (set is) (foldl (attach_step cands) ws is)"
proof (induction "is" rule: rev_induct)
  case Nil
  show ?case
    using assms by simp
next
  case (snoc i "is")
  then show ?case
    using attach_step_inv [of cands p "set is" "fst (foldl (attach_step cands) ws is)"
        "snd (foldl (attach_step cands) ws is)" i] by simp
qed

text \<open>One package: the groups are exactly the ranges that reach it, by advisory.\<close>

lemma attach_all_spec:
  assumes "pk_Name (wk_pkg w) \<noteq> []" "wk_byAdv w = []" "\<not> wk_mapped w"
  shows "wk_pkg (attach_all cands w) = wk_pkg w"
    and "distinct (map fst (wk_byAdv (attach_all cands w)))"
    and "(a, cs) \<in> set (wk_byAdv (attach_all cands w)) \<Longrightarrow>
      cs \<noteq> [] \<and> set cs = {c \<in> set cands. attached c (wk_pkg w) \<and> cd_AdvisoryID c = a}"
    and "wk_mapped (attach_all cands w) \<longleftrightarrow> (\<exists>c \<in> set cands. attached c (wk_pkg w))"
proof -
  let ?p = "wk_pkg w" and ?w = "attach_all cands w"
  let ?is = "attach_order cands ?p"
  have "attach_inv cands ?p {} (w, [])"
    using assms by (simp add: attach_inv_def group_has_def)
  then have inv: "attach_inv cands ?p (set ?is) (foldl (attach_step cands) (w, []) ?is)"
    by (rule attach_fold_inv)
  then show pkg: "wk_pkg ?w = ?p" and dist: "distinct (map fst (wk_byAdv ?w))"
    by (simp_all add: attach_inv_def attach_all_def)
  have "{c. \<exists>i \<in> set ?is. c = cands ! i \<and> rangeAppliesTo c ?p \<and> cd_AdvisoryID c = a} =
      {c. \<exists>i \<in> {i. i < length cands \<and> attached (cands ! i) ?p}. c = cands ! i \<and> cd_AdvisoryID c = a}" for a
    unfolding set_attach_order [OF assms(1), of cands, symmetric] by auto
  also have "\<dots> a = {c \<in> set cands. attached c ?p \<and> cd_AdvisoryID c = a}" for a
    by (auto simp: in_set_conv_nth)
  finally have group: "set (group_has ?w a) = {c \<in> set cands. attached c ?p \<and> cd_AdvisoryID c = a}" for a
    using inv by (simp add: attach_inv_def attach_all_def)
  have ne: "cs \<noteq> []" if "(a, cs) \<in> set (wk_byAdv ?w)" for a cs
    using inv that by (auto simp: attach_inv_def attach_all_def)
  have gs: "group_has ?w a = cs" if "(a, cs) \<in> set (wk_byAdv ?w)" for a cs
    using dist that by (simp add: group_has_def)
  show "(a, cs) \<in> set (wk_byAdv ?w) \<Longrightarrow>
      cs \<noteq> [] \<and> set cs = {c \<in> set cands. attached c ?p \<and> cd_AdvisoryID c = a}"
    using ne gs group by blast
  have "wk_mapped ?w \<longleftrightarrow> wk_byAdv ?w \<noteq> []"
    using inv by (simp add: attach_inv_def attach_all_def)
  also have "\<dots> \<longleftrightarrow> (\<exists>a. group_has ?w a \<noteq> [])"
    using gs ne by (cases "wk_byAdv ?w") (force simp: group_has_def)+
  also have "\<dots> \<longleftrightarrow> (\<exists>c \<in> set cands. attached c ?p)"
    using group by (metis (mono_tags, lifting) empty_Collect_eq mem_Collect_eq set_empty)
  finally show "wk_mapped ?w \<longleftrightarrow> (\<exists>c \<in> set cands. attached c ?p)" .
qed

section \<open>What the loops keep\<close>

definition merged_ok :: "(Finding \<Rightarrow> bool) \<Rightarrow> merged \<Rightarrow> bool" where
  "merged_ok P m \<longleftrightarrow> distinct (map fst m) \<and> (\<forall>(k, f) \<in> set m. k = Key f \<and> P f)"

lemma better_cases: "better p f = p \<or> better p f = f"
  by (simp add: better_def)

lemma addFinding_ok:
  assumes "merged_ok P m" "P f"
  shows "merged_ok P (addFinding m f)"
proof -
  have "k = Key g \<and> P g" if "(k, g) \<in> set (addFinding m f)" for k g
  proof -
    have cases: "(k, g) \<in> set m \<or> k = Key f \<and> (g = f \<or> (\<exists>p. (Key f, p) \<in> set m \<and> g = better p f))"
      using upd_assoc_elem [of k g "Key f" "\<lambda>prev. case prev of None \<Rightarrow> f | Some p \<Rightarrow> better p f" m] that
      by (auto simp: addFinding_def split: option.splits dest: map_of_SomeD)
    have m: "\<forall>(k, f) \<in> set m. k = Key f \<and> P f"
      using assms(1) by (simp add: merged_ok_def)
    show ?thesis
      using cases
    proof (elim disjE conjE exE)
      fix p
      assume "k = Key f" "(Key f, p) \<in> set m" "g = better p f"
      then show ?thesis
        using m assms(2) better_cases [of p f] by auto
    qed (use m assms(2) in auto)
  qed
  then show ?thesis
    using assms by (auto simp: merged_ok_def addFinding_def distinct_upd_assoc)
qed

lemma judge_advs_ok:
  assumes "judge_advs p scheme onPro distro base s advs = Some s'" "merged_ok P (ms_merged s)"
    and "\<And>a cs f. (a, cs) \<in> set advs \<Longrightarrow> judge p cs scheme onPro distro base = Some (judgeFinding f) \<Longrightarrow> P f"
  shows "merged_ok P (ms_merged s')"
  using assms
proof (induction advs arbitrary: s)
  case (Cons acs advs)
  obtain a cs where acs: "acs = (a, cs)"
    by force
  then obtain j where j: "judge p cs scheme onPro distro base = Some j"
    using Cons.prems(1) by (auto split: option.splits)
  have P: "P f" if "j = judgeFinding f" for f
    using Cons.prems(3) [of a cs f] j that acs by simp
  show ?case
    using Cons.prems(1)
    unfolding acs judge_advs.simps j option.case Let_def
  proof (rule Cons.IH)
    show "merged_ok P (ms_merged (case j of
        judgeNotAffected \<Rightarrow> (see_adv a s)\<lparr>ms_stats := (ms_stats (see_adv a s))\<lparr>st_NotAffected := st_NotAffected (ms_stats (see_adv a s)) + 1\<rparr>\<rparr>
      | judgeFinding f \<Rightarrow> (see_adv a s)\<lparr>ms_merged := addFinding (ms_merged (see_adv a s)) f\<rparr>
      | judgeClean \<Rightarrow> see_adv a s))"
      using Cons.prems(2) P by (cases j) (simp_all add: see_adv_def addFinding_ok)
  qed (use Cons.prems(3) acs in auto)
qed simp

lemma judge_works_ok:
  assumes "judge_works scheme onPro distro base s ws = Some s'" "merged_ok P (ms_merged s)"
    and "\<And>w a cs f. w \<in> set ws \<Longrightarrow> (a, cs) \<in> set (wk_byAdv w) \<Longrightarrow>
      judge (wk_pkg w) cs scheme onPro distro base = Some (judgeFinding f) \<Longrightarrow> P f"
  shows "merged_ok P (ms_merged s')"
  using assms
proof (induction ws arbitrary: s)
  case (Cons w ws)
  show ?case
  proof (cases "wk_mapped w")
    case True
    let ?s1 = "s\<lparr>ms_stats := (ms_stats s)\<lparr>st_DistroMapped := st_DistroMapped (ms_stats s) + 1\<rparr>\<rparr>"
    obtain s2 where s2: "judge_advs (wk_pkg w) scheme onPro distro base ?s1 (wk_byAdv w) = Some s2"
      "judge_works scheme onPro distro base s2 ws = Some s'"
      using Cons.prems(1) True by (auto simp: Let_def split: option.splits)
    have "merged_ok P (ms_merged s2)"
      using Cons.prems(2,3) by (intro judge_advs_ok [OF s2(1)]) auto
    then show ?thesis
      by (intro Cons.IH [OF s2(2)]) (auto intro: Cons.prems(3))
  next
    case False
    then have "judge_works scheme onPro distro base s ws = Some s'"
      using Cons.prems(1) by simp
    then show ?thesis
      using Cons.prems(2) by (intro Cons.IH [of s]) (auto intro: Cons.prems(3))
  qed
qed simp

lemma upstream_cands_ok:
  assumes "upstream_cands p scheme s hit cs = Some (s', hit')" "merged_ok P (ms_merged s)"
    and "\<And>c a. c \<in> set cs \<Longrightarrow> cd_State c = StateFixed \<Longrightarrow> cd_Fixed c \<noteq> [] \<Longrightarrow> PackageMatches (cd_Package c) (pk_Name p) \<Longrightarrow>
      Assess (pk_Version p) (cd_Fixed c) scheme = Some a \<Longrightarrow> as_Verdict a = VerdictVulnerable \<Longrightarrow>
      P (newFinding c p (pk_Version p) BasisUpstream KindFinding (as_Reason a))"
  shows "merged_ok P (ms_merged s')"
  using assms
proof (induction cs arbitrary: s hit)
  case (Cons c cs)
  show ?case
  proof (cases "cd_State c \<noteq> StateFixed \<or> cd_Fixed c = [] \<or> \<not> PackageMatches (cd_Package c) (pk_Name p)")
    case True
    then show ?thesis
      using Cons.prems(1) Cons.IH [OF _ Cons.prems(2)] Cons.prems(3) by simp
  next
    case False
    then obtain a where a: "Assess (pk_Version p) (cd_Fixed c) scheme = Some a"
      using Cons.prems(1) by (auto split: option.splits)
    let ?s2 = "case as_Verdict a of
        VerdictVulnerable \<Rightarrow> (see_adv (cd_AdvisoryID c) s)\<lparr>ms_merged := addFinding (ms_merged (see_adv (cd_AdvisoryID c) s))
            (newFinding c p (pk_Version p) BasisUpstream KindFinding (as_Reason a))\<rparr>
      | VerdictUnknown \<Rightarrow> (see_adv (cd_AdvisoryID c) s)\<lparr>ms_stats := (ms_stats (see_adv (cd_AdvisoryID c) s))
            \<lparr>st_Undecidable := st_Undecidable (ms_stats (see_adv (cd_AdvisoryID c) s)) + 1\<rparr>\<rparr>
      | VerdictNotVulnerable \<Rightarrow> see_adv (cd_AdvisoryID c) s"
    have run: "upstream_cands p scheme ?s2 True cs = Some (s', hit')"
      using Cons.prems(1) False a by (simp add: Let_def)
    have "merged_ok P (ms_merged ?s2)"
      using Cons.prems(2) Cons.prems(3) [of c a] False a
      by (cases "as_Verdict a") (simp_all add: see_adv_def addFinding_ok)
    then show ?thesis
      using Cons.IH [OF run] Cons.prems(3) by simp
  qed
qed simp

lemma upstream_works_ok:
  assumes "upstream_works scheme ups s ws = Some s'" "merged_ok P (ms_merged s)"
    and "\<And>w c a. w \<in> set ws \<Longrightarrow> c \<in> set ups \<Longrightarrow> cd_State c = StateFixed \<Longrightarrow> cd_Fixed c \<noteq> [] \<Longrightarrow> PackageMatches (cd_Package c) (pk_Name (wk_pkg w)) \<Longrightarrow>
      Assess (pk_Version (wk_pkg w)) (cd_Fixed c) scheme = Some a \<Longrightarrow> as_Verdict a = VerdictVulnerable \<Longrightarrow>
      P (newFinding c (wk_pkg w) (pk_Version (wk_pkg w)) BasisUpstream KindFinding (as_Reason a))"
  shows "merged_ok P (ms_merged s')"
  using assms
proof (induction ws arbitrary: s)
  case (Cons w ws)
  obtain s1 hit where s1: "upstream_cands (wk_pkg w) scheme s False ups = Some (s1, hit)"
    using Cons.prems(1) by (auto split: option.splits)
  have "merged_ok P (ms_merged s1)"
    using Cons.prems(2,3) by (intro upstream_cands_ok [OF s1]) auto
  then show ?case
    using Cons.prems(1,3) s1 Cons.IH [of "if hit then s1\<lparr>ms_stats := (ms_stats s1)\<lparr>st_Upstream := st_Upstream (ms_stats s1) + 1\<rparr>\<rparr> else s1"]
    by (simp split: if_splits)
qed simp

section \<open>The phases of a match\<close>

definition usable :: "Package \<Rightarrow> bool" where
  "usable p \<longleftrightarrow> TrimSpace (pk_Name p) \<noteq> [] \<and> TrimSpace (pk_Version p) \<noteq> []"

lemma TrimSpace_Nil [simp]: "TrimSpace [] = []"
  by (simp add: TrimSpace_def)

lemma usable_name: "usable p \<Longrightarrow> pk_Name p \<noteq> []"
  by (auto simp: usable_def)

lemma host_works_fresh:
  assumes "w \<in> set (host_works h)"
  shows "wk_pkg w \<in> set (ho_Packages h) \<and> usable (wk_pkg w) \<and> wk_byAdv w = [] \<and> \<not> wk_mapped w"
  using assms by (auto simp: host_works_def usable_def)

lemma host_works_all: "p \<in> set (ho_Packages h) \<Longrightarrow> usable p \<Longrightarrow> \<exists>w \<in> set (host_works h). wk_pkg w = p"
  by (auto simp: host_works_def usable_def)

lemma set_match_names:
  "set (match_names ws) = (\<Union>w \<in> set ws. {pk_Name (wk_pkg w)} \<union>
     (if pk_SourcePackage (wk_pkg w) \<noteq> [] then {pk_SourcePackage (wk_pkg w)} else {}))"
  by (auto simp: match_names_def split: if_splits)

lemma MatchHost_phases:
  assumes "MatchHost src now h = Some (Inr r)"
  obtains distro release scheme cov ws s0 s1 s2 res where
    "NormalizeDistro (ho_Distro h) (ho_Release h) (ho_PackageManager h) = (distro, release, scheme)"
    "host_coverage src distro release = Inr cov"
    "match_works src distro release cov (host_works h) = Inr ws"
    "ms_merged s0 = []" "rt_Findings res = []" "rt_Coverage res = cov"
    "judge_works scheme (usesUbuntuPro h) distro (rebuildBase distro) s0 ws = Some s1"
    "match_upstream src scheme ws s1 = Some (Inr s2)"
    "finish_match src now h res s2 = Inr r"
proof -
  obtain distro release scheme where nd:
    "NormalizeDistro (ho_Distro h) (ho_Release h) (ho_PackageManager h) = (distro, release, scheme)"
    by (metis prod_cases3)
  note run = assms [unfolded MatchHost_def nd prod.case]
  obtain cov where cov: "host_coverage src distro release = Inr cov"
    using run by (cases "host_coverage src distro release") simp_all
  note run = run [unfolded cov sum.case Let_def]
  obtain ws where ws: "match_works src distro release cov (host_works h) = Inr ws"
    using run by (cases "match_works src distro release cov (host_works h)") simp_all
  note run = run [unfolded ws sum.case]
  let ?s0 = "\<lparr>ms_stats = zero_Stats\<lparr>st_Packages := length (ho_Packages h)\<rparr>, ms_merged = [], ms_advSeen = []\<rparr>"
  let ?res = "\<lparr>rt_RepoHealthAssessed = False, rt_Distro = distro, rt_Release = release,
     rt_Coverage = cov, rt_Findings = [], rt_Stats = zero_Stats\<rparr>"
  obtain s1 where s1: "judge_works scheme (usesUbuntuPro h) distro (rebuildBase distro) ?s0 ws = Some s1"
    using run by (cases "judge_works scheme (usesUbuntuPro h) distro (rebuildBase distro) ?s0 ws") simp_all
  note run = run [unfolded s1 option.case]
  obtain s2 where s2: "match_upstream src scheme ws s1 = Some (Inr s2)"
    using run by (auto split: option.splits sum.splits)
  have "finish_match src now h ?res s2 = Inr r"
    using run s2 by simp
  then show ?thesis
    using that [OF nd cov ws _ _ _ s1 s2, of ?res] by simp
qed

lemma rt_Coverage_assess:
  "assessEOL ls now h res = Inr res' \<Longrightarrow> rt_Coverage res' = rt_Coverage res"
  "rt_Coverage (assessRepoHealth now h res) = rt_Coverage res"
  by (auto simp: assessEOL_def assessRepoHealth_def Let_def split: sum.splits option.splits)

lemma assessEOL_findings:
  assumes "assessEOL ls now h res = Inr res'"
  shows "\<exists>fs. rt_Findings res' = rt_Findings res @ fs \<and> (\<forall>f \<in> set fs. fi_Basis f = BasisLifecycle)"
  using assms by (auto simp: assessEOL_def eolFinding_def Let_def split: sum.splits)

lemma assessRepoHealth_findings:
  "\<exists>fs. rt_Findings (assessRepoHealth now h res) = rt_Findings res @ fs \<and> (\<forall>f \<in> set fs. fi_Basis f = BasisHost)"
proof (cases "ho_RepoHealth h")
  case None
  then show ?thesis
    by (intro exI [of _ "[]"]) (simp add: assessRepoHealth_def)
next
  case (Some rep)
  have basis: "\<forall>f \<in> set (repo_findings rep sa asm). fi_Basis f = BasisHost" for sa asm
    by (auto simp: repo_findings_def List.map_filter_def repo_finding_def split: option.splits)
  show ?thesis
  proof (cases "Report_Empty rep")
    case True
    with Some show ?thesis
      by (intro exI [of _ "[]"]) (simp add: assessRepoHealth_def)
  next
    case False
    with Some basis show ?thesis
      unfolding assessRepoHealth_def by (simp add: Let_def)
  qed
qed

lemma finish_match_findings:
  assumes "finish_match src now h res s = Inr r" "rt_Findings res = []"
  shows "rt_Coverage r = rt_Coverage res"
    and "\<exists>hs. mset (rt_Findings r) = mset hs + mset (map snd (ms_merged s)) \<and>
      (\<forall>f \<in> set hs. fi_Basis f \<in> {BasisLifecycle, BasisHost})"
proof -
  define eol where "eol = (case rs_Lifecycle src of None \<Rightarrow> Inr (res\<lparr>rt_Stats := ms_stats s\<rparr>)
            | Some ls \<Rightarrow> assessEOL ls now h (res\<lparr>rt_Stats := ms_stats s\<rparr>))"
  obtain res1 where res1: "eol = Inr res1"
    using assms(1) by (cases eol) (simp_all add: finish_match_def eol_def)
  have eol_ok: "rt_Coverage res1 = rt_Coverage res \<and> (\<exists>fs. rt_Findings res1 = fs \<and> (\<forall>f \<in> set fs. fi_Basis f = BasisLifecycle))"
    using res1 assms(2) assessEOL_findings rt_Coverage_assess(1)
    unfolding eol_def by (fastforce split: option.splits)
  obtain gs where gs: "rt_Findings (assessRepoHealth now h res1) = rt_Findings res1 @ gs"
    "\<forall>f \<in> set gs. fi_Basis f = BasisHost"
    using assessRepoHealth_findings by blast
  have r: "rt_Findings r = go_sort finding_less (rt_Findings (assessRepoHealth now h res1) @ map snd (ms_merged s))"
    "rt_Coverage r = rt_Coverage (assessRepoHealth now h res1)"
    using assms(1) res1 unfolding finish_match_def eol_def [symmetric] by (auto simp: Let_def)
  show "rt_Coverage r = rt_Coverage res"
    using r(2) eol_ok rt_Coverage_assess(2) by simp
  show "\<exists>hs. mset (rt_Findings r) = mset hs + mset (map snd (ms_merged s)) \<and>
      (\<forall>f \<in> set hs. fi_Basis f \<in> {BasisLifecycle, BasisHost})"
    using r(1) gs eol_ok by (intro exI [of _ "rt_Findings res1 @ gs"]) auto
qed

section \<open>Where findings come from\<close>

definition distro_origin :: "Host \<Rightarrow> string \<Rightarrow> Scheme \<Rightarrow> work list \<Rightarrow> Finding \<Rightarrow> bool" where
  "distro_origin h distro scheme ws f \<longleftrightarrow>
     (\<exists>w \<in> set ws. \<exists>cs. (fi_AdvisoryID f, cs) \<in> set (wk_byAdv w) \<and>
        judge (wk_pkg w) cs scheme (usesUbuntuPro h) distro (rebuildBase distro) = Some (judgeFinding f))"

definition upstream_origin :: "Scheme \<Rightarrow> Candidate list \<Rightarrow> work list \<Rightarrow> Finding \<Rightarrow> bool" where
  "upstream_origin scheme ups ws f \<longleftrightarrow>
     (\<exists>w \<in> set ws. \<not> wk_mapped w \<and> (\<exists>c \<in> set ups. \<exists>a. cd_State c = StateFixed \<and> cd_Fixed c \<noteq> [] \<and>
        PackageMatches (cd_Package c) (pk_Name (wk_pkg w)) \<and>
        Assess (pk_Version (wk_pkg w)) (cd_Fixed c) scheme = Some a \<and> as_Verdict a = VerdictVulnerable \<and>
        f = newFinding c (wk_pkg w) (pk_Version (wk_pkg w)) BasisUpstream KindFinding (as_Reason a)))"

definition groups_keyed :: "work list \<Rightarrow> bool" where
  "groups_keyed ws \<longleftrightarrow>
     (\<forall>w a cs c. w \<in> set ws \<and> (a, cs) \<in> set (wk_byAdv w) \<and> c \<in> set cs \<longrightarrow> cd_AdvisoryID c = a)"

lemma merged_origin:
  assumes "judge_works scheme (usesUbuntuPro h) distro (rebuildBase distro) s0 ws = Some s1"
    and "match_upstream src scheme ws s1 = Some (Inr s2)" "ms_merged s0 = []" "groups_keyed ws"
  shows "merged_ok (\<lambda>f. distro_origin h distro scheme ws f \<or>
      (\<exists>ns ups. rs_UpstreamRanges src ns = Inr ups \<and> upstream_origin scheme ups ws f)) (ms_merged s2)"
    (is "merged_ok ?P _")
proof -
  have s1: "merged_ok ?P (ms_merged s1)"
  proof (rule judge_works_ok [OF assms(1)])
    show "merged_ok ?P (ms_merged s0)"
      by (simp add: assms(3) merged_ok_def)
  next
    fix w a cs f
    assume w: "w \<in> set ws" "(a, cs) \<in> set (wk_byAdv w)"
      and j: "judge (wk_pkg w) cs scheme (usesUbuntuPro h) distro (rebuildBase distro) = Some (judgeFinding f)"
    have "fi_AdvisoryID f = a"
      using judge_quotes [OF j] assms(4) w unfolding groups_keyed_def by blast
    then show "?P f"
      using w j by (auto simp: distro_origin_def)
  qed
  show ?thesis
  proof (cases "filter (\<lambda>w. \<not> wk_mapped w) ws = []")
    case True
    then show ?thesis
      using assms(2) s1 by (simp add: match_upstream_def)
  next
    case False
    then obtain ns ups where ups: "rs_UpstreamRanges src ns = Inr ups"
      "upstream_works scheme ups s1 (filter (\<lambda>w. \<not> wk_mapped w) ws) = Some s2"
      using assms(2) by (auto simp: match_upstream_def Let_def split: sum.splits)
    show ?thesis
    proof (rule upstream_works_ok [OF ups(2) s1])
      fix w c a
      assume "w \<in> set (filter (\<lambda>w. \<not> wk_mapped w) ws)" "c \<in> set ups" "cd_State c = StateFixed" "cd_Fixed c \<noteq> []"
        "PackageMatches (cd_Package c) (pk_Name (wk_pkg w))"
        "Assess (pk_Version (wk_pkg w)) (cd_Fixed c) scheme = Some a" "as_Verdict a = VerdictVulnerable"
      then have "upstream_origin scheme ups ws
          (newFinding c (wk_pkg w) (pk_Version (wk_pkg w)) BasisUpstream KindFinding (as_Reason a))"
        unfolding upstream_origin_def by auto
      then show "?P (newFinding c (wk_pkg w) (pk_Version (wk_pkg w)) BasisUpstream KindFinding (as_Reason a))"
        using ups(1) by blast
    qed
  qed
qed

section \<open>The loops return on plain versions\<close>

definition work_plain :: "work \<Rightarrow> bool" where
  "work_plain w \<longleftrightarrow> pkg_plain (wk_pkg w) \<and> (\<forall>a cs c. (a, cs) \<in> set (wk_byAdv w) \<and> c \<in> set cs \<longrightarrow> cand_plain c)"

lemma judge_advs_returns:
  assumes "pkg_plain p" "\<And>a cs c. (a, cs) \<in> set advs \<Longrightarrow> c \<in> set cs \<Longrightarrow> cand_plain c"
  shows "\<exists>s'. judge_advs p scheme onPro distro base s advs = Some s'"
  using assms(2)
proof (induction advs arbitrary: s)
  case (Cons acs advs)
  obtain a cs where acs: "acs = (a, cs)"
    by force
  have "\<forall>c \<in> set cs. cand_plain c"
    using Cons.prems acs by auto
  then obtain j where "judge p cs scheme onPro distro base = Some j"
    using judge_class assms(1) by blast
  moreover have "\<exists>s'. judge_advs p scheme onPro distro base s1 advs = Some s'" for s1
    using Cons.prems by (intro Cons.IH) auto
  ultimately show ?case
    by (simp add: acs Let_def)
qed simp

lemma judge_works_returns:
  "(\<And>w. w \<in> set ws \<Longrightarrow> work_plain w) \<Longrightarrow> \<exists>s'. judge_works scheme onPro distro base s ws = Some s'"
proof (induction ws arbitrary: s)
  case (Cons w ws)
  have w: "work_plain w"
    using Cons.prems by simp
  have IH: "\<exists>s'. judge_works scheme onPro distro base s1 ws = Some s'" for s1
    using Cons.prems by (intro Cons.IH) auto
  obtain s2 where "judge_advs (wk_pkg w) scheme onPro distro base
      (s\<lparr>ms_stats := (ms_stats s)\<lparr>st_DistroMapped := st_DistroMapped (ms_stats s) + 1\<rparr>\<rparr>) (wk_byAdv w) = Some s2"
    using judge_advs_returns [of "wk_pkg w" "wk_byAdv w"] w unfolding work_plain_def by blast
  with IH show ?case
    by (simp add: Let_def)
qed simp

lemma upstream_cands_returns:
  "nul_free (pk_Version p) \<Longrightarrow> (\<And>c. c \<in> set cs \<Longrightarrow> nul_free (cd_Fixed c)) \<Longrightarrow>
   \<exists>r. upstream_cands p scheme s hit cs = Some r"
proof (induction cs arbitrary: s hit)
  case (Cons c cs)
  have IH: "\<exists>r. upstream_cands p scheme s1 hit1 cs = Some r" for s1 hit1
    using Cons.prems by (intro Cons.IH) auto
  obtain a where "Assess (pk_Version p) (cd_Fixed c) scheme = Some a"
    using Assess_returns [of "pk_Version p" "cd_Fixed c" scheme] Cons.prems by auto
  with IH show ?case
    by (simp add: Let_def)
qed simp

lemma upstream_works_returns:
  "(\<And>w. w \<in> set ws \<Longrightarrow> nul_free (pk_Version (wk_pkg w))) \<Longrightarrow> (\<And>c. c \<in> set ups \<Longrightarrow> nul_free (cd_Fixed c)) \<Longrightarrow>
   \<exists>s'. upstream_works scheme ups s ws = Some s'"
proof (induction ws arbitrary: s)
  case (Cons w ws)
  have IH: "\<exists>s'. upstream_works scheme ups s1 ws = Some s'" for s1
    using Cons.prems by (intro Cons.IH) auto
  obtain s1 hit where "upstream_cands (wk_pkg w) scheme s False ups = Some (s1, hit)"
    using upstream_cands_returns [of "wk_pkg w" ups scheme s False] Cons.prems by auto
  with IH show ?case
    by simp
qed simp

section \<open>The interface of the advisory store\<close>

text \<open>The ranges of a distribution and release, those for all its releases included.\<close>

definition in_scope :: "string \<Rightarrow> string \<Rightarrow> Candidate \<Rightarrow> bool" where
  "in_scope distro release c \<longleftrightarrow>
     distro \<noteq> [] \<and> cd_Distro c = distro \<and> (cd_Release c = release \<or> cd_Release c = [])"

definition host_scope :: "string \<Rightarrow> string \<Rightarrow> Candidate \<Rightarrow> bool" where
  "host_scope distro release c \<longleftrightarrow>
     in_scope distro release c \<or> in_scope (rebuildBase distro) release c"

text \<open>The stored ranges of one advisory that reach one package.\<close>

definition ranges_for :: "Candidate set \<Rightarrow> string \<Rightarrow> string \<Rightarrow> Package \<Rightarrow> string \<Rightarrow> Candidate set" where
  "ranges_for stored distro release p a =
     {c \<in> stored. host_scope distro release c \<and> attached c p \<and> cd_AdvisoryID c = a}"

text \<open>A finding of the distribution's: the judgement of an installed package over all stored
  ranges of the advisory that reach it.\<close>

definition distro_found :: "Candidate set \<Rightarrow> Host \<Rightarrow> string \<Rightarrow> string \<Rightarrow> Scheme \<Rightarrow> Finding \<Rightarrow> bool" where
  "distro_found stored h distro release scheme f \<longleftrightarrow>
     (\<exists>p cs. p \<in> set (ho_Packages h) \<and> usable p \<and> cs \<noteq> [] \<and>
        set cs = ranges_for stored distro release p (fi_AdvisoryID f) \<and>
        judge p cs scheme (usesUbuntuPro h) distro (rebuildBase distro) = Some (judgeFinding f))"

text \<open>A finding by an upstream floor: on a covered host only for a package none of the
  distribution's ranges reach.\<close>

definition upstream_found ::
  "Candidate set \<Rightarrow> Host \<Rightarrow> string \<Rightarrow> string \<Rightarrow> Scheme \<Rightarrow> Coverage \<Rightarrow> Finding \<Rightarrow> bool" where
  "upstream_found stored h distro release scheme cov f \<longleftrightarrow>
     (\<exists>p c a. p \<in> set (ho_Packages h) \<and> usable p \<and> c \<in> stored \<and> cd_Distro c = [] \<and>
        PackageMatches (cd_Package c) (pk_Name p) \<and>
        Assess (pk_Version p) (cd_Fixed c) scheme = Some a \<and> as_Verdict a = VerdictVulnerable \<and>
        f = newFinding c p (pk_Version p) BasisUpstream KindFinding (as_Reason a) \<and>
        (cov = CoverageFull \<longrightarrow> (\<forall>b. ranges_for stored distro release p b = {})))"

text \<open>What the matcher relies on of its source: its answers are about one set of stored
  ranges, complete for the names asked, and a stored range in state fixed names its fix.\<close>

locale range_source =
  fixes src :: RangeSource and stored :: "Candidate set"
  assumes DistroRanges: "\<And>d r ns cs. rs_DistroRanges src d r ns = Inr cs \<Longrightarrow> d \<noteq> [] \<Longrightarrow> [] \<notin> set ns \<Longrightarrow>
      set cs = {c \<in> stored. in_scope d r c \<and> (cd_Package c \<in> set ns \<or> cd_SourcePackage c \<in> set ns)}"
    and UpstreamRanges: "\<And>ns cs. rs_UpstreamRanges src ns = Inr cs \<Longrightarrow> set cs \<subseteq> {c \<in> stored. cd_Distro c = []}"
    and DistroCovered: "\<And>d r b c. rs_DistroCovered src d r = Inr b \<Longrightarrow> c \<in> stored \<Longrightarrow> in_scope d r c \<Longrightarrow> b"
begin

lemma coverage_full: "host_coverage src distro release = Inr CoverageFull \<Longrightarrow> distro \<noteq> []"
  by (auto simp: host_coverage_def)

text \<open>A host whose distribution has a range in the store is never reported as not covered.\<close>

lemma coverage_loaded:
  assumes "host_coverage src distro release = Inr cov" "c \<in> stored" "in_scope distro release c"
  shows "cov = CoverageFull"
proof -
  have "distro \<noteq> []"
    using assms(3) by (simp add: in_scope_def)
  then obtain b where b: "rs_DistroCovered src distro release = Inr b" "cov = (if b then CoverageFull else CoverageNoFeed)"
    using assms(1) by (auto simp: host_coverage_def split: sum.splits)
  then show ?thesis
    using DistroCovered [OF b(1) assms(2,3)] by simp
qed

lemma names_not_empty: "[] \<notin> set (match_names (host_works h))"
  using host_works_fresh usable_name by (fastforce simp: set_match_names split: if_splits)

lemma distro_cands_stored:
  assumes "distro_cands src distro release ns = Inr cs" "distro \<noteq> []" "[] \<notin> set ns"
  shows "set cs = {c \<in> stored. host_scope distro release c \<and> (cd_Package c \<in> set ns \<or> cd_SourcePackage c \<in> set ns)}"
proof -
  obtain own where own: "rs_DistroRanges src distro release ns = Inr own"
    using assms(1) by (auto simp: distro_cands_def split: sum.splits)
  show ?thesis
  proof (cases "rebuildBase distro = []")
    case True
    then show ?thesis
      using assms own DistroRanges [OF own] by (auto simp: distro_cands_def host_scope_def in_scope_def)
  next
    case False
    then obtain up where up: "rs_DistroRanges src (rebuildBase distro) release ns = Inr up"
      using assms(1) own by (auto simp: distro_cands_def split: sum.splits)
    then have "cs = own @ up"
      using assms(1) own False by (simp add: distro_cands_def)
    then show ?thesis
      using DistroRanges [OF own assms(2,3)] DistroRanges [OF up False assms(3)] by (auto simp: host_scope_def)
  qed
qed

lemma attached_named:
  assumes "attached c p" "p = wk_pkg w" "w \<in> set ws" "pk_Name p \<noteq> []"
  shows "cd_Package c \<in> set (match_names ws) \<or> cd_SourcePackage c \<in> set (match_names ws)"
  using assms by (fastforce simp: attached_def rangeAppliesTo_def set_match_names split: if_splits)

text \<open>The works of a covered host: every usable package with exactly the stored ranges in
  scope that reach it, grouped by advisory.\<close>

lemma works_full:
  assumes "match_works src distro release CoverageFull (host_works h) = Inr ws" "distro \<noteq> []" "w \<in> set ws"
  shows "wk_pkg w \<in> set (ho_Packages h)" "usable (wk_pkg w)"
    and "\<And>a cs. (a, cs) \<in> set (wk_byAdv w) \<Longrightarrow> set cs = ranges_for stored distro release (wk_pkg w) a \<and> cs \<noteq> []"
    and "wk_mapped w \<longleftrightarrow> (\<exists>a. ranges_for stored distro release (wk_pkg w) a \<noteq> {})"
proof -
  obtain cands where cands: "distro_cands src distro release (match_names (host_works h)) = Inr cands"
    "ws = map (attach_all cands) (host_works h)"
    using assms(1) by (auto simp: match_works_def split: sum.splits)
  then obtain v where v: "v \<in> set (host_works h)" "w = attach_all cands v"
    using assms(3) by auto
  note fresh = host_works_fresh [OF v(1)]
  have spec: "pk_Name (wk_pkg v) \<noteq> []" "wk_byAdv v = []" "\<not> wk_mapped v"
    using fresh usable_name by auto
  note pkg = attach_all_spec(1) [OF spec, of cands]
  show "wk_pkg w \<in> set (ho_Packages h)" "usable (wk_pkg w)"
    using fresh pkg v by simp_all
  have stored: "{c \<in> set cands. attached c (wk_pkg v) \<and> cd_AdvisoryID c = a} = ranges_for stored distro release (wk_pkg v) a" for a
    using distro_cands_stored [OF cands(1) assms(2) names_not_empty] attached_named [OF _ refl v(1) spec(1)]
    by (auto simp: ranges_for_def)
  show "set cs = ranges_for stored distro release (wk_pkg w) a \<and> cs \<noteq> []" if "(a, cs) \<in> set (wk_byAdv w)" for a cs
    using attach_all_spec(3) [OF spec, of a cs cands] that stored [of a] pkg v(2) by simp
  have "wk_mapped w \<longleftrightarrow> (\<exists>c \<in> set cands. attached c (wk_pkg v))"
    using attach_all_spec(4) [OF spec] v by simp
  also have "\<dots> \<longleftrightarrow> (\<exists>a. ranges_for stored distro release (wk_pkg v) a \<noteq> {})"
    using stored by blast
  finally show "wk_mapped w \<longleftrightarrow> (\<exists>a. ranges_for stored distro release (wk_pkg w) a \<noteq> {})"
    using pkg v by simp
qed

lemma works_not_full:
  assumes "match_works src distro release cov (host_works h) = Inr ws" "cov \<noteq> CoverageFull" "w \<in> set ws"
  shows "wk_pkg w \<in> set (ho_Packages h) \<and> usable (wk_pkg w) \<and> wk_byAdv w = [] \<and> \<not> wk_mapped w"
  using assms host_works_fresh by (auto simp: match_works_def)

lemma works_keyed:
  assumes "match_works src distro release cov (host_works h) = Inr ws"
    and "cov = CoverageFull \<longrightarrow> distro \<noteq> []"
  shows "groups_keyed ws"
proof (cases "cov = CoverageFull")
  case True
  then show ?thesis
    using works_full(3) [of distro release h ws] assms by (auto simp: groups_keyed_def ranges_for_def)
next
  case False
  then show ?thesis
    using works_not_full [OF assms(1)] by (auto simp: groups_keyed_def)
qed

text \<open>Where every finding of a match comes from.\<close>

lemma match_findings:
  assumes "MatchHost src now h = Some (Inr r)" "f \<in> set (rt_Findings r)"
    and "NormalizeDistro (ho_Distro h) (ho_Release h) (ho_PackageManager h) = (distro, release, scheme)"
  shows "fi_Basis f \<in> {BasisLifecycle, BasisHost} \<or> distro_found stored h distro release scheme f \<or>
    upstream_found stored h distro release scheme (rt_Coverage r) f"
proof -
  obtain cov ws s0 s1 s2 res where ph: "host_coverage src distro release = Inr cov"
    "match_works src distro release cov (host_works h) = Inr ws"
    "ms_merged s0 = []" "rt_Findings res = []" "rt_Coverage res = cov"
    "judge_works scheme (usesUbuntuPro h) distro (rebuildBase distro) s0 ws = Some s1"
    "match_upstream src scheme ws s1 = Some (Inr s2)" "finish_match src now h res s2 = Inr r"
    using MatchHost_phases [OF assms(1)] assms(3) by (metis prod.inject)
  have full: "cov = CoverageFull \<Longrightarrow> distro \<noteq> []"
    using coverage_full ph(1) by simp
  have rcov: "rt_Coverage r = cov"
    using finish_match_findings(1) [OF ph(8,4)] ph(5) by simp
  have ok: "merged_ok (\<lambda>f. distro_origin h distro scheme ws f \<or>
      (\<exists>ns ups. rs_UpstreamRanges src ns = Inr ups \<and> upstream_origin scheme ups ws f)) (ms_merged s2)"
    using merged_origin [OF ph(6,7,3)] works_keyed [OF ph(2)] full by blast
  obtain hs where hs: "mset (rt_Findings r) = mset hs + mset (map snd (ms_merged s2))"
    "\<forall>f \<in> set hs. fi_Basis f \<in> {BasisLifecycle, BasisHost}"
    using finish_match_findings(2) [OF ph(8,4)] by blast
  have "set (rt_Findings r) = set hs \<union> snd ` set (ms_merged s2)"
    using arg_cong [OF hs(1), of set_mset] by simp
  then consider "f \<in> set hs" | k where "(k, f) \<in> set (ms_merged s2)"
    using assms(2) by auto
  then show ?thesis
  proof cases
    case 1
    then show ?thesis
      using hs(2) by blast
  next
    case 2
    then consider "distro_origin h distro scheme ws f"
      | ns ups where "rs_UpstreamRanges src ns = Inr ups" "upstream_origin scheme ups ws f"
      using ok unfolding merged_ok_def by blast
    then show ?thesis
    proof cases
      case 1
      then obtain w cs where w: "w \<in> set ws" "(fi_AdvisoryID f, cs) \<in> set (wk_byAdv w)"
        "judge (wk_pkg w) cs scheme (usesUbuntuPro h) distro (rebuildBase distro) = Some (judgeFinding f)"
        by (auto simp: distro_origin_def)
      have cov: "cov = CoverageFull"
        using works_not_full [OF ph(2) _ w(1)] w(2) by force
      have "distro_found stored h distro release scheme f"
        unfolding distro_found_def
        using works_full [of distro release h ws w] ph(2) cov full w by metis
      then show ?thesis by simp
    next
      case 2
      then obtain w c a where w: "w \<in> set ws" "\<not> wk_mapped w" and c: "c \<in> set ups"
        "PackageMatches (cd_Package c) (pk_Name (wk_pkg w))"
        "Assess (pk_Version (wk_pkg w)) (cd_Fixed c) scheme = Some a" "as_Verdict a = VerdictVulnerable"
        "f = newFinding c (wk_pkg w) (pk_Version (wk_pkg w)) BasisUpstream KindFinding (as_Reason a)"
        by (auto simp: upstream_origin_def)
      have "c \<in> stored" "cd_Distro c = []"
        using UpstreamRanges [OF 2(1)] c(1) by auto
      moreover have "wk_pkg w \<in> set (ho_Packages h) \<and> usable (wk_pkg w)"
        using works_full(1,2) [of distro release h ws w] works_not_full [OF ph(2) _ w(1)] ph(2) full w(1) by metis
      moreover have "rt_Coverage r = CoverageFull \<longrightarrow> (\<forall>b. ranges_for stored distro release (wk_pkg w) b = {})"
        using works_full(4) [of distro release h ws w] ph(2) full rcov w by metis
      ultimately have "upstream_found stored h distro release scheme (rt_Coverage r) f"
        using c unfolding upstream_found_def by blast
      then show ?thesis by simp
    qed
  qed
qed

text \<open>A package that has reached one of the fixes is in no finding about that advisory.\<close>

lemma patched_not_flagged:
  assumes "MatchHost src now h = Some (Inr r)" "rt_Coverage r = CoverageFull" "f \<in> set (rt_Findings r)"
    and nd: "NormalizeDistro (ho_Distro h) (ho_Release h) (ho_PackageManager h) = (distro, release, scheme)"
    and "scheme \<noteq> SchemeAuto" "\<forall>c \<in> stored. cand_plain c" "pkg_plain p"
    and c: "c \<in> ranges_for stored distro release p (fi_AdvisoryID f)" "cd_State c \<in> {StateFixed, StateAffected}"
      "cd_Fixed c \<noteq> []" "cd_Introduced c = []" "Compare (versionFor c p) (cd_Fixed c) scheme = Some k" "0 \<le> k"
    and only: "\<forall>q \<in> set (ho_Packages h). pk_Name q = pk_Name p \<longrightarrow> q = p"
  shows "fi_Basis f \<in> {BasisLifecycle, BasisHost} \<or> fi_Package f \<noteq> pk_Name p"
proof -
  consider "fi_Basis f \<in> {BasisLifecycle, BasisHost}" | "distro_found stored h distro release scheme f"
    | "upstream_found stored h distro release scheme (rt_Coverage r) f"
    using match_findings [OF assms(1,3) nd] by blast
  then show ?thesis
  proof cases
    case 2
    then obtain q cs where q: "q \<in> set (ho_Packages h)"
      "set cs = ranges_for stored distro release q (fi_AdvisoryID f)"
      "judge q cs scheme (usesUbuntuPro h) distro (rebuildBase distro) = Some (judgeFinding f)"
      by (auto simp: distro_found_def)
    have "fi_Package f = pk_Name q"
      using judge_quotes [OF q(3)] by simp
    moreover have False if "q = p"
    proof -
      have plain: "\<forall>c \<in> set cs. cand_plain c"
        using assms(6) q(2) by (simp add: ranges_for_def)
      have "c \<in> set cs"
        using c(1) q(2) that by simp
      then have "kind_of_classes (range_class p scheme (usesUbuntuPro h) (rebuildBase distro) ` set cs) = None"
        using reached_class [OF plain assms(7) _ c(2-6)] by simp
      then show False
        using judge_no_finding [OF plain assms(7,5), of "usesUbuntuPro h" "rebuildBase distro" distro] q(3) that by auto
    qed
    ultimately show ?thesis
      using only q(1) by metis
  next
    case 3
    then obtain q d a where q: "q \<in> set (ho_Packages h)"
      "f = newFinding d q (pk_Version q) BasisUpstream KindFinding (as_Reason (a :: Assessment))"
      "rt_Coverage r = CoverageFull \<longrightarrow> (\<forall>b. ranges_for stored distro release q b = {})"
      unfolding upstream_found_def by blast
    have "fi_Package f = pk_Name q"
      by (simp add: q(2) newFinding_def)
    moreover have "q \<noteq> p"
      using q(3) assms(2) c(1) by blast
    ultimately show ?thesis
      using only q(1) by metis
  qed blast
qed

text \<open>A match always returns, with a result or an error of the source.\<close>

lemma match_returns:
  assumes "\<forall>p \<in> set (ho_Packages h). pkg_plain p" "\<forall>c \<in> stored. cand_plain c"
  shows "\<exists>r. MatchHost src now h = Some r"
proof -
  obtain distro release scheme where nd:
    "NormalizeDistro (ho_Distro h) (ho_Release h) (ho_PackageManager h) = (distro, release, scheme)"
    by (metis prod_cases3)
  show ?thesis
  proof (cases "host_coverage src distro release")
    case (Inl e)
    then show ?thesis
      by (simp add: MatchHost_def nd)
  next
    case cov: (Inr cov)
    show ?thesis
    proof (cases "match_works src distro release cov (host_works h)")
      case (Inl e)
      then show ?thesis
        by (simp add: MatchHost_def nd cov)
    next
      case ws: (Inr ws)
      have full: "cov = CoverageFull \<longrightarrow> distro \<noteq> []"
        using coverage_full cov by blast
      have plain: "work_plain w" if w: "w \<in> set ws" for w
      proof (cases "cov = CoverageFull")
        case True
        then show ?thesis
          using works_full [of distro release h ws w] ws full w assms
          by (auto simp: work_plain_def ranges_for_def)
      next
        case False
        then show ?thesis
          using works_not_full [OF ws False w] assms by (simp add: work_plain_def)
      qed
      let ?s0 = "\<lparr>ms_stats = zero_Stats\<lparr>st_Packages := length (ho_Packages h)\<rparr>, ms_merged = [], ms_advSeen = []\<rparr>"
      obtain s1 where s1: "judge_works scheme (usesUbuntuPro h) distro (rebuildBase distro) ?s0 ws = Some s1"
        using judge_works_returns plain by blast
      have "\<exists>r. match_upstream src scheme ws s1 = Some r"
      proof -
        have "\<exists>s'. upstream_works scheme ups s1 (filter (\<lambda>w. \<not> wk_mapped w) ws) = Some s'"
          if "rs_UpstreamRanges src ns = Inr ups" for ns ups
          using UpstreamRanges [OF that] plain assms(2)
          by (intro upstream_works_returns) (auto simp: work_plain_def pkg_plain_def cand_plain_def)
        then show ?thesis
          by (fastforce simp: match_upstream_def Let_def split: sum.split)
      qed
      then show ?thesis
        using s1 by (auto simp: MatchHost_def nd cov ws Let_def split: sum.split)
    qed
  qed
qed

end

section \<open>The order of the findings\<close>

definition finding_cmp :: "Finding \<Rightarrow> Finding \<Rightarrow> int" where
  "finding_cmp a b =
     cmp_then (cmp_lin (kindRank (fi_Kind a)) (kindRank (fi_Kind b)))
       (cmp_then (cmp_lin (if fi_KEV a then 0 else 1 :: nat) (if fi_KEV b then 0 else 1))
         (cmp_then (cmp_lin (4 - severityRank (fi_Severity a)) (4 - severityRank (fi_Severity b)))
           (cmp_lin (Key a) (Key b))))"

interpretation fcmp: comparator finding_cmp
  unfolding finding_cmp_def
  by (rule comparator_then [OF comparator_key [OF comparator_cmp_lin, where f = "\<lambda>a. kindRank (fi_Kind a)"]
      comparator_then [OF comparator_key [OF comparator_cmp_lin, where f = "\<lambda>a. if fi_KEV a then 0 else 1 :: nat"]
        comparator_then [OF comparator_key [OF comparator_cmp_lin, where f = "\<lambda>a. 4 - severityRank (fi_Severity a)"]
          comparator_key [OF comparator_cmp_lin, where f = Key]]]])

lemma severityRank_le: "severityRank s \<le> 4"
  by (simp add: severityRank_def Let_def)

lemma finding_less_cmp:
  assumes "fi_Kind a = fi_Kind b \<or> kindRank (fi_Kind a) \<noteq> kindRank (fi_Kind b)"
  shows "finding_less a b \<longleftrightarrow> finding_cmp a b < 0"
  using assms severityRank_le [of "fi_Severity a"] severityRank_le [of "fi_Severity b"]
  by (auto simp: finding_less_def finding_cmp_def cmp_then_def cmp_lin_def)

text \<open>The rank separates the kinds as long as end-of-life and repository findings do not meet.\<close>

definition kinds_ranked :: "Finding list \<Rightarrow> bool" where
  "kinds_ranked fs \<longleftrightarrow> KindEOL \<notin> fi_Kind ` set fs \<or> KindRepoHealth \<notin> fi_Kind ` set fs"

lemma kindRank_inject:
  "kindRank j = kindRank k \<longleftrightarrow> j = k \<or> j = KindEOL \<and> k = KindRepoHealth \<or> j = KindRepoHealth \<and> k = KindEOL"
  by (cases j; cases k) auto

lemma kinds_ranked_less:
  assumes "kinds_ranked fs" "a \<in> set fs" "b \<in> set fs"
  shows "finding_less a b \<longleftrightarrow> finding_cmp a b < 0"
proof (rule finding_less_cmp)
  have "\<not> (fi_Kind a = KindEOL \<and> fi_Kind b = KindRepoHealth)" "\<not> (fi_Kind a = KindRepoHealth \<and> fi_Kind b = KindEOL)"
    using assms unfolding kinds_ranked_def by (metis image_eqI)+
  then show "fi_Kind a = fi_Kind b \<or> kindRank (fi_Kind a) \<noteq> kindRank (fi_Kind b)"
    by (auto simp: kindRank_inject)
qed

lemma go_sort_findings:
  assumes "kinds_ranked fs"
  shows "go_sort finding_less fs = go_sort (\<lambda>a b. finding_cmp a b < 0) fs"
  using assms by (intro go_sort_cong) (rule kinds_ranked_less)

section \<open>Properties\<close>

text \<open>The result does not depend on the order in which Go walks the map of findings. Any two
  arrangements of findings with different keys, of which not both end-of-life and repository
  findings occur, sort to the same list.\<close>

theorem finding_sort_unique:
  assumes "mset fs = mset gs" "distinct (map Key fs)" "kinds_ranked fs"
  shows "go_sort finding_less fs = go_sort finding_less gs"
proof -
  have "set fs = set gs"
    using assms(1) by (metis set_mset_mset)
  then have "kinds_ranked gs"
    using assms(3) by (simp add: kinds_ranked_def)
  moreover have "a = b" if "a \<in> set fs" "b \<in> set fs" "\<not> finding_cmp a b < 0" "\<not> finding_cmp b a < 0" for a b
  proof -
    have "finding_cmp a b = 0"
      using that(3,4) fcmp.cmp_flip [of a b] fcmp.cmp_flip [of b a] by auto
    then have "Key a = Key b"
      by (simp add: finding_cmp_def cmp_then_def split: if_splits)
    then show ?thesis
      using that(1,2) assms(2) by (auto simp: distinct_map dest: inj_onD)
  qed
  ultimately show ?thesis
    using assms(1,3) fcmp.cmp.go_sort_unique [of fs gs] by (simp add: go_sort_findings)
qed

definition ex_finding :: "Kind \<Rightarrow> string \<Rightarrow> string \<Rightarrow> Finding" where
  "ex_finding k adv sev = (newFinding (ex_cand ''ubuntu'' StateFixed ''2'') (ex_pkg ''1'') ''1'' BasisDistro k [])
     \<lparr>fi_AdvisoryID := adv, fi_Severity := sev\<rparr>"

theorem finding_sort_unique_witness:
  "go_sort finding_less [ex_finding KindUnfixed ''B'' ''low'', ex_finding KindFinding ''A'' ''low''] =
   go_sort finding_less [ex_finding KindFinding ''A'' ''low'', ex_finding KindUnfixed ''B'' ''low'']"
  by (rule finding_sort_unique)
    (simp_all add: ex_finding_def newFinding_def Key_def kinds_ranked_def)

text \<open>The comparison the findings are sorted with is not a strict weak order. End-of-life
  and repository findings have the same rank and different kinds, so a repository finding is
  equivalent to each of two end-of-life findings of which one is before the other; the place a
  sort gives them is not determined.\<close>

lemma finding_less_not_strict_weak: "\<not> strict_weak finding_less"
proof
  assume "strict_weak finding_less"
  then have trans: "\<not> finding_less y x \<Longrightarrow> \<not> finding_less z y \<Longrightarrow> \<not> finding_less z x" for x y z
    by (rule strict_weak.notless_trans)
  let ?high = "ex_finding KindEOL ''EOL:php:8.0'' ''high''" and ?low = "ex_finding KindEOL ''EOL:php:8.1'' ''low''"
    and ?repo = "ex_finding KindRepoHealth ''REPO:1'' ''high''"
  have "\<not> finding_less ?repo ?low" "\<not> finding_less ?high ?repo" "finding_less ?high ?low"
    by (simp_all add: finding_less_def ex_finding_def newFinding_def severityRank_def ToLower_def lower_char_def)
  then show False
    using trans [of ?repo ?low ?high] by blast
qed

text \<open>A range the matcher's own test accepts can fail to reach its package. A range with no
  source package that names the source of an installed binary applies by \<open>rangeAppliesTo\<close>,
  but neither index leads to it, so the package stays unmapped.\<close>

lemma attach_misses_source_range:
  "\<exists>c w. rangeAppliesTo c (wk_pkg w) \<and> usable (wk_pkg w) \<and> wk_byAdv w = [] \<and>
     \<not> wk_mapped (attach_all [c] w) \<and> wk_byAdv (attach_all [c] w) = []"
proof -
  let ?c = "(ex_cand ''ubuntu'' StateFixed ''2'')\<lparr>cd_SourcePackage := []\<rparr>"
  let ?w = "\<lparr>wk_pkg = ex_pkg ''1'', wk_family = ''openssh'', wk_mapped = False, wk_byAdv = []\<rparr>"
  have "rangeAppliesTo ?c (wk_pkg ?w)" "usable (wk_pkg ?w)"
    by (simp_all add: rangeAppliesTo_def ex_cand_def ex_pkg_def usable_def TrimSpace_def is_space_def)
  moreover have "attach_order [?c] (wk_pkg ?w) = []"
    by (simp add: attach_order_def bySource_def byName_def ex_cand_def ex_pkg_def)
  then have "attach_all [?c] ?w = ?w"
    by (simp add: attach_all_def)
  ultimately show ?thesis
    by (intro exI [of _ ?c] exI [of _ ?w]) simp
qed

end
