(* ===== verification/Advisory_Store.thy ===== *)
theory Advisory_Store
  imports Vuln_Match
begin

text \<open>
  internal/storepg/advisories.go and the range queries of findings.go: the advisory tables as
  a state, the write that replaces an advisory with its ranges, and the queries the matcher
  runs. A table is a list of rows in insertion order; an SQL query is the selection, join and
  order it names, a NULL column the empty string (which \<open>nullable\<close> writes and COALESCE
  reads). The tables are the state of one PostgreSQL schema; constraint checks the code makes
  before it writes are part of the model, failures of the connection are not.
\<close>

section \<open>Data\<close>

definition legacyEcosystem :: string where "legacyEcosystem = ''legacy''"

definition FixState_valid :: "string \<Rightarrow> bool" where
  "FixState_valid f \<longleftrightarrow>
     f \<in> {StateAffected, StateFixed, StateWillNotFix, StateNotAffected, StateUnderInvestigation}"

record FeedRef =
  fr_Name :: string
  fr_URL :: string
  fr_FetchedAt :: "time option"
  fr_SHA256 :: string
  fr_RecordCount :: int

record FeedSnapshot =
  fs_ID :: int
  fs_CreatedAt :: time
  fs_Feeds :: "FeedRef list"

record AdvisoryRange =
  ar_ID :: int
  ar_AdvisoryID :: string
  ar_Ecosystem :: string
  ar_Distro :: string
  ar_Release :: string
  ar_Package :: string
  ar_SourcePackage :: string
  ar_Introduced :: string
  ar_Fixed :: string
  ar_FixState :: string
  ar_SnapshotID :: "int option"
  ar_Issued :: string
  ar_Feed :: string

record Advisory =
  av_ID :: string
  av_CVE :: string
  av_Summary :: string
  av_Severity :: string
  av_Source :: string
  av_CVSSVector :: string
  av_CVSSScore :: score
  av_CWE :: "string list"
  av_KEV :: bool
  av_KEVAdded :: "time option"
  av_EPSS :: score
  av_EPSSDate :: "time option"
  av_SnapshotID :: "int option"
  av_Package :: string
  av_Below :: string
  av_Ranges :: "AdvisoryRange list"

text \<open>\<open>av_Package\<close> and \<open>av_Below\<close> are the two columns of the legacy single floor.
  The tables: advisories by id (without their ranges), range rows, snapshots, and the two
  identity counters.\<close>

record store =
  db_advisories :: "(string \<times> Advisory) list"
  db_ranges :: "AdvisoryRange list"
  db_snapshots :: "FeedSnapshot list"
  db_next_range :: int
  db_next_snapshot :: int

definition empty_store :: store where
  "empty_store = \<lparr>db_advisories = [], db_ranges = [], db_snapshots = [], db_next_range = 1, db_next_snapshot = 1\<rparr>"

section \<open>Validation\<close>

definition FeedRef_validate :: "FeedRef \<Rightarrow> string option" where
  "FeedRef_validate f =
     (if TrimSpace (fr_Name f) = [] then Some ''feed name is required''
      else if TrimSpace (fr_URL f) = [] then Some (''feed: url is required'')
      else if fr_FetchedAt f = None then Some (''feed: fetched_at is required'')
      else if \<not> (length (fr_SHA256 f) = 64 \<and> list_all is_hex_digit (fr_SHA256 f)) then
        Some (''feed: sha256 must be 64 lowercase hex characters'')
      else if fr_RecordCount f < 0 then Some (''feed: record_count must not be negative'')
      else None)"

definition Range_validate :: "AdvisoryRange \<Rightarrow> string option" where
  "Range_validate r =
     (if TrimSpace (ar_Package r) = [] then Some ''package is required''
      else if \<not> FixState_valid (ar_FixState r) then
        Some ''fix_state is not one of affected, fixed, will_not_fix, not_affected, under_investigation''
      else if ar_FixState r = StateFixed \<and> ar_Fixed r = [] then Some ''fix_state fixed requires a fixed version''
      else if ar_Release r \<noteq> [] \<and> ar_Distro r = [] then Some ''release requires distro''
      else if ar_Ecosystem r = legacyEcosystem then Some ''ecosystem is reserved''
      else None)"

definition identity :: "AdvisoryRange \<Rightarrow> string" where
  "identity r = Join [ar_Ecosystem r, ar_Distro r, ar_Release r, ar_Package r, ar_Introduced r, ar_Fixed r] [NUL]"

text \<open>The loop over the ranges with the map \<open>seen\<close>.\<close>

fun validate_ranges :: "string list \<Rightarrow> AdvisoryRange list \<Rightarrow> string option" where
  "validate_ranges seen [] = None"
| "validate_ranges seen (r # rs) =
     (case Range_validate r of
        Some e \<Rightarrow> Some e
      | None \<Rightarrow> if identity r \<in> set seen then Some ''range duplicates an earlier range''
                else validate_ranges (identity r # seen) rs)"

definition Advisory_validate :: "Advisory \<Rightarrow> string option" where
  "Advisory_validate a =
     (if TrimSpace (av_ID a) = [] then Some ''advisory id is required''
      else if TrimSpace (av_Severity a) = [] then Some ''severity is required''
      else if (case av_CVSSScore a of None \<Rightarrow> False | Some s \<Rightarrow> s < 0 \<or> 10 < s) then Some ''cvss_score outside 0..10''
      else if (case av_EPSS a of None \<Rightarrow> False | Some s \<Rightarrow> s < 0 \<or> 1 < s) then Some ''epss outside 0..1''
      else validate_ranges [] (av_Ranges a))"

section \<open>Writes\<close>

fun first_error :: "('a \<Rightarrow> string option) \<Rightarrow> 'a list \<Rightarrow> string option" where
  "first_error v [] = None"
| "first_error v (x # xs) = (case v x of Some e \<Rightarrow> Some e | None \<Rightarrow> first_error v xs)"

text \<open>\<open>RecordFeedSnapshot\<close>; the database stamps the creation time \<open>now\<close>.\<close>

definition RecordFeedSnapshot :: "time \<Rightarrow> FeedRef list \<Rightarrow> store \<Rightarrow> string + FeedSnapshot \<times> store" where
  "RecordFeedSnapshot now feeds st =
     (if feeds = [] then Inl ''a snapshot needs at least one feed''
      else case first_error FeedRef_validate feeds of
        Some e \<Rightarrow> Inl e
      | None \<Rightarrow>
          let snap = \<lparr>fs_ID = db_next_snapshot st, fs_CreatedAt = now, fs_Feeds = feeds\<rparr>
          in Inr (snap, st\<lparr>db_snapshots := db_snapshots st @ [snap], db_next_snapshot := db_next_snapshot st + 1\<rparr>))"

definition GetFeedSnapshot :: "int \<Rightarrow> store \<Rightarrow> string + FeedSnapshot" where
  "GetFeedSnapshot sid st =
     (case find (\<lambda>s. fs_ID s = sid) (db_snapshots st) of None \<Rightarrow> Inl ''no rows in result set'' | Some s \<Rightarrow> Inr s)"

definition sourceOrLocal :: "string \<Rightarrow> string" where
  "sourceOrLocal s = (if s = [] then ''local'' else s)"

text \<open>The rows a range set becomes, with fresh identities.\<close>

fun range_rows :: "Advisory \<Rightarrow> int \<Rightarrow> AdvisoryRange list \<Rightarrow> AdvisoryRange list" where
  "range_rows a n [] = []"
| "range_rows a n (r # rs) =
     r\<lparr>ar_ID := n, ar_AdvisoryID := av_ID a,
       ar_SnapshotID := (case ar_SnapshotID r of None \<Rightarrow> av_SnapshotID a | Some s \<Rightarrow> Some s),
       ar_Feed := sourceOrLocal (av_Source a)\<rparr> # range_rows a (n + 1) rs"

text \<open>\<open>UpsertAdvisoryWithRanges\<close>: one transaction, which replaces the row and all its ranges.\<close>

definition UpsertAdvisoryWithRanges :: "Advisory \<Rightarrow> store \<Rightarrow> string + store" where
  "UpsertAdvisoryWithRanges a st =
     (case Advisory_validate a of
        Some e \<Rightarrow> Inl e
      | None \<Rightarrow>
          Inr (st\<lparr>db_advisories := upd_assoc (av_ID a) (\<lambda>_. a\<lparr>av_Source := sourceOrLocal (av_Source a), av_Package := [], av_Below := [], av_Ranges := []\<rparr>)
                    (db_advisories st),
                  db_ranges := filter (\<lambda>r. ar_AdvisoryID r \<noteq> av_ID a) (db_ranges st) @
                    range_rows a (db_next_range st) (av_Ranges a),
                  db_next_range := db_next_range st + int (length (av_Ranges a))\<rparr>))"

text \<open>\<open>UpsertAdvisory\<close> (store.go), the legacy single-floor write, with the trigger of
  migration 019 that keeps its range.\<close>

definition new_advisory :: "string \<Rightarrow> Advisory" where
  "new_advisory aid =
     \<lparr>av_ID = aid, av_CVE = [], av_Summary = [], av_Severity = [], av_Source = [], av_CVSSVector = [],
      av_CVSSScore = None, av_CWE = [], av_KEV = False, av_KEVAdded = None, av_EPSS = None,
      av_EPSSDate = None, av_SnapshotID = None, av_Package = [], av_Below = [], av_Ranges = []\<rparr>"

definition legacy_mirror :: "store \<Rightarrow> Advisory \<Rightarrow> AdvisoryRange list" where
  "legacy_mirror st a =
     (if av_Package a \<noteq> [] \<and> av_Below a \<noteq> [] then
        [\<lparr>ar_ID = db_next_range st, ar_AdvisoryID = av_ID a, ar_Ecosystem = legacyEcosystem, ar_Distro = [],
          ar_Release = [], ar_Package = av_Package a, ar_SourcePackage = [], ar_Introduced = [],
          ar_Fixed = av_Below a, ar_FixState = StateFixed, ar_SnapshotID = av_SnapshotID a, ar_Issued = [],
          ar_Feed = []\<rparr>]
      else [])"

definition UpsertAdvisory ::
  "string \<Rightarrow> string \<Rightarrow> string \<Rightarrow> string \<Rightarrow> string \<Rightarrow> string \<Rightarrow> string \<Rightarrow> store \<Rightarrow> store" where
  "UpsertAdvisory aid cve pkg below severity summary source st =
     (let old = (case map_of (db_advisories st) aid of None \<Rightarrow> new_advisory aid | Some a \<Rightarrow> a);
          a = old\<lparr>av_CVE := cve, av_Package := pkg, av_Below := below, av_Severity := severity,
                  av_Summary := summary, av_Source := source\<rparr>;
          kept = filter (\<lambda>r. \<not> (ar_AdvisoryID r = aid \<and> ar_Ecosystem r = legacyEcosystem)) (db_ranges st);
          mirror = legacy_mirror st a
      in st\<lparr>db_advisories := upd_assoc aid (\<lambda>_. a) (db_advisories st), db_ranges := kept @ mirror,
            db_next_range := db_next_range st + int (length mirror)\<rparr>)"

section \<open>Queries\<close>

definition range_order :: "AdvisoryRange list \<Rightarrow> AdvisoryRange list" where
  "range_order rs =
     go_sort (\<lambda>r q. if ar_AdvisoryID r \<noteq> ar_AdvisoryID q then ar_AdvisoryID r < ar_AdvisoryID q else ar_ID r < ar_ID q) rs"

text \<open>The row of the join of a range with its advisory (\<open>candidateColumns\<close>).\<close>

definition candidate_of :: "Advisory \<Rightarrow> AdvisoryRange \<Rightarrow> Candidate" where
  "candidate_of a r =
     \<lparr>cd_RangeID = ar_ID r, cd_AdvisoryID = ar_AdvisoryID r, cd_CVE = av_CVE a, cd_Severity = av_Severity a,
      cd_Summary = av_Summary a, cd_KEV = av_KEV a, cd_EPSS = av_EPSS a, cd_CVSS = av_CVSSScore a,
      cd_Ecosystem = ar_Ecosystem r, cd_Distro = ar_Distro r, cd_Release = ar_Release r,
      cd_Package = ar_Package r, cd_SourcePackage = ar_SourcePackage r, cd_Introduced = ar_Introduced r,
      cd_Fixed = ar_Fixed r, cd_State = ar_FixState r, cd_SnapshotID = ar_SnapshotID r, cd_Feed = ar_Feed r,
      cd_FeedDate = None, cd_Issued = ar_Issued r\<rparr>"

definition select_candidates :: "store \<Rightarrow> (AdvisoryRange \<Rightarrow> bool) \<Rightarrow> Candidate list" where
  "select_candidates st P =
     List.map_filter (\<lambda>r. case map_of (db_advisories st) (ar_AdvisoryID r) of
         None \<Rightarrow> None | Some a \<Rightarrow> Some (candidate_of a r))
       (range_order (filter P (db_ranges st)))"

definition fallbackFeedLabel :: "Candidate \<Rightarrow> string" where
  "fallbackFeedLabel c =
     (if cd_Distro c \<noteq> [] \<and> cd_Release c \<noteq> [] then cd_Distro c @ '' '' @ cd_Release c
      else if cd_Distro c \<noteq> [] then cd_Distro c
      else if cd_Ecosystem c \<noteq> [] then cd_Ecosystem c else ''unknown'')"

text \<open>\<open>stampFeedDates\<close>; a snapshot read once is read from a cache, which changes nothing.\<close>

definition stamp_one :: "store \<Rightarrow> Candidate \<Rightarrow> string + Candidate" where
  "stamp_one st c0 =
     (let c = (if cd_Feed c0 = [] then c0\<lparr>cd_Feed := fallbackFeedLabel c0\<rparr> else c0)
      in case cd_SnapshotID c of
           None \<Rightarrow> Inr c
         | Some sid \<Rightarrow>
             (case GetFeedSnapshot sid st of
                Inl e \<Rightarrow> Inl e
              | Inr snap \<Rightarrow>
                  Inr (c\<lparr>cd_FeedDate := Some (case find (\<lambda>f. fr_Name f = cd_Feed c) (fs_Feeds snap) of
                      None \<Rightarrow> fs_CreatedAt snap
                    | Some f \<Rightarrow> (case fr_FetchedAt f of None \<Rightarrow> fs_CreatedAt snap | Some t \<Rightarrow> t))\<rparr>)))"

fun stampFeedDates :: "store \<Rightarrow> Candidate list \<Rightarrow> string + Candidate list" where
  "stampFeedDates st [] = Inr []"
| "stampFeedDates st (c # cs) =
     (case stamp_one st c of
        Inl e \<Rightarrow> Inl e
      | Inr c' \<Rightarrow> (case stampFeedDates st cs of Inl e \<Rightarrow> Inl e | Inr cs' \<Rightarrow> Inr (c' # cs')))"

definition range_in_scope :: "string \<Rightarrow> string \<Rightarrow> AdvisoryRange \<Rightarrow> bool" where
  "range_in_scope distro release r \<longleftrightarrow>
     ar_Distro r \<noteq> [] \<and> ar_Distro r = distro \<and> (ar_Release r = [] \<or> ar_Release r = release)"

definition DistroRanges :: "store \<Rightarrow> string \<Rightarrow> string \<Rightarrow> string list \<Rightarrow> string + Candidate list" where
  "DistroRanges st distro release names =
     (if names = [] then Inr []
      else stampFeedDates st (select_candidates st (\<lambda>r. range_in_scope distro release r \<and>
             (ar_Package r \<in> set names \<or> ar_SourcePackage r \<noteq> [] \<and> ar_SourcePackage r \<in> set names))))"

definition UpstreamRanges :: "store \<Rightarrow> string list \<Rightarrow> string + Candidate list" where
  "UpstreamRanges st names =
     stampFeedDates st (select_candidates st (\<lambda>r. ar_Distro r = [] \<and> ar_Ecosystem r \<in> {legacyEcosystem}))"

definition DistroCovered :: "store \<Rightarrow> string \<Rightarrow> string \<Rightarrow> string + bool" where
  "DistroCovered st distro release = Inr (list_ex (range_in_scope distro release) (db_ranges st))"

definition ListAdvisoryRanges :: "store \<Rightarrow> string \<Rightarrow> string \<Rightarrow> string \<Rightarrow> bool \<Rightarrow> string + AdvisoryRange list" where
  "ListAdvisoryRanges st distro release package agnostic =
     (if package = [] then Inl ''package is required''
      else if distro = [] \<and> \<not> agnostic then Inl ''distro is required unless IncludeDistroAgnostic is set''
      else Inr (range_order (filter (\<lambda>r. (ar_Package r = package \<or> ar_SourcePackage r = package) \<and>
             (range_in_scope distro release r \<or> agnostic \<and> ar_Distro r = [])) (db_ranges st))))"

definition GetAdvisory :: "store \<Rightarrow> string \<Rightarrow> string + Advisory" where
  "GetAdvisory st aid =
     (case map_of (db_advisories st) aid of
        None \<Rightarrow> Inl ''no rows in result set''
      | Some a \<Rightarrow> Inr (a\<lparr>av_Ranges := go_sort (\<lambda>r q. ar_ID r < ar_ID q)
             (filter (\<lambda>r. ar_AdvisoryID r = aid) (db_ranges st))\<rparr>))"

text \<open>The store as the matcher's source. The release calendar is a table of its own, read by
  \<open>EOLReleases\<close>; here it is the argument \<open>cal\<close>.\<close>

definition store_source :: "(string list \<Rightarrow> string + Release list) \<Rightarrow> store \<Rightarrow> RangeSource" where
  "store_source cal st =
     \<lparr>rs_DistroRanges = DistroRanges st, rs_UpstreamRanges = UpstreamRanges st,
      rs_DistroCovered = DistroCovered st, rs_Lifecycle = Some cal\<rparr>"

section \<open>The invariant of the tables\<close>

definition range_ok :: "AdvisoryRange \<Rightarrow> bool" where
  "range_ok r \<longleftrightarrow> ar_Package r \<noteq> [] \<and> FixState_valid (ar_FixState r) \<and>
     (ar_FixState r = StateFixed \<longrightarrow> ar_Fixed r \<noteq> []) \<and> (ar_Distro r = [] \<longrightarrow> ar_Release r = [])"

text \<open>Every row is one the schema allows, belongs to an advisory, and has an identity of its
  own, below the counter.\<close>

definition store_ok :: "store \<Rightarrow> bool" where
  "store_ok st \<longleftrightarrow>
     distinct (map fst (db_advisories st)) \<and> (\<forall>(k, a) \<in> set (db_advisories st). av_ID a = k) \<and>
     (\<forall>r \<in> set (db_ranges st). range_ok r \<and> ar_AdvisoryID r \<in> fst ` set (db_advisories st) \<and> ar_ID r < db_next_range st) \<and>
     distinct (map ar_ID (db_ranges st))"

inductive reachable :: "store \<Rightarrow> bool" where
  reach_empty: "reachable empty_store"
| reach_snapshot: "reachable st \<Longrightarrow> RecordFeedSnapshot now feeds st = Inr (snap, st') \<Longrightarrow> reachable st'"
| reach_upsert: "reachable st \<Longrightarrow> UpsertAdvisoryWithRanges a st = Inr st' \<Longrightarrow> reachable st'"
| reach_legacy: "reachable st \<Longrightarrow> reachable (UpsertAdvisory aid cve pkg below severity summary source st)"

lemma validate_ranges_ok:
  "validate_ranges seen rs = None \<Longrightarrow> r \<in> set rs \<Longrightarrow> Range_validate r = None"
  by (induction seen rs rule: validate_ranges.induct) (auto split: option.splits if_splits)

lemma Range_validate_ok: "Range_validate r = None \<Longrightarrow> range_ok r \<and> ar_Ecosystem r \<noteq> legacyEcosystem"
  by (auto simp: Range_validate_def range_ok_def TrimSpace_def split: if_splits)

lemma Advisory_validate_ranges: "Advisory_validate a = None \<Longrightarrow> validate_ranges [] (av_Ranges a) = None"
  by (auto simp: Advisory_validate_def split: if_splits)

lemma range_rows_map:
  "map (\<lambda>r. (ar_ID r, ar_AdvisoryID r)) (range_rows a n rs) = map (\<lambda>i. (n + int i, av_ID a)) [0..<length rs]"
proof (induction rs arbitrary: n)
  case (Cons r rs)
  have "map (\<lambda>i. (n + int i, av_ID a)) [0..<Suc (length rs)] =
      (n, av_ID a) # map (\<lambda>i. (n + 1 + int i, av_ID a)) [0..<length rs]"
    by (simp only: map_upt_Suc) (simp add: algebra_simps)
  with Cons show ?case
    by (simp del: upt_Suc)
qed simp

lemma range_rows_elem:
  "q \<in> set (range_rows a n rs) \<Longrightarrow> ar_AdvisoryID q = av_ID a \<and> n \<le> ar_ID q \<and> ar_ID q < n + int (length rs) \<and>
     (\<exists>r \<in> set rs. ar_Ecosystem q = ar_Ecosystem r \<and> ar_Distro q = ar_Distro r \<and> ar_Release q = ar_Release r \<and>
        ar_Package q = ar_Package r \<and> ar_SourcePackage q = ar_SourcePackage r \<and> ar_Introduced q = ar_Introduced r \<and>
        ar_Fixed q = ar_Fixed r \<and> ar_FixState q = ar_FixState r)"
  by (induction rs arbitrary: n) fastforce+

lemma range_rows_ids: "distinct (map ar_ID (range_rows a n rs))"
proof -
  have "map ar_ID (range_rows a n rs) = map (\<lambda>i. n + int i) [0..<length rs]"
    using arg_cong [OF range_rows_map [of a n rs], of "map fst"] by (simp add: o_def)
  then show ?thesis
    by (simp add: distinct_map inj_on_def)
qed

lemma store_okI:
  assumes "distinct (map fst (db_advisories st))" "\<And>k a. (k, a) \<in> set (db_advisories st) \<Longrightarrow> av_ID a = k"
    and "\<And>r. r \<in> set (db_ranges st) \<Longrightarrow> range_ok r \<and> ar_AdvisoryID r \<in> fst ` set (db_advisories st) \<and> ar_ID r < db_next_range st"
    and "distinct (map ar_ID (db_ranges st))"
  shows "store_ok st"
  using assms by (auto simp: store_ok_def)

lemma fst_upd_assoc: "fst ` set (upd_assoc k f m) = insert k (fst ` set m)"
  using keys_upd_assoc [of k f m] by simp

lemma distinct_kept_rows:
  assumes "distinct (map ar_ID rs)" "\<And>r. r \<in> set rs \<Longrightarrow> ar_ID r < n" "distinct (map ar_ID new)"
    "\<And>r. r \<in> set new \<Longrightarrow> n \<le> ar_ID r"
  shows "distinct (map ar_ID (filter P rs @ new))"
proof -
  have "distinct (map ar_ID (filter P rs))"
    using assms(1) by (simp add: distinct_map_filter)
  then show ?thesis
    using assms(2-4) by fastforce
qed

lemma UpsertAdvisoryWithRanges_ok:
  assumes "store_ok st" "UpsertAdvisoryWithRanges a st = Inr st'"
  shows "store_ok st'"
proof -
  have valid: "Advisory_validate a = None"
    using assms(2) by (auto simp: UpsertAdvisoryWithRanges_def split: option.splits)
  let ?row = "a\<lparr>av_Source := sourceOrLocal (av_Source a), av_Package := [], av_Below := [], av_Ranges := []\<rparr>"
  let ?new = "range_rows a (db_next_range st) (av_Ranges a)"
  have st': "db_advisories st' = upd_assoc (av_ID a) (\<lambda>_. ?row) (db_advisories st)"
    "db_ranges st' = filter (\<lambda>r. ar_AdvisoryID r \<noteq> av_ID a) (db_ranges st) @ ?new"
    "db_next_range st' = db_next_range st + int (length (av_Ranges a))"
    using assms(2) valid by (auto simp: UpsertAdvisoryWithRanges_def)
  show ?thesis
  proof (rule store_okI)
    show "distinct (map fst (db_advisories st'))"
      using assms(1) by (simp add: st' store_ok_def distinct_upd_assoc)
    show "av_ID b = k" if "(k, b) \<in> set (db_advisories st')" for k b
      using that assms(1) upd_assoc_elem [of k b "av_ID a" "\<lambda>_. ?row" "db_advisories st"]
      by (auto simp: st' store_ok_def)
    show "range_ok r \<and> ar_AdvisoryID r \<in> fst ` set (db_advisories st') \<and> ar_ID r < db_next_range st'"
      if r: "r \<in> set (db_ranges st')" for r
    proof (cases "r \<in> set ?new")
      case True
      then obtain q where q: "q \<in> set (av_Ranges a)" "ar_AdvisoryID r = av_ID a" "ar_ID r < db_next_range st'"
        "ar_Package r = ar_Package q" "ar_FixState r = ar_FixState q" "ar_Fixed r = ar_Fixed q"
        "ar_Distro r = ar_Distro q" "ar_Release r = ar_Release q"
        using range_rows_elem [OF True] st'(3) by metis
      have "range_ok q"
        using validate_ranges_ok [OF Advisory_validate_ranges [OF valid] q(1)] Range_validate_ok by blast
      then show ?thesis
        using q by (simp add: range_ok_def st'(1) fst_upd_assoc)
    next
      case False
      then have "r \<in> set (db_ranges st)"
        using r st'(2) by simp
      then show ?thesis
        using assms(1) by (force simp: store_ok_def st' fst_upd_assoc)
    qed
    show "distinct (map ar_ID (db_ranges st'))"
      unfolding st'(2)
      using assms(1) range_rows_ids range_rows_elem
      by (intro distinct_kept_rows [where n = "db_next_range st"]) (auto simp: store_ok_def)
  qed
qed

lemma legacy_mirror_ok:
  "r \<in> set (legacy_mirror st a) \<Longrightarrow>
     range_ok r \<and> ar_AdvisoryID r = av_ID a \<and> ar_ID r = db_next_range st \<and> length (legacy_mirror st a) = 1"
  "distinct (map ar_ID (legacy_mirror st a))"
  by (simp_all add: legacy_mirror_def range_ok_def FixState_valid_def split: if_splits)

lemma UpsertAdvisory_ok:
  assumes "store_ok st"
  shows "store_ok (UpsertAdvisory aid cve pkg below severity summary source st)"
proof -
  let ?st' = "UpsertAdvisory aid cve pkg below severity summary source st"
  define old where "old = (case map_of (db_advisories st) aid of None \<Rightarrow> new_advisory aid | Some a \<Rightarrow> a)"
  define a where "a = old\<lparr>av_CVE := cve, av_Package := pkg, av_Below := below, av_Severity := severity,
                  av_Summary := summary, av_Source := source\<rparr>"
  have st': "db_advisories ?st' = upd_assoc aid (\<lambda>_. a) (db_advisories st)"
    "db_ranges ?st' = filter (\<lambda>r. \<not> (ar_AdvisoryID r = aid \<and> ar_Ecosystem r = legacyEcosystem)) (db_ranges st) @
       legacy_mirror st a"
    "db_next_range ?st' = db_next_range st + int (length (legacy_mirror st a))"
    by (simp_all add: UpsertAdvisory_def Let_def a_def old_def)
  have "av_ID old = aid"
    using assms by (auto simp: old_def store_ok_def new_advisory_def dest: map_of_SomeD split: option.split)
  then have ida: "av_ID a = aid"
    by (simp add: a_def)
  show ?thesis
  proof (rule store_okI)
    show "distinct (map fst (db_advisories ?st'))"
      using assms by (simp add: st' store_ok_def distinct_upd_assoc)
    show "av_ID b = k" if "(k, b) \<in> set (db_advisories ?st')" for k b
      using that upd_assoc_elem [of k b aid "\<lambda>_. a" "db_advisories st"] assms ida
      by (auto simp: st' store_ok_def)
    show "range_ok r \<and> ar_AdvisoryID r \<in> fst ` set (db_advisories ?st') \<and> ar_ID r < db_next_range ?st'"
      if r: "r \<in> set (db_ranges ?st')" for r
    proof (cases "r \<in> set (legacy_mirror st a)")
      case True
      then show ?thesis
        using legacy_mirror_ok(1) [OF True] ida by (simp add: st' fst_upd_assoc)
    next
      case False
      then have "r \<in> set (db_ranges st)"
        using r by (simp add: st')
      then show ?thesis
        using assms by (force simp: store_ok_def st' fst_upd_assoc)
    qed
    show "distinct (map ar_ID (db_ranges ?st'))"
      unfolding st'(2) using assms legacy_mirror_ok(1) [of _ st a] legacy_mirror_ok(2) [of st a]
      by (intro distinct_kept_rows [where n = "db_next_range st"]) (auto simp: store_ok_def)
  qed
qed

lemma RecordFeedSnapshot_ok:
  "RecordFeedSnapshot now feeds st = Inr (snap, st') \<Longrightarrow> store_ok st \<Longrightarrow> store_ok st'"
  by (auto simp: RecordFeedSnapshot_def store_ok_def Let_def split: if_splits option.splits)

lemma reachable_ok: "reachable st \<Longrightarrow> store_ok st"
proof (induction rule: reachable.induct)
  case reach_empty
  show ?case
    by (simp add: store_ok_def empty_store_def)
qed (use RecordFeedSnapshot_ok UpsertAdvisoryWithRanges_ok UpsertAdvisory_ok in blast)+

section \<open>The store provides the matcher's interface\<close>

definition stored :: "store \<Rightarrow> Candidate set" where
  "stored st = {c. \<exists>r \<in> set (db_ranges st). \<exists>a. map_of (db_advisories st) (ar_AdvisoryID r) = Some a \<and>
     stamp_one st (candidate_of a r) = Inr c}"

lemma stamp_one_fields:
  "stamp_one st c = Inr c' \<Longrightarrow> cd_Distro c' = cd_Distro c \<and> cd_Release c' = cd_Release c \<and> cd_Package c' = cd_Package c \<and>
     cd_SourcePackage c' = cd_SourcePackage c \<and> cd_Ecosystem c' = cd_Ecosystem c \<and> cd_AdvisoryID c' = cd_AdvisoryID c \<and>
     cd_RangeID c' = cd_RangeID c \<and> cd_State c' = cd_State c \<and> cd_Fixed c' = cd_Fixed c \<and> cd_Introduced c' = cd_Introduced c"
  by (auto simp: stamp_one_def Let_def split: option.splits sum.splits)

lemma set_stampFeedDates:
  "stampFeedDates st cs = Inr cs' \<Longrightarrow> set cs' = {c'. \<exists>c \<in> set cs. stamp_one st c = Inr c'}"
proof (induction cs arbitrary: cs')
  case (Cons c cs)
  obtain c1 where c1: "stamp_one st c = Inr c1"
    using Cons.prems by (cases "stamp_one st c") simp_all
  obtain cs1 where cs1: "stampFeedDates st cs = Inr cs1"
    using Cons.prems c1 by (cases "stampFeedDates st cs") simp_all
  have "set cs' = insert c1 (set cs1)"
    using Cons.prems c1 cs1 by auto
  then show ?case
    using Cons.IH [OF cs1] c1 by auto
qed simp

lemma set_select_candidates:
  "set (select_candidates st P) =
     {c. \<exists>r \<in> set (db_ranges st). P r \<and> (\<exists>a. map_of (db_advisories st) (ar_AdvisoryID r) = Some a \<and> c = candidate_of a r)}"
  by (auto simp: select_candidates_def range_order_def set_map_filter split: option.splits)

lemma set_stamped_select:
  assumes "stampFeedDates st (select_candidates st P) = Inr cs"
    and "\<And>r a c. stamp_one st (candidate_of a r) = Inr c \<Longrightarrow> P r \<longleftrightarrow> Q c"
  shows "set cs = {c \<in> stored st. Q c}"
proof -
  have "set cs = {c. \<exists>r \<in> set (db_ranges st). P r \<and> (\<exists>a. map_of (db_advisories st) (ar_AdvisoryID r) = Some a \<and>
      stamp_one st (candidate_of a r) = Inr c)}"
    unfolding set_stampFeedDates [OF assms(1)] set_select_candidates by blast
  also have "\<dots> = {c \<in> stored st. Q c}"
    unfolding stored_def using assms(2) by blast
  finally show ?thesis .
qed

lemma candidate_of_fields [simp]:
  "cd_Distro (candidate_of a r) = ar_Distro r" "cd_Release (candidate_of a r) = ar_Release r"
  "cd_Package (candidate_of a r) = ar_Package r" "cd_SourcePackage (candidate_of a r) = ar_SourcePackage r"
  "cd_Ecosystem (candidate_of a r) = ar_Ecosystem r" "cd_State (candidate_of a r) = ar_FixState r"
  "cd_Fixed (candidate_of a r) = ar_Fixed r" "cd_Introduced (candidate_of a r) = ar_Introduced r"
  "cd_AdvisoryID (candidate_of a r) = ar_AdvisoryID r" "cd_RangeID (candidate_of a r) = ar_ID r"
  by (simp_all add: candidate_of_def)

interpretation db: range_source "store_source cal st" "stored st" for cal st
proof
  fix d r ns cs
  assume q: "rs_DistroRanges (store_source cal st) d r ns = Inr cs" "d \<noteq> []" "[] \<notin> set ns"
  show "set cs = {c \<in> stored st. in_scope d r c \<and> (cd_Package c \<in> set ns \<or> cd_SourcePackage c \<in> set ns)}"
  proof (cases "ns = []")
    case True
    then show ?thesis
      using q(1) by (simp add: store_source_def DistroRanges_def)
  next
    case False
    then have "stampFeedDates st (select_candidates st (\<lambda>q. range_in_scope d r q \<and>
        (ar_Package q \<in> set ns \<or> ar_SourcePackage q \<noteq> [] \<and> ar_SourcePackage q \<in> set ns))) = Inr cs"
      using q(1) by (simp add: store_source_def DistroRanges_def)
    then show ?thesis
    proof (rule set_stamped_select)
      fix q a c
      assume "stamp_one st (candidate_of a q) = Inr c"
      from stamp_one_fields [OF this]
      show "(range_in_scope d r q \<and> (ar_Package q \<in> set ns \<or> ar_SourcePackage q \<noteq> [] \<and> ar_SourcePackage q \<in> set ns)) \<longleftrightarrow>
          in_scope d r c \<and> (cd_Package c \<in> set ns \<or> cd_SourcePackage c \<in> set ns)"
        using \<open>[] \<notin> set ns\<close> by (auto simp: range_in_scope_def in_scope_def)
    qed
  qed
next
  fix ns cs
  assume "rs_UpstreamRanges (store_source cal st) ns = Inr cs"
  then have "stampFeedDates st (select_candidates st (\<lambda>r. ar_Distro r = [] \<and> ar_Ecosystem r \<in> {legacyEcosystem})) = Inr cs"
    by (simp add: store_source_def UpstreamRanges_def)
  then have "set cs = {c \<in> stored st. cd_Distro c = [] \<and> cd_Ecosystem c \<in> {legacyEcosystem}}"
    by (rule set_stamped_select) (auto dest!: stamp_one_fields)
  then show "set cs \<subseteq> {c \<in> stored st. cd_Distro c = []}"
    by auto
next
  fix d r b c
  assume "rs_DistroCovered (store_source cal st) d r = Inr b" "c \<in> stored st" "in_scope d r c"
  then show b
    by (auto simp: store_source_def DistroCovered_def stored_def in_scope_def range_in_scope_def list_ex_iff
        dest!: stamp_one_fields)
qed

section \<open>Properties\<close>


definition ex_range :: AdvisoryRange where
  "ex_range =
     \<lparr>ar_ID = 0, ar_AdvisoryID = [], ar_Ecosystem = ''AlmaLinux'', ar_Distro = ''almalinux'', ar_Release = ''9'',
      ar_Package = ''openssh'', ar_SourcePackage = [], ar_Introduced = [], ar_Fixed = ''8.7p1-38.el9_4.1'',
      ar_FixState = StateFixed, ar_SnapshotID = None, ar_Issued = ''2024-07-01'', ar_Feed = []\<rparr>"

definition ex_advisory :: Advisory where
  "ex_advisory = (new_advisory ''ALSA-2024:4312'')\<lparr>av_CVE := ''CVE-2024-6387'', av_Severity := ''high'', av_Ranges := [ex_range]\<rparr>"

definition ex_store :: store where
  "ex_store = (case UpsertAdvisoryWithRanges ex_advisory empty_store of Inr st \<Rightarrow> st | Inl e \<Rightarrow> empty_store)"

lemma ex_advisory_valid: "Advisory_validate ex_advisory = None"
  by (simp add: Advisory_validate_def ex_advisory_def new_advisory_def ex_range_def Range_validate_def
      FixState_valid_def legacyEcosystem_def TrimSpace_def is_space_def)

lemma ex_store_upsert: "UpsertAdvisoryWithRanges ex_advisory empty_store = Inr ex_store"
  by (simp add: ex_store_def UpsertAdvisoryWithRanges_def ex_advisory_valid)

lemma ex_store_ranges: "db_ranges ex_store = range_rows ex_advisory 1 [ex_range]"
  by (simp add: ex_store_def UpsertAdvisoryWithRanges_def ex_advisory_valid empty_store_def del: range_rows.simps)
    (simp add: ex_advisory_def)

lemma ex_store_reachable: "reachable ex_store"
  using reach_upsert [OF reach_empty ex_store_upsert] .




text \<open>C11: Every finding of a match over the store is accounted for. It is the host's own
  (end of life, repository health), or the judgement of an installed package over all stored
  ranges of its distribution, its vendor's and its release that reach the package, or an
  upstream floor for a package that, on a covered host, none of those ranges reach.\<close>

theorem Match_findings_accounted:
  assumes "MatchHost (store_source cal st) now h = Some (Inr r)" "f \<in> set (rt_Findings r)"
    and "NormalizeDistro (ho_Distro h) (ho_Release h) (ho_PackageManager h) = (distro, release, scheme)"
  shows "fi_Basis f \<in> {BasisLifecycle, BasisHost} \<or> distro_found (stored st) h distro release scheme f \<or>
    upstream_found (stored st) h distro release scheme (rt_Coverage r) f"
  using assms by (rule db.match_findings)

definition ex_host :: "string \<Rightarrow> Host" where
  "ex_host v = \<lparr>ho_Distro = ''almalinux'', ho_Release = ''9.4'', ho_PackageManager = ''rpm'',
     ho_Packages = [\<lparr>pk_Name = ''openssh'', pk_Version = v, pk_SourcePackage = [], pk_SourceVersion = [],
       pk_Origin = ''AlmaLinux'', pk_OriginRepo = []\<rparr>],
     ho_AsOf = Some 0, ho_RepoHealth = None, ho_StaleAfter = 0\<rparr>"

text \<open>An outdated build on a covered host: one finding.\<close>

lemma ex_match_outdated:
  "(case MatchHost (store_source (\<lambda>_. Inr []) ex_store) 0 (ex_host ''8.7p1-38.el9'') of
      Some (Inr r) \<Rightarrow> Some (map (\<lambda>f. (fi_Kind f, fi_Package f, fi_Fixed f)) (rt_Findings r), rt_Coverage r)
    | _ \<Rightarrow> None) =
   Some ([(KindFinding, ''openssh'', ''8.7p1-38.el9_4.1'')], CoverageFull)"
  by code_simp

lemma ex_match_result:
  obtains r f where "MatchHost (store_source (\<lambda>_. Inr []) ex_store) 0 (ex_host ''8.7p1-38.el9'') = Some (Inr r)"
    "f \<in> set (rt_Findings r)" "fi_Kind f = KindFinding" "fi_Package f = ''openssh''"
  using ex_match_outdated by (auto split: option.splits sum.splits)

lemma ex_normalize: "NormalizeDistro (ho_Distro (ex_host v)) (ho_Release (ex_host v)) (ho_PackageManager (ex_host v)) =
    (''almalinux'', ''9'', SchemeRPM)"
  unfolding ex_host_def by (simp, code_simp)

theorem Match_findings_accounted_witness:
  "\<exists>r f. MatchHost (store_source (\<lambda>_. Inr []) ex_store) 0 (ex_host ''8.7p1-38.el9'') = Some (Inr r) \<and> f \<in> set (rt_Findings r) \<and>
     (fi_Basis f \<in> {BasisLifecycle, BasisHost} \<or>
      distro_found (stored ex_store) (ex_host ''8.7p1-38.el9'') ''almalinux'' ''9'' SchemeRPM f \<or>
      upstream_found (stored ex_store) (ex_host ''8.7p1-38.el9'') ''almalinux'' ''9'' SchemeRPM (rt_Coverage r) f)"
  using Match_findings_accounted [OF _ _ ex_normalize] by (metis ex_match_result)

text \<open>C12: A patched package of a covered host is never flagged. If one of the stored ranges of
  an advisory that reach the package names a fix its version has reached, then no finding of
  that advisory, from any feed, is about the package.\<close>

theorem Match_never_flags_patched:
  assumes "MatchHost (store_source cal st) now h = Some (Inr r)" "rt_Coverage r = CoverageFull" "f \<in> set (rt_Findings r)"
    and "NormalizeDistro (ho_Distro h) (ho_Release h) (ho_PackageManager h) = (distro, release, scheme)"
    and "scheme \<noteq> SchemeAuto" "\<forall>c \<in> stored st. cand_plain c" "pkg_plain p"
    and "c \<in> ranges_for (stored st) distro release p (fi_AdvisoryID f)" "cd_State c \<in> {StateFixed, StateAffected}"
      "cd_Fixed c \<noteq> []" "cd_Introduced c = []" "Compare (versionFor c p) (cd_Fixed c) scheme = Some k" "0 \<le> k"
    and "\<forall>q \<in> set (ho_Packages h). pk_Name q = pk_Name p \<longrightarrow> q = p"
  shows "fi_Basis f \<in> {BasisLifecycle, BasisHost} \<or> fi_Package f \<noteq> pk_Name p"
  using assms by (rule db.patched_not_flagged)

text \<open>The witness: an outdated second package is flagged, the patched one beside it is not.\<close>

definition ex_range2 :: AdvisoryRange where
  "ex_range2 = ex_range\<lparr>ar_Package := ''openssh-server''\<rparr>"

definition ex_advisory2 :: Advisory where
  "ex_advisory2 = ex_advisory\<lparr>av_Ranges := [ex_range, ex_range2]\<rparr>"

definition ex_store2 :: store where
  "ex_store2 = (case UpsertAdvisoryWithRanges ex_advisory2 empty_store of Inr st \<Rightarrow> st | Inl e \<Rightarrow> empty_store)"

definition ex_patched :: Package where
  "ex_patched = \<lparr>pk_Name = ''openssh-server'', pk_Version = ''8.7p1-38.el9_4.1'', pk_SourcePackage = [],
     pk_SourceVersion = [], pk_Origin = ''AlmaLinux'', pk_OriginRepo = []\<rparr>"

definition ex_host2 :: Host where
  "ex_host2 = (ex_host ''8.7p1-38.el9'')\<lparr>ho_Packages := ex_patched # ho_Packages (ex_host ''8.7p1-38.el9'')\<rparr>"

lemma ex_match2:
  "(case MatchHost (store_source (\<lambda>_. Inr []) ex_store2) 0 ex_host2 of
      Some (Inr r) \<Rightarrow> Some (map (\<lambda>f. (fi_Basis f, fi_AdvisoryID f, fi_Package f)) (rt_Findings r), rt_Coverage r)
    | _ \<Rightarrow> None) =
   Some ([(BasisDistro, ''ALSA-2024:4312'', ''openssh'')], CoverageFull)"
  by code_simp

lemma ex_stored2:
  "map_of (db_advisories ex_store2) ''ALSA-2024:4312'' = Some (ex_advisory\<lparr>av_Source := ''local'', av_Ranges := []\<rparr>)"
  "db_ranges ex_store2 = range_rows ex_advisory2 1 [ex_range, ex_range2]"
  by code_simp+

lemma ex_stored2_plain: "\<forall>c \<in> stored ex_store2. cand_plain c"
  by (auto simp: stored_def ex_stored2 cand_plain_def nul_free_def ex_range_def ex_range2_def dest!: stamp_one_fields)

lemma ex_stored2_range:
  obtains c where "c \<in> ranges_for (stored ex_store2) ''almalinux'' ''9'' ex_patched ''ALSA-2024:4312''"
    "cd_State c = StateFixed" "cd_Fixed c = ''8.7p1-38.el9_4.1''" "cd_Introduced c = []" "cd_SourcePackage c = []"
proof -
  let ?r = "range_rows ex_advisory2 1 [ex_range, ex_range2] ! 1"
  let ?a = "ex_advisory\<lparr>av_Source := ''local'', av_Ranges := []\<rparr>"
  let ?c = "candidate_of ?a ?r"
  have r: "?r \<in> set (db_ranges ex_store2)" "ar_AdvisoryID ?r = ''ALSA-2024:4312''" "ar_SnapshotID ?r = None"
    by (simp_all add: ex_stored2 ex_advisory2_def ex_advisory_def new_advisory_def ex_range2_def ex_range_def)
  have fields: "cd_AdvisoryID ?c = ''ALSA-2024:4312''" "cd_State ?c = StateFixed" "cd_Fixed ?c = ''8.7p1-38.el9_4.1''"
    "cd_Introduced ?c = []" "cd_SourcePackage ?c = []" "cd_Package ?c = ''openssh-server''" "cd_Distro ?c = ''almalinux''"
    "cd_Release ?c = ''9''" "cd_SnapshotID ?c = None" "cd_Feed ?c = ''local''"
    by (simp_all add: candidate_of_def ex_advisory2_def ex_advisory_def new_advisory_def ex_range2_def ex_range_def sourceOrLocal_def)
  have "stamp_one ex_store2 ?c = Inr ?c"
    using fields by (simp add: stamp_one_def)
  moreover have "map_of (db_advisories ex_store2) (ar_AdvisoryID ?r) = Some ?a"
    unfolding r(2) by (rule ex_stored2(1))
  ultimately have "?c \<in> stored ex_store2"
    unfolding stored_def mem_Collect_eq by (intro bexI [OF _ r(1)] exI [of _ ?a] conjI)
  then show ?thesis
    using fields by (intro that [of ?c])
      (simp_all add: ranges_for_def host_scope_def in_scope_def attached_def rangeAppliesTo_def ex_patched_def)
qed

theorem Match_never_flags_patched_witness:
  "\<exists>r f. MatchHost (store_source (\<lambda>_. Inr []) ex_store2) 0 ex_host2 = Some (Inr r) \<and> f \<in> set (rt_Findings r) \<and>
     fi_AdvisoryID f = ''ALSA-2024:4312'' \<and> fi_Package f \<noteq> pk_Name ex_patched"
proof -
  obtain r f where r: "MatchHost (store_source (\<lambda>_. Inr []) ex_store2) 0 ex_host2 = Some (Inr r)" "rt_Coverage r = CoverageFull"
    "f \<in> set (rt_Findings r)" "fi_AdvisoryID f = ''ALSA-2024:4312''" "fi_Basis f = BasisDistro"
    using ex_match2 by (auto split: option.splits sum.splits)
  obtain c where c: "c \<in> ranges_for (stored ex_store2) ''almalinux'' ''9'' ex_patched (fi_AdvisoryID f)"
    "cd_State c = StateFixed" "cd_Fixed c = ''8.7p1-38.el9_4.1''" "cd_Introduced c = []" "cd_SourcePackage c = []"
    using ex_stored2_range r(4) by metis
  have norm: "NormalizeDistro (ho_Distro ex_host2) (ho_Release ex_host2) (ho_PackageManager ex_host2) =
      (''almalinux'', ''9'', SchemeRPM)"
    using ex_normalize [of "''8.7p1-38.el9''"] by (simp add: ex_host2_def ex_host_def)
  have ver: "Compare (versionFor c ex_patched) (cd_Fixed c) SchemeRPM = Some 0"
    using c by (simp add: versionFor_def ex_patched_def nul_free_def compare_ref_known scm.cmp_refl)
  have plain: "pkg_plain ex_patched"
    by (simp add: pkg_plain_def nul_free_def ex_patched_def)
  have only: "\<forall>q \<in> set (ho_Packages ex_host2). pk_Name q = pk_Name ex_patched \<longrightarrow> q = ex_patched"
    by (simp add: ex_host2_def ex_host_def ex_patched_def)
  have "fi_Basis f \<in> {BasisLifecycle, BasisHost} \<or> fi_Package f \<noteq> pk_Name ex_patched"
    using c(2-4)
    by (intro Match_never_flags_patched [OF r(1,2,3) norm _ ex_stored2_plain plain c(1) _ _ _ ver _ only]) simp_all
  then show ?thesis
    using r by auto
qed

text \<open>C13: A match returns. On packages and stored ranges whose versions hold no NUL byte the
  assessment of a host ends, with a result or with an error of the store.\<close>

theorem Match_returns:
  assumes "\<forall>p \<in> set (ho_Packages h). pkg_plain p" "\<forall>c \<in> stored st. cand_plain c"
  shows "\<exists>r. MatchHost (store_source cal st) now h = Some r"
  using assms by (rule db.match_returns)

theorem Match_returns_witness: "\<exists>r. MatchHost (store_source (\<lambda>_. Inr []) ex_store2) 0 ex_host2 = Some r"
  using Match_returns [OF _ ex_stored2_plain, of ex_host2]
  by (simp add: ex_host2_def ex_host_def ex_patched_def pkg_plain_def nul_free_def)

end
