(* ===== verification/Vuln_Windows.thy ===== *)
theory Vuln_Windows
  imports Advisory_Store
begin

text \<open>
  internal/vuln/windows.go: the missing updates of a Windows device, as an RMM reports them,
  mapped to the vulnerabilities they fix through the ranges of the Microsoft feed.
\<close>

section \<open>The code\<close>

definition WindowsDistro :: string where "WindowsDistro = ''windows''"

record MissingPatch =
  mp_KB :: string
  mp_Title :: string
  mp_Status :: string

definition kbRe :: rx where
  "kbRe = rseq [RBegin, RStar (RSet is_re_space), ropt (rlit_i ''kb''), RStar (RSet is_re_space),
     RGroup 1 (rrep 5 9 rdigit), RStar (RSet is_re_space), RFinish]"

definition NormalizeKB :: "string \<Rightarrow> string" where
  "NormalizeKB s = (case FindStringSubmatch kbRe s of None \<Rightarrow> [] | Some m \<Rightarrow> ''KB'' @ m 1)"

definition windowsReason :: "MissingPatch \<Rightarrow> string" where
  "windowsReason m =
     (let how = (if mp_Status m = ''approved_pending'' then ''approved in the RMM patch policy and waiting to install''
                 else if mp_Status m = ''not_approved'' then ''not yet approved in the RMM patch policy''
                 else ''listed by the RMM as not installed'');
          t = TrimSpace (mp_Title m)
      in mp_KB m @ '' fixes this and is '' @ how @ (if t \<noteq> [] then '' ('' @ t @ '')'' else []))"

text \<open>The loop that fills \<open>byKB\<close>: an approved update replaces a not approved one.\<close>

definition keep_patch :: "MissingPatch \<Rightarrow> MissingPatch option \<Rightarrow> MissingPatch" where
  "keep_patch m prev =
     (case prev of
        None \<Rightarrow> m
      | Some p \<Rightarrow> if mp_Status p = ''not_approved'' \<and> mp_Status m = ''approved_pending'' then m else p)"

fun by_kb :: "(string \<times> MissingPatch) list \<Rightarrow> MissingPatch list \<Rightarrow> (string \<times> MissingPatch) list" where
  "by_kb kbs [] = kbs"
| "by_kb kbs (m # ms) =
     (let kb = NormalizeKB (mp_KB m)
      in if kb = [] then by_kb kbs ms
         else by_kb (upd_assoc kb (keep_patch (m\<lparr>mp_KB := kb\<rparr>)) kbs) ms)"

text \<open>The loop over the ranges: the maps \<open>mapped\<close> and \<open>advisories\<close> as lists of their
  keys, and the merged findings.\<close>

definition win_package :: "MissingPatch \<Rightarrow> Package" where
  "win_package m = \<lparr>pk_Name = mp_KB m, pk_Version = [], pk_SourcePackage = [], pk_SourceVersion = [],
     pk_Origin = [], pk_OriginRepo = []\<rparr>"

definition win_step ::
  "(string \<times> MissingPatch) list \<Rightarrow> string list \<times> string list \<times> merged \<Rightarrow> Candidate \<Rightarrow> string list \<times> string list \<times> merged" where
  "win_step kbs s c =
     (case s of (mapped, advisories, found) \<Rightarrow>
        if cd_State c \<noteq> StateFixed then s
        else case map_of kbs (cd_Package c) of
               None \<Rightarrow> s
             | Some m \<Rightarrow>
                 (List.insert (cd_Package c) mapped, List.insert (cd_AdvisoryID c) advisories,
                  addFinding found (newFinding c (win_package m) ''not installed'' BasisDistro KindFinding (windowsReason m))))"

definition win_less :: "Finding \<Rightarrow> Finding \<Rightarrow> bool" where
  "win_less a b =
     (if fi_AdvisoryID a \<noteq> fi_AdvisoryID b then fi_AdvisoryID a < fi_AdvisoryID b else fi_Package a < fi_Package b)"

definition win_result :: "Coverage \<Rightarrow> Stats \<Rightarrow> Finding list \<Rightarrow> Result" where
  "win_result cov st fs = \<lparr>rt_RepoHealthAssessed = False, rt_Distro = WindowsDistro, rt_Release = [],
     rt_Coverage = cov, rt_Findings = fs, rt_Stats = st\<rparr>"

definition MatchWindows :: "RangeSource \<Rightarrow> MissingPatch list \<Rightarrow> string + Result" where
  "MatchWindows src missing =
     (case rs_DistroCovered src WindowsDistro [] of
        Inl e \<Rightarrow> Inl (''windows feed coverage: '' @ e)
      | Inr covered \<Rightarrow>
          if \<not> covered then Inr (win_result CoverageNoFeed zero_Stats [])
          else
            let kbs = by_kb [] missing;
                st = zero_Stats\<lparr>st_Packages := length kbs\<rparr>
            in if kbs = [] then Inr (win_result CoverageFull st [])
               else case rs_DistroRanges src WindowsDistro [] (sort_strings (map fst kbs)) of
                      Inl e \<Rightarrow> Inl (''windows ranges: '' @ e)
                    | Inr cands \<Rightarrow>
                        (case foldl (win_step kbs) ([], [], []) cands of (mapped, advisories, found) \<Rightarrow>
                           Inr (win_result CoverageFull
                                 (st\<lparr>st_DistroMapped := length mapped, st_Advisories := length advisories\<rparr>)
                                 (go_sort win_less (map snd found)))))"

section \<open>The updates\<close>

definition kb_keys :: "MissingPatch list \<Rightarrow> string set" where
  "kb_keys ms = (\<lambda>m. NormalizeKB (mp_KB m)) ` set ms - {[]}"

lemma by_kb_keys: "fst ` set (by_kb kbs ms) = fst ` set kbs \<union> kb_keys ms"
  by (induction kbs ms rule: by_kb.induct) (auto simp: Let_def fst_upd_assoc kb_keys_def)

definition kbs_ok :: "MissingPatch list \<Rightarrow> (string \<times> MissingPatch) list \<Rightarrow> bool" where
  "kbs_ok ms kbs \<longleftrightarrow> distinct (map fst kbs) \<and>
     (\<forall>k p. (k, p) \<in> set kbs \<longrightarrow> mp_KB p = k \<and> k \<noteq> [] \<and>
        (\<exists>m \<in> set ms. NormalizeKB (mp_KB m) = k \<and> mp_Title m = mp_Title p \<and> mp_Status m = mp_Status p))"

lemma kbs_ok_upd:
  assumes "kbs_ok ms kbs" "m \<in> set ms" "NormalizeKB (mp_KB m) \<noteq> []"
  shows "kbs_ok ms (upd_assoc (NormalizeKB (mp_KB m)) (keep_patch (m\<lparr>mp_KB := NormalizeKB (mp_KB m)\<rparr>)) kbs)"
proof -
  let ?k = "NormalizeKB (mp_KB m)"
  let ?n = "m\<lparr>mp_KB := ?k\<rparr>"
  have "mp_KB p = k \<and> k \<noteq> [] \<and> (\<exists>m \<in> set ms. NormalizeKB (mp_KB m) = k \<and> mp_Title m = mp_Title p \<and> mp_Status m = mp_Status p)"
    if "(k, p) \<in> set (upd_assoc ?k (keep_patch ?n) kbs)" for k p
  proof -
    have "(k, p) \<in> set kbs \<or> k = ?k \<and> p = ?n"
      using upd_assoc_elem [OF that] by (auto simp: keep_patch_def split: if_splits)
    then show ?thesis
      using assms by (auto simp: kbs_ok_def)
  qed
  moreover have "distinct (map fst (upd_assoc ?k (keep_patch ?n) kbs))"
    using assms(1) by (simp add: kbs_ok_def distinct_upd_assoc)
  ultimately show ?thesis
    unfolding kbs_ok_def by blast
qed

lemma by_kb_ok: "kbs_ok all kbs \<Longrightarrow> set ms \<subseteq> set all \<Longrightarrow> kbs_ok all (by_kb kbs ms)"
  by (induction kbs ms rule: by_kb.induct) (simp_all add: Let_def kbs_ok_upd)

section \<open>The findings\<close>

text \<open>No KB number holds a NUL byte, so the key of a finding separates advisory and KB.\<close>

lemma groups_only_kbRe: "groups_only isASCIIDigit kbRe"
  by (simp add: kbRe_def ropt_def rlit_i_def rdigit_def rx_only_rep groups_only_rep)

lemma NormalizeKB_digits: "NormalizeKB s \<noteq> [] \<Longrightarrow> \<exists>d. NormalizeKB s = ''KB'' @ d \<and> list_all isASCIIDigit d"
  using FindStringSubmatch_groups [OF _ groups_only_kbRe, of s _ 1]
  by (auto simp: NormalizeKB_def split: option.splits)

lemma NormalizeKB_nul_free: "nul_free (NormalizeKB s)"
proof (cases "NormalizeKB s = []")
  case False
  then obtain d where "NormalizeKB s = ''KB'' @ d" "list_all isASCIIDigit d"
    using NormalizeKB_digits by blast
  then show ?thesis
    by (auto simp: nul_free_def list_all_iff isASCIIDigit_def)
qed (simp add: nul_free_def)

lemma NUL_split_inject:
  "a @ NUL # b = c @ NUL # d \<Longrightarrow> nul_free b \<Longrightarrow> nul_free d \<Longrightarrow> a = c \<and> b = d"
proof -
  assume "a @ NUL # b = c @ NUL # d" and nf: "nul_free b" "nul_free d"
  then have e: "rev b @ NUL # rev a = rev d @ NUL # rev c"
    by (metis append_Cons append_Nil append_assoc rev.simps(2) rev_append rev_rev_ident)
  have "takeWhile (\<lambda>x. x \<noteq> NUL) (rev b @ NUL # rev a) = rev b" "takeWhile (\<lambda>x. x \<noteq> NUL) (rev d @ NUL # rev c) = rev d"
    using nf by (simp_all add: nul_free_def takeWhile_append takeWhile_tail)
  then have "rev b = rev d"
    using e by metis
  with e show "a = c \<and> b = d"
    by simp
qed

text \<open>The pairs of advisory and KB number the merged findings stand for.\<close>

definition win_pair :: "Finding \<Rightarrow> string \<times> string" where
  "win_pair f = (fi_AdvisoryID f, fi_Package f)"

definition win_ok :: "Finding \<Rightarrow> bool" where
  "win_ok f \<longleftrightarrow> fi_SourcePackage f = [] \<and> nul_free (fi_Package f) \<and> fi_Kind f = KindFinding"

lemma win_Key: "win_ok f \<Longrightarrow> Key f = fi_AdvisoryID f @ NUL # fi_Package f"
  by (simp add: win_ok_def Key_def familyOf_def)

lemma addFinding_pairs:
  assumes "merged_ok win_ok m" "win_ok f"
  shows "win_pair ` snd ` set (addFinding m f) = insert (win_pair f) (win_pair ` snd ` set m)"
proof -
  have same: "win_pair g = win_pair f" if "win_ok g" "Key g = Key f" for g
    using that assms(2) NUL_split_inject [of "fi_AdvisoryID g" "fi_Package g" "fi_AdvisoryID f" "fi_Package f"]
    by (simp add: win_Key win_pair_def win_ok_def)
  have "\<forall>(k, g) \<in> set m. k = Key g \<and> win_ok g"
    using assms(1) by (simp add: merged_ok_def)
  then show ?thesis
    unfolding addFinding_def
  proof (induction m)
    case (Cons p m)
    obtain k g where p: "p = (k, g)"
      by force
    show ?case
    proof (cases "k = Key f")
      case True
      then have "win_pair g = win_pair f"
        using Cons.prems p same by simp
      then have "win_pair (better g f) = win_pair f"
        using better_cases [of g f] by auto
      then show ?thesis
        using True p \<open>win_pair g = win_pair f\<close> by simp
    next
      case False
      then show ?thesis
        using Cons p by (simp add: insert_commute)
    qed
  qed simp
qed

definition win_hits :: "(string \<times> MissingPatch) list \<Rightarrow> Candidate set \<Rightarrow> (string \<times> string) set" where
  "win_hits kbs cs =
     (\<lambda>c. (cd_AdvisoryID c, cd_Package c)) ` {c \<in> cs. cd_State c = StateFixed \<and> cd_Package c \<in> fst ` set kbs}"

definition win_inv :: "(string \<times> MissingPatch) list \<Rightarrow> Candidate set \<Rightarrow> string list \<times> string list \<times> merged \<Rightarrow> bool" where
  "win_inv kbs cs s \<longleftrightarrow>
     (case s of (mapped, advisories, found) \<Rightarrow>
        merged_ok win_ok found \<and> win_pair ` snd ` set found = win_hits kbs cs \<and>
        distinct mapped \<and> set mapped = snd ` win_hits kbs cs \<and>
        distinct advisories \<and> set advisories = fst ` win_hits kbs cs)"

lemma win_step_inv:
  assumes "kbs_ok ms kbs" "\<forall>k \<in> fst ` set kbs. nul_free k" "win_inv kbs cs s"
  shows "win_inv kbs (insert c cs) (win_step kbs s c)"
proof -
  obtain mapped advisories found where s: "s = (mapped, advisories, found)"
    by (metis prod_cases3)
  show ?thesis
  proof (cases "cd_State c = StateFixed \<and> cd_Package c \<in> fst ` set kbs")
    case False
    have "win_hits kbs (insert c cs) = win_hits kbs cs"
      using False by (auto simp: win_hits_def)
    moreover have "map_of kbs (cd_Package c) = None" if "cd_State c = StateFixed"
      using False that by (simp add: map_of_eq_None_iff)
    then have "win_step kbs s c = s"
      by (cases "cd_State c = StateFixed") (simp_all add: win_step_def s)
    ultimately show ?thesis
      using assms(3) by (simp add: win_inv_def s)
  next
    case True
    then obtain m where m: "map_of kbs (cd_Package c) = Some m"
      by (metis map_of_eq_None_iff option.exhaust)
    then have kb: "mp_KB m = cd_Package c"
      using assms(1) by (auto simp: kbs_ok_def dest: map_of_SomeD)
    let ?f = "newFinding c (win_package m) ''not installed'' BasisDistro KindFinding (windowsReason m)"
    have hits: "win_hits kbs (insert c cs) = insert (cd_AdvisoryID c, cd_Package c) (win_hits kbs cs)"
      using True by (auto simp: win_hits_def)
    have f: "win_ok ?f" "win_pair ?f = (cd_AdvisoryID c, cd_Package c)"
      using True assms(2) kb by (auto simp: win_ok_def win_pair_def newFinding_def win_package_def)
    have inv: "merged_ok win_ok found" "win_pair ` snd ` set found = win_hits kbs cs"
      "distinct mapped" "set mapped = snd ` win_hits kbs cs" "distinct advisories" "set advisories = fst ` win_hits kbs cs"
      using assms(3) by (simp_all add: win_inv_def s)
    have "win_step kbs s c = (List.insert (cd_Package c) mapped, List.insert (cd_AdvisoryID c) advisories, addFinding found ?f)"
      using True m by (simp add: win_step_def s)
    then show ?thesis
      using inv f by (simp add: win_inv_def hits addFinding_ok addFinding_pairs)
  qed
qed

lemma win_fold_inv:
  assumes "kbs_ok ms kbs" "\<forall>k \<in> fst ` set kbs. nul_free k"
  shows "win_inv kbs (set cs) (foldl (win_step kbs) ([], [], []) cs)"
proof (induction cs rule: rev_induct)
  case Nil
  show ?case
    by (simp add: win_inv_def win_hits_def merged_ok_def)
next
  case (snoc c cs)
  then show ?case
    using win_step_inv [OF assms, of "set cs" "foldl (win_step kbs) ([], [], []) cs" c] by simp
qed

context range_source
begin

text \<open>The vulnerabilities of a device are the stored fixes of its missing updates.\<close>

lemma MatchWindows_pairs:
  assumes "MatchWindows src missing = Inr r" "rt_Coverage r = CoverageFull"
  shows "win_pair ` set (rt_Findings r) = (\<lambda>c. (cd_AdvisoryID c, cd_Package c)) `
      {c \<in> stored. in_scope WindowsDistro [] c \<and> cd_State c = StateFixed \<and> cd_Package c \<in> kb_keys missing}"
    and "distinct (map win_pair (rt_Findings r))"
    and "st_Advisories (rt_Stats r) = card (fi_AdvisoryID ` set (rt_Findings r))"
    and "st_DistroMapped (rt_Stats r) = card (fi_Package ` set (rt_Findings r))"
    and "st_Packages (rt_Stats r) = card (kb_keys missing)"
proof -
  let ?kbs = "by_kb [] missing"
  have keys: "fst ` set ?kbs = kb_keys missing"
    by (simp add: by_kb_keys)
  have ok: "kbs_ok missing ?kbs"
    by (rule by_kb_ok) (simp_all add: kbs_ok_def)
  have nf: "\<forall>k \<in> fst ` set ?kbs. nul_free k"
    unfolding keys using NormalizeKB_nul_free by (auto simp: kb_keys_def)
  have "card (kb_keys missing) = length ?kbs"
    using ok distinct_card [of "map fst ?kbs"] keys by (simp add: kbs_ok_def)
  then have pk: "length ?kbs = card (kb_keys missing)"
    by simp
  obtain covered where cov: "rs_DistroCovered src WindowsDistro [] = Inr covered"
    using assms(1) by (auto simp: MatchWindows_def split: sum.splits)
  have full: "covered"
    using assms cov by (auto simp: MatchWindows_def win_result_def split: if_splits)
  have "win_pair ` set (rt_Findings r) = (\<lambda>c. (cd_AdvisoryID c, cd_Package c)) `
      {c \<in> stored. in_scope WindowsDistro [] c \<and> cd_State c = StateFixed \<and> cd_Package c \<in> kb_keys missing} \<and>
    distinct (map win_pair (rt_Findings r)) \<and>
    st_Advisories (rt_Stats r) = card (fi_AdvisoryID ` set (rt_Findings r)) \<and>
    st_DistroMapped (rt_Stats r) = card (fi_Package ` set (rt_Findings r)) \<and>
    st_Packages (rt_Stats r) = card (kb_keys missing)"
  proof (cases "?kbs = []")
    case True
    then have "r = win_result CoverageFull (zero_Stats\<lparr>st_Packages := 0\<rparr>) []" "kb_keys missing = {}"
      using assms(1) cov full keys by (simp_all add: MatchWindows_def)
    then show ?thesis
      by (simp add: win_result_def zero_Stats_def)
  next
    case False
    then obtain cands where cands: "rs_DistroRanges src WindowsDistro [] (sort_strings (map fst ?kbs)) = Inr cands"
      using assms(1) cov full by (auto simp: MatchWindows_def Let_def split: sum.splits)
    obtain mapped advisories found where fold: "foldl (win_step ?kbs) ([], [], []) cands = (mapped, advisories, found)"
      by (metis prod_cases3)
    have r: "r = win_result CoverageFull (zero_Stats\<lparr>st_Packages := length ?kbs, st_DistroMapped := length mapped,
        st_Advisories := length advisories\<rparr>) (go_sort win_less (map snd found))"
      using assms(1) cov full False cands fold by (simp add: MatchWindows_def Let_def)
    have inv: "merged_ok win_ok found" "win_pair ` snd ` set found = win_hits ?kbs (set cands)"
      "distinct mapped" "set mapped = snd ` win_hits ?kbs (set cands)"
      "distinct advisories" "set advisories = fst ` win_hits ?kbs (set cands)"
      using win_fold_inv [OF ok nf, of cands] by (simp_all add: win_inv_def fold)
    have "[] \<notin> set (sort_strings (map fst ?kbs))" "WindowsDistro \<noteq> []"
      using keys by (auto simp: kb_keys_def WindowsDistro_def)
    from DistroRanges [OF cands this(2,1)] have
      "win_hits ?kbs (set cands) = (\<lambda>c. (cd_AdvisoryID c, cd_Package c)) `
         {c \<in> stored. in_scope WindowsDistro [] c \<and> cd_State c = StateFixed \<and> cd_Package c \<in> kb_keys missing}"
      using keys by (auto simp: win_hits_def)
    moreover have "set (rt_Findings r) = snd ` set found"
      by (simp add: r win_result_def)
    moreover have "inj_on win_pair (snd ` set found) \<and> distinct (map snd found)"
    proof -
      have k: "\<forall>(k, g) \<in> set found. k = Key g \<and> win_ok g" "distinct (map fst found)"
        using inv(1) by (simp_all add: merged_ok_def)
      have "map fst found = map Key (map snd found)"
        using k(1) by auto
      then have "distinct (map Key (map snd found))"
        using k(2) by metis
      then have inj: "inj_on Key (snd ` set found)" and "distinct (map snd found)"
        unfolding distinct_map by simp_all
      moreover have "Key f = Key g" if "f \<in> snd ` set found" "g \<in> snd ` set found" "win_pair f = win_pair g" for f g
      proof -
        have "win_ok f" "win_ok g"
          using that(1,2) k(1) by auto
        then show ?thesis
          using that(3) by (simp add: win_Key win_pair_def)
      qed
      then have "inj_on win_pair (snd ` set found)"
        using inj unfolding inj_on_def by blast
      ultimately show ?thesis by simp
    qed
    then have "distinct (map win_pair (rt_Findings r))"
      by (simp add: r win_result_def distinct_map)
    moreover have "fi_AdvisoryID ` set (rt_Findings r) = set advisories" "fi_Package ` set (rt_Findings r) = set mapped"
    proof -
      have "fi_AdvisoryID ` F = fst ` win_pair ` F" "fi_Package ` F = snd ` win_pair ` F" for F
        by (simp_all add: image_image win_pair_def)
      then show "fi_AdvisoryID ` set (rt_Findings r) = set advisories" "fi_Package ` set (rt_Findings r) = set mapped"
        using inv(2,4,6) by (simp_all add: r win_result_def)
    qed
    ultimately show ?thesis
      using inv(2,3,5) pk by (simp add: r win_result_def distinct_card)
  qed
  then show "win_pair ` set (rt_Findings r) = (\<lambda>c. (cd_AdvisoryID c, cd_Package c)) `
      {c \<in> stored. in_scope WindowsDistro [] c \<and> cd_State c = StateFixed \<and> cd_Package c \<in> kb_keys missing}"
    "distinct (map win_pair (rt_Findings r))"
    "st_Advisories (rt_Stats r) = card (fi_AdvisoryID ` set (rt_Findings r))"
    "st_DistroMapped (rt_Stats r) = card (fi_Package ` set (rt_Findings r))"
    "st_Packages (rt_Stats r) = card (kb_keys missing)"
    by blast+
qed

end

section \<open>Properties\<close>

text \<open>C14: The assessment of a Windows device over the store is exactly the stored fixes of its
  missing updates: with the Microsoft feed loaded, there is one finding for each advisory and
  missing KB number a stored range ties together and no other, and the counters are the numbers
  of advisories, of KB numbers the feed knew and of KB numbers examined.\<close>

theorem MatchWindows_exact:
  assumes "MatchWindows (store_source cal st) missing = Inr r" "rt_Coverage r = CoverageFull"
  shows "win_pair ` set (rt_Findings r) = (\<lambda>c. (cd_AdvisoryID c, cd_Package c)) `
      {c \<in> stored st. in_scope WindowsDistro [] c \<and> cd_State c = StateFixed \<and> cd_Package c \<in> kb_keys missing} \<and>
    distinct (map win_pair (rt_Findings r)) \<and>
    st_Advisories (rt_Stats r) = card (fi_AdvisoryID ` set (rt_Findings r)) \<and>
    st_DistroMapped (rt_Stats r) = card (fi_Package ` set (rt_Findings r)) \<and>
    st_Packages (rt_Stats r) = card (kb_keys missing)"
  using db.MatchWindows_pairs [OF assms] by blast

definition ex_win_store :: store where
  "ex_win_store = (case UpsertAdvisoryWithRanges ((new_advisory ''CVE-2026-0001'')\<lparr>av_Severity := ''high'',
       av_Ranges := [ex_range\<lparr>ar_Distro := ''windows'', ar_Release := [], ar_Package := ''KB5122876'', ar_Fixed := ''KB5122876''\<rparr>]\<rparr>)
     empty_store of Inr st \<Rightarrow> st | Inl e \<Rightarrow> empty_store)"

definition ex_missing :: "MissingPatch list" where
  "ex_missing = [\<lparr>mp_KB = '' kb5122876 '', mp_Title = ''Cumulative Update'', mp_Status = ''not_approved''\<rparr>,
     \<lparr>mp_KB = ''Intel driver'', mp_Title = [], mp_Status = ''not_approved''\<rparr>]"

lemma ex_win_match:
  "(case MatchWindows (store_source (\<lambda>_. Inr []) ex_win_store) ex_missing of
      Inr r \<Rightarrow> Some (map win_pair (rt_Findings r), rt_Coverage r) | Inl e \<Rightarrow> None) =
   Some ([(''CVE-2026-0001'', ''KB5122876'')], CoverageFull)"
  by code_simp

theorem MatchWindows_exact_witness:
  "\<exists>r. MatchWindows (store_source (\<lambda>_. Inr []) ex_win_store) ex_missing = Inr r \<and> rt_Findings r \<noteq> [] \<and>
     st_Packages (rt_Stats r) = card (kb_keys ex_missing)"
proof -
  obtain r where r: "MatchWindows (store_source (\<lambda>_. Inr []) ex_win_store) ex_missing = Inr r" "rt_Coverage r = CoverageFull"
    "rt_Findings r \<noteq> []"
    using ex_win_match by (auto split: sum.splits)
  then show ?thesis
    using MatchWindows_exact [OF r(1,2)] by blast
qed

end
