(* ===== verification/Exposure_Rank.thy ===== *)
theory Exposure_Rank
  imports Vuln_Types Go_Time
begin

text \<open>
  internal/exposure/rank.go: the ranking rule of the "fix this week" list. \<open>RankCompare\<close> is the
  code's \<open>Compare\<close>. A score is a rational number or missing, like in \<open>Vuln_Types\<close>; the NaN
  of Go's floats is outside the model (EPSS and CVSS are parsed from decimal numbers).

  The last part states the rule the package comment describes as the lexicographic order of
  keys and shows that the code implements it.
\<close>

section \<open>The code\<close>

record Item =
  it_AdvisoryID :: string
  it_Severity :: string
  it_KEV :: bool
  it_KEVAdded :: "time option"
  it_EPSS :: score
  it_CVSS :: score
  it_Surface :: bool
  it_Identity :: bool
  it_EOLStage :: string
  it_RepoHealth :: bool

definition BandKEV :: int where "BandKEV = 0"
definition BandUrgent :: int where "BandUrgent = 1"
definition BandRest :: int where "BandRest = 2"

definition EOLStageEOL :: string where "EOLStageEOL = ''eol''"
definition EOLStageEOAS :: string where "EOLStageEOAS = ''eoas''"

definition EOLScore :: "string \<Rightarrow> rat \<times> bool" where
  "EOLScore stage =
     (if stage = EOLStageEOL then (8, True) else if stage = EOLStageEOAS then (2, True) else (0, False))"

definition SurfaceScore :: "string \<Rightarrow> rat \<times> bool" where
  "SurfaceScore severity =
     (let s = ToLower severity
      in if s = ''critical'' then (95 / 10, True)
         else if s = ''high'' then (8, True)
         else if s = ''medium'' then (5, True)
         else if s = ''low'' then (2, True)
         else (0, False))"

definition Band :: "Item \<Rightarrow> int" where
  "Band i =
     (if it_Surface i \<or> it_Identity i \<or> it_RepoHealth i then
        (if ToLower (it_Severity i) = ''critical'' \<or> ToLower (it_Severity i) = ''high'' then BandUrgent else BandRest)
      else if snd (EOLScore (it_EOLStage i)) then
        (if it_EOLStage i = EOLStageEOL then BandUrgent else BandRest)
      else if it_KEV i then BandKEV else BandRest)"

definition effective :: "Item \<Rightarrow> Item" where
  "effective i =
     (if it_Surface i \<or> it_Identity i \<or> it_RepoHealth i then
        \<lparr>it_AdvisoryID = it_AdvisoryID i, it_Severity = it_Severity i, it_KEV = False, it_KEVAdded = None,
         it_EPSS = None, it_CVSS = Some (fst (SurfaceScore (it_Severity i))), it_Surface = it_Surface i,
         it_Identity = it_Identity i, it_EOLStage = [], it_RepoHealth = it_RepoHealth i\<rparr>
      else if snd (EOLScore (it_EOLStage i)) then
        \<lparr>it_AdvisoryID = it_AdvisoryID i, it_Severity = it_Severity i, it_KEV = False, it_KEVAdded = None,
         it_EPSS = None, it_CVSS = Some (fst (EOLScore (it_EOLStage i))), it_Surface = False,
         it_Identity = False, it_EOLStage = it_EOLStage i, it_RepoHealth = False\<rparr>
      else i)"

definition SeverityRank :: "string \<Rightarrow> int" where
  "SeverityRank severity =
     (let s = ToLower severity
      in if s = ''critical'' then 0 else if s = ''high'' then 1 else if s = ''medium'' then 2
         else if s = ''low'' then 3 else 4)"

definition TieVulnerability :: int where "TieVulnerability = 0"
definition TieEOL :: int where "TieEOL = 1"
definition TieRepository :: int where "TieRepository = 2"
definition TieIdentity :: int where "TieIdentity = 3"
definition TieSurface :: int where "TieSurface = 4"

definition TieRank :: "Item \<Rightarrow> int" where
  "TieRank i =
     (if it_Surface i then TieSurface
      else if it_Identity i then TieIdentity
      else if it_RepoHealth i then TieRepository
      else if snd (EOLScore (it_EOLStage i)) then TieEOL
      else TieVulnerability)"

fun cmpScoreDesc :: "score \<Rightarrow> score \<Rightarrow> int" where
  "cmpScoreDesc None None = 0"
| "cmpScoreDesc None (Some b) = 1"
| "cmpScoreDesc (Some a) None = - 1"
| "cmpScoreDesc (Some a) (Some b) = (if b < a then - 1 else if a < b then 1 else 0)"

fun cmpDateDesc :: "time option \<Rightarrow> time option \<Rightarrow> int" where
  "cmpDateDesc None None = 0"
| "cmpDateDesc None (Some b) = 1"
| "cmpDateDesc (Some a) None = - 1"
| "cmpDateDesc (Some a) (Some b) =
     (let da = TruncateDay a; db = TruncateDay b
      in if After da db then - 1 else if Before da db then 1 else 0)"

definition RankCompare :: "Item \<Rightarrow> Item \<Rightarrow> int" where
  "RankCompare a0 b0 =
     (let c = Band a0 - Band b0 in
      if c \<noteq> 0 then c
      else
        let a = effective a0; b = effective b0;
            c = (if it_KEV a \<and> it_KEV b then cmpDateDesc (it_KEVAdded a) (it_KEVAdded b) else 0)
        in if c \<noteq> 0 then c
        else let c = cmpScoreDesc (it_EPSS a) (it_EPSS b) in if c \<noteq> 0 then c
        else let c = cmpScoreDesc (it_CVSS a) (it_CVSS b) in if c \<noteq> 0 then c
        else let c = SeverityRank (it_Severity a) - SeverityRank (it_Severity b) in if c \<noteq> 0 then c
        else let c = TieRank a - TieRank b in if c \<noteq> 0 then c
        else cmp_lin (it_AdvisoryID a) (it_AdvisoryID b))"

section \<open>The rule as an order of keys\<close>

text \<open>A finding without a CVE is one that is ranked by its severity or its stage.\<close>

definition host_row :: "Item \<Rightarrow> bool" where
  "host_row i \<longleftrightarrow> it_Surface i \<or> it_Identity i \<or> it_RepoHealth i"

definition eol_row :: "Item \<Rightarrow> bool" where
  "eol_row i \<longleftrightarrow> \<not> host_row i \<and> it_EOLStage i \<in> {EOLStageEOL, EOLStageEOAS}"

definition vuln_row :: "Item \<Rightarrow> bool" where
  "vuln_row i \<longleftrightarrow> \<not> host_row i \<and> \<not> eol_row i"

text \<open>\<open>descending\<close> turns an optional value into a key whose increasing order is the decreasing
  order of the values, the missing ones last.\<close>

definition descending :: "'a::{uminus, zero} option \<Rightarrow> nat \<times> 'a" where
  "descending v = (case v of Some x \<Rightarrow> (0, - x) | None \<Rightarrow> (1, 0))"

definition kev_key :: "Item \<Rightarrow> nat \<times> int" where
  "kev_key i = (if vuln_row i \<and> it_KEV i then descending (map_option TruncateDay (it_KEVAdded i)) else (0, 0))"

definition epss_key :: "Item \<Rightarrow> nat \<times> rat" where
  "epss_key i = (if vuln_row i then descending (it_EPSS i) else (1, 0))"

definition cvss_key :: "Item \<Rightarrow> nat \<times> rat" where
  "cvss_key i = (if host_row i then descending (Some (fst (SurfaceScore (it_Severity i))))
     else if eol_row i then descending (Some (fst (EOLScore (it_EOLStage i)))) else descending (it_CVSS i))"

definition cmp_pair :: "nat \<times> 'a::linorder \<Rightarrow> nat \<times> 'a \<Rightarrow> int" where
  "cmp_pair p q = cmp_then (cmp_lin (fst p) (fst q)) (cmp_lin (snd p) (snd q))"

text \<open>The seven criteria of the package comment, in their order.\<close>

definition rank_spec :: "Item \<Rightarrow> Item \<Rightarrow> int" where
  "rank_spec a b =
     cmp_then (cmp_lin (Band a) (Band b))
       (cmp_then (cmp_pair (kev_key a) (kev_key b))
         (cmp_then (cmp_pair (epss_key a) (epss_key b))
           (cmp_then (cmp_pair (cvss_key a) (cvss_key b))
             (cmp_then (cmp_lin (SeverityRank (it_Severity a)) (SeverityRank (it_Severity b)))
               (cmp_then (cmp_lin (TieRank a) (TieRank b))
                 (cmp_lin (it_AdvisoryID a) (it_AdvisoryID b)))))))"
lemma comparator_pair: "comparator cmp_pair"
  unfolding cmp_pair_def
  by (rule comparator_then [OF comparator_key [OF comparator_cmp_lin, where f = fst]
      comparator_key [OF comparator_cmp_lin, where f = snd]])

interpretation rank: comparator rank_spec
  unfolding rank_spec_def
  by (rule comparator_then [OF comparator_key [OF comparator_cmp_lin, where f = Band]
      comparator_then [OF comparator_key [OF comparator_pair, where f = kev_key]
      comparator_then [OF comparator_key [OF comparator_pair, where f = epss_key]
      comparator_then [OF comparator_key [OF comparator_pair, where f = cvss_key]
      comparator_then [OF comparator_key [OF comparator_cmp_lin, where f = "\<lambda>i. SeverityRank (it_Severity i)"]
      comparator_then [OF comparator_key [OF comparator_cmp_lin, where f = TieRank]
        comparator_key [OF comparator_cmp_lin, where f = it_AdvisoryID]]]]]]])

lemma cmp_then_cong: "c = c' \<Longrightarrow> (c' = 0 \<Longrightarrow> d = d') \<Longrightarrow> cmp_then c d = cmp_then c' d'"
  by (simp add: cmp_then_def)

lemma normalize_cmp_then: "normalizeSign (cmp_then c d) = cmp_then (normalizeSign c) (normalizeSign d)"
  by (simp add: cmp_then_def normalizeSign_def)

lemma normalize_diff: "normalizeSign (x - y) = cmp_lin x y"
  by (simp add: normalizeSign_def cmp_lin_def)

lemma normalize_cmp_lin [simp]: "normalizeSign (cmp_lin x y) = cmp_lin x y"
  by (simp add: normalizeSign_def cmp_lin_def)

lemma normalize_cmp_pair [simp]: "normalizeSign (cmp_pair x y) = cmp_pair x y"
  by (simp add: cmp_pair_def normalize_cmp_then)

lemma cmpScoreDesc_key: "cmpScoreDesc x y = cmp_pair (descending x) (descending y)"
  by (cases x; cases y) (auto simp: descending_def cmp_pair_def cmp_then_def cmp_lin_def)

lemma cmpDateDesc_key:
  "cmpDateDesc x y = cmp_pair (descending (map_option TruncateDay x)) (descending (map_option TruncateDay y))"
  by (cases x; cases y)
    (auto simp: descending_def cmp_pair_def cmp_then_def cmp_lin_def Let_def After_def Before_def)

lemma EOLScore_ranked: "snd (EOLScore s) \<longleftrightarrow> s \<in> {EOLStageEOL, EOLStageEOAS}"
  by (simp add: EOLScore_def)

lemma effective_simps:
  "it_AdvisoryID (effective i) = it_AdvisoryID i" "it_Severity (effective i) = it_Severity i"
  "it_KEV (effective i) \<longleftrightarrow> vuln_row i \<and> it_KEV i"
  "vuln_row i \<Longrightarrow> it_KEVAdded (effective i) = it_KEVAdded i"
  "it_EPSS (effective i) = (if vuln_row i then it_EPSS i else None)"
  "it_CVSS (effective i) = (if host_row i then Some (fst (SurfaceScore (it_Severity i)))
     else if eol_row i then Some (fst (EOLScore (it_EOLStage i))) else it_CVSS i)"
  "TieRank (effective i) = TieRank i"
  by (auto simp: effective_def vuln_row_def host_row_def eol_row_def EOLScore_ranked TieRank_def)

lemma Band_values:
  "Band i = BandKEV \<longleftrightarrow> vuln_row i \<and> it_KEV i"
  "Band i = BandUrgent \<longleftrightarrow>
     host_row i \<and> ToLower (it_Severity i) \<in> {''critical'', ''high''} \<or> eol_row i \<and> it_EOLStage i = EOLStageEOL"
  "Band i \<in> {BandKEV, BandUrgent, BandRest}"
  by (auto simp: Band_def vuln_row_def host_row_def eol_row_def EOLScore_ranked BandKEV_def BandUrgent_def
      BandRest_def EOLStageEOL_def EOLStageEOAS_def)

lemma epss_key_effective: "descending (it_EPSS (effective i)) = epss_key i"
  by (simp add: effective_simps epss_key_def descending_def)

lemma cvss_key_effective: "descending (it_CVSS (effective i)) = cvss_key i"
  by (simp add: effective_simps cvss_key_def)

lemma kev_part:
  assumes "Band a = Band b"
  shows "(if it_KEV (effective a) \<and> it_KEV (effective b)
     then cmpDateDesc (it_KEVAdded (effective a)) (it_KEVAdded (effective b)) else 0) =
     cmp_pair (kev_key a) (kev_key b)"
proof -
  have "vuln_row a \<and> it_KEV a \<longleftrightarrow> vuln_row b \<and> it_KEV b"
    using assms Band_values(1) [of a] Band_values(1) [of b] by simp
  then show ?thesis
    by (auto simp: effective_simps kev_key_def cmpDateDesc_key cmp_pair_def cmp_then_def cmp_lin_def)
qed

lemma RankCompare_chain:
  "RankCompare a b =
     cmp_then (Band a - Band b)
       (cmp_then (if it_KEV (effective a) \<and> it_KEV (effective b)
           then cmpDateDesc (it_KEVAdded (effective a)) (it_KEVAdded (effective b)) else 0)
         (cmp_then (cmp_pair (epss_key a) (epss_key b))
           (cmp_then (cmp_pair (cvss_key a) (cvss_key b))
             (cmp_then (SeverityRank (it_Severity a) - SeverityRank (it_Severity b))
               (cmp_then (TieRank a - TieRank b)
                 (cmp_lin (it_AdvisoryID a) (it_AdvisoryID b)))))))"
  unfolding RankCompare_def cmp_then_def Let_def cmpScoreDesc_key epss_key_effective cvss_key_effective
    effective_simps(1,2,7) ..

lemma RankCompare_spec: "normalizeSign (RankCompare a b) = rank_spec a b"
proof -
  have "normalizeSign (RankCompare a b) =
     cmp_then (cmp_lin (Band a) (Band b))
       (cmp_then (normalizeSign (if it_KEV (effective a) \<and> it_KEV (effective b)
           then cmpDateDesc (it_KEVAdded (effective a)) (it_KEVAdded (effective b)) else 0))
         (cmp_then (cmp_pair (epss_key a) (epss_key b))
           (cmp_then (cmp_pair (cvss_key a) (cvss_key b))
             (cmp_then (cmp_lin (SeverityRank (it_Severity a)) (SeverityRank (it_Severity b)))
               (cmp_then (cmp_lin (TieRank a) (TieRank b))
                 (cmp_lin (it_AdvisoryID a) (it_AdvisoryID b)))))))"
    unfolding RankCompare_chain normalize_cmp_then normalize_diff normalize_cmp_pair normalize_cmp_lin ..
  also have "\<dots> = rank_spec a b"
    unfolding rank_spec_def
    by (intro cmp_then_cong refl) (simp add: kev_part)
  finally show ?thesis .
qed

lemma RankCompare_signs:
  "RankCompare a b < 0 \<longleftrightarrow> rank_spec a b < 0" "0 < RankCompare a b \<longleftrightarrow> 0 < rank_spec a b"
  "RankCompare a b = 0 \<longleftrightarrow> rank_spec a b = 0"
  by (metis RankCompare_spec normalizeSign_signs)+

interpretation exposure: comparator RankCompare
proof
  fix x y z
  show "RankCompare y x < 0 \<longleftrightarrow> 0 < RankCompare x y"
    using rank.cmp_flip [of y x] by (simp add: RankCompare_signs)
  have le: "RankCompare u v \<le> 0 \<longleftrightarrow> rank_spec u v \<le> 0" for u v
    using RankCompare_signs(2) [of u v] by linarith
  show "RankCompare x y \<le> 0 \<Longrightarrow> RankCompare y z \<le> 0 \<Longrightarrow> RankCompare x z \<le> 0"
    unfolding le by (rule rank.cmp_trans)
qed

lemma RankCompare_zero: "RankCompare a b = 0 \<Longrightarrow> it_AdvisoryID a = it_AdvisoryID b"
  by (auto simp: RankCompare_signs rank_spec_def cmp_then_def split: if_splits)

lemma RankCompare_band: "Band a < Band b \<Longrightarrow> RankCompare a b < 0"
  by (simp add: RankCompare_chain cmp_then_def)

lemma rank_spec_epss:
  "Band a = Band b \<Longrightarrow> cmp_pair (kev_key a) (kev_key b) = 0 \<Longrightarrow> cmp_pair (epss_key a) (epss_key b) < 0 \<Longrightarrow>
   rank_spec a b < 0"
  by (simp add: rank_spec_def cmp_then_def)

section \<open>Properties\<close>

text \<open>C15: The code implements the ranking rule. The sign of \<open>Compare\<close> is the lexicographic
  comparison of the band, the KEV date, EPSS, CVSS or its equivalent, the severity label, the
  kind of row and the identifier, in the order the package comment lists them.\<close>

theorem RankCompare_is_rule: "normalizeSign (RankCompare a b) = rank_spec a b"
  by (rule RankCompare_spec)

text \<open>The list has one order. Rows with different identifiers, in whatever order the
  database returns them, sort to the same list, in which every row is strictly before the ones
  after it; so a cursor that names the last row of a page cuts the list in one place only.\<close>

theorem RankCompare_one_order:
  assumes "mset xs = mset ys" "distinct (map it_AdvisoryID xs)"
  shows "go_sort (\<lambda>a b. RankCompare a b < 0) xs = go_sort (\<lambda>a b. RankCompare a b < 0) ys \<and>
    sorted_wrt (\<lambda>a b. RankCompare a b < 0) (go_sort (\<lambda>a b. RankCompare a b < 0) xs)"
proof
  have same: "a = b" if "a \<in> set xs" "b \<in> set xs" "\<not> RankCompare a b < 0" "\<not> RankCompare b a < 0" for a b
  proof -
    have "RankCompare a b = 0"
      using that(3,4) exposure.cmp_flip [of b a] by simp
    then show ?thesis
      using that(1,2) assms(2) RankCompare_zero [of a b] by (auto simp: distinct_map dest: inj_onD)
  qed
  then show "go_sort (\<lambda>a b. RankCompare a b < 0) xs = go_sort (\<lambda>a b. RankCompare a b < 0) ys"
    by (rule exposure.cmp.go_sort_unique [OF assms(1)])
  let ?s = "go_sort (\<lambda>a b. RankCompare a b < 0) xs"
  have "distinct ?s"
    using assms(2) by (simp add: distinct_map)
  then have "sorted_wrt (\<noteq>) ?s"
    by (simp add: distinct_conv_nth sorted_wrt_iff_nth_less)
  moreover have "sorted_wrt (\<lambda>a b. \<not> RankCompare b a < 0) ?s"
    by (rule exposure.cmp.sorted_go_sort)
  ultimately have "sorted_wrt (\<lambda>a b. a \<noteq> b \<and> \<not> RankCompare b a < 0) ?s"
    by (simp add: sorted_wrt_iff_nth_less)
  then show "sorted_wrt (\<lambda>a b. RankCompare a b < 0) ?s"
    by (rule sorted_wrt_mono_rel [rotated]) (use same in auto)
qed

definition ex_item :: "string \<Rightarrow> string \<Rightarrow> bool \<Rightarrow> score \<Rightarrow> string \<Rightarrow> bool \<Rightarrow> Item" where
  "ex_item iid sev kev epss stage surface =
     \<lparr>it_AdvisoryID = iid, it_Severity = sev, it_KEV = kev, it_KEVAdded = None, it_EPSS = epss, it_CVSS = None,
      it_Surface = surface, it_Identity = False, it_EOLStage = stage, it_RepoHealth = False\<rparr>"

theorem RankCompare_one_order_witness:
  "go_sort (\<lambda>a b. RankCompare a b < 0) [ex_item ''CVE-2'' ''high'' False (Some (9 / 10)) [] False,
     ex_item ''EOL:php:8.0'' ''high'' False None ''eol'' False] =
   go_sort (\<lambda>a b. RankCompare a b < 0) [ex_item ''EOL:php:8.0'' ''high'' False None ''eol'' False,
     ex_item ''CVE-2'' ''high'' False (Some (9 / 10)) [] False]"
  using RankCompare_one_order [of "[ex_item ''CVE-2'' ''high'' False (Some (9 / 10)) [] False,
      ex_item ''EOL:php:8.0'' ''high'' False None ''eol'' False]"
    "[ex_item ''EOL:php:8.0'' ''high'' False None ''eol'' False,
      ex_item ''CVE-2'' ''high'' False (Some (9 / 10)) [] False]"]
  by (simp add: ex_item_def)

lemma urgent_before_scored:
  assumes "\<not> vuln_row b" "Band b \<noteq> BandUrgent" "vuln_row a" "it_EPSS a = Some e"
  shows "RankCompare a b < 0"
proof (cases "it_KEV a")
  case True
  then have "Band a = BandKEV" "Band b = BandRest"
    using assms Band_values [of b] Band_values(1) [of a] by auto
  then show ?thesis
    by (intro RankCompare_band) (simp add: BandKEV_def BandRest_def)
next
  case False
  then have "Band a = BandRest" "Band b = BandRest"
    using assms Band_values [of a] Band_values [of b] by (auto simp: vuln_row_def eol_row_def)
  then show ?thesis
    unfolding RankCompare_signs using assms False
    by (intro rank_spec_epss)
      (auto simp: kev_key_def epss_key_def descending_def cmp_pair_def cmp_then_def cmp_lin_def)
qed

text \<open>What comes first. An advisory exploited in the wild is before everything that is not;
  then a finding of the urgent band (critical or high of the surface, an identity or a
  repository, or software past security support) is before every vulnerability that is not
  exploited, whatever its EPSS; a less severe finding is after every vulnerability with an EPSS
  score.\<close>

theorem RankCompare_priority:
  "(vuln_row a \<and> it_KEV a \<and> \<not> (vuln_row b \<and> it_KEV b) \<longrightarrow> RankCompare a b < 0) \<and>
   ((host_row a \<and> ToLower (it_Severity a) \<in> {''critical'', ''high''} \<or> eol_row a \<and> it_EOLStage a = EOLStageEOL) \<and>
      vuln_row b \<and> \<not> it_KEV b \<longrightarrow> RankCompare a b < 0) \<and>
   (\<not> vuln_row b \<and> Band b \<noteq> BandUrgent \<and> vuln_row a \<and> it_EPSS a \<noteq> None \<longrightarrow> RankCompare a b < 0)"
proof (intro conjI impI, goal_cases)
  case 1
  then have "Band a = BandKEV" "Band b \<noteq> BandKEV"
    using Band_values(1) by blast+
  then show ?case
    using Band_values(3) [of b] by (intro RankCompare_band) (auto simp: BandKEV_def BandUrgent_def BandRest_def)
next
  case 2
  then have "Band a = BandUrgent" "Band b = BandRest"
    using Band_values [of a] Band_values [of b] by (auto simp: vuln_row_def eol_row_def)
  then show ?case
    by (intro RankCompare_band) (simp add: BandUrgent_def BandRest_def)
next
  case 3
  then show ?case
    using urgent_before_scored by blast
qed

theorem RankCompare_priority_witness:
  "RankCompare (ex_item ''CVE-1'' ''low'' True None [] False) (ex_item ''surface:1'' ''critical'' False None [] True) < 0 \<and>
   RankCompare (ex_item ''EOL:php:8.0'' ''high'' False None ''eol'' False)
     (ex_item ''CVE-2'' ''critical'' False (Some (99 / 100)) [] False) < 0 \<and>
   RankCompare (ex_item ''CVE-3'' ''low'' False (Some (1 / 1000)) [] False)
     (ex_item ''surface:2'' ''medium'' False None [] True) < 0"
proof (intro conjI)
  note rows = ex_item_def vuln_row_def host_row_def eol_row_def EOLStageEOL_def EOLStageEOAS_def
    Band_def BandUrgent_def BandRest_def ToLower_def lower_char_def
  show "RankCompare (ex_item ''CVE-1'' ''low'' True None [] False)
      (ex_item ''surface:1'' ''critical'' False None [] True) < 0"
    by (rule RankCompare_priority [THEN conjunct1, THEN mp]) (simp add: rows)
  show "RankCompare (ex_item ''EOL:php:8.0'' ''high'' False None ''eol'' False)
      (ex_item ''CVE-2'' ''critical'' False (Some (99 / 100)) [] False) < 0"
    by (rule RankCompare_priority [THEN conjunct2, THEN conjunct1, THEN mp]) (simp add: rows)
  show "RankCompare (ex_item ''CVE-3'' ''low'' False (Some (1 / 1000)) [] False)
      (ex_item ''surface:2'' ''medium'' False None [] True) < 0"
    by (rule RankCompare_priority [THEN conjunct2, THEN conjunct2, THEN mp]) (simp add: rows)
qed

end
