(* ===== verification/Go_Encoding.thy ===== *)
theory Go_Encoding
  imports Sha256
begin

text \<open>
  The encodings the signed and hashed records share: the length-prefixed fields that
  auditchain, sign and evidence each write with the same few lines, and the parts of package
  encoding/base64 the signatures are stored with. Fields can be read back in one way only
  (\<open>write_fields_inject\<close>), and decoding inverts encoding (\<open>DecodeString_Base64\<close>).
\<close>

section \<open>Length-prefixed fields\<close>

definition newline :: char where "newline = CHR 0x0A"

definition writeField :: "string \<Rightarrow> string" where
  "writeField s = itoa_nat (length s) @ '':'' @ s @ [newline]"

definition write_fields :: "string list \<Rightarrow> string" where
  "write_fields fs = concat (map writeField fs)"

definition FormatBool :: "bool \<Rightarrow> string" where
  "FormatBool b = (if b then ''true'' else ''false'')"

lemma FormatBool_inject [simp]: "FormatBool a = FormatBool b \<longleftrightarrow> a = b"
  by (simp add: FormatBool_def)

lemma write_fields_simps [simp]:
  "write_fields [] = []" "write_fields (f # fs) = writeField f @ write_fields fs"
  by (simp_all add: write_fields_def)

lemma append_separator:
  assumes "c \<notin> set xs" "c \<notin> set ys" "xs @ c # us = ys @ c # vs"
  shows "xs = ys \<and> us = vs"
proof -
  have "takeWhile (\<lambda>x. x \<noteq> c) (xs @ c # us) = xs" "takeWhile (\<lambda>x. x \<noteq> c) (ys @ c # vs) = ys"
    using assms(1,2) by (subst takeWhile_append2; force)+
  then have "xs = ys"
    using assms(3) by simp
  then show ?thesis
    using assms(3) by simp
qed

lemma colon_itoa: "CHR '':'' \<notin> set (itoa_nat n)"
  using itoa_nat_digits [of "CHR '':''" n] by (auto simp: isASCIIDigit_def)

lemma newline_itoa: "newline \<notin> set (itoa_nat n)"
  using itoa_nat_digits [of newline n] by (auto simp: isASCIIDigit_def newline_def)

lemma newline_Itoa: "newline \<notin> set (Itoa n)"
  using newline_itoa [of "nat n"] newline_itoa [of "nat (- n)"] by (auto simp: Itoa_def newline_def)

lemma writeField_inject: "writeField s @ r = writeField t @ r' \<longleftrightarrow> s = t \<and> r = r'"
proof
  assume "writeField s @ r = writeField t @ r'"
  then have "itoa_nat (length s) @ CHR '':'' # (s @ newline # r) = itoa_nat (length t) @ CHR '':'' # (t @ newline # r')"
    by (simp add: writeField_def)
  from append_separator [OF colon_itoa colon_itoa this]
  have "length s = length t" "s @ newline # r = t @ newline # r'"
    by simp_all
  then show "s = t \<and> r = r'"
    by simp
qed simp

lemma writeField_not_Nil [simp]: "writeField s \<noteq> []"
  by (simp add: writeField_def)

text \<open>Fields read back in one way only, however many there are.\<close>

lemma write_fields_append_inject:
  "length fs = length gs \<Longrightarrow> write_fields fs @ r = write_fields gs @ r' \<longleftrightarrow> fs = gs \<and> r = r'"
  by (induction fs gs rule: list_induct2) (auto simp: writeField_inject)

lemma write_fields_inject [simp]: "write_fields fs = write_fields gs \<longleftrightarrow> fs = gs"
proof (induction fs arbitrary: gs)
  case Nil
  then show ?case
    by (cases gs) simp_all
next
  case (Cons f fs)
  then show ?case
    by (cases gs) (simp_all add: writeField_inject)
qed

section \<open>Package encoding/base64: the standard encoding\<close>

definition b64_char :: "nat \<Rightarrow> char" where
  "b64_char n =
     (if n < 26 then char_of (65 + n) else if n < 52 then char_of (71 + n)
      else if n < 62 then char_of (n - 4) else if n = 62 then CHR ''+'' else CHR ''/'')"

definition b64_val :: "char \<Rightarrow> nat option" where
  "b64_val c =
     (let b = byte c
      in if 65 \<le> b \<and> b \<le> 90 then Some (b - 65)
         else if 97 \<le> b \<and> b \<le> 122 then Some (b - 71)
         else if 48 \<le> b \<and> b \<le> 57 then Some (b + 4)
         else if c = CHR ''+'' then Some 62
         else if c = CHR ''/'' then Some 63
         else None)"

fun Base64 :: "string \<Rightarrow> string" where
  "Base64 [] = []"
| "Base64 [a] = [b64_char (byte a div 4), b64_char (byte a mod 4 * 16), CHR ''='', CHR ''='']"
| "Base64 [a, b] =
     [b64_char (byte a div 4), b64_char (byte a mod 4 * 16 + byte b div 16), b64_char (byte b mod 16 * 4), CHR ''='']"
| "Base64 (a # b # c # s) =
     [b64_char (byte a div 4), b64_char (byte a mod 4 * 16 + byte b div 16),
      b64_char (byte b mod 16 * 4 + byte c div 64), b64_char (byte c mod 64)] @ Base64 s"

text \<open>The decoder skips carriage returns and newlines, wants padding to a multiple of four
  characters and nothing after it, and ignores the unused bits of the last character.\<close>

fun b64_quads :: "string \<Rightarrow> string option" where
  "b64_quads [] = Some []"
| "b64_quads (a # b # c # d # s) =
     (case (b64_val a, b64_val b) of
        (Some x, Some y) \<Rightarrow>
          (let o1 = char_of (x * 4 + y div 16)
           in if c = CHR ''='' then (if d = CHR ''='' \<and> s = [] then Some [o1] else None)
              else case b64_val c of
                None \<Rightarrow> None
              | Some z \<Rightarrow>
                  (let o2 = char_of (y mod 16 * 16 + z div 4)
                   in if d = CHR ''='' then (if s = [] then Some [o1, o2] else None)
                      else case b64_val d of
                        None \<Rightarrow> None
                      | Some w \<Rightarrow> map_option (\<lambda>r. o1 # o2 # char_of (z mod 4 * 64 + w) # r) (b64_quads s)))
      | _ \<Rightarrow> None)"
| "b64_quads _ = None"

definition DecodeString :: "string \<Rightarrow> string option" where
  "DecodeString s = b64_quads (filter (\<lambda>c. c \<noteq> CHR 0x0D \<and> c \<noteq> newline) s)"

lemma b64_val_char: "n < 64 \<Longrightarrow> b64_val (b64_char n) = Some n"
  by (auto simp: b64_char_def b64_val_def Let_def)

lemma b64_char_not_special: "n < 64 \<Longrightarrow> b64_char n \<noteq> CHR ''='' \<and> b64_char n \<noteq> CHR 0x0D \<and> b64_char n \<noteq> newline"
  using b64_val_char [of n] by (auto simp: b64_val_def newline_def)

lemma byte_parts:
  "byte a div 4 < 64" "byte a mod 4 * 16 < 64" "byte a mod 4 * 16 + byte b div 16 < 64"
  "byte b mod 16 * 4 < 64" "byte b mod 16 * 4 + byte c div 64 < 64" "byte c mod 64 < 64"
proof -
  have "byte a div 4 < 64" "byte b div 16 < 16" "byte c div 64 < 4"
    using byte_less_256 [of a] byte_less_256 [of b] byte_less_256 [of c] by (simp_all add: less_mult_imp_div_less)
  moreover have "byte a mod 4 < 4" "byte b mod 16 < 16" "byte c mod 64 < 64"
    by simp_all
  ultimately show "byte a div 4 < 64" "byte a mod 4 * 16 < 64" "byte a mod 4 * 16 + byte b div 16 < 64"
    "byte b mod 16 * 4 < 64" "byte b mod 16 * 4 + byte c div 64 < 64" "byte c mod 64 < 64"
    by linarith+
qed

lemma byte_divs:
  "byte b div 16 div 16 = 0" "byte b div 16 mod 16 = byte b div 16"
  "byte c div 64 div 4 = 0" "byte c div 64 mod 4 = byte c div 64"
  using byte_less_256 [of b] byte_less_256 [of c] by (simp_all add: less_mult_imp_div_less div_mult2_eq [symmetric])

lemma equals_not_newline [simp]: "CHR ''='' \<noteq> newline"
  by (simp add: newline_def)

lemma filter_Base64: "filter (\<lambda>c. c \<noteq> CHR 0x0D \<and> c \<noteq> newline) (Base64 s) = Base64 s"
  by (induction s rule: Base64.induct)
    (simp_all add: b64_char_not_special byte_parts)

lemma b64_quads_Base64: "b64_quads (Base64 s) = Some s"
proof (induction s rule: Base64.induct)
  case (4 a b c s)
  then show ?case
    by (simp add: b64_val_char byte_parts b64_char_not_special Let_def byte_divs)
qed (simp_all add: b64_val_char byte_parts b64_char_not_special Let_def byte_divs)

lemma DecodeString_Base64: "DecodeString (Base64 s) = Some s"
  by (simp add: DecodeString_def filter_Base64 b64_quads_Base64)

end
