(* ===== verification/Audit_Chain.thy ===== *)
theory Audit_Chain
  imports Go_Encoding Go_Time
begin

text \<open>
  internal/auditchain/chain.go: the hash-chained audit log and its signed checkpoints. The
  hash is the SHA-256 of theory \<open>Sha256\<close>. Ed25519 is not modelled: \<open>ed_sign\<close> and
  \<open>ed_verify\<close> are arguments. A Go \<open>error\<close> is \<open>None\<close> for nil.

  No theorem here assumes that SHA-256 has no collisions, which is false of every hash; where
  the chain relies on it, the conclusion names two different inputs among the given entries
  that have the same digest.
\<close>

section \<open>The code\<close>

definition AuditDomain :: string where "AuditDomain = ''defendsec-audit-v1''"
definition checkpointDomain :: string where "checkpointDomain = ''defendsec-audit-checkpoint-v1''"
definition Genesis :: string where "Genesis = []"

record Entry =
  en_Seq :: int
  en_At :: time
  en_Actor :: string
  en_Action :: string
  en_DeviceID :: string
  en_Detail :: string
  en_PrevHash :: string
  en_EntryHash :: string

text \<open>What \<open>Canonical\<close> writes after the domain.\<close>

definition entry_fields :: "Entry \<Rightarrow> string list" where
  "entry_fields e =
     [Itoa (en_Seq e), FormatRFC3339Nano (en_At e), en_Actor e, en_Action e, en_DeviceID e, en_Detail e]"

definition CanonicalEntry :: "Entry \<Rightarrow> string" where
  "CanonicalEntry e = AuditDomain @ [newline] @ write_fields (entry_fields e)"

definition ComputeHash :: "string \<Rightarrow> Entry \<Rightarrow> string" where
  "ComputeHash prevHash e = EncodeToString (Sum256 (prevHash @ CanonicalEntry e))"

definition Link :: "string \<Rightarrow> Entry \<Rightarrow> Entry" where
  "Link prevHash e = (let e1 = e\<lparr>en_PrevHash := prevHash\<rparr> in e1\<lparr>en_EntryHash := ComputeHash prevHash e1\<rparr>)"

record TamperError =
  te_Seq :: int
  te_Actor :: string
  te_Action :: string
  te_At :: time
  te_Reason :: string

definition tampered :: "Entry \<Rightarrow> string \<Rightarrow> TamperError" where
  "tampered e reason =
     \<lparr>te_Seq = en_Seq e, te_Actor = en_Actor e, te_Action = en_Action e, te_At = en_At e, te_Reason = reason\<rparr>"

definition TamperError_text :: "TamperError \<Rightarrow> string" where
  "TamperError_text e =
     ''audit chain broken at entry '' @ Itoa (te_Seq e) @ '' ('' @ te_Action e @ '' by '' @ te_Actor e @ '' at '' @
     FormatRFC3339 (te_At e) @ ''): '' @ te_Reason e"

text \<open>The loop of \<open>VerifyFrom\<close>; \<open>lastSeq\<close> is \<open>None\<close> at the first entry.\<close>

fun verify_loop :: "string \<Rightarrow> int option \<Rightarrow> Entry list \<Rightarrow> TamperError option" where
  "verify_loop prev lastSeq [] = None"
| "verify_loop prev lastSeq (e # es) =
     (if lastSeq \<noteq> None \<and> en_Seq e \<noteq> the lastSeq + 1 then
        Some (tampered e (''sequence jumped from '' @ Itoa (the lastSeq) @ '', so an entry was removed''))
      else if en_PrevHash e \<noteq> prev then
        Some (tampered e ''previous hash does not match the entry before it'')
      else if en_EntryHash e \<noteq> ComputeHash prev e then
        Some (tampered e ''entry hash does not match its contents, so the row was modified'')
      else verify_loop (en_EntryHash e) (Some (en_Seq e)) es)"

definition VerifyFrom :: "string \<Rightarrow> Entry list \<Rightarrow> TamperError option" where
  "VerifyFrom prevHash entries = verify_loop prevHash None entries"

definition VerifyChain :: "Entry list \<Rightarrow> TamperError option" where
  "VerifyChain entries =
     (case entries of
        [] \<Rightarrow> None
      | e # _ \<Rightarrow>
          if en_Seq e \<noteq> 1 then Some (tampered e ''chain does not start at sequence 1'')
          else VerifyFrom Genesis entries)"

section \<open>Checkpoints\<close>

record Checkpoint =
  ck_ThroughSeq :: int
  ck_EntryHash :: string
  ck_At :: time
  ck_SigningKeyID :: string
  ck_Signature :: string

definition checkpoint_fields :: "Checkpoint \<Rightarrow> string list" where
  "checkpoint_fields c =
     [Itoa (ck_ThroughSeq c), ck_EntryHash c, FormatRFC3339Nano (ck_At c), ck_SigningKeyID c]"

definition CanonicalCheckpoint :: "Checkpoint \<Rightarrow> string" where
  "CanonicalCheckpoint c = checkpointDomain @ [newline] @ write_fields (checkpoint_fields c)"

definition SignCheckpoint :: "('priv \<Rightarrow> string \<Rightarrow> string) \<Rightarrow> 'priv \<Rightarrow> Checkpoint \<Rightarrow> Checkpoint" where
  "SignCheckpoint ed_sign priv c = c\<lparr>ck_Signature := Base64 (ed_sign priv (CanonicalCheckpoint c))\<rparr>"

text \<open>Errors are their text; the offset in the text of a base64 error is left out.\<close>

definition VerifyCheckpoint :: "('pub \<Rightarrow> string \<Rightarrow> string \<Rightarrow> bool) \<Rightarrow> 'pub \<Rightarrow> Checkpoint \<Rightarrow> string option" where
  "VerifyCheckpoint ed_verify pub c =
     (case DecodeString (ck_Signature c) of
        None \<Rightarrow> Some (''checkpoint '' @ Itoa (ck_ThroughSeq c) @ '': signature is not valid base64'')
      | Some raw \<Rightarrow>
          if \<not> ed_verify pub (CanonicalCheckpoint c) raw then
            Some (''checkpoint '' @ Itoa (ck_ThroughSeq c) @ '': signature does not verify'')
          else None)"

datatype chain_error = PlainError string | Tamper TamperError

definition VerifyAgainstCheckpoint ::
  "('pub \<Rightarrow> string \<Rightarrow> string \<Rightarrow> bool) \<Rightarrow> 'pub \<Rightarrow> string \<Rightarrow> Entry list \<Rightarrow> Checkpoint \<Rightarrow> chain_error option" where
  "VerifyAgainstCheckpoint ed_verify pub prevHash entries c =
     (case VerifyCheckpoint ed_verify pub c of
        Some e \<Rightarrow> Some (PlainError e)
      | None \<Rightarrow>
          (case VerifyFrom prevHash entries of
             Some t \<Rightarrow> Some (Tamper t)
           | None \<Rightarrow>
               if entries = [] then
                 Some (Tamper \<lparr>te_Seq = ck_ThroughSeq c, te_Actor = [], te_Action = [], te_At = ck_At c,
                   te_Reason = ''checkpoint attests the chain through sequence '' @ Itoa (ck_ThroughSeq c) @
                     '', but no entries were supplied''\<rparr>)
               else if en_Seq (last entries) \<noteq> ck_ThroughSeq c then
                 Some (PlainError (''checkpoint covers sequence '' @ Itoa (ck_ThroughSeq c) @
                   '' but the range ends at '' @ Itoa (en_Seq (last entries))))
               else if en_EntryHash (last entries) \<noteq> ck_EntryHash c then
                 Some (Tamper (tampered (last entries) ''range does not reach the hash the signed checkpoint attests to''))
               else None))"

section \<open>What is hashed\<close>

definition hash_input :: "Entry \<Rightarrow> string" where
  "hash_input e = en_PrevHash e @ CanonicalEntry e"

text \<open>The hashed content of an entry, with the time as it is printed.\<close>

definition entry_view :: "Entry \<Rightarrow> string list \<times> string \<times> string" where
  "entry_view e = (entry_fields e, en_PrevHash e, en_EntryHash e)"

lemma CanonicalEntry_inject: "CanonicalEntry e = CanonicalEntry e' \<longleftrightarrow> entry_fields e = entry_fields e'"
  by (simp add: CanonicalEntry_def)

lemma CanonicalCheckpoint_inject:
  "CanonicalCheckpoint c = CanonicalCheckpoint c' \<longleftrightarrow> checkpoint_fields c = checkpoint_fields c'"
  by (simp add: CanonicalCheckpoint_def)

lemma length_ComputeHash [simp]: "length (ComputeHash prev e) = 64"
  by (simp add: ComputeHash_def)

lemma ComputeHash_hex: "list_all is_hex_digit (ComputeHash prev e)"
  by (simp add: ComputeHash_def EncodeToString_hex)

text \<open>A previous hash is empty (\<open>Genesis\<close>) or a digest; then the two parts of the hashed
  string can be told apart although nothing separates them.\<close>

definition hash_like :: "string \<Rightarrow> bool" where
  "hash_like s \<longleftrightarrow> s = Genesis \<or> length s = 64 \<and> list_all is_hex_digit s"

lemma hash_like_simps [simp]: "hash_like Genesis" "hash_like (ComputeHash prev e)"
  by (simp_all add: hash_like_def ComputeHash_hex)

lemma hash_like_prefix:
  assumes "hash_like p" "hash_like q" "p @ CanonicalEntry e = q @ CanonicalEntry e'"
  shows "p = q"
proof -
  have third: "CanonicalEntry e ! 3 = CHR ''e''" "CanonicalEntry e ! 2 = CHR ''f''" "CanonicalEntry e ! 4 = CHR ''n''"
    for e
    by (simp_all add: CanonicalEntry_def AuditDomain_def)
  have differ: False if "length s = 64" "list_all is_hex_digit s" "s @ CanonicalEntry d = CanonicalEntry d'" for s d d'
  proof -
    have "s ! 4 = (s @ CanonicalEntry d) ! 4"
      using that(1) by (simp add: nth_append)
    then have "s ! 4 = CHR ''n''"
      using that(3) third by simp
    moreover have "is_hex_digit (s ! 4)"
      using that(1,2) by (simp add: list_all_length)
    ultimately show False
      by (simp add: is_hex_digit_def isASCIIDigit_def)
  qed
  consider "p = Genesis \<and> q = Genesis" | "length p = length q" | "p = Genesis \<and> length q = 64 \<and> list_all is_hex_digit q"
    | "q = Genesis \<and> length p = 64 \<and> list_all is_hex_digit p"
    using assms(1,2) unfolding hash_like_def by auto
  then show ?thesis
  proof cases
    case 3
    then show ?thesis
      using differ [of q e' e] assms(3) by (simp add: Genesis_def)
  next
    case 4
    then show ?thesis
      using differ [of p e e'] assms(3) by (simp add: Genesis_def)
  qed (use assms(3) in auto)
qed

lemma hash_input_inject:
  assumes "hash_like (en_PrevHash e)" "hash_like (en_PrevHash e')"
  shows "hash_input e = hash_input e' \<longleftrightarrow> en_PrevHash e = en_PrevHash e' \<and> entry_fields e = entry_fields e'"
  using hash_like_prefix [OF assms, of e e'] by (auto simp: hash_input_def CanonicalEntry_inject)

section \<open>Chains\<close>

text \<open>The specification: the chain the entries would have if they were appended anew.\<close>

fun link_all :: "string \<Rightarrow> Entry list \<Rightarrow> Entry list" where
  "link_all prev [] = []"
| "link_all prev (e # es) = Link prev e # link_all (en_EntryHash (Link prev e)) es"

definition dense :: "Entry list \<Rightarrow> bool" where
  "dense es \<longleftrightarrow> (\<forall>i. Suc i < length es \<longrightarrow> en_Seq (es ! Suc i) = en_Seq (es ! i) + 1)"

lemma CanonicalEntry_cong:
  "CanonicalEntry (e\<lparr>en_PrevHash := p\<rparr>) = CanonicalEntry e" "CanonicalEntry (e\<lparr>en_EntryHash := h\<rparr>) = CanonicalEntry e"
  by (simp_all add: CanonicalEntry_def entry_fields_def)

lemma Link_simps [simp]:
  "en_PrevHash (Link p e) = p" "en_EntryHash (Link p e) = ComputeHash p e" "en_Seq (Link p e) = en_Seq e"
  "en_At (Link p e) = en_At e" "entry_fields (Link p e) = entry_fields e" "CanonicalEntry (Link p e) = CanonicalEntry e"
  "ComputeHash q (Link p e) = ComputeHash q e"
  by (simp_all add: Link_def Let_def CanonicalEntry_def entry_fields_def ComputeHash_def)

lemma Link_fixed: "Link p e = e \<longleftrightarrow> en_PrevHash e = p \<and> en_EntryHash e = ComputeHash p e"
proof
  show "Link p e = e \<Longrightarrow> en_PrevHash e = p \<and> en_EntryHash e = ComputeHash p e"
    by (metis Link_simps(1,2))
  assume "en_PrevHash e = p \<and> en_EntryHash e = ComputeHash p e"
  then show "Link p e = e"
    by (cases e) (simp add: Link_def Let_def ComputeHash_def CanonicalEntry_def entry_fields_def)
qed

lemma dense_Cons: "dense (e # es) \<longleftrightarrow> (es \<noteq> [] \<longrightarrow> en_Seq (hd es) = en_Seq e + 1) \<and> dense es"
  by (cases es) (simp_all add: dense_def All_less_Suc2)

lemma dense_Nil [simp]: "dense []" and dense_single [simp]: "dense [e]"
  by (simp_all add: dense_def)

lemma length_link_all [simp]: "length (link_all p es) = length es"
  by (induction es arbitrary: p) simp_all

lemma link_all_Nil_iff [simp]: "link_all p es = [] \<longleftrightarrow> es = []"
  by (cases es) simp_all

lemma verify_loop_iff:
  "verify_loop prev lastSeq es = None \<longleftrightarrow>
     link_all prev es = es \<and> dense es \<and> (\<forall>s. lastSeq = Some s \<longrightarrow> es \<noteq> [] \<longrightarrow> en_Seq (hd es) = s + 1)"
proof (induction es arbitrary: prev lastSeq)
  case (Cons e es)
  show ?case
    using Cons [of "en_EntryHash e" "Some (en_Seq e)"]
    by (auto simp: dense_Cons Link_fixed split: if_splits)
qed simp

lemma VerifyFrom_link: "VerifyFrom prev es = None \<longleftrightarrow> link_all prev es = es \<and> dense es"
  by (simp add: VerifyFrom_def verify_loop_iff)

lemma VerifyFrom_Nil [simp]: "VerifyFrom prev [] = None"
  by (simp add: VerifyFrom_def)

lemma VerifyChain_link:
  "VerifyChain es = None \<longleftrightarrow> link_all Genesis es = es \<and> dense es \<and> (es \<noteq> [] \<longrightarrow> en_Seq (hd es) = 1)"
  by (cases es) (auto simp: VerifyChain_def VerifyFrom_link)

lemma link_all_append:
  "link_all p (xs @ ys) = link_all p xs @ link_all (if xs = [] then p else en_EntryHash (last (link_all p xs))) ys"
  by (induction xs arbitrary: p) auto

lemma link_all_fixed_append:
  "link_all p (xs @ ys) = xs @ ys \<longleftrightarrow>
     link_all p xs = xs \<and> link_all (if xs = [] then p else en_EntryHash (last xs)) ys = ys"
proof -
  have "length (link_all p xs) = length xs"
    by simp
  then show ?thesis
    unfolding link_all_append by (auto simp: append_eq_append_conv)
qed

lemma dense_append:
  "dense (xs @ ys) \<longleftrightarrow> dense xs \<and> dense ys \<and> (xs \<noteq> [] \<longrightarrow> ys \<noteq> [] \<longrightarrow> en_Seq (hd ys) = en_Seq (last xs) + 1)"
  by (induction xs) (auto simp: dense_Cons hd_append)

lemma link_all_hashes: "link_all p es = es \<Longrightarrow> hash_like p \<Longrightarrow> e \<in> set es \<Longrightarrow>
    hash_like (en_PrevHash e) \<and> en_EntryHash e = EncodeToString (Sum256 (hash_input e))"
proof (induction es arbitrary: p)
  case (Cons d es)
  then show ?case
    by (auto simp: Link_fixed hash_input_def ComputeHash_def hash_like_def EncodeToString_hex)
qed simp

text \<open>Two entries whose digests agree although what was hashed does not.\<close>

definition collision :: "Entry \<Rightarrow> Entry \<Rightarrow> bool" where
  "collision e e' \<longleftrightarrow> hash_input e \<noteq> hash_input e' \<and> Sum256 (hash_input e) = Sum256 (hash_input e')"

lemma chains_agree:
  assumes "link_all Genesis es = es" "link_all Genesis es' = es'" "es \<noteq> []" "es' \<noteq> []"
    "en_EntryHash (last es) = en_EntryHash (last es')"
    "\<not> (\<exists>e \<in> set es. \<exists>e' \<in> set es'. collision e e')"
  shows "map entry_view es = map entry_view es'"
  using assms
proof (induction es arbitrary: es' rule: rev_induct)
  case (snoc e xs)
  obtain ys e' where es': "es' = ys @ [e']"
    using snoc.prems(4) by (cases es' rule: rev_cases) auto
  have xs: "link_all Genesis xs = xs" "en_PrevHash e = (if xs = [] then Genesis else en_EntryHash (last xs))"
    and ys: "link_all Genesis ys = ys" "en_PrevHash e' = (if ys = [] then Genesis else en_EntryHash (last ys))"
    using snoc.prems(1,2) unfolding es' link_all_fixed_append by (simp_all add: Link_fixed)
  have like: "hash_like (en_PrevHash e)" "hash_like (en_PrevHash e')"
    and hashes: "en_EntryHash e = EncodeToString (Sum256 (hash_input e))"
      "en_EntryHash e' = EncodeToString (Sum256 (hash_input e'))"
    using link_all_hashes [OF snoc.prems(1) hash_like_simps(1), of e]
      link_all_hashes [OF snoc.prems(2) hash_like_simps(1), of e'] by (simp_all add: es')
  have "hash_input e = hash_input e'"
    using snoc.prems(5,6) hashes by (auto simp: es' collision_def)
  then have same: "en_PrevHash e = en_PrevHash e'" "entry_fields e = entry_fields e'"
    by (simp_all add: hash_input_inject like)
  have nonempty: "en_EntryHash (last zs) \<noteq> Genesis" if "link_all Genesis zs = zs" "zs \<noteq> []" for zs
  proof -
    have "en_EntryHash (last zs) = EncodeToString (Sum256 (hash_input (last zs)))"
      using link_all_hashes [OF that(1) hash_like_simps(1) last_in_set [OF that(2)]] by blast
    then have "length (en_EntryHash (last zs)) = 64"
      by simp
    then show ?thesis
      by (auto simp: Genesis_def)
  qed
  have "xs = [] \<longleftrightarrow> ys = []"
    using same(1) xs(2) ys(2) nonempty [OF xs(1)] nonempty [OF ys(1)] by (cases "xs = []"; cases "ys = []") simp_all
  moreover have "map entry_view xs = map entry_view ys" if "xs \<noteq> []" "ys \<noteq> []"
    by (rule snoc.IH) (use that xs ys same(1) snoc.prems(6) es' in auto)
  moreover have "entry_view e = entry_view e'"
    using same snoc.prems(5) by (simp add: es' entry_view_def)
  ultimately show ?case
    by (auto simp: es')
qed simp

lemma verify_loop_break:
  "verify_loop prev lastSeq es = Some t \<Longrightarrow> \<exists>xs e ys. es = xs @ e # ys \<and> verify_loop prev lastSeq xs = None \<and>
     verify_loop prev lastSeq (xs @ [e]) = Some t \<and> t = tampered e (te_Reason t)"
proof (induction es arbitrary: prev lastSeq)
  case (Cons d es)
  show ?case
  proof (cases "verify_loop prev lastSeq [d]")
    case None
    then have "verify_loop (en_EntryHash d) (Some (en_Seq d)) es = Some t"
      using Cons.prems by (auto split: if_splits)
    then obtain xs e ys where *: "es = xs @ e # ys" "verify_loop (en_EntryHash d) (Some (en_Seq d)) xs = None"
        "verify_loop (en_EntryHash d) (Some (en_Seq d)) (xs @ [e]) = Some t" "t = tampered e (te_Reason t)"
      using Cons.IH by blast
    show ?thesis
      by (rule exI [of _ "d # xs"], rule exI [of _ e], rule exI [of _ ys])
        (use None * in \<open>auto split: if_splits\<close>)
  next
    case (Some t')
    then have "t' = t"
      using Cons.prems by (auto split: if_splits)
    moreover have "t' = tampered d (te_Reason t')"
      using Some by (auto simp: tampered_def split: if_splits)
    ultimately show ?thesis
      using Some by (intro exI [of _ "[]"] exI [of _ d] exI [of _ es]) auto
  qed
qed simp

section \<open>Properties\<close>

text \<open>C16: A range verifies exactly when it is the chain its own contents give: relinking the
  entries after the previous hash changes none of them, and their sequence numbers follow each
  other.\<close>

theorem VerifyFrom_iff_relinked: "VerifyFrom prev es = None \<longleftrightarrow> link_all prev es = es \<and> dense es"
  by (rule VerifyFrom_link)

text \<open>C17: A break is reported where it is. When \<open>VerifyFrom\<close> fails, the error names an entry
  of the range, everything before that entry verifies, and the range up to and including it
  already gives the same error.\<close>

theorem VerifyFrom_first_break:
  assumes "VerifyFrom prev es = Some t"
  shows "\<exists>xs e ys. es = xs @ e # ys \<and> VerifyFrom prev xs = None \<and> VerifyFrom prev (xs @ [e]) = Some t \<and>
    t = tampered e (te_Reason t)"
  using verify_loop_break assms unfolding VerifyFrom_def .

definition ex_entry :: "int \<Rightarrow> Entry" where
  "ex_entry s = \<lparr>en_Seq = s, en_At = 0, en_Actor = ''admin'', en_Action = ''login'', en_DeviceID = [], en_Detail = ''{}'',
     en_PrevHash = [], en_EntryHash = []\<rparr>"

theorem VerifyFrom_first_break_witness:
  "\<exists>xs e ys. link_all Genesis [ex_entry 1, ex_entry 3] = xs @ e # ys \<and> VerifyFrom Genesis xs = None \<and> en_Seq e = 3"
proof -
  let ?es = "link_all Genesis [ex_entry 1, ex_entry 3]"
  obtain t where t: "VerifyFrom Genesis ?es = Some t" "te_Seq t = 3"
    by (auto simp: VerifyFrom_def ex_entry_def tampered_def)
  obtain xs e ys where "?es = xs @ e # ys" "VerifyFrom Genesis xs = None" "t = tampered e (te_Reason t)"
    using VerifyFrom_first_break [OF t(1)] by blast
  moreover then have "en_Seq e = 3"
    using t(2) by (metis TamperError.select_convs(1) tampered_def)
  ultimately show ?thesis
    by blast
qed

text \<open>A signed checkpoint pins the whole history down. Two logs that both verify from the
  beginning of the chain against the same checkpoint have the same entries, field by field,
  unless they exhibit two different hashed strings with the same SHA-256.\<close>

theorem checkpoint_pins_history:
  assumes "VerifyAgainstCheckpoint ed_verify pub Genesis es c = None"
    and "VerifyAgainstCheckpoint ed_verify pub Genesis es' c = None"
  shows "map entry_view es = map entry_view es' \<or> (\<exists>e \<in> set es. \<exists>e' \<in> set es'. collision e e')"
proof -
  have good: "VerifyFrom Genesis xs = None \<and> xs \<noteq> [] \<and> en_EntryHash (last xs) = ck_EntryHash c"
    if "VerifyAgainstCheckpoint ed_verify pub Genesis xs c = None" for xs
    using that by (simp add: VerifyAgainstCheckpoint_def split: option.splits if_splits)
  show ?thesis
    using chains_agree [of es es'] good [OF assms(1)] good [OF assms(2)] by (auto simp: VerifyFrom_link)
qed

text \<open>The witness: a signature scheme for which every signature is the signed message.\<close>

definition ex_checkpoint :: "Entry \<Rightarrow> Checkpoint" where
  "ex_checkpoint e = SignCheckpoint (\<lambda>_ m. m) ()
     \<lparr>ck_ThroughSeq = en_Seq e, ck_EntryHash = en_EntryHash e, ck_At = 0, ck_SigningKeyID = ''k'', ck_Signature = []\<rparr>"

lemma SignCheckpoint_verifies:
  assumes "\<And>m. ed_verify pub m (ed_sign priv m)"
  shows "VerifyCheckpoint ed_verify pub (SignCheckpoint ed_sign priv c) = None"
  using assms by (simp add: VerifyCheckpoint_def SignCheckpoint_def DecodeString_Base64 CanonicalCheckpoint_def
      checkpoint_fields_def)

theorem checkpoint_pins_history_witness:
  "let es = link_all Genesis [ex_entry 1, ex_entry 2]
   in map entry_view es = map entry_view es \<or> (\<exists>e \<in> set es. \<exists>e' \<in> set es. collision e e')"
proof -
  let ?es = "link_all Genesis [ex_entry 1, ex_entry 2]"
  have "VerifyFrom Genesis ?es = None"
    by (simp add: VerifyFrom_link dense_Cons ex_entry_def Link_fixed)
  then have "VerifyAgainstCheckpoint (\<lambda>_ m s. s = m) () Genesis ?es (ex_checkpoint (last ?es)) = None"
    by (auto simp: VerifyAgainstCheckpoint_def ex_checkpoint_def SignCheckpoint_verifies) (auto simp: SignCheckpoint_def)
  from checkpoint_pins_history [OF this this] show ?thesis
    unfolding Let_def .
qed

end
