(* ===== verification/Evidence_Surface.thy ===== *)
theory Evidence_Surface
  imports Audit_Chain
begin

text \<open>
  internal/evidence/surface.go: the external surface section of an evidence bundle, the digest of
  a scan, and the check of the section against the chained entries. The texts of the checks,
  which nothing reads but people, are left out; of the problems found only their number is
  kept. encoding/json is outside the model: \<open>remarshal\<close> parses a JSON text and prints the value
  again, \<open>parse_entry\<close> reads the detail of a chained entry, and both are arguments. The evidence
  of a finding is its JSON text.
\<close>

section \<open>The section\<close>

definition SurfaceScanAction :: string where "SurfaceScanAction = ''surface_scan_recorded''"

definition SurfaceProvenance :: string where
  "SurfaceProvenance =
     ''Each scan'' @ [CHR 0x27] @ ''s digest is recomputed from this bundle'' @ [CHR 0x27] @
     ''s copy of its observations and of the findings it saw, opened or closed, '' @
     ''and compared with the chained '' @ [CHR 0x27] @ ''surface_scan_recorded'' @ [CHR 0x27] @
     '' entry written when the scan was stored; a finding'' @ [CHR 0x27] @ ''s open and closed dates, '' @
     ''severity, title and content are recomputed from the attested scans, and a finding that is missing from, or extra in, this list fails. '' @
     ''Scans without a matching chained entry are reported as unattested and prove nothing. '' @
     ''A check that could not run is recorded as not assessed and is never a pass.''"

definition surfaceProvenanceV1 :: string where
  "surfaceProvenanceV1 =
     ''Each scan'' @ [CHR 0x27] @ ''s digest is recomputed from this bundle'' @ [CHR 0x27] @
     ''s copy of its observations and findings and compared with '' @
     ''the chained '' @ [CHR 0x27] @ ''surface_scan_recorded'' @ [CHR 0x27] @
     '' entry written when the scan was stored; a finding'' @ [CHR 0x27] @ ''s open and closed dates are recomputed from '' @
     ''the attested scans. Scans without a matching chained entry are reported as unattested and prove nothing. '' @
     ''A check that could not run is recorded as not assessed and is never a pass.''"

definition surfaceDigestDomainV1 :: string where "surfaceDigestDomainV1 = ''defendsec-surface-scan-v1''"
definition surfaceDigestDomainV2 :: string where "surfaceDigestDomainV2 = ''defendsec-surface-scan-v2''"

definition DigestV1 :: int where "DigestV1 = 1"
definition DigestV2 :: int where "DigestV2 = 2"

record SurfaceAsset =
  sa_ID :: int
  sa_Kind :: string
  sa_Value :: string
  sa_Label :: string
  sa_Authorised :: bool
  sa_AuthorisedBy :: string
  sa_AuthorisedAt :: "time option"
  sa_Removed :: bool

record SurfaceObservation =
  ob_Check :: string
  ob_Assessed :: bool
  ob_Reason :: string
  ob_Observed :: string
  ob_ObservedAt :: time

definition SurfaceOpened :: string where "SurfaceOpened = ''opened''"
definition SurfaceResolved :: string where "SurfaceResolved = ''resolved''"

record SurfaceChange =
  ch_FindingID :: string
  ch_Subject :: string
  ch_Severity :: string
  ch_Change :: string

record SurfaceSeen =
  sn_FindingID :: string
  sn_Subject :: string
  sn_Check :: string
  sn_Severity :: string
  sn_Title :: string
  sn_Content :: string

record SurfaceScan =
  sc_ScanID :: int
  sc_AssetID :: int
  sc_AssetKind :: string
  sc_AssetValue :: string
  sc_TriggeredBy :: string
  sc_StartedAt :: time
  sc_FinishedAt :: time
  sc_Observations :: "SurfaceObservation list"
  sc_Changes :: "SurfaceChange list"
  sc_Seen :: "SurfaceSeen list"

record SurfaceInterval =
  iv_OpenedAt :: time
  iv_ClosedAt :: "time option"

record SurfaceFinding =
  sf_AssetID :: int
  sf_AssetKind :: string
  sf_AssetValue :: string
  sf_Check :: string
  sf_FindingID :: string
  sf_Subject :: string
  sf_Severity :: string
  sf_Title :: string
  sf_Detail :: string
  sf_Fix :: string
  sf_Evidence :: "string option"
  sf_Controls :: "string list"
  sf_FirstScan :: int
  sf_LastScan :: int
  sf_Intervals :: "SurfaceInterval list"

record SurfaceScope =
  so_Assets :: "SurfaceAsset list"
  so_Scans :: "SurfaceScan list"
  so_Findings :: "SurfaceFinding list"
  so_Provenance :: string

section \<open>Digests\<close>

definition canonicalJSON :: "(string \<Rightarrow> string option) \<Rightarrow> string \<Rightarrow> string" where
  "canonicalJSON remarshal raw =
     (if TrimSpace raw = [] then ''null''
      else case remarshal raw of None \<Rightarrow> raw | Some out \<Rightarrow> out)"

definition finding_input :: "(string \<Rightarrow> string option) \<Rightarrow> string \<Rightarrow> string \<Rightarrow> string option \<Rightarrow> string list \<Rightarrow> string" where
  "finding_input remarshal detail fix_text evidence controls =
     ''defendsec-surface-finding-v1'' @ [newline] @
     write_fields ([detail, fix_text, canonicalJSON remarshal (case evidence of None \<Rightarrow> ''{}'' | Some raw \<Rightarrow> raw),
       itoa_nat (length controls)] @ controls)"

definition FindingContentDigest :: "(string \<Rightarrow> string option) \<Rightarrow> string \<Rightarrow> string \<Rightarrow> string option \<Rightarrow> string list \<Rightarrow> string" where
  "FindingContentDigest remarshal detail fix_text evidence controls =
     EncodeToString (Sum256 (finding_input remarshal detail fix_text evidence controls))"

definition SeenFromFinding :: "(string \<Rightarrow> string option) \<Rightarrow> SurfaceFinding \<Rightarrow> SurfaceSeen" where
  "SeenFromFinding remarshal f =
     \<lparr>sn_FindingID = sf_FindingID f, sn_Subject = sf_Subject f, sn_Check = sf_Check f, sn_Severity = sf_Severity f,
      sn_Title = sf_Title f, sn_Content = FindingContentDigest remarshal (sf_Detail f) (sf_Fix f) (sf_Evidence f) (sf_Controls f)\<rparr>"

definition digestTime :: "time \<Rightarrow> string" where
  "digestTime t = FormatRFC3339Nano t"

definition scan_header :: "SurfaceScan \<Rightarrow> string list" where
  "scan_header s =
     [Itoa (sc_ScanID s), Itoa (sc_AssetID s), sc_AssetKind s, sc_AssetValue s, sc_TriggeredBy s,
      digestTime (sc_StartedAt s), digestTime (sc_FinishedAt s)]"

definition observation_fields :: "(string \<Rightarrow> string option) \<Rightarrow> SurfaceObservation \<Rightarrow> string list" where
  "observation_fields remarshal ob =
     [ob_Check ob, FormatBool (ob_Assessed ob), ob_Reason ob, canonicalJSON remarshal (ob_Observed ob), digestTime (ob_ObservedAt ob)]"

definition change_fields :: "SurfaceChange \<Rightarrow> string list" where
  "change_fields c = [ch_FindingID c, ch_Subject c, ch_Severity c, ch_Change c]"

definition seen_fields :: "SurfaceSeen \<Rightarrow> string list" where
  "seen_fields f = [sn_FindingID f, sn_Subject f, sn_Check f, sn_Severity f, sn_Title f, sn_Content f]"

definition change_less :: "SurfaceChange \<Rightarrow> SurfaceChange \<Rightarrow> bool" where
  "change_less a c =
     (if ch_FindingID a \<noteq> ch_FindingID c then ch_FindingID a < ch_FindingID c
      else if ch_Subject a \<noteq> ch_Subject c then ch_Subject a < ch_Subject c
      else ch_Change a < ch_Change c)"

definition seen_less :: "SurfaceSeen \<Rightarrow> SurfaceSeen \<Rightarrow> bool" where
  "seen_less a c =
     (if sn_FindingID a \<noteq> sn_FindingID c then sn_FindingID a < sn_FindingID c else sn_Subject a < sn_Subject c)"

text \<open>A counted group of rows: their number, then the fields of each.\<close>

definition counted :: "('a \<Rightarrow> string list) \<Rightarrow> 'a list \<Rightarrow> string list" where
  "counted g xs = itoa_nat (length xs) # concat (map g xs)"

definition scan_fields :: "(string \<Rightarrow> string option) \<Rightarrow> int \<Rightarrow> SurfaceScan \<Rightarrow> string list" where
  "scan_fields remarshal version s =
     scan_header s @
     counted (observation_fields remarshal) (go_sort (\<lambda>a b. ob_Check a < ob_Check b) (sc_Observations s)) @
     counted change_fields (go_sort change_less (sc_Changes s)) @
     (if version = DigestV2 then counted seen_fields (go_sort seen_less (sc_Seen s)) else [])"

definition scan_input :: "(string \<Rightarrow> string option) \<Rightarrow> int \<Rightarrow> SurfaceScan \<Rightarrow> string" where
  "scan_input remarshal version s =
     (if version = DigestV1 then surfaceDigestDomainV1 else surfaceDigestDomainV2) @ [newline] @
     write_fields (scan_fields remarshal version s)"

text \<open>An unknown version gives the empty string, which no digest is.\<close>

definition ScanDigestVersion :: "(string \<Rightarrow> string option) \<Rightarrow> int \<Rightarrow> SurfaceScan \<Rightarrow> string" where
  "ScanDigestVersion remarshal version s =
     (if version = DigestV1 \<or> version = DigestV2 then EncodeToString (Sum256 (scan_input remarshal version s)) else [])"

definition ScanDigest :: "(string \<Rightarrow> string option) \<Rightarrow> SurfaceScan \<Rightarrow> string" where
  "ScanDigest remarshal s = ScanDigestVersion remarshal DigestV2 s"

record SurfaceScanEntry =
  se_Version :: int
  se_ScanID :: int
  se_AssetID :: int
  se_Digest :: string
  se_FinishedAt :: string
  se_Opened :: int
  se_Resolved :: int

text \<open>\<open>seenInconsistency\<close>: a finding seen twice, opened without being seen or with another
  severity, or resolved while seen.\<close>

definition seen_keys :: "SurfaceScan \<Rightarrow> ((string \<times> string) \<times> string) list" where
  "seen_keys s = map (\<lambda>f. ((sn_FindingID f, sn_Subject f), sn_Severity f)) (sc_Seen s)"

definition seenInconsistency :: "SurfaceScan \<Rightarrow> int \<Rightarrow> bool" where
  "seenInconsistency s version \<longleftrightarrow>
     version = DigestV2 \<and>
     (\<not> distinct (map fst (seen_keys s)) \<or>
      list_ex (\<lambda>c. let sev = map_of (seen_keys s) (ch_FindingID c, ch_Subject c)
         in if ch_Change c = SurfaceOpened then sev \<noteq> Some (ch_Severity c)
            else if ch_Change c = SurfaceResolved then sev \<noteq> None
            else False) (sc_Changes s))"


section \<open>The check of the section\<close>

record SurfaceReport =
  sr_Scans :: nat
  sr_ScansAttested :: nat
  sr_ScansUnattested :: nat
  sr_ScansFailed :: nat
  sr_Findings :: nat
  sr_FindingsVerified :: nat
  sr_FindingsDatesOnly :: nat
  sr_FindingsUnattested :: nat
  sr_FindingsFailed :: nat

definition empty_report :: SurfaceReport where
  "empty_report = \<lparr>sr_Scans = 0, sr_ScansAttested = 0, sr_ScansUnattested = 0, sr_ScansFailed = 0, sr_Findings = 0,
     sr_FindingsVerified = 0, sr_FindingsDatesOnly = 0, sr_FindingsUnattested = 0, sr_FindingsFailed = 0\<rparr>"

type_synonym check = "string \<times> bool"

text \<open>The chain's side: the details of the scan entries, \<open>None\<close> where one cannot be read.\<close>

definition read_entry :: "(string \<Rightarrow> SurfaceScanEntry option) \<Rightarrow> Entry \<Rightarrow> SurfaceScanEntry option" where
  "read_entry parse_entry e =
     (case parse_entry (en_Detail e) of None \<Rightarrow> None | Some d \<Rightarrow> if se_ScanID d = 0 then None else Some d)"

definition chained_details :: "(string \<Rightarrow> SurfaceScanEntry option) \<Rightarrow> Entry list \<Rightarrow> SurfaceScanEntry option list" where
  "chained_details parse_entry audit =
     map (read_entry parse_entry) (filter (\<lambda>e. en_Action e = SurfaceScanAction) audit)"

definition chained_entries :: "(string \<Rightarrow> SurfaceScanEntry option) \<Rightarrow> Entry list \<Rightarrow> SurfaceScanEntry list" where
  "chained_entries parse_entry audit = List.map_filter (\<lambda>d. d) (chained_details parse_entry audit)"

definition unreadable :: "(string \<Rightarrow> SurfaceScanEntry option) \<Rightarrow> Entry list \<Rightarrow> nat" where
  "unreadable parse_entry audit = length (filter (\<lambda>d. d = None) (chained_details parse_entry audit))"

definition entries_of :: "SurfaceScanEntry list \<Rightarrow> int \<Rightarrow> SurfaceScanEntry list" where
  "entries_of entries i = filter (\<lambda>d. se_ScanID d = i) entries"

text \<open>What becomes of a scan of the bundle, with the digest version it is attested under.\<close>

datatype scan_verdict = ScanAttested int | ScanUnattested | ScanFailed

definition judge_scan :: "(string \<Rightarrow> string option) \<Rightarrow> SurfaceScanEntry list \<Rightarrow> int set \<Rightarrow> SurfaceScan \<Rightarrow> scan_verdict" where
  "judge_scan remarshal entries seen s =
     (if sc_ScanID s \<in> seen then ScanFailed
      else case entries_of entries (sc_ScanID s) of
        [] \<Rightarrow> ScanUnattested
      | [d] \<Rightarrow>
          (let v = (if se_Version d = 0 then DigestV1 else se_Version d);
               want = ScanDigestVersion remarshal v s
           in if want = [] then ScanFailed
              else if se_Digest d \<noteq> want \<or> se_AssetID d \<noteq> sc_AssetID s then ScanFailed
              else if seenInconsistency s v then ScanFailed
              else ScanAttested v)
      | _ \<Rightarrow> ScanFailed)"

record scan_tally =
  ty_attested :: "(int \<times> int) list"
  ty_unattestedAssets :: "int set"
  ty_byID :: "int set"
  ty_problems :: nat
  ty_report :: SurfaceReport

definition scan_step :: "(string \<Rightarrow> string option) \<Rightarrow> SurfaceScanEntry list \<Rightarrow> SurfaceScan \<Rightarrow> scan_tally \<Rightarrow> scan_tally" where
  "scan_step remarshal entries s t =
     (let r = ty_report t; t1 = t\<lparr>ty_byID := insert (sc_ScanID s) (ty_byID t)\<rparr>
      in case judge_scan remarshal entries (ty_byID t) s of
           ScanAttested v \<Rightarrow>
             t1\<lparr>ty_attested := (sc_ScanID s, v) # ty_attested t, ty_report := r\<lparr>sr_ScansAttested := sr_ScansAttested r + 1\<rparr>\<rparr>
         | ScanUnattested \<Rightarrow>
             t1\<lparr>ty_unattestedAssets := insert (sc_AssetID s) (ty_unattestedAssets t),
               ty_report := r\<lparr>sr_ScansUnattested := sr_ScansUnattested r + 1\<rparr>\<rparr>
         | ScanFailed \<Rightarrow>
             t1\<lparr>ty_unattestedAssets := insert (sc_AssetID s) (ty_unattestedAssets t), ty_problems := ty_problems t + 1,
               ty_report := r\<lparr>sr_ScansFailed := sr_ScansFailed r + 1\<rparr>\<rparr>)"

text \<open>A scan the chain records but the bundle does not hold; \<open>i\<close> runs over the keys of the map.\<close>

definition missing_step :: "SurfaceScanEntry list \<Rightarrow> int \<Rightarrow> scan_tally \<Rightarrow> scan_tally" where
  "missing_step entries i t =
     (if i \<in> ty_byID t then t
      else let r = ty_report t
        in t\<lparr>ty_unattestedAssets := insert (se_AssetID (hd (entries_of entries i))) (ty_unattestedAssets t),
             ty_problems := ty_problems t + 1, ty_report := r\<lparr>sr_ScansFailed := sr_ScansFailed r + 1\<rparr>\<rparr>)"

definition scan_keys :: "SurfaceScanEntry list \<Rightarrow> int list" where
  "scan_keys entries = remdups (map se_ScanID entries)"

definition tally_scans ::
  "(string \<Rightarrow> string option) \<Rightarrow> SurfaceScanEntry list \<Rightarrow> SurfaceScan list \<Rightarrow> SurfaceReport \<Rightarrow> scan_tally" where
  "tally_scans remarshal entries scans rep =
     fold (missing_step entries) (scan_keys entries)
       (fold (scan_step remarshal entries) scans
         \<lparr>ty_attested = [], ty_unattestedAssets = {}, ty_byID = {}, ty_problems = 0, ty_report = rep\<rparr>)"

text \<open>The attested scans, oldest first, and what they record of each finding.\<close>

definition scan_less :: "SurfaceScan \<Rightarrow> SurfaceScan \<Rightarrow> bool" where
  "scan_less a b =
     (if sc_FinishedAt a \<noteq> sc_FinishedAt b then sc_FinishedAt a < sc_FinishedAt b else sc_ScanID a < sc_ScanID b)"

definition ordered_scans :: "(int \<times> int) list \<Rightarrow> SurfaceScan list \<Rightarrow> SurfaceScan list" where
  "ordered_scans attested scans = go_sort scan_less (filter (\<lambda>s. map_of attested (sc_ScanID s) \<noteq> None) scans)"

record event =
  vt_at :: time
  vt_scan :: int
  vt_change :: string

record seen_at =
  sy_seen :: SurfaceSeen
  sy_idx :: nat
  sy_scan :: int

record find_state =
  fs_events :: "event list"
  fs_seen :: "seen_at option"

type_synonym findingKey = "int \<times> string \<times> string"

record replay =
  rp_states :: "(findingKey \<times> find_state) list"
  rp_lastV1 :: "(int \<times> nat) list"
  rp_assetOf :: "(int \<times> string \<times> string) list"

definition get_state :: "find_state option \<Rightarrow> find_state" where
  "get_state st = (case st of None \<Rightarrow> \<lparr>fs_events = [], fs_seen = None\<rparr> | Some x \<Rightarrow> x)"

definition add_event :: "SurfaceScan \<Rightarrow> SurfaceChange \<Rightarrow> (findingKey \<times> find_state) list \<Rightarrow> (findingKey \<times> find_state) list" where
  "add_event s c =
     upd_assoc (sc_AssetID s, ch_FindingID c, ch_Subject c)
       (\<lambda>st. (get_state st)\<lparr>fs_events := fs_events (get_state st) @
          [\<lparr>vt_at = sc_FinishedAt s, vt_scan = sc_ScanID s, vt_change = ch_Change c\<rparr>]\<rparr>)"

definition add_seen :: "SurfaceScan \<Rightarrow> nat \<Rightarrow> SurfaceSeen \<Rightarrow> (findingKey \<times> find_state) list \<Rightarrow> (findingKey \<times> find_state) list" where
  "add_seen s i f =
     upd_assoc (sc_AssetID s, sn_FindingID f, sn_Subject f)
       (\<lambda>st. (get_state st)\<lparr>fs_seen := Some \<lparr>sy_seen = f, sy_idx = i, sy_scan = sc_ScanID s\<rparr>\<rparr>)"

definition replay_step :: "(int \<times> int) list \<Rightarrow> nat \<times> SurfaceScan \<Rightarrow> replay \<Rightarrow> replay" where
  "replay_step attested = (\<lambda>(i, s) rp.
     (let v = map_of attested (sc_ScanID s);
          states1 = fold (add_event s) (sc_Changes s) (rp_states rp)
      in \<lparr>rp_states = (if v = Some DigestV2 then fold (add_seen s i) (sc_Seen s) states1 else states1),
          rp_lastV1 = (if v = Some DigestV1 then (sc_AssetID s, i) # rp_lastV1 rp else rp_lastV1 rp),
          rp_assetOf = (sc_AssetID s, sc_AssetKind s, sc_AssetValue s) # rp_assetOf rp\<rparr>))"

definition replay_scans :: "(int \<times> int) list \<Rightarrow> SurfaceScan list \<Rightarrow> replay" where
  "replay_scans attested ordered =
     fold (replay_step attested) (enumerate 0 ordered) \<lparr>rp_states = [], rp_lastV1 = [], rp_assetOf = []\<rparr>"

text \<open>The intervals the events give, with the scans that opened and closed the last one.\<close>

definition event_less :: "event \<Rightarrow> event \<Rightarrow> bool" where
  "event_less a b = (if vt_at a \<noteq> vt_at b then vt_at a < vt_at b else vt_scan a < vt_scan b)"

fun event_step :: "event \<Rightarrow> SurfaceInterval list \<times> int \<times> int \<Rightarrow> SurfaceInterval list \<times> int \<times> int" where
  "event_step e (got, openedScan, closedScan) =
     (if vt_change e = SurfaceOpened then
        (got @ [\<lparr>iv_OpenedAt = vt_at e, iv_ClosedAt = None\<rparr>], vt_scan e, 0)
      else if vt_change e = SurfaceResolved then
        (if got \<noteq> [] \<and> iv_ClosedAt (last got) = None then
           (butlast got @ [(last got)\<lparr>iv_ClosedAt := Some (vt_at e)\<rparr>], openedScan, vt_scan e)
         else (got, openedScan, closedScan))
      else (got, openedScan, closedScan))"

definition intervals_of :: "event list \<Rightarrow> SurfaceInterval list \<times> int \<times> int" where
  "intervals_of events = fold event_step (go_sort event_less events) ([], 0, 0)"

fun intervalsEqual :: "SurfaceInterval list \<Rightarrow> SurfaceInterval list \<Rightarrow> bool" where
  "intervalsEqual [] [] = True"
| "intervalsEqual (a # as) (b # bs) =
     (if iv_OpenedAt a \<noteq> iv_OpenedAt b then False
      else (case (iv_ClosedAt a, iv_ClosedAt b) of
              (None, None) \<Rightarrow> intervalsEqual as bs
            | (Some t, Some u) \<Rightarrow> t = u \<and> intervalsEqual as bs
            | _ \<Rightarrow> False))"
| "intervalsEqual _ _ = False"

datatype find_verdict = FindingFailed | FindingUnattested | FindingDatesOnly | FindingVerified

definition key_of :: "SurfaceFinding \<Rightarrow> findingKey" where
  "key_of f = (sf_AssetID f, sf_FindingID f, sf_Subject f)"

text \<open>The fields in which a finding differs from its latest sighting.\<close>

definition differs :: "(string \<Rightarrow> string option) \<Rightarrow> SurfaceFinding \<Rightarrow> seen_at \<Rightarrow> int \<Rightarrow> int \<Rightarrow> bool" where
  "differs remarshal f sy openedScan closedScan \<longleftrightarrow>
     sf_Check f \<noteq> sn_Check (sy_seen sy) \<or> sf_Severity f \<noteq> sn_Severity (sy_seen sy) \<or> sf_Title f \<noteq> sn_Title (sy_seen sy) \<or>
     FindingContentDigest remarshal (sf_Detail f) (sf_Fix f) (sf_Evidence f) (sf_Controls f) \<noteq> sn_Content (sy_seen sy) \<or>
     sf_FirstScan f \<noteq> openedScan \<or> sf_LastScan f \<noteq> (if closedScan \<noteq> 0 then closedScan else sy_scan sy)"

definition judge_finding ::
  "(string \<Rightarrow> string option) \<Rightarrow> int set \<Rightarrow> replay \<Rightarrow> findingKey set \<Rightarrow> SurfaceFinding \<Rightarrow> find_verdict" where
  "judge_finding remarshal unattestedAssets rp listed f =
     (if key_of f \<in> listed then FindingFailed
      else if sf_AssetID f \<in> unattestedAssets then FindingUnattested
      else
        let st = get_state (map_of (rp_states rp) (key_of f))
        in if fs_events st = [] then FindingFailed
           else case intervals_of (fs_events st) of (got, openedScan, closedScan) \<Rightarrow>
             if \<not> intervalsEqual got (go_sort (\<lambda>a b. iv_OpenedAt a < iv_OpenedAt b) (sf_Intervals f)) then FindingFailed
             else if (case map_of (rp_assetOf rp) (sf_AssetID f) of None \<Rightarrow> ([], []) | Some a \<Rightarrow> a) \<noteq> (sf_AssetKind f, sf_AssetValue f) then FindingFailed
             else case fs_seen st of
                 None \<Rightarrow> FindingDatesOnly
               | Some sy \<Rightarrow>
                   if (case map_of (rp_lastV1 rp) (sf_AssetID f) of None \<Rightarrow> False | Some n \<Rightarrow> sy_idx sy \<le> n) then FindingDatesOnly
                   else if differs remarshal f sy openedScan closedScan then FindingFailed
                   else FindingVerified)"

definition find_step ::
  "(string \<Rightarrow> string option) \<Rightarrow> int set \<Rightarrow> replay \<Rightarrow> SurfaceFinding \<Rightarrow> findingKey set \<times> SurfaceReport \<Rightarrow> findingKey set \<times> SurfaceReport" where
  "find_step remarshal unattestedAssets rp f = (\<lambda>(listed, r).
     (insert (key_of f) listed,
      (case judge_finding remarshal unattestedAssets rp listed f of
         FindingFailed \<Rightarrow> r\<lparr>sr_FindingsFailed := sr_FindingsFailed r + 1\<rparr>
       | FindingUnattested \<Rightarrow> r\<lparr>sr_FindingsUnattested := sr_FindingsUnattested r + 1\<rparr>
       | FindingDatesOnly \<Rightarrow> r\<lparr>sr_FindingsDatesOnly := sr_FindingsDatesOnly r + 1\<rparr>
       | FindingVerified \<Rightarrow> r\<lparr>sr_FindingsVerified := sr_FindingsVerified r + 1\<rparr>)))"

text \<open>The findings the attested scans opened or closed and the bundle does not list.\<close>

definition withheld :: "replay \<Rightarrow> findingKey set \<Rightarrow> findingKey list" where
  "withheld rp listed = map fst (filter (\<lambda>(k, st). fs_events st \<noteq> [] \<and> k \<notin> listed) (rp_states rp))"

text \<open>Each failed finding is one problem, so the check fails if one was counted.\<close>

definition check_findings ::
  "(string \<Rightarrow> string option) \<Rightarrow> int set \<Rightarrow> replay \<Rightarrow> SurfaceFinding list \<Rightarrow> SurfaceReport \<Rightarrow> bool \<times> SurfaceReport" where
  "check_findings remarshal unattestedAssets rp findings r0 =
     (case fold (find_step remarshal unattestedAssets rp) findings ({}, r0) of (listed, r) \<Rightarrow>
        let r1 = r\<lparr>sr_FindingsFailed := sr_FindingsFailed r + length (withheld rp listed)\<rparr>
        in (sr_FindingsFailed r1 = sr_FindingsFailed r0, r1))"

definition verifySurface ::
  "(string \<Rightarrow> string option) \<Rightarrow> (string \<Rightarrow> SurfaceScanEntry option) \<Rightarrow> Entry list \<Rightarrow> SurfaceScope option \<Rightarrow> check list \<times> SurfaceReport" where
  "verifySurface remarshal parse_entry audit surface =
     (case surface of
        None \<Rightarrow>
          (if chained_details parse_entry audit \<noteq> [] then [(''surface evidence'', False)] else [], empty_report)
      | Some sc \<Rightarrow>
          let bad = unreadable parse_entry audit;
              checks0 = replicate bad (''surface scans'', False);
              rep0 = empty_report\<lparr>sr_ScansFailed := bad, sr_Scans := length (so_Scans sc), sr_Findings := length (so_Findings sc)\<rparr>
          in if so_Provenance sc \<noteq> SurfaceProvenance \<and> so_Provenance sc \<noteq> surfaceProvenanceV1 then
               (checks0 @ [(''surface evidence'', False)], rep0)
             else
               let t = tally_scans remarshal (chained_entries parse_entry audit) (so_Scans sc) rep0;
                   rp = replay_scans (ty_attested t) (ordered_scans (ty_attested t) (so_Scans sc));
                   (ok, r) = check_findings remarshal (ty_unattestedAssets t) rp (so_Findings sc) (ty_report t)
               in (checks0 @ [(''surface scans'', ty_problems t = 0), (''surface findings'', ok)], r))"

section \<open>What the digest pins down\<close>

lemma counted_inject:
  assumes rows: "\<And>x. length (g x) = n"
  shows "counted g xs @ r = counted g ys @ r' \<longleftrightarrow> map g xs = map g ys \<and> r = r'"
proof
  assume *: "counted g xs @ r = counted g ys @ r'"
  then have "length xs = length ys" "concat (map g xs) @ r = concat (map g ys) @ r'"
    by (simp_all add: counted_def)
  then show "map g xs = map g ys \<and> r = r'"
    by (induction xs ys rule: list_induct2) (use rows in auto)
next
  assume *: "map g xs = map g ys \<and> r = r'"
  then have "length xs = length ys"
    by (metis length_map)
  with * show "counted g xs @ r = counted g ys @ r'"
    by (simp add: counted_def)
qed

lemma scan_field_lengths:
  "length (observation_fields remarshal ob) = 5" "length (change_fields c) = 4" "length (seen_fields f) = 6"
  "length (scan_header s) = 7"
  by (simp_all add: observation_fields_def change_fields_def seen_fields_def scan_header_def)

lemmas counted_rows =
  counted_inject [where g = "observation_fields remarshal" for remarshal, OF scan_field_lengths(1)]
  counted_inject [where g = change_fields, OF scan_field_lengths(2)]
  counted_inject [where g = seen_fields, OF scan_field_lengths(3)]

text \<open>The parts of a scan its digest covers, each list without its order.\<close>

definition same_record :: "(string \<Rightarrow> string option) \<Rightarrow> int \<Rightarrow> SurfaceScan \<Rightarrow> SurfaceScan \<Rightarrow> bool" where
  "same_record remarshal version s s' \<longleftrightarrow>
     scan_header s = scan_header s' \<and>
     mset (map (observation_fields remarshal) (sc_Observations s)) = mset (map (observation_fields remarshal) (sc_Observations s')) \<and>
     mset (sc_Changes s) = mset (sc_Changes s') \<and>
     (version = DigestV2 \<longrightarrow> mset (sc_Seen s) = mset (sc_Seen s'))"

lemma row_injects: "inj change_fields" "inj seen_fields"
  by (auto simp: inj_def change_fields_def seen_fields_def)

lemma counted_tail_inject:
  "length xs = length ys \<Longrightarrow> xs @ us = ys @ vs \<longleftrightarrow> xs = ys \<and> us = vs"
  by simp

lemma scan_fields_record:
  assumes "scan_fields remarshal v s = scan_fields remarshal v s'"
  shows "same_record remarshal v s s'"
proof -
  let ?obs = "\<lambda>s. go_sort (\<lambda>a b. ob_Check a < ob_Check b) (sc_Observations s)"
  note eq = assms [unfolded scan_fields_def]
  have head: "scan_header s = scan_header s'"
    using eq by (simp add: scan_field_lengths)
  have "map (observation_fields remarshal) (?obs s) = map (observation_fields remarshal) (?obs s')"
    and rest: "counted change_fields (go_sort change_less (sc_Changes s)) @
        (if v = DigestV2 then counted seen_fields (go_sort seen_less (sc_Seen s)) else []) =
      counted change_fields (go_sort change_less (sc_Changes s')) @
        (if v = DigestV2 then counted seen_fields (go_sort seen_less (sc_Seen s')) else [])"
    using eq head by (simp_all only: append_assoc same_append_eq counted_rows(1))
  then have obs: "image_mset (observation_fields remarshal) (mset (sc_Observations s)) =
      image_mset (observation_fields remarshal) (mset (sc_Observations s'))"
    by (metis mset_go_sort mset_map)
  have chs: "map change_fields (go_sort change_less (sc_Changes s)) = map change_fields (go_sort change_less (sc_Changes s'))"
    and seen: "v = DigestV2 \<Longrightarrow> counted seen_fields (go_sort seen_less (sc_Seen s)) @ [] = counted seen_fields (go_sort seen_less (sc_Seen s')) @ []"
    using rest by (simp_all add: counted_rows(2))
  from chs have "go_sort change_less (sc_Changes s) = go_sort change_less (sc_Changes s')"
    by (simp add: inj_map_eq_map row_injects)
  then have ch: "mset (sc_Changes s) = mset (sc_Changes s')"
    by (metis mset_go_sort)
  have "mset (sc_Seen s) = mset (sc_Seen s')" if "v = DigestV2"
  proof -
    have "go_sort seen_less (sc_Seen s) = go_sort seen_less (sc_Seen s')"
      using seen [OF that, unfolded counted_rows(3)] by (simp add: inj_map_eq_map row_injects)
    then show ?thesis
      by (metis mset_go_sort)
  qed
  with head obs ch show ?thesis
    by (simp add: same_record_def)
qed

lemma ScanDigestVersion_record:
  assumes "ScanDigestVersion remarshal v s = ScanDigestVersion remarshal v s'" "ScanDigestVersion remarshal v s \<noteq> []"
  shows "same_record remarshal v s s' \<or>
    scan_input remarshal v s \<noteq> scan_input remarshal v s' \<and> Sum256 (scan_input remarshal v s) = Sum256 (scan_input remarshal v s')"
proof -
  have "Sum256 (scan_input remarshal v s) = Sum256 (scan_input remarshal v s')"
    using assms by (auto simp: ScanDigestVersion_def split: if_splits)
  moreover have "same_record remarshal v s s'" if "scan_input remarshal v s = scan_input remarshal v s'"
    using that by (intro scan_fields_record) (simp add: scan_input_def)
  ultimately show ?thesis
    by blast
qed

section \<open>What a section that passes shows\<close>

lemma fold_invariant_step: "(\<And>x a. P a \<Longrightarrow> P (f x a)) \<Longrightarrow> P a \<Longrightarrow> P (fold f xs a)"
  by (induction xs arbitrary: a) auto

lemma fold_establishes:
  assumes "x \<in> set xs" "\<And>a. P (f x a)" "\<And>y a. P a \<Longrightarrow> P (f y a)"
  shows "P (fold f xs a)"
  using assms(1)
proof (induction xs arbitrary: a)
  case (Cons y ys)
  show ?case
  proof (cases "x = y")
    case True
    then show ?thesis
      using fold_invariant_step [of P f "f x a" ys] assms(2,3) by simp
  qed (use Cons in simp)
qed simp

text \<open>The one chained entry of a scan, and that it attests the scan.\<close>

definition version_of :: "SurfaceScanEntry \<Rightarrow> int" where
  "version_of d = (if se_Version d = 0 then DigestV1 else se_Version d)"

definition attested_by :: "(string \<Rightarrow> string option) \<Rightarrow> SurfaceScanEntry \<Rightarrow> SurfaceScan \<Rightarrow> bool" where
  "attested_by remarshal d s \<longleftrightarrow>
     se_ScanID d = sc_ScanID s \<and> se_AssetID d = sc_AssetID s \<and> se_Digest d = ScanDigestVersion remarshal (version_of d) s \<and>
     se_Digest d \<noteq> [] \<and> \<not> seenInconsistency s (version_of d)"

lemma judge_scan_one:
  assumes "sc_ScanID s \<notin> seen" "entries_of entries (sc_ScanID s) = [d]"
  shows "judge_scan remarshal entries seen s = (if attested_by remarshal d s then ScanAttested (version_of d) else ScanFailed)"
proof -
  have "d \<in> set (entries_of entries (sc_ScanID s))"
    using assms(2) by simp
  then have "se_ScanID d = sc_ScanID s"
    by (simp add: entries_of_def)
  then show ?thesis
    using assms by (simp add: judge_scan_def Let_def attested_by_def version_of_def [symmetric])
qed

lemma judge_scan_cases:
  assumes "judge_scan remarshal entries seen s \<noteq> ScanFailed"
  shows "sc_ScanID s \<notin> seen"
    and "entries_of entries (sc_ScanID s) = [] \<or>
      (\<exists>d. entries_of entries (sc_ScanID s) = [d] \<and> attested_by remarshal d s \<and>
         judge_scan remarshal entries seen s = ScanAttested (version_of d))"
proof -
  show new: "sc_ScanID s \<notin> seen"
    using assms by (auto simp: judge_scan_def)
  consider "entries_of entries (sc_ScanID s) = []" | d where "entries_of entries (sc_ScanID s) = [d]"
    | d d' ds where "entries_of entries (sc_ScanID s) = d # d' # ds"
    by (metis list.exhaust)
  then show "entries_of entries (sc_ScanID s) = [] \<or>
      (\<exists>d. entries_of entries (sc_ScanID s) = [d] \<and> attested_by remarshal d s \<and>
         judge_scan remarshal entries seen s = ScanAttested (version_of d))"
  proof cases
    case (2 d)
    then show ?thesis
      using assms judge_scan_one [OF new 2] by (simp split: if_splits)
  next
    case (3 d d' ds)
    then show ?thesis
      using assms new by (simp add: judge_scan_def)
  qed simp
qed

definition good_scan :: "(string \<Rightarrow> string option) \<Rightarrow> SurfaceScanEntry list \<Rightarrow> (int \<times> int) list \<Rightarrow> SurfaceScan \<Rightarrow> bool" where
  "good_scan remarshal entries attested s \<longleftrightarrow>
     entries_of entries (sc_ScanID s) = [] \<or>
     (\<exists>d. entries_of entries (sc_ScanID s) = [d] \<and> attested_by remarshal d s \<and> sc_ScanID s \<in> fst ` set attested)"

lemma judged_good:
  assumes "judge_scan remarshal entries (ty_byID t) s \<noteq> ScanFailed"
  shows "good_scan remarshal entries (ty_attested (scan_step remarshal entries s t)) s" "sc_ScanID s \<notin> ty_byID t"
  using judge_scan_cases [OF assms] by (auto simp: good_scan_def scan_step_def Let_def)

lemma scan_step_mono:
  "set (ty_attested t) \<subseteq> set (ty_attested (scan_step remarshal entries s t))"
  "ty_problems t \<le> ty_problems (scan_step remarshal entries s t)"
  "ty_byID (scan_step remarshal entries s t) = insert (sc_ScanID s) (ty_byID t)"
  by (auto simp: scan_step_def Let_def split: scan_verdict.split)

lemma scan_fold_mono:
  "set (ty_attested t) \<subseteq> set (ty_attested (fold (scan_step remarshal entries) scans t))"
  "ty_problems t \<le> ty_problems (fold (scan_step remarshal entries) scans t)"
  using scan_step_mono by (induction scans arbitrary: t) (simp_all, blast, meson order_trans)

lemma scan_fold_ok:
  assumes "ty_problems (fold (scan_step remarshal entries) scans t) = 0"
  shows "distinct (map sc_ScanID scans) \<and> sc_ScanID ` set scans \<inter> ty_byID t = {} \<and>
    ty_byID (fold (scan_step remarshal entries) scans t) = ty_byID t \<union> sc_ScanID ` set scans \<and>
    (\<forall>s \<in> set scans. good_scan remarshal entries (ty_attested (fold (scan_step remarshal entries) scans t)) s)"
  using assms
proof (induction scans arbitrary: t)
  case (Cons s0 scans)
  let ?t = "scan_step remarshal entries s0 t" and ?u = "fold (scan_step remarshal entries) scans (scan_step remarshal entries s0 t)"
  have u: "ty_problems ?u = 0" and "ty_problems ?t = 0"
    using Cons.prems scan_fold_mono(2) [of ?t remarshal entries scans] by simp_all
  then have "judge_scan remarshal entries (ty_byID t) s0 \<noteq> ScanFailed"
    by (auto simp: scan_step_def Let_def)
  from judged_good [OF this]
  have "good_scan remarshal entries (ty_attested ?u) s0" "sc_ScanID s0 \<notin> ty_byID t"
    using scan_fold_mono(1) [of ?t remarshal entries scans] by (auto simp: good_scan_def)
  moreover have "sc_ScanID s0 \<notin> sc_ScanID ` set scans"
    using Cons.IH [OF u] by (simp add: scan_step_mono(3))
  ultimately show ?case
    using Cons.IH [OF u] by (simp add: scan_step_mono(3))
qed simp

lemma missing_fold_ok:
  "ty_problems (fold (missing_step entries) ids t) = 0 \<Longrightarrow>
     fold (missing_step entries) ids t = t \<and> set ids \<subseteq> ty_byID t"
proof (induction ids arbitrary: t)
  case (Cons i ids)
  have "ty_problems t \<le> ty_problems (missing_step entries i t)" for i t
    by (simp add: missing_step_def Let_def)
  then have "ty_problems t \<le> ty_problems (fold (missing_step entries) ids t)" for t
    by (induction ids arbitrary: t) (simp_all, meson order_trans)
  from this [of "missing_step entries i t"] have "ty_problems (missing_step entries i t) = 0"
    using Cons.prems by simp
  then have "i \<in> ty_byID t" "missing_step entries i t = t"
    by (auto simp: missing_step_def Let_def split: if_splits)
  then show ?case
    using Cons by simp
qed simp

lemma filter_unique_key: "distinct (map g xs) \<Longrightarrow> x \<in> set xs \<Longrightarrow> g x = k \<Longrightarrow> filter (\<lambda>y. g y = k) xs = [x]"
proof (induction xs)
  case (Cons y xs)
  show ?case
  proof (cases "x = y")
    case True
    have "filter (\<lambda>z. g z = k) xs = []"
      using Cons.prems True by (simp add: filter_empty_conv) (metis rev_image_eqI)
    then show ?thesis
      using Cons.prems True by simp
  next
    case False
    then have "g y \<noteq> k" "x \<in> set xs"
      using Cons.prems by (auto simp: image_iff)
    then show ?thesis
      using Cons by simp
  qed
qed simp

lemma tally_scans_ok:
  assumes "ty_problems (tally_scans remarshal entries scans rep) = 0"
  shows "distinct (map sc_ScanID scans) \<and> set (map se_ScanID entries) \<subseteq> sc_ScanID ` set scans \<and>
    (\<forall>s \<in> set scans. good_scan remarshal entries (ty_attested (tally_scans remarshal entries scans rep)) s)"
proof -
  let ?t = "fold (scan_step remarshal entries) scans
    \<lparr>ty_attested = [], ty_unattestedAssets = {}, ty_byID = {}, ty_problems = 0, ty_report = rep\<rparr>"
  have *: "tally_scans remarshal entries scans rep = ?t" "set (scan_keys entries) \<subseteq> ty_byID ?t"
    using missing_fold_ok [OF assms [unfolded tally_scans_def]] by (simp_all add: tally_scans_def)
  with assms have "ty_problems ?t = 0"
    by simp
  from scan_fold_ok [OF this] show ?thesis
    using *(2) by (simp add: *(1) scan_keys_def)
qed

text \<open>The findings an attested scan changed are in the replayed states.\<close>

definition recorded :: "findingKey \<Rightarrow> (findingKey \<times> find_state) list \<Rightarrow> bool" where
  "recorded k m \<longleftrightarrow> (\<exists>st. map_of m k = Some st \<and> fs_events st \<noteq> [])"

lemma recorded_step:
  "recorded (sc_AssetID s, ch_FindingID c, ch_Subject c) (add_event s c m)"
  "recorded k m \<Longrightarrow> recorded k (add_event s c m)"
  "recorded k m \<Longrightarrow> recorded k (add_seen s i f m)"
  by (auto simp: recorded_def add_event_def add_seen_def map_of_upd_assoc get_state_def)

lemma recorded_replay_step:
  assumes "recorded k (rp_states rp) \<or> (\<exists>c \<in> set (sc_Changes s). k = (sc_AssetID s, ch_FindingID c, ch_Subject c))"
  shows "recorded k (rp_states (replay_step attested (i, s) rp))"
proof -
  have "recorded k (fold (add_event s) (sc_Changes s) (rp_states rp))"
    using assms
  proof
    assume "recorded k (rp_states rp)"
    then show ?thesis
      using fold_invariant_step [of "recorded k" "add_event s"] recorded_step(2) by blast
  next
    assume "\<exists>c \<in> set (sc_Changes s). k = (sc_AssetID s, ch_FindingID c, ch_Subject c)"
    then show ?thesis
      using fold_establishes [of _ _ "recorded k" "add_event s"] recorded_step(1,2) by blast
  qed
  then show ?thesis
    using fold_invariant_step [of "recorded k" "add_seen s i" _ "sc_Seen s"] recorded_step(3)
    by (simp add: replay_step_def Let_def)
qed

lemma replay_scans_recorded:
  assumes "s \<in> set ordered" "c \<in> set (sc_Changes s)"
  shows "recorded (sc_AssetID s, ch_FindingID c, ch_Subject c) (rp_states (replay_scans attested ordered))"
proof -
  have "s \<in> snd ` set (enumerate 0 ordered)"
    using assms(1) by (metis list.set_map map_snd_enumerate)
  then obtain i where i: "(i, s) \<in> set (enumerate 0 ordered)"
    by force
  have "recorded (sc_AssetID s, ch_FindingID c, ch_Subject c) (rp_states (replay_step attested p rp))"
    if "recorded (sc_AssetID s, ch_FindingID c, ch_Subject c) (rp_states rp)" for p rp
    using recorded_replay_step that by (cases p) blast
  moreover have "recorded (sc_AssetID s, ch_FindingID c, ch_Subject c) (rp_states (replay_step attested (i, s) rp))" for rp
    using recorded_replay_step assms(2) by blast
  ultimately show ?thesis
    unfolding replay_scans_def
    using fold_establishes [where P = "\<lambda>rp. recorded (sc_AssetID s, ch_FindingID c, ch_Subject c) (rp_states rp)", OF i]
    by blast
qed

lemma find_fold:
  "fst (fold (find_step remarshal un rp) fs (listed, r)) = listed \<union> key_of ` set fs \<and>
   sr_FindingsFailed r \<le> sr_FindingsFailed (snd (fold (find_step remarshal un rp) fs (listed, r)))"
proof (induction fs arbitrary: listed r)
  case (Cons f fs)
  obtain r' where r': "find_step remarshal un rp f (listed, r) = (insert (key_of f) listed, r')"
      "sr_FindingsFailed r \<le> sr_FindingsFailed r'"
    by (auto simp: find_step_def split: find_verdict.split)
  then show ?case
    using Cons [of "insert (key_of f) listed" r'] by auto
qed simp

lemma check_findings_ok:
  assumes "check_findings remarshal un rp fs r0 = (True, r)" "recorded k (rp_states rp)"
  shows "k \<in> key_of ` set fs"
proof -
  obtain listed r1 where fold: "fold (find_step remarshal un rp) fs ({}, r0) = (listed, r1)"
    by fastforce
  then have "listed = key_of ` set fs" "sr_FindingsFailed r0 \<le> sr_FindingsFailed r1"
    using find_fold [of remarshal un rp fs "{}" r0] by simp_all
  moreover have "withheld rp listed = []"
    using assms(1) calculation(2) by (simp add: check_findings_def fold Let_def flip: length_0_conv)
  ultimately show ?thesis
    using assms(2) by (force simp: withheld_def recorded_def filter_empty_conv dest: map_of_SomeD)
qed


lemma map_filter_id: "List.map_filter (\<lambda>d. d) xs = map the (filter (\<lambda>d. d \<noteq> None) xs)"
  by (induction xs) (auto simp: List.map_filter_simps split: option.split)

lemma chained_readable:
  assumes "unreadable parse_entry audit = 0" "e \<in> set audit" "en_Action e = SurfaceScanAction"
  shows "\<exists>d \<in> set (chained_entries parse_entry audit). read_entry parse_entry e = Some d"
proof -
  have "read_entry parse_entry e \<in> set (chained_details parse_entry audit)"
    using assms(2,3) by (simp add: chained_details_def)
  moreover from this obtain d where "read_entry parse_entry e = Some d"
    using assms(1) by (auto simp: unreadable_def filter_empty_conv)
  ultimately show ?thesis
    by (auto simp: chained_entries_def set_map_filter)
qed

lemma list_all_replicate_False: "list_all snd (replicate n (x, False)) \<longleftrightarrow> n = 0"
  by (induction n) simp_all

lemma verifySurface_passes:
  assumes "verifySurface remarshal parse_entry audit (Some sc) = (checks, r)" "list_all snd checks"
  obtains t rep0 where
    "unreadable parse_entry audit = 0"
    "t = tally_scans remarshal (chained_entries parse_entry audit) (so_Scans sc) rep0" "ty_problems t = 0"
    "fst (check_findings remarshal (ty_unattestedAssets t)
       (replay_scans (ty_attested t) (ordered_scans (ty_attested t) (so_Scans sc))) (so_Findings sc) (ty_report t))"
proof -
  let ?rep0 = "empty_report\<lparr>sr_ScansFailed := unreadable parse_entry audit, sr_Scans := length (so_Scans sc),
    sr_Findings := length (so_Findings sc)\<rparr>"
  let ?t = "tally_scans remarshal (chained_entries parse_entry audit) (so_Scans sc) ?rep0"
  obtain ok r' where c: "check_findings remarshal (ty_unattestedAssets ?t)
       (replay_scans (ty_attested ?t) (ordered_scans (ty_attested ?t) (so_Scans sc))) (so_Findings sc) (ty_report ?t) = (ok, r')"
    by fastforce
  have *: "unreadable parse_entry audit = 0 \<and> ty_problems ?t = 0 \<and> ok"
    using assms by (auto simp: verifySurface_def Let_def c list_all_replicate_False split: if_splits)
  show ?thesis
  proof (rule that [of ?t ?rep0])
    show "unreadable parse_entry audit = 0" and "ty_problems ?t = 0"
      using * by blast+
    show "fst (check_findings remarshal (ty_unattestedAssets ?t)
       (replay_scans (ty_attested ?t) (ordered_scans (ty_attested ?t) (so_Scans sc))) (so_Findings sc) (ty_report ?t))"
      unfolding c using * by simp
  qed (rule refl)
qed

section \<open>Properties\<close>

text \<open>C25: A bundle whose surface section passes withholds nothing the chain attests: each chained
  scan entry is readable and is the entry of exactly one scan of the bundle, of the same asset
  and with the digest the entry holds, and every finding such a scan opened or closed is listed.\<close>

theorem surface_nothing_withheld:
  assumes "verifySurface remarshal parse_entry audit (Some sc) = (checks, r)" "list_all snd checks"
    and "e \<in> set audit" "en_Action e = SurfaceScanAction"
  shows "\<exists>d s. read_entry parse_entry e = Some d \<and> filter (\<lambda>s. sc_ScanID s = se_ScanID d) (so_Scans sc) = [s] \<and>
    attested_by remarshal d s \<and>
    (\<forall>c \<in> set (sc_Changes s). \<exists>f \<in> set (so_Findings sc). key_of f = (sc_AssetID s, ch_FindingID c, ch_Subject c))"
proof -
  obtain t rep0 where t: "unreadable parse_entry audit = 0"
    "t = tally_scans remarshal (chained_entries parse_entry audit) (so_Scans sc) rep0" "ty_problems t = 0"
    "fst (check_findings remarshal (ty_unattestedAssets t)
       (replay_scans (ty_attested t) (ordered_scans (ty_attested t) (so_Scans sc))) (so_Findings sc) (ty_report t))"
    using verifySurface_passes [OF assms(1,2)] .
  obtain d where d: "d \<in> set (chained_entries parse_entry audit)" "read_entry parse_entry e = Some d"
    using chained_readable [OF t(1) assms(3,4)] by blast
  have ok: "distinct (map sc_ScanID (so_Scans sc))"
      "set (map se_ScanID (chained_entries parse_entry audit)) \<subseteq> sc_ScanID ` set (so_Scans sc)"
      "\<forall>s \<in> set (so_Scans sc). good_scan remarshal (chained_entries parse_entry audit) (ty_attested t) s"
    using tally_scans_ok t(2,3) by blast+
  have "se_ScanID d \<in> set (map se_ScanID (chained_entries parse_entry audit))"
    using d(1) by simp
  then obtain s where s: "s \<in> set (so_Scans sc)" "sc_ScanID s = se_ScanID d"
    using ok(2) by force
  have "d \<in> set (entries_of (chained_entries parse_entry audit) (sc_ScanID s))"
    using d(1) s(2) by (simp add: entries_of_def)
  then have good: "attested_by remarshal d s" "sc_ScanID s \<in> fst ` set (ty_attested t)"
    using bspec [OF ok(3) s(1)] by (auto simp: good_scan_def)
  have "s \<in> set (ordered_scans (ty_attested t) (so_Scans sc))"
    using s(1) good(2) by (auto simp: ordered_scans_def map_of_eq_None_iff)
  note recorded = replay_scans_recorded [OF this]
  obtain r' where "check_findings remarshal (ty_unattestedAssets t)
       (replay_scans (ty_attested t) (ordered_scans (ty_attested t) (so_Scans sc))) (so_Findings sc) (ty_report t) = (True, r')"
    using t(4) by (metis (full_types) prod.collapse)
  note check_findings_ok [OF this recorded]
  then have "\<forall>c \<in> set (sc_Changes s). \<exists>f \<in> set (so_Findings sc). key_of f = (sc_AssetID s, ch_FindingID c, ch_Subject c)"
    by (simp add: image_iff) metis
  moreover have "filter (\<lambda>x. sc_ScanID x = se_ScanID d) (so_Scans sc) = [s]"
    using ok(1) s by (intro filter_unique_key) auto
  ultimately show ?thesis
    using d(2) good(1) by blast
qed

text \<open>An attested scan is the scan that was recorded: if the chained digest is the one of a
  scan \<open>s0\<close>, the bundle's copy has the same identity, times, observations, changes and (under
  the second version) sightings, unless two different strings with one SHA-256 are exhibited.\<close>

theorem attested_scan_is_recorded:
  assumes "attested_by remarshal d s" "se_Digest d = ScanDigestVersion remarshal (version_of d) s0"
  shows "same_record remarshal (version_of d) s s0 \<or>
    (let i = scan_input remarshal (version_of d) s; i0 = scan_input remarshal (version_of d) s0
     in i \<noteq> i0 \<and> Sum256 i = Sum256 i0)"
  using ScanDigestVersion_record [of remarshal "version_of d" s s0] assms by (auto simp: attested_by_def Let_def)

text \<open>The witness: one scan that opened one finding.\<close>

definition ex_finding :: SurfaceFinding where
  "ex_finding = \<lparr>sf_AssetID = 3, sf_AssetKind = ''domain'', sf_AssetValue = ''example.org'', sf_Check = ''email'',
     sf_FindingID = ''no-dmarc'', sf_Subject = ''example.org'', sf_Severity = ''high'', sf_Title = ''No DMARC'', sf_Detail = [],
     sf_Fix = [], sf_Evidence = None, sf_Controls = [], sf_FirstScan = 7, sf_LastScan = 7,
     sf_Intervals = [\<lparr>iv_OpenedAt = Second, iv_ClosedAt = None\<rparr>]\<rparr>"

definition ex_scan :: SurfaceScan where
  "ex_scan = \<lparr>sc_ScanID = 7, sc_AssetID = 3, sc_AssetKind = ''domain'', sc_AssetValue = ''example.org'',
     sc_TriggeredBy = ''admin'', sc_StartedAt = 0, sc_FinishedAt = Second, sc_Observations = [],
     sc_Changes = [\<lparr>ch_FindingID = ''no-dmarc'', ch_Subject = ''example.org'', ch_Severity = ''high'', ch_Change = SurfaceOpened\<rparr>],
     sc_Seen = [SeenFromFinding Some ex_finding]\<rparr>"

definition ex_scan_entry :: SurfaceScanEntry where
  "ex_scan_entry = \<lparr>se_Version = 2, se_ScanID = 7, se_AssetID = 3, se_Digest = ScanDigest Some ex_scan, se_FinishedAt = [],
     se_Opened = 1, se_Resolved = 0\<rparr>"

definition ex_scope :: SurfaceScope where
  "ex_scope = \<lparr>so_Assets = [], so_Scans = [ex_scan], so_Findings = [ex_finding], so_Provenance = SurfaceProvenance\<rparr>"

definition ex_audit :: "Entry list" where
  "ex_audit = [(ex_entry 1)\<lparr>en_Action := SurfaceScanAction\<rparr>]"

lemma ScanDigest_not_Nil: "v = DigestV1 \<or> v = DigestV2 \<Longrightarrow> ScanDigestVersion remarshal v s \<noteq> []"
proof -
  assume "v = DigestV1 \<or> v = DigestV2"
  then have "length (ScanDigestVersion remarshal v s) = 64"
    by (auto simp: ScanDigestVersion_def)
  then show ?thesis
    by auto
qed

lemma ex_attested: "attested_by Some ex_scan_entry ex_scan"
  using ScanDigest_not_Nil [of DigestV2 Some ex_scan]
  by (simp add: attested_by_def ex_scan_entry_def version_of_def ScanDigest_def DigestV2_def seenInconsistency_def)
    (simp add: ex_scan_def seen_keys_def SeenFromFinding_def ex_finding_def Let_def)

lemma ex_scan_fields: "sc_ScanID ex_scan = 7" "sc_AssetID ex_scan = 3" "se_ScanID ex_scan_entry = 7" "version_of ex_scan_entry = DigestV2"
  by (simp_all add: ex_scan_def ex_scan_entry_def version_of_def DigestV2_def)

lemma ex_tally: "tally_scans Some [ex_scan_entry] [ex_scan] r =
   \<lparr>ty_attested = [(7, DigestV2)], ty_unattestedAssets = {}, ty_byID = {7}, ty_problems = 0,
    ty_report = r\<lparr>sr_ScansAttested := sr_ScansAttested r + 1\<rparr>\<rparr>"
proof -
  have "judge_scan Some [ex_scan_entry] {} ex_scan = ScanAttested DigestV2"
    using judge_scan_one [of ex_scan "{}" "[ex_scan_entry]" ex_scan_entry] ex_attested
    by (simp add: entries_of_def ex_scan_fields)
  then show ?thesis
    by (simp add: tally_scans_def scan_step_def Let_def ex_scan_fields scan_keys_def missing_step_def)
qed

lemma ex_scope_passes: "list_all snd (fst (verifySurface Some (\<lambda>_. Some ex_scan_entry) ex_audit (Some ex_scope)))"
proof -
  have "chained_entries (\<lambda>_. Some ex_scan_entry) ex_audit = [ex_scan_entry]" "unreadable (\<lambda>_. Some ex_scan_entry) ex_audit = 0"
    by (simp_all add: chained_entries_def unreadable_def chained_details_def ex_audit_def read_entry_def ex_scan_fields
        List.map_filter_simps)
  then show ?thesis
    by (simp add: verifySurface_def ex_scope_def Let_def ex_tally ordered_scans_def ex_scan_fields go_sort_Cons
        replay_scans_def replay_step_def ex_scan_fields)
      (simp add: check_findings_def find_step_def judge_finding_def ex_scan_def ex_finding_def key_of_def add_event_def
        add_seen_def SeenFromFinding_def get_state_def intervals_of_def go_sort_Cons DigestV1_def DigestV2_def differs_def
        withheld_def empty_report_def SurfaceOpened_def)
qed

theorem surface_nothing_withheld_witness:
  "\<exists>f \<in> set (so_Findings ex_scope). key_of f = (3, ''no-dmarc'', ''example.org'')"
proof -
  obtain checks r where v: "verifySurface Some (\<lambda>_. Some ex_scan_entry) ex_audit (Some ex_scope) = (checks, r)"
    by fastforce
  have "list_all snd checks" "hd ex_audit \<in> set ex_audit" "en_Action (hd ex_audit) = SurfaceScanAction"
    using ex_scope_passes v by (simp_all add: ex_audit_def)
  from surface_nothing_withheld [OF v this] show ?thesis
    by (auto simp: read_entry_def ex_scan_fields ex_scope_def) (simp add: ex_scan_def)
qed

theorem attested_scan_is_recorded_witness: "same_record Some DigestV2 ex_scan ex_scan"
  using attested_scan_is_recorded [OF ex_attested, of ex_scan]
  by (simp add: ex_scan_fields Let_def) (simp add: ex_scan_entry_def ScanDigest_def version_of_def DigestV2_def)

end
