(* ===== verification/Sign_Commands.thy ===== *)
theory Sign_Commands
  imports Audit_Chain
begin

text \<open>
  internal/sign: the command envelopes the control server signs, the acknowledgements the
  agents sign, and signatures over arbitrary blobs. Ed25519, ECDSA and the X.509 encodings of
  their keys are arguments. A Go \<open>error\<close> is \<open>None\<close> for nil or its text (the offset in the
  text of a base64 error left out). Reading and creating the key file is not modelled.
\<close>

section \<open>Commands (sign.go)\<close>

definition cmd_domain :: string where "cmd_domain = ''defendsec-cmd-v1''"

record Envelope =
  ev_DeviceID :: string
  ev_CommandID :: string
  ev_Type :: string
  ev_IssuedUnix :: int
  ev_ExpiresUnix :: int
  ev_Payload :: string

definition CanonicalCommand :: "Envelope \<Rightarrow> string" where
  "CanonicalCommand e =
     cmd_domain @ [newline] @ ev_DeviceID e @ [newline] @ ev_CommandID e @ [newline] @ ev_Type e @ [newline] @
     Itoa (ev_IssuedUnix e) @ [newline] @ Itoa (ev_ExpiresUnix e) @ [newline] @ ev_Payload e"

definition SignCommand :: "('priv \<Rightarrow> string \<Rightarrow> string) \<Rightarrow> 'priv \<Rightarrow> Envelope \<Rightarrow> string" where
  "SignCommand ed_sign priv e = ed_sign priv (CanonicalCommand e)"

definition Unix :: "time \<Rightarrow> int" where
  "Unix t = t div Second"

definition VerifyCommand ::
  "('pub \<Rightarrow> string \<Rightarrow> string \<Rightarrow> bool) \<Rightarrow> 'pub \<Rightarrow> Envelope \<Rightarrow> string \<Rightarrow> time \<Rightarrow> string option" where
  "VerifyCommand ed_verify pub e sig now =
     (if sig = [] then Some ''unsigned command''
      else if \<not> ed_verify pub (CanonicalCommand e) sig then Some ''invalid signature''
      else if 0 < ev_ExpiresUnix e \<and> ev_ExpiresUnix e < Unix now then Some ''command expired''
      else if 0 < ev_IssuedUnix e \<and> Unix now + 60 < ev_IssuedUnix e then Some ''command issued in the future''
      else if 0 < ev_IssuedUnix e \<and> 5 * 60 < Unix now - ev_IssuedUnix e then Some ''command too old''
      else None)"

text \<open>\<open>pkix\<close> is \<open>x509.MarshalPKIXPublicKey\<close>.\<close>

definition PublicKeyID :: "('pub \<Rightarrow> string option) \<Rightarrow> 'pub \<Rightarrow> string" where
  "PublicKeyID pkix pub =
     (case pkix pub of None \<Rightarrow> [] | Some der \<Rightarrow> take 16 (EncodeToString (Sum256 der)))"

definition VerifyStored ::
  "('pub \<Rightarrow> string \<Rightarrow> string \<Rightarrow> bool) \<Rightarrow> 'pub \<Rightarrow> string \<Rightarrow> string \<Rightarrow> string \<Rightarrow> int \<Rightarrow> int \<Rightarrow> string \<Rightarrow> string \<Rightarrow> string option" where
  "VerifyStored ed_verify pub deviceID commandID cmdType issuedUnix expiresUnix payload signatureB64 =
     (case DecodeString signatureB64 of
        None \<Rightarrow> Some (''command '' @ commandID @ '': signature is not valid base64'')
      | Some raw \<Rightarrow>
          let env = \<lparr>ev_DeviceID = deviceID, ev_CommandID = commandID, ev_Type = cmdType,
                ev_IssuedUnix = issuedUnix, ev_ExpiresUnix = expiresUnix, ev_Payload = payload\<rparr>
          in if \<not> ed_verify pub (CanonicalCommand env) raw then
               Some (''command '' @ commandID @ '': signature does not match the stored envelope'')
             else None)"

definition blobMessage :: "string \<Rightarrow> string \<Rightarrow> string" where
  "blobMessage domain msg = domain @ [newline] @ itoa_nat (length domain) @ [newline] @ msg"

definition SignBlob :: "('priv \<Rightarrow> string \<Rightarrow> string) \<Rightarrow> 'priv \<Rightarrow> string \<Rightarrow> string \<Rightarrow> string" where
  "SignBlob ed_sign priv domain msg = ed_sign priv (blobMessage domain msg)"

definition SignatureSize :: nat where "SignatureSize = 64"

definition VerifyBlob ::
  "('pub \<Rightarrow> string \<Rightarrow> string \<Rightarrow> bool) \<Rightarrow> 'pub \<Rightarrow> string \<Rightarrow> string \<Rightarrow> string \<Rightarrow> string option" where
  "VerifyBlob ed_verify pub domain msg sig =
     (if length sig \<noteq> SignatureSize then
        Some (''signature has '' @ itoa_nat (length sig) @ '' bytes, want '' @ itoa_nat SignatureSize)
      else if \<not> ed_verify pub (blobMessage domain msg) sig then Some ''invalid signature''
      else None)"

section \<open>Acknowledgements (ack.go)\<close>

definition ackDomain :: string where "ackDomain = ''defendsec-ack-v1''"

record AckEnvelope =
  ak_CommandID :: string
  ak_DeviceID :: string
  ak_Accepted :: bool
  ak_ResultHash :: string
  ak_ExecutedUnix :: int

definition HashResult :: "string \<Rightarrow> string" where
  "HashResult message = EncodeToString (Sum256 message)"

definition ack_fields :: "AckEnvelope \<Rightarrow> string list" where
  "ack_fields e = [ak_CommandID e, ak_DeviceID e, FormatBool (ak_Accepted e), ak_ResultHash e, Itoa (ak_ExecutedUnix e)]"

definition CanonicalAck :: "AckEnvelope \<Rightarrow> string" where
  "CanonicalAck e = ackDomain @ [newline] @ write_fields (ack_fields e)"

text \<open>\<open>ecdsa_sign\<close> gets the digest; the randomness it draws is part of the argument.\<close>

definition SignAck :: "('priv \<Rightarrow> string \<Rightarrow> string) \<Rightarrow> 'priv \<Rightarrow> AckEnvelope \<Rightarrow> string" where
  "SignAck ecdsa_sign priv e = ecdsa_sign priv (Sum256 (CanonicalAck e))"

definition VerifyAck :: "('pub \<Rightarrow> string \<Rightarrow> string \<Rightarrow> bool) \<Rightarrow> 'pub \<Rightarrow> AckEnvelope \<Rightarrow> string \<Rightarrow> string option" where
  "VerifyAck ecdsa_verify pub e signature =
     (if signature = [] then Some (''acknowledgement for '' @ ak_CommandID e @ '' is unsigned'')
      else if \<not> ecdsa_verify pub (Sum256 (CanonicalAck e)) signature then
        Some (''acknowledgement for '' @ ak_CommandID e @ '' does not verify against the enrolled agent key'')
      else None)"

text \<open>\<open>parse_ecdsa\<close> is \<open>ParseECDSAPublicPEM\<close>, PEM and X.509 of the standard library.\<close>

definition VerifyAckStored ::
  "(string \<Rightarrow> string + 'pub) \<Rightarrow> ('pub \<Rightarrow> string \<Rightarrow> string \<Rightarrow> bool) \<Rightarrow> string \<Rightarrow> string \<Rightarrow> string \<Rightarrow> bool \<Rightarrow> string \<Rightarrow> int \<Rightarrow> string \<Rightarrow> string option" where
  "VerifyAckStored parse_ecdsa ecdsa_verify agentPubPEM commandID deviceID accepted resultHash executedUnix signatureB64 =
     (case parse_ecdsa agentPubPEM of
        Inl e \<Rightarrow> Some e
      | Inr pub \<Rightarrow>
          (case DecodeString signatureB64 of
             None \<Rightarrow> Some (''acknowledgement for '' @ commandID @ '': signature is not valid base64'')
           | Some raw \<Rightarrow>
               VerifyAck ecdsa_verify pub
                 \<lparr>ak_CommandID = commandID, ak_DeviceID = deviceID, ak_Accepted = accepted,
                  ak_ResultHash = resultHash, ak_ExecutedUnix = executedUnix\<rparr> raw))"

section \<open>The signed bytes\<close>

lemma CanonicalAck_inject: "CanonicalAck e = CanonicalAck e' \<longleftrightarrow> e = e'"
proof -
  have "CanonicalAck e = CanonicalAck e' \<longleftrightarrow> ack_fields e = ack_fields e'"
    by (simp add: CanonicalAck_def)
  then show ?thesis
    by (cases e; cases e') (auto simp: ack_fields_def)
qed

text \<open>A string up to its first newline.\<close>

definition first_line :: "string \<Rightarrow> string" where
  "first_line s = takeWhile (\<lambda>c. c \<noteq> newline) s"

lemma first_line_append: "newline \<notin> set xs \<Longrightarrow> first_line (xs @ newline # ys) = xs"
  unfolding first_line_def by (subst takeWhile_append2) auto

lemma first_lines:
  "first_line (CanonicalCommand e) = cmd_domain" "first_line (CanonicalAck a) = ackDomain"
  "first_line (CanonicalEntry n) = AuditDomain" "first_line (CanonicalCheckpoint c) = checkpointDomain"
  "newline \<notin> set d \<Longrightarrow> first_line (blobMessage d m) = d"
proof -
  have "newline \<notin> set cmd_domain" "newline \<notin> set ackDomain" "newline \<notin> set AuditDomain" "newline \<notin> set checkpointDomain"
    by (simp_all add: cmd_domain_def ackDomain_def AuditDomain_def checkpointDomain_def newline_def)
  then show "first_line (CanonicalCommand e) = cmd_domain" "first_line (CanonicalAck a) = ackDomain"
    "first_line (CanonicalEntry n) = AuditDomain" "first_line (CanonicalCheckpoint c) = checkpointDomain"
    "newline \<notin> set d \<Longrightarrow> first_line (blobMessage d m) = d"
    by (simp_all add: CanonicalCommand_def CanonicalAck_def CanonicalEntry_def CanonicalCheckpoint_def
        blobMessage_def first_line_append)
qed

definition plain_ids :: "Envelope \<Rightarrow> bool" where
  "plain_ids e \<longleftrightarrow> newline \<notin> set (ev_DeviceID e) \<and> newline \<notin> set (ev_CommandID e) \<and> newline \<notin> set (ev_Type e)"

lemma CanonicalCommand_inject:
  assumes "plain_ids e" "plain_ids e'"
  shows "CanonicalCommand e = CanonicalCommand e' \<longleftrightarrow> e = e'"
proof
  have peel: "xs = ys \<and> us = vs" if "xs @ newline # us = ys @ newline # vs" "newline \<notin> set xs" "newline \<notin> set ys" for xs ys us vs
    using append_separator [OF that(2,3,1)] .
  assume "CanonicalCommand e = CanonicalCommand e'"
  then have 1: "ev_DeviceID e @ newline # (ev_CommandID e @ newline # (ev_Type e @ newline #
      (Itoa (ev_IssuedUnix e) @ newline # (Itoa (ev_ExpiresUnix e) @ newline # ev_Payload e)))) =
    ev_DeviceID e' @ newline # (ev_CommandID e' @ newline # (ev_Type e' @ newline #
      (Itoa (ev_IssuedUnix e') @ newline # (Itoa (ev_ExpiresUnix e') @ newline # ev_Payload e'))))"
    by (simp add: CanonicalCommand_def)
  note ids = assms [unfolded plain_ids_def]
  from peel [OF 1] ids have d: "ev_DeviceID e = ev_DeviceID e'" and 2: "ev_CommandID e @ newline # (ev_Type e @ newline #
      (Itoa (ev_IssuedUnix e) @ newline # (Itoa (ev_ExpiresUnix e) @ newline # ev_Payload e))) =
    ev_CommandID e' @ newline # (ev_Type e' @ newline #
      (Itoa (ev_IssuedUnix e') @ newline # (Itoa (ev_ExpiresUnix e') @ newline # ev_Payload e')))"
    by simp_all
  from peel [OF 2] ids have c: "ev_CommandID e = ev_CommandID e'" and 3: "ev_Type e @ newline #
      (Itoa (ev_IssuedUnix e) @ newline # (Itoa (ev_ExpiresUnix e) @ newline # ev_Payload e)) =
    ev_Type e' @ newline # (Itoa (ev_IssuedUnix e') @ newline # (Itoa (ev_ExpiresUnix e') @ newline # ev_Payload e'))"
    by simp_all
  from peel [OF 3] ids have t: "ev_Type e = ev_Type e'" and 4: "Itoa (ev_IssuedUnix e) @ newline #
      (Itoa (ev_ExpiresUnix e) @ newline # ev_Payload e) =
    Itoa (ev_IssuedUnix e') @ newline # (Itoa (ev_ExpiresUnix e') @ newline # ev_Payload e')"
    by simp_all
  from peel [OF 4 newline_Itoa newline_Itoa] have i: "ev_IssuedUnix e = ev_IssuedUnix e'" and
    5: "Itoa (ev_ExpiresUnix e) @ newline # ev_Payload e = Itoa (ev_ExpiresUnix e') @ newline # ev_Payload e'"
    by simp_all
  from peel [OF 5 newline_Itoa newline_Itoa] d c t i show "e = e'"
    by (cases e; cases e') simp
qed simp

section \<open>Properties\<close>


text \<open>C19: One key, separate purposes. The bytes signed for a command, a checkpoint, an
  acknowledgement and an audit entry are never the same, and neither is a blob of any other
  single-line domain; so no signature is valid for another purpose than its own.\<close>

theorem signing_domains_disjoint:
  assumes "newline \<notin> set d" "d \<notin> {cmd_domain, checkpointDomain, ackDomain, AuditDomain}"
  shows "distinct [CanonicalCommand e, CanonicalCheckpoint c, CanonicalAck a, CanonicalEntry n, blobMessage d m]"
proof -
  have "distinct (map first_line [CanonicalCommand e, CanonicalCheckpoint c, CanonicalAck a, CanonicalEntry n, blobMessage d m])"
    using assms by (auto simp: first_lines cmd_domain_def checkpointDomain_def ackDomain_def AuditDomain_def)
  then show ?thesis
    by (simp only: distinct_map)
qed

text \<open>A signature covers one command. Envelopes whose identifiers and type contain no
  newline have different signed bytes unless they are equal, and acknowledgements without any
  condition.\<close>

theorem signed_bytes_unambiguous:
  "(plain_ids e \<and> plain_ids e' \<and> CanonicalCommand e = CanonicalCommand e' \<longrightarrow> e = e') \<and>
   (CanonicalAck a = CanonicalAck a' \<longrightarrow> a = a')"
  using CanonicalCommand_inject [of e e'] CanonicalAck_inject [of a a'] by blast

definition ex_envelope :: "string \<Rightarrow> Envelope" where
  "ex_envelope payload = \<lparr>ev_DeviceID = ''dev-1'', ev_CommandID = ''cmd-1'', ev_Type = ''isolate'',
     ev_IssuedUnix = 1000, ev_ExpiresUnix = 2000, ev_Payload = payload\<rparr>"

definition ex_ack :: AckEnvelope where
  "ex_ack = \<lparr>ak_CommandID = ''cmd-1'', ak_DeviceID = ''dev-1'', ak_Accepted = True, ak_ResultHash = HashResult ''ok'',
     ak_ExecutedUnix = 1030\<rparr>"

theorem signed_bytes_unambiguous_witness:
  "CanonicalCommand (ex_envelope ''a'') \<noteq> CanonicalCommand (ex_envelope ''b'')"
  using signed_bytes_unambiguous [of "ex_envelope ''a''" "ex_envelope ''b''"]
  by (simp add: ex_envelope_def plain_ids_def newline_def)

theorem signing_domains_disjoint_witness:
  "CanonicalCommand (ex_envelope []) \<noteq> blobMessage ''defendsec-feeds-v1'' (CanonicalCommand (ex_envelope []))"
  using signing_domains_disjoint [of "''defendsec-feeds-v1''" "ex_envelope []" "ex_checkpoint (ex_entry 1)" ex_ack "ex_entry 1"
      "CanonicalCommand (ex_envelope [])"]
  by (simp add: newline_def cmd_domain_def checkpointDomain_def ackDomain_def AuditDomain_def)

end
