(* ===== verification/Controls.thy ===== *)
theory Controls
  imports Go_Regex
begin

text \<open>
  internal/controls: the identifiers of framework controls, the signals records are tagged
  with, the catalog of controls with its crosswalks, and the tagging of records. The tables are
  the sources', entry by entry; a non-ASCII dash in a title is its UTF-8 bytes. What panics at
  start-up in Go is \<open>None\<close>. The text of an error is left out: an error is what its message
  names.
\<close>

section \<open>Frameworks and identifiers (controls.go)\<close>

definition NIST80053 :: string where "NIST80053 = ''nist-800-53''"
definition NIST800171 :: string where "NIST800171 = ''nist-800-171''"
definition CISv8 :: string where "CISv8 = ''cis-v8''"
definition CJISv6 :: string where "CJISv6 = ''cjis-v6''"
definition CMMCL2 :: string where "CMMCL2 = ''cmmc-l2''"

definition Frameworks :: "string list" where
  "Frameworks = [CISv8, NIST800171, CMMCL2, NIST80053, CJISv6]"

definition FrameworkTitle :: "string \<Rightarrow> string" where
  "FrameworkTitle f =
     (if f = NIST80053 then ''NIST SP 800-53 Rev 5''
      else if f = NIST800171 then ''NIST SP 800-171 Rev 2''
      else if f = CISv8 then ''CIS Controls v8''
      else if f = CJISv6 then ''CJIS Security Policy v6.0''
      else if f = CMMCL2 then ''CMMC 2.0 Level 2''
      else f)"

definition KnownFramework :: "string \<Rightarrow> bool" where
  "KnownFramework f \<longleftrightarrow> f \<in> set Frameworks"

definition is_control_char :: "char \<Rightarrow> bool" where
  "is_control_char c \<longleftrightarrow> isASCIIDigit c \<or> isASCIILetter c \<or> c \<in> set ''.()-_''"

definition controlPattern :: rx where
  "controlPattern = rseq [RBegin, RSet (\<lambda>c. isASCIIDigit c \<or> isASCIILetter c), RStar (RSet is_control_char), RFinish]"

datatype id_error =
    MissingPrefix string
  | EmptyPart string
  | UnknownFramework string string
  | BadControl string string

definition ParseID :: "string \<Rightarrow> id_error + string" where
  "ParseID raw =
     (case CutByte (TrimSpace raw) CHR '':'' of (framework, control, ok) \<Rightarrow>
        if \<not> ok then Inl (MissingPrefix raw)
        else
          let framework = ToLower (TrimSpace framework); control = TrimSpace control
          in if framework = [] \<or> control = [] then Inl (EmptyPart raw)
             else if \<not> KnownFramework framework then Inl (UnknownFramework raw framework)
             else if \<not> MatchString controlPattern control then Inl (BadControl raw control)
             else Inr (framework @ '':'' @ control))"

definition MustParseID :: "string \<Rightarrow> string option" where
  "MustParseID raw = (case ParseID raw of Inl _ \<Rightarrow> None | Inr i \<Rightarrow> Some i)"

definition ID_Framework :: "string \<Rightarrow> string" where
  "ID_Framework i = fst (CutByte i CHR '':'')"

definition ID_Control :: "string \<Rightarrow> string" where
  "ID_Control i = fst (snd (CutByte i CHR '':''))"

text \<open>The loop of \<open>ParseIDs\<close>: the errors so far and the identifiers so far.\<close>

definition parse_step :: "id_error list \<times> string list \<Rightarrow> string \<Rightarrow> id_error list \<times> string list" where
  "parse_step s r =
     (case s of (bad, out) \<Rightarrow>
        if TrimSpace r = [] then s
        else case ParseID r of
               Inl e \<Rightarrow> (bad @ [e], out)
             | Inr i \<Rightarrow> if i \<in> set out then s else (bad, out @ [i]))"

definition ParseIDs :: "string list \<Rightarrow> id_error list + string list" where
  "ParseIDs raw =
     (case foldl parse_step ([], []) raw of (bad, out) \<Rightarrow> if bad \<noteq> [] then Inl bad else Inr out)"

definition SortIDs :: "string list \<Rightarrow> string list" where
  "SortIDs ids = sort_strings ids"

section \<open>Signals (signals.go)\<close>

definition SignalAuditChain :: string where "SignalAuditChain = ''audit.chain''"
definition SignalAuditCheckpoint :: string where "SignalAuditCheckpoint = ''audit.checkpoint''"
definition SignalAuditAnchor :: string where "SignalAuditAnchor = ''audit.anchor''"
definition SignalAuditRetention :: string where "SignalAuditRetention = ''audit.retention''"
definition SignalAuditReview :: string where "SignalAuditReview = ''audit.review''"
definition SignalCommandSigned :: string where "SignalCommandSigned = ''command.signed''"
definition SignalCommandAck :: string where "SignalCommandAck = ''command.ack''"
definition SignalCommandAttributed :: string where "SignalCommandAttributed = ''command.attributed''"
definition SignalIdentityAccounts :: string where "SignalIdentityAccounts = ''identity.accounts''"
definition SignalIdentityMFA :: string where "SignalIdentityMFA = ''identity.mfa''"
definition SignalIdentityLockout :: string where "SignalIdentityLockout = ''identity.lockout''"
definition SignalIdentityRoles :: string where "SignalIdentityRoles = ''identity.roles''"
definition SignalIdentitySession :: string where "SignalIdentitySession = ''identity.session''"
definition SignalInventoryHardware :: string where "SignalInventoryHardware = ''inventory.hardware''"
definition SignalInventorySoftware :: string where "SignalInventorySoftware = ''inventory.software''"
definition SignalVulnAssessment :: string where "SignalVulnAssessment = ''vuln.assessment''"
definition SignalSoftwareSupported :: string where "SignalSoftwareSupported = ''software.supported''"
definition SignalRepoHealth :: string where "SignalRepoHealth = ''repo.health''"
definition SignalFIM :: string where "SignalFIM = ''fim.integrity''"
definition SignalSCA :: string where "SignalSCA = ''sca.baseline''"
definition SignalTransportMTLS :: string where "SignalTransportMTLS = ''transport.mtls''"
definition SignalCertRevocation :: string where "SignalCertRevocation = ''transport.revocation''"
definition SignalAlertLifecycle :: string where "SignalAlertLifecycle = ''alert.lifecycle''"
definition SignalFIPSCrypto :: string where "SignalFIPSCrypto = ''crypto.fips''"
definition SignalEvidenceExport :: string where "SignalEvidenceExport = ''evidence.export''"
definition SignalBackup :: string where "SignalBackup = ''backup''"
definition SignalManagedUpdate :: string where "SignalManagedUpdate = ''update.managed''"
definition SignalSurfaceEmail :: string where "SignalSurfaceEmail = ''surface.email''"
definition SignalSurfaceDNS :: string where "SignalSurfaceDNS = ''surface.dns''"
definition SignalSurfaceTLS :: string where "SignalSurfaceTLS = ''surface.tls''"
definition SignalSurfacePorts :: string where "SignalSurfacePorts = ''surface.ports''"
definition SignalM365MFA :: string where "SignalM365MFA = ''m365.mfa''"
definition SignalM365Roles :: string where "SignalM365Roles = ''m365.roles''"
definition SignalM365LegacyAuth :: string where "SignalM365LegacyAuth = ''m365.legacyauth''"
definition SignalM365MailRules :: string where "SignalM365MailRules = ''m365.mailrules''"
definition SignalGWS2SV :: string where "SignalGWS2SV = ''gws.2sv''"
definition SignalGWSAdmins :: string where "SignalGWSAdmins = ''gws.admins''"
definition SignalGWSMailFilters :: string where "SignalGWSMailFilters = ''gws.mailfilters''"

definition signalTitles :: "(string \<times> string) list" where
  "signalTitles =
    [(SignalAuditChain, ''Hash-chained audit log''),
     (SignalAuditCheckpoint, ''Signed audit checkpoints''),
     (SignalAuditAnchor, ''Externally anchored checkpoints''),
     (SignalAuditRetention, ''Audit retention policy''),
     (SignalAuditReview, ''Audit log review''),
     (SignalCommandSigned, ''Cryptographically signed host actions''),
     (SignalCommandAck, ''Signed agent acknowledgements''),
     (SignalCommandAttributed, ''Per-account action attribution''),
     (SignalIdentityAccounts, ''Named operator accounts''),
     (SignalIdentityMFA, ''Multi-factor authentication''),
     (SignalIdentityLockout, ''Account lockout on repeated failure''),
     (SignalIdentityRoles, ''Separated admin and read-only roles''),
     (SignalIdentitySession, ''Session expiry and revocation''),
     (SignalInventoryHardware, ''Hardware and host inventory''),
     (SignalInventorySoftware, ''Installed software inventory''),
     (SignalVulnAssessment, ''Vulnerability assessment''),
     (SignalSoftwareSupported, ''Software support lifecycle''),
     (SignalRepoHealth, ''Package repository health''),
     (SignalFIM, ''File integrity monitoring''),
     (SignalSCA, ''Configuration baseline checks''),
     (SignalTransportMTLS, ''Mutually authenticated agent transport''),
     (SignalCertRevocation, ''Host certificate revocation''),
     (SignalAlertLifecycle, ''Finding triage and resolution''),
     (SignalFIPSCrypto, ''Approved cryptographic algorithms''),
     (SignalEvidenceExport, ''Signed evidence export''),
     (SignalBackup, ''Evidence store backup''),
     (SignalManagedUpdate, ''Verified, operator-approved updates''),
     (SignalSurfaceEmail, ''External email authentication check''),
     (SignalSurfaceDNS, ''External DNS hygiene check''),
     (SignalSurfaceTLS, ''External TLS check''),
     (SignalSurfacePorts, ''External exposed-port check''),
     (SignalM365MFA, ''Microsoft 365 MFA registration check''),
     (SignalM365Roles, ''Microsoft 365 administrator role check''),
     (SignalM365LegacyAuth, ''Microsoft 365 legacy authentication check''),
     (SignalM365MailRules, ''Microsoft 365 inbox rule check''),
     (SignalGWS2SV, ''Google Workspace 2-Step Verification check''),
     (SignalGWSAdmins, ''Google Workspace super administrator check''),
     (SignalGWSMailFilters, ''Google Workspace Gmail forwarding and filter check'')]"

definition SignalTitle :: "string \<Rightarrow> string" where
  "SignalTitle s = (case map_of signalTitles s of Some t \<Rightarrow> t | None \<Rightarrow> s)"

definition KnownSignal :: "string \<Rightarrow> bool" where
  "KnownSignal s \<longleftrightarrow> map_of signalTitles s \<noteq> None"

definition Signals :: "string list" where
  "Signals = sort_strings (map fst signalTitles)"

section \<open>The hand-written half of the catalog (catalog.go)\<close>

datatype EvidenceCoverage = CoverageEvidenced | CoveragePartial | CoverageNone

fun Rank :: "EvidenceCoverage \<Rightarrow> nat" where
  "Rank CoverageEvidenced = 2"
| "Rank CoveragePartial = 1"
| "Rank CoverageNone = 0"

record Control =
  cn_ID :: string
  cn_Title :: string
  cn_Family :: string
  cn_Coverage :: EvidenceCoverage
  cn_Signals :: "string list"
  cn_Note :: string
  cn_DerivedFrom :: "string list"

definition emdash :: string where "emdash = [CHR 0xE2, CHR 0x80, CHR 0x94]"
definition apos :: string where "apos = [CHR 0x27]"

text \<open>One entry of the table \<open>native\<close>; \<open>MustParseID\<close> of its identifier runs in \<open>native_ids\<close>.\<close>

definition entry :: "string \<Rightarrow> string \<Rightarrow> EvidenceCoverage \<Rightarrow> string list \<Rightarrow> string \<Rightarrow> string \<Rightarrow> Control" where
  "entry rawID family coverage signals title note =
     \<lparr>cn_ID = rawID, cn_Title = title, cn_Family = family, cn_Coverage = coverage, cn_Signals = signals,
      cn_Note = note, cn_DerivedFrom = []\<rparr>"

text \<open>Audit and Accountability (AU).\<close>

definition native_1 :: "Control list" where
  "native_1 =
    [entry ''nist-800-53:AU-2'' ''AU'' CoveragePartial [SignalAuditChain, SignalCommandSigned, SignalAlertLifecycle]
       (''Event logging '' @ emdash @ '' determine which events the system logs'')
       (''DefendSec logs its own administrative actions, agent actions and findings. The organisation still has to '' @
        ''decide and document which host-level events are in scope; DefendSec does not enumerate that for you.''),
     entry ''nist-800-53:AU-3'' ''AU'' CoveragePartial [SignalAuditChain, SignalCommandAttributed, SignalCommandAck]
       (''Content of audit records '' @ emdash @ '' what, when, where, source, outcome, who'')
       (''Every ledger entry carries the event, the time, the host, the acting account and the outcome. Actions '' @
        ''taken through a shared bootstrap token are recorded as unattributed rather than as a person, which is '' @
        ''honest but is not the '' @ apos @ ''who'' @ apos @ '' the control wants '' @ emdash @
        '' create named accounts.''),
     entry ''nist-800-53:AU-6'' ''AU'' CoveragePartial [SignalAuditReview, SignalAlertLifecycle]
       (''Audit record review, analysis and reporting'')
       (''The console presents the ledger and the findings for review. Evidence that a human actually reviewed them '' @
        ''on a defined frequency is a process record DefendSec does not hold.''),
     entry ''nist-800-53:AU-8'' ''AU'' CoveragePartial [SignalAuditChain, SignalAuditAnchor]
       (''Time stamps from an authoritative source'')
       (''Ledger times come from the control plane'' @ apos @ ''s clock. An RFC 3161 anchor gives a third party'' @
        apos @ ''s time for a checkpoint; host clock synchronisation itself is the operating system'' @ apos @
        ''s job and is not evidenced here.''),
     entry ''nist-800-53:AU-9'' ''AU'' CoverageEvidenced [SignalAuditChain, SignalAuditCheckpoint]
       (''Protection of audit information from unauthorised modification'')
       (''Each entry carries the hash of the one before it, so an edit, deletion or reordering breaks the chain at '' @
        ''that point and every point after it.''),
     entry ''nist-800-53:AU-9(3)'' ''AU'' CoverageEvidenced [SignalAuditChain, SignalAuditCheckpoint, SignalFIPSCrypto]
       (''Cryptographic protection of audit information'')
       (''SHA-256 hash chain with checkpoints signed by the control key, verifiable offline with the server '' @
        ''stopped.''),
     entry ''nist-800-53:AU-10'' ''AU'' CoverageEvidenced [SignalCommandSigned, SignalCommandAck, SignalCommandAttributed, SignalIdentityAccounts]
       (''Non-repudiation of actions'')
       (''Host mutations are Ed25519-signed by the control plane and acknowledged with an ECDSA signature that '' @
        ''binds the result text, each attributed to a named account.''),
     entry ''nist-800-53:AU-11'' ''AU'' CoveragePartial [SignalAuditRetention, SignalBackup]
       (''Audit record retention'')
       (''The audit ledger is never pruned, and command history defaults to one year '' @ emdash @
        '' the CJIS Policy Area 4 minimum. GET /v1/retention reports the windows actually in force and how much '' @
        ''history is really held, because a one-year policy on a system installed last month evidences one month.'')]"

text \<open>Access Control (AC).\<close>

definition native_2 :: "Control list" where
  "native_2 =
    [entry ''nist-800-53:AC-2'' ''AC'' CoveragePartial [SignalIdentityAccounts, SignalIdentitySession, SignalIdentityRoles]
       (''Account management'')
       (''Covers accounts for DefendSec itself: creation, role, disablement and session revocation, all recorded. '' @
        ''Accounts on the managed hosts are inventoried but not governed.''),
     entry ''nist-800-53:AC-3'' ''AC'' CoveragePartial [SignalIdentityRoles, SignalTransportMTLS]
       (''Access enforcement'')
       (''Admin and viewer are separated, and agents are admitted only with a valid client certificate. Enforcement '' @
        ''on the hosts themselves is out of scope.''),
     entry ''nist-800-53:AC-6(9)'' ''AC'' CoverageEvidenced [SignalCommandSigned, SignalCommandAttributed, SignalAuditChain]
       (''Logging use of privileged functions'')
       (''Every privileged host command (live query and agent update, which are off until the operator enables '' @
        ''them) is signed, attributed and chained. DefendSec has no isolate, kill, quarantine or script command.''),
     entry ''nist-800-53:AC-7'' ''AC'' CoverageEvidenced [SignalIdentityLockout]
       (''Unsuccessful logon attempts'')
       (''Repeated failures lock the account for a fixed interval, and the correct password does not bypass an '' @
        ''active lockout.''),
     entry ''nist-800-53:AC-12'' ''AC'' CoverageEvidenced [SignalIdentitySession]
       (''Session termination'')
       (''Sessions expire, and disabling an account invalidates its live sessions immediately rather than at next '' @
        ''expiry.'')]"

text \<open>Identification and Authentication (IA).\<close>

definition native_3 :: "Control list" where
  "native_3 =
    [entry ''nist-800-53:IA-2'' ''IA'' CoverageEvidenced [SignalIdentityAccounts]
       (''Unique identification and authentication of organisational users'')
       (''Named accounts, and the ledger records the account rather than the role.''),
     entry ''nist-800-53:IA-2(1)'' ''IA'' CoverageEvidenced [SignalIdentityMFA]
       (''Multi-factor authentication for privileged accounts'')
       (''TOTP, with a per-account replay check so an observed code cannot be presented twice.''),
     entry ''nist-800-53:IA-3'' ''IA'' CoverageEvidenced [SignalTransportMTLS, SignalCertRevocation]
       (''Device identification and authentication'')
       (''Each agent holds a per-host certificate issued at enrollment; revocation drops the live connection.''),
     entry ''nist-800-53:IA-5'' ''IA'' CoveragePartial [SignalIdentityAccounts, SignalFIPSCrypto]
       (''Authenticator management'')
       (''Passwords are stored only as salted hashes with a minimum length enforced. Rotation intervals and '' @
        ''complexity policy beyond length are not enforced by DefendSec.'')]"

text \<open>Configuration Management (CM).\<close>

definition native_4 :: "Control list" where
  "native_4 =
    [entry ''nist-800-53:CM-2'' ''CM'' CoveragePartial [SignalSCA, SignalFIM]
       (''Baseline configuration'')
       (''Configuration baselines are checked per pack and file baselines are monitored. The authoritative baseline '' @
        ''document itself lives outside DefendSec.''),
     entry ''nist-800-53:CM-3'' ''CM'' CoveragePartial [SignalFIM, SignalCommandSigned, SignalAuditChain]
       (''Configuration change control'')
       (''Changes made through DefendSec are signed and recorded, and unexpected file changes are detected. Change '' @
        ''approval workflow is not modelled.''),
     entry ''nist-800-53:CM-5'' ''CM'' CoverageEvidenced [SignalIdentityRoles, SignalCommandSigned, SignalCommandAttributed]
       (''Access restrictions for change'')
       (''Only an admin account can issue a mutating command, and the signed envelope records which one did.''),
     entry ''nist-800-53:CM-6'' ''CM'' CoveragePartial [SignalSCA, SignalRepoHealth]
       (''Configuration settings'')
       (''Checked against the shipped packs, and each package repository'' @ apos @
        ''s signing key and index freshness are checked. DefendSec does not ship full benchmark content and does '' @
        ''not claim benchmark coverage.''),
     entry ''nist-800-53:CM-8'' ''CM'' CoverageEvidenced [SignalInventoryHardware, SignalInventorySoftware]
       (''System component inventory'')
       (''Enrolled hosts and their installed packages, refreshed by the agent.'')]"

text \<open>Risk Assessment and System Integrity (RA, SI).\<close>

definition native_5 :: "Control list" where
  "native_5 =
    [entry ''nist-800-53:RA-5'' ''RA'' CoverageEvidenced [SignalVulnAssessment, SignalInventorySoftware]
       (''Vulnerability monitoring and scanning'')
       (''Installed versions are assessed against advisories using the distribution'' @ apos @
        ''s own version ordering, so a backported fix is not reported as vulnerable.''),
     entry ''nist-800-53:SI-2'' ''SI'' CoveragePartial [SignalVulnAssessment, SignalAlertLifecycle, SignalSoftwareSupported, SignalRepoHealth]
       (''Flaw remediation'')
       (''Findings are tracked to resolution. DefendSec does not install patches or push remediation; it reports '' @
        ''what is missing and how old it is. Software from outside the distribution that its upstream no longer '' @
        ''patches is reported as end-of-life. A repository whose signing key has expired or whose index has gone '' @
        ''stale is reported, and the host'' @ apos @
        ''s pending-updates list is then marked unreliable rather than shown as zero. Remediation timeliness '' @
        ''against an organisational standard is not measured.''),
     entry ''nist-800-53:SI-4'' ''SI'' CoveragePartial [SignalFIM, SignalSCA, SignalAlertLifecycle]
       (''System monitoring'')
       (''Host-level file-integrity and configuration monitoring, with each finding tracked to resolution. '' @
        ''DefendSec does not detect intrusions: it does not observe process execution, network traffic or logs.''),
     entry ''nist-800-53:SI-16'' ''SI'' CoveragePartial [SignalSCA]
       (''Memory protection against unauthorised code execution'')
       (''Baseline checks confirm kernel-level memory protections such as address space layout randomisation are '' @
        ''enabled. DefendSec does not verify per-binary hardening, and it does not observe whether an exploit was '' @
        ''attempted.''),
     entry ''nist-800-53:SI-7'' ''SI'' CoverageEvidenced [SignalFIM, SignalAuditChain, SignalManagedUpdate]
       (''Software, firmware and information integrity'')
       (''File baselines detect modification, updates are checksum-verified before replacement, and the ledger '' @
        ''detects its own modification.'')]"

text \<open>Incident Response and Contingency (IR, CP).\<close>

definition native_6 :: "Control list" where
  "native_6 =
    [entry ''nist-800-53:IR-4'' ''IR'' CoveragePartial [SignalAlertLifecycle, SignalEvidenceExport]
       (''Incident handling'')
       (''Findings, their lifecycle and an exportable evidence record support an organisation'' @ apos @
        ''s own handling. DefendSec does not detect or contain incidents, and the incident response plan, roles and '' @
        ''exercises are not held here.''),
     entry ''nist-800-53:IR-5'' ''IR'' CoverageEvidenced [SignalAlertLifecycle, SignalAuditChain]
       (''Incident monitoring and tracking'')
       (''Each finding carries its full lifecycle '' @ emdash @ '' raised, acknowledged, resolved or reopened '' @
        emdash @ '' attributed and chained.''),
     entry ''nist-800-53:CP-9'' ''CP'' CoveragePartial [SignalBackup]
       (''System backup'')
       (''A backup script and a systemd timer are provided but are not enabled automatically, and DefendSec cannot '' @
        ''see whether backups are copied off the host. Enable the timer and verify it.'')]"

text \<open>System and Communications Protection (SC).\<close>

definition native_7 :: "Control list" where
  "native_7 =
    [entry ''nist-800-53:SC-8'' ''SC'' CoverageEvidenced [SignalTransportMTLS, SignalSurfaceTLS]
       (''Transmission confidentiality and integrity'')
       (''Agent traffic is mutually authenticated TLS. Console TLS is terminated by the operator'' @ apos @
        ''s reverse proxy and is the operator'' @ apos @
        ''s to evidence. The external surface scanner also reports legacy TLS versions accepted by declared public '' @
        ''hostnames.''),
     entry ''nist-800-53:SC-13'' ''SC'' CoveragePartial [SignalFIPSCrypto]
       (''Cryptographic protection using approved algorithms'')
       (''Algorithms are approved ones and the live posture is reported, including the deviations. Running under an '' @
        ''approved mode is not the same as holding a validation certificate; the module'' @ apos @
        ''s certificate status is the Go project'' @ apos @ ''s, not DefendSec'' @ apos @ ''s.''),
     entry ''nist-800-53:SC-28'' ''SC'' CoveragePartial [SignalSCA, SignalInventoryHardware]
       (''Protection of information at rest'')
       (''The agent reports whether host disk encryption is enabled, and a baseline check fails when it is not '' @
        emdash @
        '' so the state is evidenced per host. DefendSec does not configure encryption, and says nothing about the '' @
        ''database'' @ apos @ ''s own encryption at rest or about key management.'')]"

text \<open>External surface scanner (slice 7a).\<close>

definition native_8 :: "Control list" where
  "native_8 =
    [entry ''nist-800-53:SC-7'' ''SC'' CoveragePartial [SignalSurfacePorts]
       (''Boundary protection'')
       (''Which risky TCP ports on declared IP addresses accept a connection, seen from one vantage point. Firewall '' @
        ''rules and segmentation are not read, and a refused connection from here does not prove a rule exists.''),
     entry ''nist-800-53:CM-7'' ''CM'' CoveragePartial [SignalSurfacePorts]
       (''Least functionality '' @ emdash @ '' only essential services are exposed'')
       (''A reachable SMB, RDP, database or similar port on a declared address is reported. Reachable is not '' @
        ''vulnerable, and services only reachable internally are not seen.''),
     entry ''nist-800-53:SC-17'' ''SC'' CoveragePartial [SignalSurfaceTLS]
       (''Public key infrastructure certificates'')
       (''Expiry, hostname match and chain of the certificate a declared hostname presents. The issuing policy and '' @
        ''private-key protection are not visible from outside.''),
     entry ''nist-800-53:SC-20'' ''SC'' CoveragePartial [SignalSurfaceDNS]
       (''Secure name and address resolution service (authoritative source)'')
       (''DNSSEC state of declared domains as a validating resolver reports it, CAA, and dangling CNAME targets. An '' @
        ''unsigned zone is reported as informational, not as a failure.''),
     entry ''nist-800-53:SI-8'' ''SI'' CoveragePartial [SignalSurfaceEmail]
       (''Spam protection '' @ emdash @ '' email authentication that lets receivers reject spoofed mail'')
       (''SPF, DKIM, DMARC, MTA-STS and TLS-RPT records published for declared domains, judged for whether spoofed '' @
        ''mail would be rejected. This is the nearest 800-53 control; inbound spam filtering itself is not '' @
        ''assessed.'')]"

text \<open>Microsoft 365 and Google Workspace identity posture (slices 12, 13).\<close>

definition native_9 :: "Control list" where
  "native_9 =
    [entry ''nist-800-53:IA-2(2)'' ''IA'' CoveragePartial [SignalM365MFA, SignalGWS2SV]
       (''Multi-factor authentication for non-privileged accounts'')
       (''Whether each user of a Microsoft 365 tenant has registered a second factor, from the authentication '' @
        ''methods registration report, and whether each user of a Google Workspace domain is enrolled in 2-Step '' @
        ''Verification and has it enforced. Registered is not enforced: for Microsoft 365, whether a sign-in is '' @
        ''actually required to use it depends on Conditional Access or per-user settings DefendSec does not read.''),
     entry ''nist-800-53:AC-6(5)'' ''AC'' CoveragePartial [SignalM365Roles, SignalM365MFA, SignalGWSAdmins, SignalGWS2SV]
       (''Least privilege: privileged accounts'')
       (''How many accounts hold Global Administrator in a Microsoft 365 tenant, or are super administrators of a '' @
        ''Google Workspace domain, and whether administrators have registered MFA or enrolled in 2-Step '' @
        ''Verification. Roles held through a group, or eligible through Privileged Identity Management, and what a '' @
        ''Google delegated administrator may do, are not read.''),
     entry ''nist-800-53:AC-17'' ''AC'' CoveragePartial [SignalM365LegacyAuth]
       (''Remote access '' @ emdash @ '' legacy sign-in protocols that bypass MFA'')
       (''Whether security defaults or an enabled Conditional Access policy blocks legacy authentication for a '' @
        ''Microsoft 365 tenant. What Exchange Online itself allows (SMTP AUTH, authentication policies) is not '' @
        ''read.''),
     entry ''nist-800-53:AC-4'' ''AC'' CoveragePartial [SignalM365MailRules, SignalGWSMailFilters]
       (''Information flow enforcement '' @ emdash @ '' mail forwarded or hidden by inbox rules'')
       (''Inbox rules and Gmail filters that forward or redirect mail outside the organisation, or hide it, read '' @
        ''from each mailbox'' @ apos @ ''s rule definitions, plus Gmail'' @ apos @
        ''s per-user auto-forwarding setting. Mailbox-level forwarding addresses and transport rules are Exchange '' @
        ''Online settings Microsoft Graph does not expose, and the Google domain'' @ apos @
        ''s routing and compliance rules are Admin console settings the Gmail API does not expose, so they are not '' @
        ''assessed.'')]"

text \<open>Controls DefendSec deliberately cannot evidence.\<close>

definition native_10 :: "Control list" where
  "native_10 =
    [entry ''nist-800-53:AT-2'' ''AT'' CoverageNone []
       (''Security awareness training'')
       (''Training records are not technical telemetry. No security product should claim this one.''),
     entry ''nist-800-53:MP-6'' ''MP'' CoverageNone []
       (''Media sanitisation'')
       (''DefendSec does not perform or witness media sanitisation.''),
     entry ''nist-800-53:PE-3'' ''PE'' CoverageNone []
       (''Physical access control'')
       (''Physical controls are outside anything an agent can observe.''),
     entry ''nist-800-53:PS-3'' ''PS'' CoverageNone []
       (''Personnel screening'')
       (''Personnel records are held by the agency, not by DefendSec.'')]"

text \<open>CIS Controls v8.\<close>

definition native_11 :: "Control list" where
  "native_11 =
    [entry ''cis-v8:1.1'' ''1'' CoverageEvidenced [SignalInventoryHardware]
       (''Establish and maintain a detailed enterprise asset inventory'')
       (''Enrolled hosts with their attributes and last-seen time. Assets that never enroll are, by definition, not '' @
        ''in it '' @ emdash @ '' reconcile against a network source.''),
     entry ''cis-v8:2.1'' ''2'' CoverageEvidenced [SignalInventorySoftware]
       (''Establish and maintain a software inventory'')
       (''Installed packages per host, collected by the agent.''),
     entry ''cis-v8:2.2'' ''2'' CoveragePartial [SignalSoftwareSupported, SignalInventorySoftware]
       (''Ensure authorized software is currently supported'')
       (''Software installed from third-party repositories is checked against its upstream release calendar '' @
        ''(endoflife.date) and past-support releases are reported. Software from the host'' @ apos @
        ''s own distribution follows the distribution'' @ apos @
        ''s lifecycle and is covered by the Supported-OS policy; software the mapping table does not know, or whose '' @
        ''origin could not be read, is not assessed. What counts as authorized is organisational.''),
     entry ''cis-v8:3.11'' ''3'' CoveragePartial [SignalSCA, SignalInventoryHardware]
       (''Encrypt sensitive data at rest'')
       (''Host disk encryption state is collected and checked. Encryption of the data itself, inside applications '' @
        ''or the database, is not.''),
     entry ''cis-v8:4.1'' ''4'' CoveragePartial [SignalSCA, SignalFIM]
       (''Establish and maintain a secure configuration process'')
       (''The checking half is evidenced. The documented process itself is organisational.''),
     entry ''cis-v8:5.1'' ''5'' CoveragePartial [SignalIdentityAccounts]
       (''Establish and maintain an inventory of accounts'')
       (''Accounts for DefendSec are inventoried. Accounts on the managed hosts are not enumerated.''),
     entry ''cis-v8:5.4'' ''5'' CoverageEvidenced [SignalIdentityRoles, SignalCommandAttributed]
       (''Restrict administrator privileges to dedicated administrator accounts'')
       (''Viewer accounts can read but cannot act, and the actor on every action is recorded.''),
     entry ''cis-v8:6.3'' ''6'' CoverageEvidenced [SignalIdentityMFA]
       (''Require MFA for externally-exposed applications'')
       (''TOTP with replay prevention. Whether the console is externally exposed is the operator'' @ apos @
        ''s deployment decision.''),
     entry ''cis-v8:6.5'' ''6'' CoverageEvidenced [SignalIdentityMFA, SignalIdentityRoles]
       (''Require MFA for administrative access'')
       (''Enrollable per account; enforce it on every admin account rather than assuming it.''),
     entry ''cis-v8:7.1'' ''7'' CoveragePartial [SignalVulnAssessment, SignalAlertLifecycle]
       (''Establish and maintain a vulnerability management process'')
       (''Continuous assessment and tracking to resolution; the documented process and remediation SLAs are '' @
        ''organisational.''),
     entry ''cis-v8:7.3'' ''7'' CoveragePartial [SignalVulnAssessment, SignalRepoHealth]
       (''Perform automated operating system patch management'')
       (''Findings say what to patch and how old it is. DefendSec does not install patches or run a patch schedule. '' @
        ''Each package repository is checked for a signing key that apt or dnf would reject and for an index that '' @
        ''has stopped refreshing.''),
     entry ''cis-v8:7.4'' ''7'' CoveragePartial [SignalVulnAssessment, SignalRepoHealth]
       (''Perform automated application patch management'')
       (''Third-party application repositories (PPAs, vendor repositories) are checked the same way as the '' @
        ''distribution'' @ apos @
        ''s: an expired or missing signing key, or a stale index, means updates from that repository have stopped. '' @
        ''DefendSec does not deploy application patches.''),
     entry ''cis-v8:8.2'' ''8'' CoveragePartial [SignalAuditChain, SignalAlertLifecycle]
       (''Collect audit logs'')
       (''DefendSec'' @ apos @
        ''s own actions and findings are collected. It is not a log aggregator and does not collect host system '' @
        ''logs.''),
     entry ''cis-v8:8.3'' ''8'' CoveragePartial [SignalAuditRetention, SignalBackup]
       (''Ensure adequate audit log storage'')
       (''Retention is configurable, defaults to a year, and is reported by GET /v1/retention. Capacity planning is '' @
        ''still the operator'' @ apos @ ''s.''),
     entry ''cis-v8:8.5'' ''8'' CoverageEvidenced [SignalAuditChain, SignalCommandAttributed, SignalCommandAck]
       (''Collect detailed audit logs'')
       (''Each entry carries the source, the event, the timestamp, the actor and the outcome.''),
     entry ''cis-v8:10.1'' ''10'' CoverageNone []
       (''Deploy and maintain anti-malware software'')
       (''DefendSec is not an anti-malware product and does not scan for malware signatures.''),
     entry ''cis-v8:3.10'' ''3'' CoveragePartial [SignalTransportMTLS, SignalSurfaceTLS]
       (''Encrypt sensitive data in transit'')
       (''Agent traffic is mutually authenticated TLS, and the certificate and protocol versions on declared public '' @
        ''hostnames are checked from outside. Traffic DefendSec cannot see is not assessed.''),
     entry ''cis-v8:4.4'' ''4'' CoveragePartial [SignalSurfacePorts]
       (''Implement and manage a firewall on servers'')
       (''Evidences what a connection from outside reaches on declared IPs. The host firewall'' @ apos @
        ''s own rules are not read.''),
     entry ''cis-v8:9.5'' ''9'' CoveragePartial [SignalSurfaceEmail]
       (''Implement DMARC'')
       (''DMARC, SPF and DKIM records are read for declared domains and judged for enforcement. DKIM selectors '' @
        ''cannot be enumerated, so a selector nobody declared is reported as not found, not as absent.''),
     entry ''cis-v8:14.1'' ''14'' CoverageNone []
       (''Establish and maintain a security awareness program'')
       (''Not technical telemetry.''),
     entry ''cis-v8:17.1'' ''17'' CoverageNone []
       (''Designate personnel to manage incident handling'')
       (''An organisational assignment, not a system state.'')]"

definition native :: "Control list" where
  "native = native_1 @ native_2 @ native_3 @ native_4 @ native_5 @ native_6 @ native_7 @ native_8 @ native_9 @ native_10 @ native_11"

section \<open>The crosswalks (crosswalk.go)\<close>

record crosswalk =
  cw_id :: string
  cw_title :: string
  cw_family :: string
  cw_hub :: "string list"
  cw_note :: string
  cw_noneReason :: string

text \<open>A row that maps onto hub controls, and one that cannot be evidenced.\<close>

definition maps_to :: "string \<Rightarrow> string \<Rightarrow> string list \<Rightarrow> string \<Rightarrow> string \<Rightarrow> crosswalk" where
  "maps_to rowID family hub title note =
     \<lparr>cw_id = rowID, cw_title = title, cw_family = family, cw_hub = hub, cw_note = note, cw_noneReason = []\<rparr>"

definition not_evidenced :: "string \<Rightarrow> string \<Rightarrow> string \<Rightarrow> string \<Rightarrow> crosswalk" where
  "not_evidenced rowID family title reason =
     \<lparr>cw_id = rowID, cw_title = title, cw_family = family, cw_hub = [], cw_note = [], cw_noneReason = reason\<rparr>"

definition nist800171 :: "crosswalk list" where
  "nist800171 =
    [maps_to ''3.1.1'' ''Access Control'' [''nist-800-53:AC-2'', ''nist-800-53:AC-3'', ''nist-800-53:IA-2'']
       (''Limit system access to authorised users'')
       ([]),
     maps_to ''3.1.2'' ''Access Control'' [''nist-800-53:AC-3'', ''nist-800-53:CM-5'']
       (''Limit system access to the transactions and functions authorised users may execute'')
       ([]),
     maps_to ''3.1.5'' ''Access Control'' [''nist-800-53:AC-6(9)'', ''nist-800-53:CM-5'']
       (''Employ the principle of least privilege'')
       ([]),
     maps_to ''3.1.7'' ''Access Control'' [''nist-800-53:AC-6(9)'', ''nist-800-53:AU-3'']
       (''Log the execution of privileged functions'')
       ([]),
     maps_to ''3.1.8'' ''Access Control'' [''nist-800-53:AC-7'']
       (''Limit unsuccessful logon attempts'')
       ([]),
     maps_to ''3.1.11'' ''Access Control'' [''nist-800-53:AC-12'']
       (''Terminate a user session after a defined condition'')
       ([]),
     not_evidenced ''3.2.1'' ''Awareness and Training''
       (''Ensure personnel are aware of the security risks of their activities'')
       (''Training records are not technical telemetry; the agency holds them.''),
     maps_to ''3.3.1'' ''Audit and Accountability'' [''nist-800-53:AU-2'', ''nist-800-53:AU-3'', ''nist-800-53:AU-11'']
       (''Create and retain audit records sufficient to investigate unlawful or unauthorised activity'')
       ([]),
     maps_to ''3.3.2'' ''Audit and Accountability'' [''nist-800-53:AU-10'', ''nist-800-53:IA-2'']
       (''Ensure the actions of individual users can be uniquely traced to those users'')
       ([]),
     maps_to ''3.3.4'' ''Audit and Accountability'' [''nist-800-53:AU-9'']
       (''Alert in the event of an audit logging process failure'')
       (''Chain verification detects a break, but DefendSec does not currently raise an alert when appending itself '' @
        ''fails.''),
     maps_to ''3.3.5'' ''Audit and Accountability'' [''nist-800-53:AU-6'']
       (''Correlate audit record review and reporting for investigation'')
       ([]),
     maps_to ''3.3.8'' ''Audit and Accountability'' [''nist-800-53:AU-9'', ''nist-800-53:AU-9(3)'']
       (''Protect audit information and logging tools from unauthorised access, modification and deletion'')
       ([]),
     maps_to ''3.3.9'' ''Audit and Accountability'' [''nist-800-53:AC-6(9)'', ''nist-800-53:CM-5'']
       (''Limit management of audit logging functionality to a privileged subset of users'')
       ([]),
     maps_to ''3.4.1'' ''Configuration Management'' [''nist-800-53:CM-2'', ''nist-800-53:CM-8'']
       (''Establish and maintain baseline configurations and inventories'')
       ([]),
     maps_to ''3.4.2'' ''Configuration Management'' [''nist-800-53:CM-6'']
       (''Establish and enforce security configuration settings'')
       ([]),
     maps_to ''3.4.3'' ''Configuration Management'' [''nist-800-53:CM-3'', ''nist-800-53:AU-3'']
       (''Track, review, approve and log changes to systems'')
       ([]),
     maps_to ''3.4.5'' ''Configuration Management'' [''nist-800-53:CM-5'']
       (''Define, document, approve and enforce access restrictions associated with changes'')
       ([]),
     maps_to ''3.5.1'' ''Identification and Authentication'' [''nist-800-53:IA-2'', ''nist-800-53:IA-3'']
       (''Identify system users and devices'')
       ([]),
     maps_to ''3.5.2'' ''Identification and Authentication'' [''nist-800-53:IA-2'', ''nist-800-53:IA-3'', ''nist-800-53:SC-8'']
       (''Authenticate the identities of users and devices'')
       ([]),
     maps_to ''3.5.3'' ''Identification and Authentication'' [''nist-800-53:IA-2(1)'']
       (''Use multifactor authentication for privileged accounts'')
       ([]),
     maps_to ''3.5.10'' ''Identification and Authentication'' [''nist-800-53:IA-5'', ''nist-800-53:SC-13'']
       (''Store and transmit only cryptographically-protected passwords'')
       ([]),
     maps_to ''3.6.1'' ''Incident Response'' [''nist-800-53:IR-4'', ''nist-800-53:IR-5'']
       (''Establish an operational incident-handling capability'')
       ([]),
     maps_to ''3.6.2'' ''Incident Response'' [''nist-800-53:IR-5'', ''nist-800-53:AU-10'']
       (''Track, document and report incidents'')
       ([]),
     not_evidenced ''3.8.3'' ''Media Protection''
       (''Sanitise or destroy media before disposal or reuse'')
       (''DefendSec does not perform or witness media sanitisation.''),
     not_evidenced ''3.9.1'' ''Personnel Security''
       (''Screen individuals prior to authorising access'')
       (''Personnel records are held by the agency.''),
     not_evidenced ''3.10.1'' ''Physical Protection''
       (''Limit physical access to systems and equipment'')
       (''Physical controls are outside anything an agent can observe.''),
     maps_to ''3.11.2'' ''Risk Assessment'' [''nist-800-53:RA-5'']
       (''Scan for vulnerabilities periodically and when new vulnerabilities are identified'')
       ([]),
     maps_to ''3.11.3'' ''Risk Assessment'' [''nist-800-53:SI-2'']
       (''Remediate vulnerabilities in accordance with risk assessments'')
       ([]),
     maps_to ''3.13.8'' ''System and Communications Protection'' [''nist-800-53:SC-8'', ''nist-800-53:SC-13'']
       (''Implement cryptographic mechanisms to prevent unauthorised disclosure during transmission'')
       ([]),
     maps_to ''3.13.11'' ''System and Communications Protection'' [''nist-800-53:SC-13'']
       (''Employ FIPS-validated cryptography to protect the confidentiality of CUI'')
       (''DefendSec can be constrained to approved algorithms and reports the live posture. Holding a validation '' @
        ''certificate for the module is a separate matter and is not DefendSec'' @ apos @ ''s to claim.''),
     maps_to ''3.13.16'' ''System and Communications Protection'' [''nist-800-53:SC-28'']
       (''Protect the confidentiality of CUI at rest'')
       (''Host disk encryption state is collected and checked per host. Whether CUI itself is encrypted wherever it '' @
        ''lives is a larger question DefendSec does not answer.''),
     maps_to ''3.14.1'' ''System and Information Integrity'' [''nist-800-53:SI-2'', ''nist-800-53:RA-5'']
       (''Identify, report and correct system flaws in a timely manner'')
       ([]),
     not_evidenced ''3.14.2'' ''System and Information Integrity''
       (''Provide protection from malicious code'')
       (''DefendSec is not an anti-malware product and does not scan for malware signatures.''),
     maps_to ''3.14.6'' ''System and Information Integrity'' [''nist-800-53:SI-4'']
       (''Monitor systems, including inbound and outbound communications traffic'')
       (''Host-level monitoring only; DefendSec does not inspect network traffic.''),
     maps_to ''3.14.7'' ''System and Information Integrity'' [''nist-800-53:SI-4'', ''nist-800-53:SI-7'', ''nist-800-53:AU-6'']
       (''Identify unauthorised use of systems'')
       ([])]"

definition cjisv6 :: "crosswalk list" where
  "cjisv6 =
    [not_evidenced ''1'' ''Information Exchange Agreements''
       (''Policy Area 1 '' @ emdash @ '' agreements governing exchange of criminal justice information'')
       (''Agreements are legal documents between agencies. DefendSec holds none of them.''),
     not_evidenced ''2'' ''Security Awareness Training''
       (''Policy Area 2 '' @ emdash @ '' role-based security awareness training'')
       (''Training records are not technical telemetry; the agency holds them.''),
     maps_to ''3'' ''Incident Response'' [''nist-800-53:IR-4'', ''nist-800-53:IR-5'', ''nist-800-53:SI-4'']
       (''Policy Area 3 '' @ emdash @ '' incident detection, handling, reporting and tracking'')
       (''A tamper-evident record of findings and of what was done about them. DefendSec does not detect or contain '' @
        ''incidents. The written incident response plan, the reporting obligations to the CJIS Systems Agency and '' @
        ''the exercises remain the agency'' @ apos @ ''s.''),
     maps_to ''4'' ''Auditing and Accountability'' [''nist-800-53:AU-2'', ''nist-800-53:AU-3'', ''nist-800-53:AU-6'', ''nist-800-53:AU-9'', ''nist-800-53:AU-9(3)'', ''nist-800-53:AU-10'', ''nist-800-53:AU-11'', ''nist-800-53:AC-6(9)'']
       (''Policy Area 4 '' @ emdash @ '' events logged, retained, protected from modification and reviewable'')
       (''This is the area DefendSec answers best: a hash-chained ledger of individually attributed, signed '' @
        ''actions, verifiable offline. Note that the requirement to review the records on a defined frequency is a '' @
        ''process DefendSec presents but cannot perform.''),
     maps_to ''5'' ''Access Control'' [''nist-800-53:AC-2'', ''nist-800-53:AC-3'', ''nist-800-53:AC-6(9)'', ''nist-800-53:AC-7'', ''nist-800-53:AC-12'']
       (''Policy Area 5 '' @ emdash @ '' least privilege, account management and session control'')
       (''Covers access to DefendSec itself. Access control on the systems that hold criminal justice information '' @
        ''is a separate and larger question.''),
     maps_to ''6'' ''Identification and Authentication'' [''nist-800-53:IA-2'', ''nist-800-53:IA-2(1)'', ''nist-800-53:IA-3'', ''nist-800-53:IA-5'']
       (''Policy Area 6 '' @ emdash @ '' unique identification and advanced authentication'')
       (''Named accounts with TOTP satisfy advanced authentication for DefendSec'' @ apos @
        ''s own console; whether the agency'' @ apos @ ''s other systems do is out of scope here.''),
     maps_to ''7'' ''Configuration Management'' [''nist-800-53:CM-2'', ''nist-800-53:CM-3'', ''nist-800-53:CM-5'', ''nist-800-53:CM-6'', ''nist-800-53:CM-8'', ''nist-800-53:SI-7'']
       (''Policy Area 7 '' @ emdash @ '' baseline configuration, change control and component inventory'')
       ([]),
     not_evidenced ''8'' ''Media Protection''
       (''Policy Area 8 '' @ emdash @ '' media storage, transport and sanitisation'')
       (''DefendSec does not handle, track or sanitise media.''),
     not_evidenced ''9'' ''Physical Protection''
       (''Policy Area 9 '' @ emdash @ '' physically secure locations and controlled areas'')
       (''Physical controls are outside anything an agent can observe.''),
     maps_to ''10'' ''Systems and Communications Protection and Information Integrity'' [''nist-800-53:SC-8'', ''nist-800-53:SC-13'', ''nist-800-53:SI-2'', ''nist-800-53:SI-4'', ''nist-800-53:SI-7'', ''nist-800-53:RA-5'']
       (''Policy Area 10 '' @ emdash @ '' boundary protection, encryption in transit, patching and integrity'')
       (''Encryption in transit, flaw remediation and integrity monitoring are evidenced. Boundary protection '' @
        emdash @ '' firewalls, network segmentation '' @ emdash @
        '' is not, and encryption at rest is delegated to the platform.''),
     maps_to ''11'' ''Formal Audits'' [''nist-800-53:AU-6'', ''nist-800-53:AU-9(3)'', ''nist-800-53:AU-10'']
       (''Policy Area 11 '' @ emdash @ '' cooperation with CJIS audits and the evidence they require'')
       (''DefendSec produces the signed, offline-verifiable evidence package an audit asks for. Scheduling, '' @
        ''responding to findings and the audit itself are the agency'' @ apos @ ''s.''),
     not_evidenced ''12'' ''Personnel Security''
       (''Policy Area 12 '' @ emdash @ '' personnel screening and separation'')
       (''Personnel records are held by the agency.''),
     not_evidenced ''13'' ''Mobile Devices''
       (''Policy Area 13 '' @ emdash @ '' management of mobile and wireless devices'')
       (''This is mobile device management. DefendSec declines MDM deliberately '' @ emdash @
        '' no wipe, lock, enrollment profiles or configuration policies '' @ emdash @
        '' so it cannot and should not evidence this area.'')]"

section \<open>Building the catalog\<close>

type_synonym catalog = "(string \<times> Control) list"

text \<open>The identifiers of the table are parsed when the package is initialised.\<close>

definition native_ids :: "Control list option" where
  "native_ids = those (map (\<lambda>c. map_option (\<lambda>i. c\<lparr>cn_ID := i\<rparr>) (MustParseID (cn_ID c))) native)"

text \<open>The loop over the native entries; each \<open>None\<close> is one of its panics.\<close>

fun add_native :: "catalog \<Rightarrow> Control list \<Rightarrow> catalog option" where
  "add_native m [] = Some m"
| "add_native m (c # cs) =
     (if cn_ID c \<in> set (map fst m) then None
      else if list_ex (\<lambda>s. \<not> KnownSignal s) (cn_Signals c) then None
      else if cn_Coverage c \<noteq> CoverageEvidenced \<and> cn_Note c = [] then None
      else if cn_Coverage c = CoverageNone \<and> cn_Signals c \<noteq> [] then None
      else add_native (m @ [(cn_ID c, c)]) cs)"

text \<open>The hub controls of a row, in its order.\<close>

definition hub_control :: "catalog \<Rightarrow> string \<Rightarrow> (string \<times> Control) option" where
  "hub_control hub raw =
     (case MustParseID raw of None \<Rightarrow> None | Some hid \<Rightarrow> map_option (Pair hid) (map_of hub hid))"

definition hub_controls :: "catalog \<Rightarrow> string list \<Rightarrow> (string \<times> Control) list option" where
  "hub_controls hub raws = those (map (hub_control hub) raws)"

definition weakest :: "(string \<times> Control) list \<Rightarrow> EvidenceCoverage" where
  "weakest hs =
     foldl (\<lambda>w h. if Rank (cn_Coverage (snd h)) < Rank w then cn_Coverage (snd h) else w) CoverageEvidenced hs"

definition hub_notes :: "(string \<times> Control) list \<Rightarrow> string list" where
  "hub_notes hs =
     map (\<lambda>h. fst h @ '': '' @ cn_Note (snd h))
       (filter (\<lambda>h. cn_Coverage (snd h) \<noteq> CoverageEvidenced \<and> cn_Note (snd h) \<noteq> []) hs)"

definition proportion_note :: "(string \<times> Control) list \<Rightarrow> string list" where
  "proportion_note hs =
     (if 1 < length hs then
        [itoa_nat (length (filter (\<lambda>h. cn_Coverage (snd h) = CoverageEvidenced) hs)) @ '' of '' @
         itoa_nat (length hs) @
         '' mapped NIST SP 800-53 controls are fully evidenced; this entry takes the weakest of them.'']
      else [])"

definition derived_note :: "crosswalk \<Rightarrow> (string \<times> Control) list \<Rightarrow> string" where
  "derived_note row hs =
     Join ((if cw_note row \<noteq> [] then [cw_note row] else []) @ proportion_note hs @ hub_notes hs) '' ''"

text \<open>\<open>emit\<close> of one row for one framework; \<open>None\<close> is one of its panics.\<close>

definition emit :: "catalog \<Rightarrow> string \<Rightarrow> crosswalk \<Rightarrow> Control option" where
  "emit hub f row =
     (case MustParseID (f @ '':'' @ cw_id row) of
        None \<Rightarrow> None
      | Some i \<Rightarrow>
          if cw_noneReason row \<noteq> [] then
            (if cw_hub row \<noteq> [] then None
             else Some \<lparr>cn_ID = i, cn_Title = cw_title row, cn_Family = cw_family row, cn_Coverage = CoverageNone,
                    cn_Signals = [], cn_Note = cw_noneReason row, cn_DerivedFrom = []\<rparr>)
          else if cw_hub row = [] then None
          else case hub_controls hub (cw_hub row) of
                 None \<Rightarrow> None
               | Some hs \<Rightarrow>
                   if weakest hs \<noteq> CoverageEvidenced \<and> derived_note row hs = [] then None
                   else Some \<lparr>cn_ID = i, cn_Title = cw_title row, cn_Family = cw_family row,
                          cn_Coverage = weakest hs,
                          cn_Signals = sort_strings (first_occurrences (concat (map (\<lambda>h. cn_Signals (snd h)) hs))),
                          cn_Note = derived_note row hs, cn_DerivedFrom = SortIDs (map fst hs)\<rparr>)"

definition derive :: "catalog \<Rightarrow> Control list option" where
  "derive hub =
     those (concat (map (\<lambda>row. [emit hub NIST800171 row, emit hub CMMCL2 row]) nist800171) @
       map (emit hub CJISv6) cjisv6)"

fun add_derived :: "catalog \<Rightarrow> Control list \<Rightarrow> catalog option" where
  "add_derived m [] = Some m"
| "add_derived m (d # ds) =
     (if cn_ID d \<in> set (map fst m) then None else add_derived (m @ [(cn_ID d, d)]) ds)"

text \<open>The package variable \<open>catalog\<close>.\<close>

definition init_catalog :: "catalog option" where
  "init_catalog =
     (case native_ids of
        None \<Rightarrow> None
      | Some cs \<Rightarrow>
          (case add_native [] cs of
             None \<Rightarrow> None
           | Some m \<Rightarrow> (case derive m of None \<Rightarrow> None | Some ds \<Rightarrow> add_derived m ds)))"

definition the_catalog :: catalog where
  "the_catalog = (case init_catalog of None \<Rightarrow> [] | Some m \<Rightarrow> m)"

definition Lookup :: "string \<Rightarrow> Control option" where
  "Lookup i = map_of the_catalog i"

definition Catalog :: "Control list" where
  "Catalog = go_sort (\<lambda>a b. cn_ID a < cn_ID b) (map snd the_catalog)"

definition ForFramework :: "string \<Rightarrow> Control list" where
  "ForFramework f =
     go_sort (\<lambda>a b. cn_ID a < cn_ID b) (filter (\<lambda>c. ID_Framework (cn_ID c) = f) (map snd the_catalog))"

definition ForSignal :: "string \<Rightarrow> string list" where
  "ForSignal s = SortIDs (map fst (filter (\<lambda>(i, c). s \<in> set (cn_Signals c)) the_catalog))"

definition ForSignals :: "string list \<Rightarrow> string list" where
  "ForSignals sigs = SortIDs (first_occurrences (concat (map ForSignal sigs)))"

section \<open>Tagging (tag.go)\<close>

definition tag_step :: "string list \<Rightarrow> string \<Rightarrow> string list" where
  "tag_step ids raw = (case ParseID raw of Inl _ \<Rightarrow> ids | Inr i \<Rightarrow> if i \<in> set ids then ids else ids @ [i])"

definition Tag :: "string \<Rightarrow> string list \<Rightarrow> string list" where
  "Tag signal extra = SortIDs (foldl tag_step (ForSignal signal) extra)"

definition SignalForAlertKind :: "string \<Rightarrow> string option" where
  "SignalForAlertKind kind =
     (if kind = ''fim'' then Some SignalFIM
      else if kind = ''sca'' then Some SignalSCA
      else if kind = ''vuln'' then Some SignalVulnAssessment
      else None)"

definition auditActionSignals :: "(string \<times> string list) list" where
  "auditActionSignals =
    [(''login'', [SignalIdentityAccounts, SignalIdentitySession]),
     (''logout'', [SignalIdentitySession]),
     (''login_failed'', [SignalIdentityLockout, SignalIdentityAccounts]),
     (''login_locked'', [SignalIdentityLockout]),
     (''user_created'', [SignalIdentityAccounts, SignalIdentityRoles]),
     (''user_password_changed'', [SignalIdentityAccounts]),
     (''totp_enrolled'', [SignalIdentityMFA]),
     (''command_issue'', [SignalCommandSigned, SignalCommandAttributed]),
     (''command_ack'', [SignalCommandAck]),
     (''ack_signature_invalid'', [SignalCommandAck]),
     (''ack_result_hash_mismatch'', [SignalCommandAck]),
     (''device_enrolled'', [SignalTransportMTLS, SignalInventoryHardware]),
     (''cert_revoke'', [SignalCertRevocation]),
     (''enroll_secret_rotate'', [SignalTransportMTLS]),
     (''alert_status'', [SignalAlertLifecycle]),
     (''baseline_accept'', [SignalFIM]),
     (''advisories_import'', [SignalVulnAssessment]),
     (''agent_release_publish'', [SignalManagedUpdate]),
     (''saved_query_create'', [SignalAuditReview])]"
definition SignalsForAuditAction :: "string \<Rightarrow> string list" where
  "SignalsForAuditAction action = (case map_of auditActionSignals action of None \<Rightarrow> [] | Some s \<Rightarrow> s)"

definition TagAuditAction :: "string \<Rightarrow> string list" where
  "TagAuditAction action =
     (let sigs = SignalsForAuditAction action in if sigs = [] then [] else ForSignals sigs)"

definition AuditActionSignalName :: "string \<Rightarrow> string" where
  "AuditActionSignalName action = (case SignalsForAuditAction action of [] \<Rightarrow> [] | s # _ \<Rightarrow> s)"

section \<open>Identifiers\<close>

lemma MatchString_anchored: "MatchString (RSeq RBegin r) s \<longleftrightarrow> rx_run r s 0 [] \<noteq> []"
  unfolding MatchString_def upt_Suc_0
  by (auto simp: rx_find_anchored simp del: upt_Suc split: list.split)

lemma concat_guard: "concat (map (\<lambda>k. if P k then [g k] else []) xs) = [] \<longleftrightarrow> (\<forall>k \<in> set xs. \<not> P k)"
  by (induction xs) auto

lemma control_matches:
  "MatchString controlPattern s \<longleftrightarrow>
     s \<noteq> [] \<and> (isASCIIDigit (hd s) \<or> isASCIILetter (hd s)) \<and> list_all is_control_char (tl s)"
proof (cases s)
  case (Cons c t)
  have "(\<exists>k < Suc (length (takeWhile is_control_char t)). length t \<le> k) \<longleftrightarrow> list_all is_control_char t"
  proof -
    have "(\<exists>k < Suc (length (takeWhile is_control_char t)). length t \<le> k) \<longleftrightarrow> length t \<le> length (takeWhile is_control_char t)"
      by (auto simp: less_Suc_eq_le)
    also have "\<dots> \<longleftrightarrow> takeWhile is_control_char t = t"
      by (metis order_refl take_all takeWhile_eq_take)
    also have "\<dots> \<longleftrightarrow> list_all is_control_char t"
      by (simp add: takeWhile_eq_all_conv list_all_iff)
    finally show ?thesis .
  qed
  then show ?thesis
    using Cons
    by (auto simp: controlPattern_def MatchString_anchored star_set_run concat_guard o_def
        simp del: upt_Suc concat_eq_Nil_conv)
qed (simp add: controlPattern_def MatchString_anchored)

lemma control_char_plain: "is_control_char c \<Longrightarrow> \<not> is_space c \<and> c \<noteq> CHR '':''"
  by (auto simp: is_control_char_def is_space_def isASCIIDigit_def isASCIILetter_def)

lemma CutByte_first: "c \<notin> set xs \<Longrightarrow> CutByte (xs @ c # ys) c = (xs, ys, True)"
  by (simp add: CutByte_def IndexByte_append)

lemma framework_plain: "f \<in> set Frameworks \<Longrightarrow> CHR '':'' \<notin> set f \<and> ToLower f = f \<and> TrimSpace f = f \<and> f \<noteq> []"
  by (auto simp: Frameworks_def CISv8_def NIST800171_def CMMCL2_def NIST80053_def CJISv6_def ToLower_def
      lower_char_def TrimSpace_def is_space_def)

lemma ParseID_iff:
  assumes "f \<in> set Frameworks" "MatchString controlPattern control"
  shows "ParseID (f @ '':'' @ control) = Inr (f @ '':'' @ control)"
proof -
  have c: "control \<noteq> []" "list_all is_control_char control"
    using assms(2) by (cases control; auto simp: control_matches is_control_char_def)+
  then have plain: "\<not> is_space x" if "x \<in> set control" for x
    using that control_char_plain by (auto simp: list_all_iff)
  have trim: "TrimSpace control = control"
    using plain c(1) by (intro TrimSpace_noop) auto
  have "TrimSpace (f @ '':'' @ control) = f @ '':'' @ control"
  proof (rule TrimSpace_noop)
    show "\<not> is_space (hd (f @ '':'' @ control))"
      using assms(1) by (auto simp: Frameworks_def CISv8_def NIST800171_def CMMCL2_def NIST80053_def CJISv6_def is_space_def)
    show "\<not> is_space (last (f @ '':'' @ control))"
      using plain c(1) by simp
  qed simp
  then show ?thesis
    using framework_plain [OF assms(1)] c(1) trim assms
    by (simp add: ParseID_def CutByte_first KnownFramework_def)
qed

lemma ParseID_shape:
  "ParseID raw = Inr i \<Longrightarrow> \<exists>f c. f \<in> set Frameworks \<and> MatchString controlPattern c \<and> i = f @ '':'' @ c"
  by (auto simp: ParseID_def KnownFramework_def Let_def split: prod.splits if_splits)

lemma ParseID_canonical: "ParseID raw = Inr i \<Longrightarrow> ParseID i = Inr i"
  using ParseID_shape ParseID_iff by blast

lemma ParseID_parts:
  assumes "ParseID raw = Inr i"
  shows "KnownFramework (ID_Framework i) \<and> MatchString controlPattern (ID_Control i) \<and>
    i = ID_Framework i @ '':'' @ ID_Control i"
proof -
  obtain f c where "f \<in> set Frameworks" "MatchString controlPattern c" "i = f @ '':'' @ c"
    using ParseID_shape [OF assms] by blast
  then show ?thesis
    using framework_plain [of f] by (simp add: ID_Framework_def ID_Control_def CutByte_first KnownFramework_def)
qed

section \<open>The catalog is built\<close>

text \<open>What the checks at start-up ask of an entry, and what the crosswalks rely on.\<close>

definition entry_ok :: "Control \<Rightarrow> bool" where
  "entry_ok c \<longleftrightarrow> ParseID (cn_ID c) = Inr (cn_ID c) \<and> list_all KnownSignal (cn_Signals c) \<and>
     (cn_Coverage c \<noteq> CoverageEvidenced \<longrightarrow> cn_Note c \<noteq> []) \<and>
     (cn_Coverage c = CoverageNone \<longrightarrow> cn_Signals c = [])"

definition row_ok :: "string set \<Rightarrow> crosswalk \<Rightarrow> bool" where
  "row_ok hubs row \<longleftrightarrow>
     (if cw_noneReason row \<noteq> [] then cw_hub row = []
      else cw_hub row \<noteq> [] \<and> list_all (\<lambda>raw. ParseID raw = Inr raw \<and> raw \<in> hubs) (cw_hub row))"

definition derived_rows :: "(string \<times> crosswalk) list" where
  "derived_rows = concat (map (\<lambda>row. [(NIST800171, row), (CMMCL2, row)]) nist800171) @ map (Pair CJISv6) cjisv6"

definition derived_id :: "string \<times> crosswalk \<Rightarrow> string" where
  "derived_id r = fst r @ '':'' @ cw_id (snd r)"

definition nist_controls :: "string list" where
  "nist_controls =
    [''AU-2'', ''AU-3'', ''AU-6'', ''AU-8'', ''AU-9'', ''AU-9(3)'', ''AU-10'', ''AU-11'', ''AC-2'', ''AC-3'',
     ''AC-6(9)'', ''AC-7'', ''AC-12'', ''IA-2'', ''IA-2(1)'', ''IA-3'', ''IA-5'', ''CM-2'', ''CM-3'', ''CM-5'',
     ''CM-6'', ''CM-8'', ''RA-5'', ''SI-2'', ''SI-4'', ''SI-16'', ''SI-7'', ''IR-4'', ''IR-5'', ''CP-9'',
     ''SC-8'', ''SC-13'', ''SC-28'', ''SC-7'', ''CM-7'', ''SC-17'', ''SC-20'', ''SI-8'', ''IA-2(2)'', ''AC-6(5)'',
     ''AC-17'', ''AC-4'', ''AT-2'', ''MP-6'', ''PE-3'', ''PS-3'']"

definition cis_controls :: "string list" where
  "cis_controls =
    [''1.1'', ''2.1'', ''2.2'', ''3.11'', ''4.1'', ''5.1'', ''5.4'', ''6.3'', ''6.5'', ''7.1'',
     ''7.3'', ''7.4'', ''8.2'', ''8.3'', ''8.5'', ''10.1'', ''3.10'', ''4.4'', ''9.5'', ''14.1'',
     ''17.1'']"

definition hub_ids :: "string list" where
  "hub_ids = map (\<lambda>c. NIST80053 @ '':'' @ c) nist_controls @ map (\<lambda>c. CISv8 @ '':'' @ c) cis_controls"

lemmas native_defs = native_def native_1_def native_2_def native_3_def native_4_def native_5_def native_6_def native_7_def native_8_def native_9_def native_10_def native_11_def

lemma known_signals:
  "KnownSignal SignalAuditChain"
  "KnownSignal SignalAuditCheckpoint"
  "KnownSignal SignalAuditAnchor"
  "KnownSignal SignalAuditRetention"
  "KnownSignal SignalAuditReview"
  "KnownSignal SignalCommandSigned"
  "KnownSignal SignalCommandAck"
  "KnownSignal SignalCommandAttributed"
  "KnownSignal SignalIdentityAccounts"
  "KnownSignal SignalIdentityMFA"
  "KnownSignal SignalIdentityLockout"
  "KnownSignal SignalIdentityRoles"
  "KnownSignal SignalIdentitySession"
  "KnownSignal SignalInventoryHardware"
  "KnownSignal SignalInventorySoftware"
  "KnownSignal SignalVulnAssessment"
  "KnownSignal SignalSoftwareSupported"
  "KnownSignal SignalRepoHealth"
  "KnownSignal SignalFIM"
  "KnownSignal SignalSCA"
  "KnownSignal SignalTransportMTLS"
  "KnownSignal SignalCertRevocation"
  "KnownSignal SignalAlertLifecycle"
  "KnownSignal SignalFIPSCrypto"
  "KnownSignal SignalEvidenceExport"
  "KnownSignal SignalBackup"
  "KnownSignal SignalManagedUpdate"
  "KnownSignal SignalSurfaceEmail"
  "KnownSignal SignalSurfaceDNS"
  "KnownSignal SignalSurfaceTLS"
  "KnownSignal SignalSurfacePorts"
  "KnownSignal SignalM365MFA"
  "KnownSignal SignalM365Roles"
  "KnownSignal SignalM365LegacyAuth"
  "KnownSignal SignalM365MailRules"
  "KnownSignal SignalGWS2SV"
  "KnownSignal SignalGWSAdmins"
  "KnownSignal SignalGWSMailFilters"
  by code_simp+

lemma hub_ids: "map cn_ID native = hub_ids"
  by (simp add: native_defs entry_def hub_ids_def nist_controls_def cis_controls_def NIST80053_def CISv8_def)

lemma native_controls_parse: "list_all (MatchString controlPattern) (nist_controls @ cis_controls)"
  by code_simp

lemma native_signals_known: "list_all (\<lambda>c. list_all KnownSignal (cn_Signals c)) native"
  by (simp only: native_defs entry_def list_all_append list.pred_inject Control.select_convs known_signals simp_thms)

lemma native_explained:
  "list_all (\<lambda>c. (cn_Coverage c \<noteq> CoverageEvidenced \<longrightarrow> cn_Note c \<noteq> []) \<and>
     (cn_Coverage c = CoverageNone \<longrightarrow> cn_Signals c = [])) native"
  by (simp only: native_defs entry_def list_all_append list.pred_inject Control.select_convs
      EvidenceCoverage.distinct append_is_Nil_conv list.distinct simp_thms)

definition hub_ref :: "string \<Rightarrow> bool" where
  "hub_ref raw \<longleftrightarrow> take 12 raw = ''nist-800-53:'' \<and> drop 12 raw \<in> set nist_controls"

lemma rows_refer:
  "list_all (\<lambda>row. if cw_noneReason row \<noteq> [] then cw_hub row = []
     else cw_hub row \<noteq> [] \<and> list_all hub_ref (cw_hub row)) (nist800171 @ cjisv6)"
  by code_simp

lemma row_controls_parse: "list_all (\<lambda>row. MatchString controlPattern (cw_id row)) (nist800171 @ cjisv6)"
  by code_simp

lemma controls_distinct:
  "distinct nist_controls" "distinct cis_controls" "distinct (map cw_id nist800171)" "distinct (map cw_id cjisv6)"
  by code_simp+

lemma those_Some: "list_all (\<lambda>x. f x = Some (g x)) xs \<Longrightarrow> those (map f xs) = Some (map g xs)"
  by (induction xs) simp_all

lemma those_SomeD: "those xs = Some ys \<Longrightarrow> xs = map Some ys"
  by (induction xs arbitrary: ys) (auto split: option.splits)

lemma native_parse: "c \<in> set native \<Longrightarrow> ParseID (cn_ID c) = Inr (cn_ID c)"
proof -
  assume "c \<in> set native"
  then have "cn_ID c \<in> set hub_ids"
    using hub_ids by (metis image_eqI set_map)
  then show ?thesis
    using native_controls_parse ParseID_iff
    by (auto simp: hub_ids_def list_all_iff Frameworks_def)
qed

lemma native_entry_ok: "list_all entry_ok native"
  using native_parse native_signals_known native_explained by (auto simp: list_all_iff entry_ok_def)

lemma native_ids_Some: "native_ids = Some native"
proof -
  have "list_all (\<lambda>c. map_option (\<lambda>i. c\<lparr>cn_ID := i\<rparr>) (MustParseID (cn_ID c)) = Some (c :: Control)) native"
    using native_parse by (simp add: list_all_iff MustParseID_def)
  from those_Some [OF this] show ?thesis
    by (simp add: native_ids_def)
qed

lemma add_native_Some:
  "distinct (map fst m @ map cn_ID cs) \<Longrightarrow> list_all entry_ok cs \<Longrightarrow>
   add_native m cs = Some (m @ map (\<lambda>c. (cn_ID c, c)) cs)"
proof (induction cs arbitrary: m)
  case (Cons c cs)
  have "add_native (m @ [(cn_ID c, c)]) cs = Some ((m @ [(cn_ID c, c)]) @ map (\<lambda>c. (cn_ID c, c)) cs)"
    using Cons.prems by (intro Cons.IH) auto
  moreover have "\<not> list_ex (\<lambda>s. \<not> KnownSignal s) (cn_Signals c)" "cn_ID c \<notin> set (map fst m)"
    "cn_Coverage c \<noteq> CoverageEvidenced \<longrightarrow> cn_Note c \<noteq> []" "cn_Coverage c = CoverageNone \<longrightarrow> cn_Signals c = []"
    using Cons.prems by (auto simp: entry_ok_def list_all_iff list_ex_iff)
  ultimately show ?case
    by auto
qed simp

definition hub_catalog :: catalog where
  "hub_catalog = map (\<lambda>c. (cn_ID c, c)) native"

lemma hub_ids_distinct: "distinct (map cn_ID native)"
proof -
  have "inj (\<lambda>c. NIST80053 @ '':'' @ c)" "inj (\<lambda>c. CISv8 @ '':'' @ c)"
    by (auto intro: injI)
  then show ?thesis
    using controls_distinct
    by (auto simp: hub_ids hub_ids_def distinct_map NIST80053_def CISv8_def intro: inj_on_subset)
qed

lemma add_native_native: "add_native [] native = Some hub_catalog"
  using add_native_Some [of "[]" native] hub_ids_distinct native_entry_ok by (simp add: hub_catalog_def)

lemma hub_ref_found:
  assumes "hub_ref raw"
  shows "\<exists>c \<in> set native. cn_ID c = raw \<and> hub_control hub_catalog raw = Some (raw, c)"
proof -
  have "raw = NIST80053 @ '':'' @ drop 12 raw"
    using assms append_take_drop_id [of 12 raw] unfolding hub_ref_def NIST80053_def by simp
  then have "raw \<in> set (map cn_ID native)"
    using assms by (auto simp: hub_ids hub_ids_def hub_ref_def)
  then obtain c where c: "c \<in> set native" "cn_ID c = raw"
    by auto
  have "map_of hub_catalog raw = Some c"
    using c hub_ids_distinct by (auto simp: hub_catalog_def o_def intro!: map_of_is_SomeI)
  then show ?thesis
    using c native_parse [OF c(1)] by (auto simp: hub_control_def MustParseID_def)
qed

lemma hub_controls_Some:
  "list_all hub_ref raws \<Longrightarrow> \<exists>hs. hub_controls hub_catalog raws = Some hs \<and> map fst hs = raws \<and> snd ` set hs \<subseteq> set native"
proof (induction raws)
  case (Cons raw raws)
  then obtain hs where "hub_controls hub_catalog raws = Some hs" "map fst hs = raws" "snd ` set hs \<subseteq> set native"
    by auto
  moreover obtain c where "c \<in> set native" "hub_control hub_catalog raw = Some (raw, c)"
    using hub_ref_found Cons.prems by auto
  ultimately show ?case
    by (auto simp: hub_controls_def)
qed (simp add: hub_controls_def)

section \<open>The weakest coverage wins\<close>

lemma weakest_le: "h \<in> set hs \<Longrightarrow> Rank (weakest hs) \<le> Rank (cn_Coverage (snd h))"
proof -
  let ?step = "\<lambda>w h. if Rank (cn_Coverage (snd h)) < Rank w then cn_Coverage (snd h) else w"
  have start: "Rank (foldl ?step w hs) \<le> Rank w" for w hs
  proof (induction hs arbitrary: w)
    case (Cons h hs)
    show ?case
      using Cons [of "?step w h"] by (simp split: if_splits)
  qed simp
  have "h \<in> set hs \<Longrightarrow> Rank (foldl ?step w hs) \<le> Rank (cn_Coverage (snd h))" for w
  proof (induction hs arbitrary: w)
    case (Cons d hs)
    show ?case
      using Cons.IH [of "?step w d"] Cons.prems start [of "?step w d" hs] by (auto split: if_splits)
  qed simp
  then show "h \<in> set hs \<Longrightarrow> Rank (weakest hs) \<le> Rank (cn_Coverage (snd h))"
    by (simp add: weakest_def)
qed

lemma weakest_mem: "weakest hs = CoverageEvidenced \<or> (\<exists>h \<in> set hs. weakest hs = cn_Coverage (snd h))"
proof -
  have "foldl (\<lambda>w h. if Rank (cn_Coverage (snd h)) < Rank w then cn_Coverage (snd h) else w) w hs \<in>
      insert w ((\<lambda>h. cn_Coverage (snd h)) ` set hs)" for w
    by (induction hs arbitrary: w) (fastforce split: if_splits)+
  then show ?thesis
    by (auto simp: weakest_def)
qed

lemma Join_not_Nil: "x \<in> set xs \<Longrightarrow> x \<noteq> [] \<Longrightarrow> Join xs sep \<noteq> []"
  by (induction xs sep rule: Join.induct) auto

lemma derived_note_not_Nil:
  assumes "weakest hs \<noteq> CoverageEvidenced" "snd ` set hs \<subseteq> set native"
  shows "derived_note row hs \<noteq> []"
proof -
  obtain h where h: "h \<in> set hs" "cn_Coverage (snd h) \<noteq> CoverageEvidenced"
    using weakest_mem [of hs] assms(1) by auto
  then have "cn_Note (snd h) \<noteq> []"
    using native_explained assms(2) by (auto simp: list_all_iff)
  with h have "fst h @ '': '' @ cn_Note (snd h) \<in> set (hub_notes hs)"
    by (auto simp: hub_notes_def)
  then show ?thesis
    unfolding derived_note_def by (intro Join_not_Nil [of "fst h @ '': '' @ cn_Note (snd h)"]) auto
qed

lemma emit_Some:
  assumes "f \<in> set Frameworks" "row \<in> set (nist800171 @ cjisv6)"
  shows "\<exists>c. emit hub_catalog f row = Some c \<and> cn_ID c = f @ '':'' @ cw_id row \<and>
    set (cn_Signals c) \<subseteq> \<Union> ((\<lambda>d. set (cn_Signals d)) ` set native) \<and>
    (cn_Coverage c \<noteq> CoverageEvidenced \<longrightarrow> cn_Note c \<noteq> [])"
proof -
  have parse: "MustParseID (f @ '':'' @ cw_id row) = Some (f @ '':'' @ cw_id row)"
    using ParseID_iff [OF assms(1)] row_controls_parse assms(2) by (simp add: list_all_iff MustParseID_def)
  have refer: "if cw_noneReason row \<noteq> [] then cw_hub row = [] else cw_hub row \<noteq> [] \<and> list_all hub_ref (cw_hub row)"
    using rows_refer assms(2) unfolding list_all_iff by blast
  show ?thesis
  proof (cases "cw_noneReason row = []")
    case True
    then obtain hs where hs: "hub_controls hub_catalog (cw_hub row) = Some hs" "snd ` set hs \<subseteq> set native"
      using refer hub_controls_Some [of "cw_hub row"] by auto
    then have "\<not> (weakest hs \<noteq> CoverageEvidenced \<and> derived_note row hs = [])"
      using derived_note_not_Nil by blast
    then show ?thesis
      using True refer parse hs derived_note_not_Nil [of hs row] by (auto simp: emit_def)
  next
    case False
    then show ?thesis
      using refer parse by (simp add: emit_def)
  qed
qed

lemma derive_rows: "derive hub = those (map (\<lambda>r. emit hub (fst r) (snd r)) derived_rows)"
proof -
  have "concat (map (\<lambda>row. [emit hub NIST800171 row, emit hub CMMCL2 row]) rows) =
      map (\<lambda>r. emit hub (fst r) (snd r)) (concat (map (\<lambda>row. [(NIST800171, row), (CMMCL2, row)]) rows))" for rows
    by (induction rows) simp_all
  then show ?thesis
    by (simp add: derive_def derived_rows_def o_def)
qed

lemma derived_rowsD:
  "r \<in> set derived_rows \<Longrightarrow> fst r \<in> {NIST800171, CMMCL2, CJISv6} \<and> snd r \<in> set (nist800171 @ cjisv6)"
  by (auto simp: derived_rows_def)

definition derived :: "Control list" where
  "derived = map (\<lambda>r. the (emit hub_catalog (fst r) (snd r))) derived_rows"

lemma derive_Some: "derive hub_catalog = Some derived"
proof -
  have "list_all (\<lambda>r. emit hub_catalog (fst r) (snd r) = Some (the (emit hub_catalog (fst r) (snd r)))) derived_rows"
  proof (unfold list_all_iff, intro ballI)
    fix r
    assume "r \<in> set derived_rows"
    then have "fst r \<in> set Frameworks" "snd r \<in> set (nist800171 @ cjisv6)"
      using derived_rowsD [of r] by (auto simp: Frameworks_def)
    then show "emit hub_catalog (fst r) (snd r) = Some (the (emit hub_catalog (fst r) (snd r)))"
      using emit_Some [of "fst r" "snd r"] by auto
  qed
  from those_Some [OF this] show ?thesis
    by (simp add: derive_rows derived_def)
qed

lemma derived_ids: "map cn_ID derived = map derived_id derived_rows"
proof (unfold derived_def map_map, intro map_cong refl)
  fix r
  assume "r \<in> set derived_rows"
  then have "fst r \<in> set Frameworks" "snd r \<in> set (nist800171 @ cjisv6)"
    using derived_rowsD [of r] by (auto simp: Frameworks_def)
  then show "(cn_ID \<circ> (\<lambda>r. the (emit hub_catalog (fst r) (snd r)))) r = derived_id r"
    using emit_Some [of "fst r" "snd r"] by (auto simp: derived_id_def)
qed

lemma add_derived_Some:
  "distinct (map fst m @ map cn_ID ds) \<Longrightarrow> add_derived m ds = Some (m @ map (\<lambda>d. (cn_ID d, d)) ds)"
proof (induction ds arbitrary: m)
  case (Cons d ds)
  have "add_derived (m @ [(cn_ID d, d)]) ds = Some ((m @ [(cn_ID d, d)]) @ map (\<lambda>d. (cn_ID d, d)) ds)"
    using Cons.prems by (intro Cons.IH) auto
  then show ?case
    using Cons.prems by auto
qed simp

lemma framework_of: "f \<in> set Frameworks \<Longrightarrow> ID_Framework (f @ CHR '':'' # c) = f"
  using framework_plain [of f] by (simp add: ID_Framework_def CutByte_first)

lemma derived_ids_distinct: "distinct (map derived_id derived_rows)"
proof -
  have rows: "distinct (concat (map (\<lambda>i. [NIST800171 @ '':'' @ i, CMMCL2 @ '':'' @ i]) is))" if "distinct is" for "is"
    using that by (induction "is") (auto simp: NIST800171_def CMMCL2_def)
  have "map derived_id derived_rows =
      concat (map (\<lambda>i. [NIST800171 @ '':'' @ i, CMMCL2 @ '':'' @ i]) (map cw_id nist800171)) @
      map (\<lambda>i. CJISv6 @ '':'' @ i) (map cw_id cjisv6)"
    by (simp add: derived_rows_def derived_id_def map_concat o_def)
  moreover have "distinct (map (\<lambda>i. CJISv6 @ '':'' @ i) (map cw_id cjisv6))"
    using controls_distinct(4) by (simp add: distinct_map inj_on_def)
  ultimately show ?thesis
    using rows [OF controls_distinct(3)] by (auto simp: NIST800171_def CMMCL2_def CJISv6_def)
qed

lemma catalog_ids_distinct: "distinct (map cn_ID native @ map cn_ID derived)"
proof -
  have "ID_Framework i \<in> {NIST80053, CISv8}" if "i \<in> set (map cn_ID native)" for i
    using that unfolding hub_ids by (auto simp: hub_ids_def framework_of Frameworks_def)
  moreover have "ID_Framework i \<in> {NIST800171, CMMCL2, CJISv6}" if "i \<in> set (map cn_ID derived)" for i
  proof -
    have "i \<in> derived_id ` set derived_rows"
      using that unfolding derived_ids set_map .
    then obtain r where r: "r \<in> set derived_rows" "i = derived_id r"
      by blast
    then have "fst r \<in> {NIST800171, CMMCL2, CJISv6}" "fst r \<in> set Frameworks"
      using derived_rowsD [of r] by (auto simp: Frameworks_def)
    then show ?thesis
      using framework_of [of "fst r" "cw_id (snd r)"] r(2) by (simp add: derived_id_def)
  qed
  moreover have "{NIST80053, CISv8} \<inter> {NIST800171, CMMCL2, CJISv6} = {}"
    by (simp add: NIST80053_def CISv8_def NIST800171_def CMMCL2_def CJISv6_def)
  ultimately have "set (map cn_ID native) \<inter> set (map cn_ID derived) = {}"
    by blast
  then show ?thesis
    using hub_ids_distinct derived_ids_distinct by (simp add: derived_ids)
qed

lemma init_catalog_Some: "init_catalog = Some (map (\<lambda>c. (cn_ID c, c)) (native @ derived))"
  using add_derived_Some [of hub_catalog derived] catalog_ids_distinct
  by (simp add: init_catalog_def native_ids_Some add_native_native derive_Some) (simp add: hub_catalog_def o_def image_image)

lemma the_catalog_eq: "the_catalog = map (\<lambda>c. (cn_ID c, c)) (native @ derived)"
  by (simp add: the_catalog_def init_catalog_Some)

definition control_ok :: "string \<times> Control \<Rightarrow> bool" where
  "control_ok e \<longleftrightarrow> cn_ID (snd e) = fst e \<and> ParseID (fst e) = Inr (fst e) \<and>
     list_all KnownSignal (cn_Signals (snd e)) \<and>
     (cn_Coverage (snd e) = CoverageEvidenced \<or> cn_Note (snd e) \<noteq> [])"

lemma derived_control_ok: "c \<in> set derived \<Longrightarrow> control_ok (cn_ID c, c)"
proof -
  assume "c \<in> set derived"
  then obtain r where r: "r \<in> set derived_rows" "c = the (emit hub_catalog (fst r) (snd r))"
    by (auto simp: derived_def)
  then have row: "fst r \<in> set Frameworks" "snd r \<in> set (nist800171 @ cjisv6)"
    using derived_rowsD [of r] by (auto simp: Frameworks_def)
  from emit_Some [OF row] r(2) have c: "cn_ID c = fst r @ '':'' @ cw_id (snd r)"
      "set (cn_Signals c) \<subseteq> \<Union> ((\<lambda>d. set (cn_Signals d)) ` set native)"
      "cn_Coverage c \<noteq> CoverageEvidenced \<longrightarrow> cn_Note c \<noteq> []"
    by auto
  moreover have "ParseID (cn_ID c) = Inr (cn_ID c)"
    using ParseID_iff [OF row(1)] row_controls_parse row(2) c(1) by (simp add: list_all_iff)
  moreover have "list_all KnownSignal (cn_Signals c)"
    using c(2) native_signals_known by (fastforce simp: list_all_iff)
  ultimately show ?thesis
    by (auto simp: control_ok_def)
qed

lemma the_catalog_ok: "list_all control_ok the_catalog"
proof -
  have "control_ok (cn_ID c, c)" if "c \<in> set native" for c
    using native_entry_ok that by (auto simp: list_all_iff control_ok_def entry_ok_def)
  then show ?thesis
    using derived_control_ok by (auto simp: the_catalog_eq list_all_iff)
qed

lemma the_catalog_distinct: "distinct (map fst the_catalog)"
  using catalog_ids_distinct by (simp add: the_catalog_eq o_def)

section \<open>Tags\<close>

lemma set_ForSignal: "set (ForSignal s) = {i. \<exists>c. Lookup i = Some c \<and> s \<in> set (cn_Signals c)}"
proof -
  have "Lookup i = Some c \<longleftrightarrow> (i, c) \<in> set the_catalog" for i c
    using the_catalog_distinct by (simp add: Lookup_def)
  then show ?thesis
    by (force simp: ForSignal_def SortIDs_def)
qed

lemma distinct_ForSignal: "distinct (ForSignal s)"
  using the_catalog_distinct
  by (auto simp: ForSignal_def SortIDs_def distinct_map inj_on_def)

lemma tag_steps:
  "distinct ids \<Longrightarrow> distinct (foldl tag_step ids extra) \<and>
   set (foldl tag_step ids extra) = set ids \<union> {i. \<exists>raw \<in> set extra. ParseID raw = Inr i}"
proof (induction extra arbitrary: ids)
  case (Cons raw extra)
  have "distinct (tag_step ids raw)" "set (tag_step ids raw) = set ids \<union> {i. ParseID raw = Inr i}"
    using Cons.prems by (auto simp: tag_step_def split: sum.splits)
  then show ?case
    using Cons.IH [of "tag_step ids raw"] by auto
qed simp

section \<open>Properties\<close>

text \<open>C20: The package initialises. The catalog is built without one of the panics of
  start-up; in it every identifier is its own canonical form, every signal is known, and every
  control that is not fully evidenced says why.\<close>

theorem catalog_initialises:
  "init_catalog = Some the_catalog \<and> list_all control_ok the_catalog \<and> distinct (map fst the_catalog)"
  using the_catalog_ok the_catalog_distinct by (simp add: the_catalog_def init_catalog_Some)

text \<open>A derived control claims no more than its weakest source. When a row of a crosswalk
  becomes a control, its coverage is that of one of its hub controls and of none a stronger
  one, its signals are all of theirs, and it names them all.\<close>

theorem emit_weakest:
  assumes "emit hub f row = Some c" "cw_noneReason row = []"
  shows "\<exists>hs. hub_controls hub (cw_hub row) = Some hs \<and>
    (\<forall>h \<in> set hs. Rank (cn_Coverage c) \<le> Rank (cn_Coverage (snd h))) \<and>
    (\<exists>h \<in> set hs. cn_Coverage c = cn_Coverage (snd h)) \<and>
    set (cn_Signals c) = (\<Union>h \<in> set hs. set (cn_Signals (snd h))) \<and>
    set (cn_DerivedFrom c) = fst ` set hs"
proof -
  obtain hs where hs: "hub_controls hub (cw_hub row) = Some hs" "cw_hub row \<noteq> []"
    and c: "cn_Coverage c = weakest hs" "set (cn_DerivedFrom c) = fst ` set hs"
      "set (cn_Signals c) = (\<Union>h \<in> set hs. set (cn_Signals (snd h)))"
    using assms by (auto simp: emit_def SortIDs_def split: option.splits if_splits)
  have "length hs = length (cw_hub row)"
    using those_SomeD [OF hs(1) [unfolded hub_controls_def]] by (metis length_map)
  then obtain h where "h \<in> set hs"
    using hs(2) by (cases hs) auto
  moreover from this have "Rank (weakest hs) \<le> Rank (cn_Coverage (snd h))"
    by (rule weakest_le)
  ultimately have "\<exists>h \<in> set hs. weakest hs = cn_Coverage (snd h)"
    using weakest_mem [of hs] by (cases "cn_Coverage (snd h)") (auto intro: bexI [of _ h])
  then show ?thesis
    using hs(1) c weakest_le [of _ hs] by auto
qed

definition ex_hub :: catalog where
  "ex_hub = map (\<lambda>(i, cov). (i, \<lparr>cn_ID = i, cn_Title = ''t'', cn_Family = ''AU'', cn_Coverage = cov,
     cn_Signals = [SignalAuditChain], cn_Note = ''n'', cn_DerivedFrom = []\<rparr>))
     [(''nist-800-53:AU-2'', CoveragePartial), (''nist-800-53:AU-9'', CoverageEvidenced)]"

definition ex_row :: crosswalk where
  "ex_row = maps_to ''3.3.1'' ''Audit'' [''nist-800-53:AU-2'', ''nist-800-53:AU-9''] ''t'' []"

theorem emit_weakest_witness: "\<exists>c. emit ex_hub NIST800171 ex_row = Some c \<and> Rank (cn_Coverage c) \<le> 1"
proof -
  have "emit ex_hub NIST800171 ex_row \<noteq> None"
    by code_simp
  then obtain c where c: "emit ex_hub NIST800171 ex_row = Some c"
    by auto
  moreover have "cw_noneReason ex_row = []"
    by (simp add: ex_row_def maps_to_def)
  moreover have "map_option (map (\<lambda>h. cn_Coverage (snd h))) (hub_controls ex_hub (cw_hub ex_row)) =
      Some [CoveragePartial, CoverageEvidenced]"
    by code_simp
  then obtain h hs where hs: "hub_controls ex_hub (cw_hub ex_row) = Some (h # hs)" "cn_Coverage (snd h) = CoveragePartial"
    by (auto simp: map_eq_Cons_conv)
  ultimately have "Rank (cn_Coverage c) \<le> Rank (cn_Coverage (snd h))"
    using emit_weakest [OF c] by auto
  then show ?thesis
    using c hs(2) by auto
qed

text \<open>C21: A tag is canonical. The identifiers stored on a record are sorted and without
  repetition, and they are the controls its signal contributes to together with the extra
  identifiers that parse, in their canonical form; the ones that do not parse are dropped.\<close>

theorem Tag_exact:
  "sorted (Tag signal extra) \<and> distinct (Tag signal extra) \<and>
   set (Tag signal extra) = {i. \<exists>c. Lookup i = Some c \<and> signal \<in> set (cn_Signals c)} \<union>
     {i. \<exists>raw \<in> set extra. ParseID raw = Inr i}"
  using tag_steps [OF distinct_ForSignal, of signal extra] sorted_sort_strings [of "foldl tag_step (ForSignal signal) extra"]
  by (simp add: Tag_def SortIDs_def set_ForSignal)

theorem Tag_exact_witness: "''cis-v8:8.2'' \<in> set (Tag [] ['' CIS-v8: 8.2''])"
proof -
  have "ParseID '' CIS-v8: 8.2'' = Inr ''cis-v8:8.2''"
    by code_simp
  then show ?thesis
    using Tag_exact [of "[]" "['' CIS-v8: 8.2'']"] by auto
qed

text \<open>C22: Parsing an identifier is stable and well-typed. What \<open>ParseID\<close> returns is a known
  framework, a colon and a usable control part, and parses to itself.\<close>

theorem ParseID_type:
  assumes "ParseID raw = Inr i"
  shows "ParseID i = Inr i \<and> KnownFramework (ID_Framework i) \<and> MatchString controlPattern (ID_Control i) \<and>
    i = ID_Framework i @ '':'' @ ID_Control i"
  using ParseID_canonical [OF assms] ParseID_parts [OF assms] by simp

theorem ParseID_type_witness: "ParseID ''nist-800-53:AU-9(3)'' = Inr ''nist-800-53:AU-9(3)''"
proof -
  have "ParseID '' NIST-800-53 : AU-9(3) '' = Inr ''nist-800-53:AU-9(3)''"
    by code_simp
  from ParseID_type [OF this] show ?thesis
    by simp
qed

text \<open>Two facts about the tables: six of the thirteen policy areas of CJIS carry a reason why they
  cannot be evidenced, and the action a surface scan is chained under has no tag.\<close>

lemma cjis_areas_without_evidence:
  "length cjisv6 = 13 \<and> length (filter (\<lambda>row. cw_noneReason row \<noteq> []) cjisv6) = 6"
  by (simp add: cjisv6_def maps_to_def not_evidenced_def)

lemma surface_scans_untagged:
  "TagAuditAction ''surface_scan_recorded'' = [] \<and> AuditActionSignalName ''surface_scan_recorded'' = []"
  by (simp add: TagAuditAction_def AuditActionSignalName_def SignalsForAuditAction_def auditActionSignals_def)

end
