(* ===== verification/Audit_Store.thy ===== *)
theory Audit_Store
  imports Audit_Chain Controls
begin

text \<open>
  The audit log in the database: the audit part of internal/storepg/store.go over the tables of
  migration 006. A row of \<open>audit_log\<close> is a chained entry with its tags; rows older than the
  migration have no sequence number, are excluded by every query, and are not in the model.
  \<open>jsonb\<close> is what Postgres makes of a JSON text (\<open>$1::jsonb::text\<close>), an argument: \<open>None\<close> if
  it is not JSON. Times are stored with microseconds. Each operation is one transaction under
  the chain's lock, so the operations of concurrent callers are a sequence of steps.
\<close>

section \<open>The operations\<close>

record audit_row =
  au_entry :: Entry
  au_signal :: string
  au_control_ids :: "string list"

record audit_db =
  db_log :: "audit_row list"
  db_checkpoints :: "Checkpoint list"

definition empty_log :: audit_db where
  "empty_log = \<lparr>db_log = [], db_checkpoints = []\<rparr>"

definition Microseconds :: "time \<Rightarrow> time" where
  "Microseconds t = t - t mod 1000"

text \<open>The rows in the order of their sequence numbers, and the newest of them.\<close>

definition seq_less :: "Entry \<Rightarrow> Entry \<Rightarrow> bool" where
  "seq_less a b \<longleftrightarrow> en_Seq a < en_Seq b"

definition chain_rows :: "audit_db \<Rightarrow> Entry list" where
  "chain_rows st = go_sort seq_less (map au_entry (db_log st))"

definition AuditChainTip :: "audit_db \<Rightarrow> int \<times> string" where
  "AuditChainTip st =
     (if chain_rows st = [] then (0, Genesis)
      else (en_Seq (last (chain_rows st)), en_EntryHash (last (chain_rows st))))"

text \<open>\<open>auditInTx\<close>; \<open>raw\<close> is the marshalled detail.\<close>

definition new_entry :: "audit_db \<Rightarrow> time \<Rightarrow> string \<Rightarrow> string \<Rightarrow> string \<Rightarrow> string \<Rightarrow> Entry" where
  "new_entry st now actor action deviceID detailText =
     (case AuditChainTip st of (prevSeq, prevHash) \<Rightarrow>
        Link prevHash \<lparr>en_Seq = prevSeq + 1, en_At = Microseconds now, en_Actor = actor, en_Action = action,
          en_DeviceID = deviceID, en_Detail = detailText, en_PrevHash = [], en_EntryHash = []\<rparr>)"

definition auditInTx ::
  "(string \<Rightarrow> string option) \<Rightarrow> time \<Rightarrow> string \<Rightarrow> string \<Rightarrow> string \<Rightarrow> string \<Rightarrow> audit_db \<Rightarrow> string + audit_db" where
  "auditInTx jsonb now actor action deviceID raw st =
     (case jsonb (if raw = [] then ''{}'' else raw) of
        None \<Rightarrow> Inl ''invalid input syntax for type json''
      | Some detailText \<Rightarrow>
          let e = new_entry st now actor action deviceID detailText
          in (case jsonb detailText of
                None \<Rightarrow> Inl ''invalid input syntax for type json''
              | Some stored \<Rightarrow>
                  Inr (st\<lparr>db_log := db_log st @
                    [\<lparr>au_entry = e\<lparr>en_At := Microseconds (en_At e), en_Detail := stored\<rparr>,
                      au_signal = AuditActionSignalName action, au_control_ids = TagAuditAction action\<rparr>]\<rparr>)))"

definition ListAuditChain :: "audit_db \<Rightarrow> int \<Rightarrow> int \<Rightarrow> Entry list" where
  "ListAuditChain st fromSeq limit =
     take (nat (if limit \<le> 0 then 1000 else limit)) (filter (\<lambda>e. fromSeq \<le> en_Seq e) (chain_rows st))"

definition auditChainPage :: int where "auditChainPage = 1000"

lemma filter_fewer:
  "x \<in> set xs \<Longrightarrow> P x \<Longrightarrow> \<not> Q x \<Longrightarrow> (\<And>y. Q y \<Longrightarrow> P y) \<Longrightarrow> length (filter Q xs) < length (filter P xs)"
proof (induction xs)
  case (Cons y xs)
  have "length (filter Q xs) \<le> length (filter P xs)"
    using Cons.prems(4) by (induction xs) auto
  then show ?case
    using Cons by (auto simp: less_Suc_eq_le)
qed simp

text \<open>The loop of \<open>VerifyAuditChain\<close>; \<open>first\<close> is the test \<open>seen == 0\<close>.\<close>

function verify_pages :: "audit_db \<Rightarrow> string \<Rightarrow> int \<Rightarrow> bool \<Rightarrow> TamperError option" where
  "verify_pages st prevHash fromSeq first =
     (let entries = ListAuditChain st fromSeq auditChainPage
      in if entries = [] then None
         else if first \<and> en_Seq (hd entries) \<noteq> 1 then
           Some (tampered (hd entries) ''chain does not start at sequence 1'')
         else case VerifyFrom prevHash entries of
                Some t \<Rightarrow> Some t
              | None \<Rightarrow>
                  if int (length entries) < auditChainPage then None
                  else verify_pages st (en_EntryHash (last entries)) (en_Seq (last entries) + 1) False)"
  by pat_completeness auto
termination
proof (relation "measure (\<lambda>(st, _, fromSeq, _). length (filter (\<lambda>e. fromSeq \<le> en_Seq e) (chain_rows st)))", goal_cases)
  case (2 st prevHash fromSeq first entries)
  then have "last entries \<in> set (filter (\<lambda>e. fromSeq \<le> en_Seq e) (chain_rows st))"
    unfolding ListAuditChain_def by (metis in_set_takeD last_in_set)
  then show ?case
    by (auto intro!: filter_fewer [of "last entries"])
qed simp

definition VerifyAuditChain :: "audit_db \<Rightarrow> TamperError option" where
  "VerifyAuditChain st = verify_pages st Genesis 1 True"

text \<open>\<open>AppendCheckpoint\<close>: the signed tip, or nothing if the chain is empty.\<close>

definition AppendCheckpoint ::
  "('priv \<Rightarrow> string \<Rightarrow> string) \<Rightarrow> 'priv \<Rightarrow> string \<Rightarrow> time \<Rightarrow> audit_db \<Rightarrow> audit_db \<times> Checkpoint option" where
  "AppendCheckpoint ed_sign priv keyID now st =
     (if chain_rows st = [] then (st, None)
      else
        let cp = SignCheckpoint ed_sign priv
              \<lparr>ck_ThroughSeq = fst (AuditChainTip st), ck_EntryHash = snd (AuditChainTip st), ck_At = Microseconds now,
               ck_SigningKeyID = keyID, ck_Signature = []\<rparr>
        in (st\<lparr>db_checkpoints := db_checkpoints st @ [cp\<lparr>ck_At := Microseconds (ck_At cp)\<rparr>]\<rparr>, Some cp))"

definition LatestCheckpoint :: "audit_db \<Rightarrow> Checkpoint option" where
  "LatestCheckpoint st =
     (case go_sort (\<lambda>a b. ck_ThroughSeq b < ck_ThroughSeq a) (db_checkpoints st) of [] \<Rightarrow> None | c # _ \<Rightarrow> Some c)"

definition OldestChainedEntry :: "audit_db \<Rightarrow> time option" where
  "OldestChainedEntry st = (case chain_rows st of [] \<Rightarrow> None | e # _ \<Rightarrow> Some (en_At e))"

section \<open>Paging\<close>

declare verify_pages.simps [simp del]

interpretation seqs: strict_weak seq_less
  by unfold_locales (auto simp: seq_less_def)

text \<open>The rows the chain starts with, which is what paging from sequence 1 sees.\<close>

definition chained :: "audit_db \<Rightarrow> Entry list" where
  "chained st = filter (\<lambda>e. 1 \<le> en_Seq e) (chain_rows st)"

lemma verify_loop_append:
  "verify_loop p s (xs @ ys) =
     (case verify_loop p s xs of
        Some t \<Rightarrow> Some t
      | None \<Rightarrow> if xs = [] then verify_loop p s ys
               else verify_loop (en_EntryHash (last xs)) (Some (en_Seq (last xs))) ys)"
  by (induction xs arbitrary: p s) (auto split: option.split)

lemma verify_loop_next: "ys \<noteq> [] \<longrightarrow> en_Seq (hd ys) = s + 1 \<Longrightarrow> verify_loop p (Some s) ys = verify_loop p None ys"
  by (cases ys) auto

lemma dense_increasing: "dense es \<Longrightarrow> sorted_wrt seq_less es"
proof (induction es)
  case (Cons e es)
  then have "sorted_wrt seq_less es" "es \<noteq> [] \<longrightarrow> en_Seq (hd es) = en_Seq e + 1"
    by (simp_all add: dense_Cons)
  then show ?case
    by (cases es) (auto simp: seq_less_def [abs_def])
qed simp

lemma rows_after_last:
  assumes "sorted_wrt seq_less (xs @ ys)" "xs \<noteq> []"
  shows "filter (\<lambda>e. en_Seq (last xs) + 1 \<le> en_Seq e) (xs @ ys) = ys"
proof -
  obtain zs z where xs: "xs = zs @ [z]"
    using assms(2) by (cases xs rule: rev_cases) auto
  have "filter (\<lambda>e. en_Seq z + 1 \<le> en_Seq e) zs = []" "filter (\<lambda>e. en_Seq z + 1 \<le> en_Seq e) ys = ys"
    using assms(1) by (auto simp: xs sorted_wrt_append seq_less_def filter_empty_conv filter_id_conv)
  then show ?thesis
    by (simp add: xs)
qed

text \<open>On a dense table paging gives what one pass over all the rows gives.\<close>

lemma verify_pages_dense:
  assumes "filter (\<lambda>e. fromSeq \<le> en_Seq e) (chain_rows st) = rows" "dense rows"
  shows "verify_pages st prev fromSeq first =
    (if rows \<noteq> [] \<and> first \<and> en_Seq (hd rows) \<noteq> 1 then Some (tampered (hd rows) ''chain does not start at sequence 1'')
     else verify_loop prev None rows)"
  using assms
proof (induction st prev fromSeq first arbitrary: rows rule: verify_pages.induct)
  case (1 st prev fromSeq first)
  define page where "page = take 1000 rows"
  define rest where "rest = drop 1000 rows"
  have rows: "rows = page @ rest"
    by (simp add: page_def rest_def)
  have page: "ListAuditChain st fromSeq auditChainPage = page"
    by (simp add: ListAuditChain_def auditChainPage_def page_def 1(2))
  show ?case
  proof (cases "page = [] \<or> first \<and> en_Seq (hd page) \<noteq> 1 \<or> VerifyFrom prev page \<noteq> None")
    case True
    have "page = [] \<longleftrightarrow> rows = []"
      by (simp add: page_def)
    moreover have "page \<noteq> [] \<Longrightarrow> hd page = hd rows"
      by (simp add: rows)
    moreover have "verify_loop prev None rows = VerifyFrom prev page" if "VerifyFrom prev page \<noteq> None"
      using that unfolding rows verify_loop_append VerifyFrom_def by auto
    ultimately show ?thesis
      using True unfolding verify_pages.simps [of st prev fromSeq first] Let_def page
      by (auto simp: VerifyFrom_def)
  next
    case False
    then have ok: "page \<noteq> []" "\<not> (first \<and> en_Seq (hd page) \<noteq> 1)" "VerifyFrom prev page = None"
      by auto
    let ?last = "last page"
    have next_seq: "rest \<noteq> [] \<longrightarrow> en_Seq (hd rest) = en_Seq ?last + 1"
      using 1(3) ok(1) by (simp add: rows dense_append)
    have all: "verify_loop prev None rows = verify_loop (en_EntryHash ?last) None rest"
      unfolding rows verify_loop_append using ok verify_loop_next [OF next_seq] by (simp add: VerifyFrom_def)
    show ?thesis
    proof (cases "int (length page) < auditChainPage")
      case True
      then have "rest = []"
        by (simp add: page_def rest_def auditChainPage_def)
      then show ?thesis
        using ok True all unfolding verify_pages.simps [of st prev fromSeq first] Let_def page
        by (simp add: rows)
    next
      case False
      have "fromSeq \<le> en_Seq ?last"
      proof -
        have "?last \<in> set (filter (\<lambda>e. fromSeq \<le> en_Seq e) (chain_rows st))"
          using ok(1) unfolding 1(2) rows by simp
        then show ?thesis
          by simp
      qed
      then have "filter (\<lambda>e. en_Seq ?last + 1 \<le> en_Seq e) (chain_rows st) =
          filter (\<lambda>e. en_Seq ?last + 1 \<le> en_Seq e) rows"
        unfolding 1(2) [symmetric] filter_filter by (intro filter_cong) auto
      also have "\<dots> = rest"
        using rows_after_last [OF _ ok(1)] dense_increasing [OF 1(3)] by (simp add: rows)
      finally have "verify_pages st (en_EntryHash ?last) (en_Seq ?last + 1) False = verify_loop (en_EntryHash ?last) None rest"
        using 1(1) [OF refl, unfolded page, OF ok(1,2,3) False] 1(3) by (simp add: rows dense_append)
      then show ?thesis
        using ok False all unfolding verify_pages.simps [of st prev fromSeq first] Let_def page
        by (auto simp: rows)
    qed
  qed
qed

lemma VerifyAuditChain_dense: "dense (chained st) \<Longrightarrow> VerifyAuditChain st = VerifyChain (chained st)"
  using verify_pages_dense [of 1 st "chained st" Genesis True]
  by (auto simp: VerifyAuditChain_def chained_def VerifyChain_def VerifyFrom_def split: list.split)

section \<open>The states the log can reach\<close>

text \<open>What is relied on outside the sources: Postgres prints a \<open>jsonb\<close> value in a form that it
  reads and prints unchanged, and Ed25519 accepts the signatures of its own key.\<close>

definition jsonb_canonical :: "(string \<Rightarrow> string option) \<Rightarrow> bool" where
  "jsonb_canonical jsonb \<longleftrightarrow> (\<forall>x y. jsonb x = Some y \<longrightarrow> jsonb y = Some y)"

definition key_pair ::
  "('priv \<Rightarrow> string \<Rightarrow> string) \<Rightarrow> ('pub \<Rightarrow> string \<Rightarrow> string \<Rightarrow> bool) \<Rightarrow> 'priv \<Rightarrow> 'pub \<Rightarrow> bool" where
  "key_pair ed_sign ed_verify priv pub \<longleftrightarrow> (\<forall>m. ed_verify pub m (ed_sign priv m))"

inductive audit_reachable ::
  "(string \<Rightarrow> string option) \<Rightarrow> ('priv \<Rightarrow> string \<Rightarrow> string) \<Rightarrow> 'priv \<Rightarrow> audit_db \<Rightarrow> bool" for jsonb ed_sign priv where
  empty: "audit_reachable jsonb ed_sign priv empty_log"
| audit: "audit_reachable jsonb ed_sign priv st \<Longrightarrow> auditInTx jsonb now actor action deviceID raw st = Inr st' \<Longrightarrow>
    audit_reachable jsonb ed_sign priv st'"
| checkpoint: "audit_reachable jsonb ed_sign priv st \<Longrightarrow> AppendCheckpoint ed_sign priv keyID now st = (st', c) \<Longrightarrow>
    audit_reachable jsonb ed_sign priv st'"

definition tags_ok :: "audit_row \<Rightarrow> bool" where
  "tags_ok r \<longleftrightarrow> au_signal r = AuditActionSignalName (en_Action (au_entry r)) \<and>
     au_control_ids r = TagAuditAction (en_Action (au_entry r))"

definition attests :: "Entry list \<Rightarrow> Checkpoint \<Rightarrow> bool" where
  "attests es c \<longleftrightarrow> (\<exists>e \<in> set es. en_Seq e = ck_ThroughSeq c \<and> en_EntryHash e = ck_EntryHash c)"

definition log_ok :: "('pub \<Rightarrow> string \<Rightarrow> string \<Rightarrow> bool) \<Rightarrow> 'pub \<Rightarrow> audit_db \<Rightarrow> bool" where
  "log_ok ed_verify pub st \<longleftrightarrow>
     VerifyChain (map au_entry (db_log st)) = None \<and> list_all tags_ok (db_log st) \<and>
     list_all (\<lambda>c. VerifyCheckpoint ed_verify pub c = None \<and> attests (map au_entry (db_log st)) c) (db_checkpoints st)"

lemma go_sort_increasing: "sorted_wrt seq_less xs \<Longrightarrow> go_sort seq_less xs = xs"
proof (induction xs)
  case (Cons x xs)
  then have "\<not> seq_less y x" if "y \<in> set xs" for y
    using that by (auto simp: seq_less_def)
  then show ?case
    using Cons by (simp add: go_sort_Cons insert_by_first)
qed simp

lemma chain_rows_verified:
  "VerifyChain (map au_entry (db_log st)) = None \<Longrightarrow> chain_rows st = map au_entry (db_log st)"
  by (simp add: chain_rows_def VerifyChain_link go_sort_increasing dense_increasing)

lemma Microseconds_idem [simp]: "Microseconds (Microseconds t) = Microseconds t"
  by (simp add: Microseconds_def mod_diff_eq [symmetric])

lemma new_entry_fields:
  "en_Detail (new_entry st now actor action d dtext) = dtext" "en_At (new_entry st now actor action d dtext) = Microseconds now"
  "en_Action (new_entry st now actor action d dtext) = action"
  by (simp_all add: new_entry_def Link_def Let_def split: prod.split)

text \<open>Appending the new entry to a chain that verifies gives one that verifies.\<close>

lemma VerifyChain_snoc:
  assumes "VerifyChain es = None" "chain_rows st = es"
  shows "VerifyChain (es @ [new_entry st now actor action d dtext]) = None"
proof -
  let ?e = "new_entry st now actor action d dtext"
  have "Link (snd (AuditChainTip st)) ?e = ?e" "en_Seq ?e = fst (AuditChainTip st) + 1"
    by (auto simp: new_entry_def Link_fixed split: prod.split)
  then show ?thesis
    using assms by (auto simp: VerifyChain_link link_all_fixed_append dense_append AuditChainTip_def hd_append)
qed

lemma auditInTx_log:
  assumes "auditInTx jsonb now actor action d raw st = Inr st'" and canonical: "jsonb_canonical jsonb"
  shows "\<exists>dtext. db_log st' = db_log st @ [\<lparr>au_entry = new_entry st now actor action d dtext,
      au_signal = AuditActionSignalName action, au_control_ids = TagAuditAction action\<rparr>] \<and>
    db_checkpoints st' = db_checkpoints st"
proof -
  obtain dtext where dtext: "jsonb (if raw = [] then ''{}'' else raw) = Some dtext"
    using assms(1) by (auto simp: auditInTx_def split: option.splits)
  have "jsonb dtext = Some dtext"
    using canonical dtext by (simp add: jsonb_canonical_def)
  moreover have same: "(new_entry st now actor action d dtext)\<lparr>en_At := Microseconds now, en_Detail := dtext\<rparr> =
      new_entry st now actor action d dtext"
    using new_entry_fields [of st now actor action d dtext] by (cases "new_entry st now actor action d dtext") simp
  ultimately show ?thesis
    using assms(1) dtext by (intro exI [of _ dtext]) (auto simp: auditInTx_def Let_def new_entry_fields same)
qed

lemma attests_mono: "attests es c \<Longrightarrow> set es \<subseteq> set es' \<Longrightarrow> attests es' c"
  by (auto simp: attests_def)

lemma audit_reachable_ok:
  assumes "audit_reachable jsonb ed_sign priv st"
    and canonical: "jsonb_canonical jsonb"
    and pair: "key_pair ed_sign ed_verify priv pub"
  shows "log_ok ed_verify pub st"
  using assms(1)
proof (induction rule: audit_reachable.induct)
  case empty
  then show ?case
    by (simp add: log_ok_def empty_log_def VerifyChain_def)
next
  case (audit st now actor action deviceID raw st')
  then obtain dtext where st': "db_log st' = db_log st @ [\<lparr>au_entry = new_entry st now actor action deviceID dtext,
        au_signal = AuditActionSignalName action, au_control_ids = TagAuditAction action\<rparr>]"
      "db_checkpoints st' = db_checkpoints st"
    using auditInTx_log [OF audit.hyps(2) canonical] by blast
  then show ?case
    using audit.IH VerifyChain_snoc [OF _ chain_rows_verified, of st now actor action deviceID dtext]
    by (auto simp: log_ok_def tags_ok_def new_entry_fields list_all_iff elim!: attests_mono)
next
  case (checkpoint st keyID now st' c)
  show ?case
  proof (cases "chain_rows st = []")
    case True
    then show ?thesis
      using checkpoint by (simp add: AppendCheckpoint_def)
  next
    case False
    define cp where "cp = SignCheckpoint ed_sign priv
        \<lparr>ck_ThroughSeq = fst (AuditChainTip st), ck_EntryHash = snd (AuditChainTip st), ck_At = Microseconds now,
         ck_SigningKeyID = keyID, ck_Signature = []\<rparr>"
    have same: "cp\<lparr>ck_At := Microseconds (ck_At cp)\<rparr> = cp"
      by (simp add: cp_def SignCheckpoint_def)
    have st': "db_log st' = db_log st" "db_checkpoints st' = db_checkpoints st @ [cp]"
      using checkpoint.hyps(2) False same by (auto simp: AppendCheckpoint_def Let_def cp_def)
    have "chain_rows st = map au_entry (db_log st)"
      using checkpoint.IH by (simp add: log_ok_def chain_rows_verified)
    then have "attests (map au_entry (db_log st)) cp"
      using False last_in_set [OF False] by (auto simp: attests_def cp_def SignCheckpoint_def AuditChainTip_def)
    moreover have "VerifyCheckpoint ed_verify pub cp = None"
      unfolding cp_def by (rule SignCheckpoint_verifies) (use pair in \<open>simp add: key_pair_def\<close>)
    ultimately show ?thesis
      using checkpoint.IH by (simp add: log_ok_def st')
  qed
qed

lemma log_ok_verifies: "log_ok ed_verify pub st \<Longrightarrow> VerifyAuditChain st = None"
proof -
  assume "log_ok ed_verify pub st"
  then have ok: "VerifyChain (map au_entry (db_log st)) = None" and rows: "chain_rows st = map au_entry (db_log st)"
    by (simp_all add: log_ok_def chain_rows_verified)
  have "1 \<le> en_Seq e" if "e \<in> set (chain_rows st)" for e
  proof -
    have "sorted_wrt seq_less (chain_rows st)" "chain_rows st \<noteq> [] \<longrightarrow> en_Seq (hd (chain_rows st)) = 1"
      using ok by (simp_all add: rows VerifyChain_link dense_increasing)
    then show ?thesis
      using that by (cases "chain_rows st") (auto simp: seq_less_def)
  qed
  then have "chained st = chain_rows st"
    by (simp add: chained_def filter_id_conv)
  then show ?thesis
    using VerifyAuditChain_dense [of st] ok by (simp add: rows VerifyChain_link)
qed

text \<open>A chain up to one of its entries.\<close>

lemma chain_upto:
  assumes "link_all p es = es" "dense es" "e \<in> set es"
  shows "\<exists>us. filter (\<lambda>d. en_Seq d \<le> en_Seq e) es = us @ [e] \<and> link_all p (us @ [e]) = us @ [e]"
proof -
  obtain us vs where es: "es = us @ e # vs"
    using assms(3) by (meson split_list)
  have "sorted_wrt seq_less es"
    by (rule dense_increasing [OF assms(2)])
  then have "filter (\<lambda>d. en_Seq d \<le> en_Seq e) us = us" "filter (\<lambda>d. en_Seq d \<le> en_Seq e) vs = []"
    by (force simp: es sorted_wrt_append seq_less_def filter_id_conv filter_empty_conv)+
  moreover have "link_all p (us @ [e]) = us @ [e]"
    using assms(1) link_all_fixed_append [of p "us @ [e]" vs] by (simp add: es)
  ultimately show ?thesis
    by (simp add: es)
qed

lemma sorted_filter: "sorted_wrt P xs \<Longrightarrow> sorted_wrt P (filter Q xs)"
  by (induction xs) auto

section \<open>What paging misses\<close>

lemma link_all_idem [simp]: "link_all p (link_all p es) = link_all p es"
proof (induction es arbitrary: p)
  case (Cons e es)
  have "Link p (Link p e) = Link p e"
    by (simp add: Link_fixed)
  then show ?case
    using Cons by simp
qed simp

lemma map_Seq_link_all [simp]: "map en_Seq (link_all p es) = map en_Seq es"
  by (induction es arbitrary: p) simp_all

lemma dense_map_Seq: "dense es \<longleftrightarrow> (\<forall>i. Suc i < length (map en_Seq es) \<longrightarrow> map en_Seq es ! Suc i = map en_Seq es ! i + 1)"
  by (simp add: dense_def)

lemma dense_link_all [simp]: "dense (link_all p es) \<longleftrightarrow> dense es"
  unfolding dense_map_Seq map_Seq_link_all ..

definition plain_row :: "Entry \<Rightarrow> audit_row" where
  "plain_row e = \<lparr>au_entry = e, au_signal = AuditActionSignalName (en_Action e), au_control_ids = TagAuditAction (en_Action e)\<rparr>"

definition gap_log :: audit_db where
  "gap_log = \<lparr>db_log = map plain_row (link_all Genesis (map ex_entry ([1..1000] @ [1002]))), db_checkpoints = []\<rparr>"

lemma ex_entry_Seq [simp]: "en_Seq (ex_entry s) = s"
  by (simp add: ex_entry_def)

text \<open>Between two pages the sequence is not compared: a table from which entry 1001 was removed, and
  entry 1002 linked to entry 1000 instead, passes the check of the log although one pass over
  the same rows (\<open>auditchain.Verify\<close>) reports the removal.\<close>

lemma page_boundary_gap: "VerifyAuditChain gap_log = None \<and> VerifyChain (chained gap_log) \<noteq> None"
proof -
  let ?first = "link_all Genesis (map ex_entry [1..1000])"
  let ?e = "Link (en_EntryHash (last ?first)) (ex_entry 1002)"
  have seqs: "map en_Seq ?first = [1..1000]"
    by (simp add: o_def del: upto_rec_numeral)
  have len: "length ?first = 1000"
    by simp
  then have "?first \<noteq> []"
    by (metis length_0_conv zero_neq_numeral)
  then have entries: "map au_entry (db_log gap_log) = ?first @ [?e]"
    by (simp add: gap_log_def plain_row_def o_def link_all_append del: upto_rec_numeral)
  have range: "1 \<le> en_Seq e \<and> en_Seq e \<le> 1000" if "e \<in> set ?first" for e
  proof -
    have "en_Seq e \<in> set (map en_Seq ?first)"
      unfolding set_map using that by (rule imageI)
    then show ?thesis
      unfolding seqs by simp
  qed
  have dense: "dense ?first"
    unfolding dense_link_all by (simp add: dense_def del: upto_rec_numeral)
  have sorted: "sorted_wrt seq_less (?first @ [?e])"
    using dense_increasing [OF dense] range by (fastforce simp: sorted_wrt_append seq_less_def)
  have rows: "chain_rows gap_log = ?first @ [?e]"
    unfolding chain_rows_def entries by (rule go_sort_increasing [OF sorted])
  have chained: "chained gap_log = ?first @ [?e]"
    unfolding chained_def rows using range by (auto simp: filter_id_conv)
  have last: "en_Seq (last ?first) = 1000"
  proof -
    have "en_Seq (last ?first) = last (map en_Seq ?first)"
      by (rule last_map [OF \<open>?first \<noteq> []\<close>, symmetric])
    then show ?thesis
      unfolding seqs by (simp add: upto_rec2 [of 1 1000] del: upto_rec_numeral)
  qed
  have hd: "en_Seq (hd ?first) = 1"
    by (simp add: upto_rec1 [of 1 1000] del: upto_rec_numeral)
  have page1: "ListAuditChain gap_log 1 auditChainPage = ?first"
    using range len by (simp add: ListAuditChain_def auditChainPage_def rows filter_id_conv del: upto_rec_numeral)
  have page2: "ListAuditChain gap_log 1001 auditChainPage = [?e]"
  proof -
    have "filter (\<lambda>e. 1001 \<le> en_Seq e) ?first = []"
      using range by (fastforce simp: filter_empty_conv)
    then show ?thesis
      by (simp add: ListAuditChain_def auditChainPage_def rows)
  qed
  have "verify_pages gap_log (en_EntryHash (last ?first)) 1001 False = None"
    unfolding verify_pages.simps [of gap_log _ 1001] Let_def page2
    by (simp add: VerifyFrom_def auditChainPage_def)
  moreover have "VerifyFrom Genesis ?first = None"
    using dense by (simp add: VerifyFrom_link del: upto_rec_numeral)
  ultimately have "VerifyAuditChain gap_log = None"
    unfolding VerifyAuditChain_def verify_pages.simps [of gap_log Genesis] Let_def page1
    using \<open>?first \<noteq> []\<close> last hd by simp
  moreover have "\<not> dense (?first @ [?e])"
    using \<open>?first \<noteq> []\<close> last by (simp add: dense_append)
  ultimately show ?thesis
    unfolding chained VerifyChain_link by blast
qed

section \<open>Properties\<close>

text \<open>C23: The log never reports tampering that did not happen. In every state that appends and
  checkpoints can reach, the whole chain verifies, page by page, every row carries the tags of
  its action, and every checkpoint is signed by the control key and names an entry of the log.\<close>

theorem audit_log_verifies:
  assumes "audit_reachable jsonb ed_sign priv st" "jsonb_canonical jsonb" "key_pair ed_sign ed_verify priv pub"
  shows "VerifyAuditChain st = None \<and> log_ok ed_verify pub st"
  using log_ok_verifies [OF audit_reachable_ok [OF assms]] audit_reachable_ok [OF assms] by (rule conjI)

text \<open>C24: Paging does not weaken the check. On a table whose sequence numbers have no gap,
  \<open>VerifyAuditChain\<close>, which reads a thousand rows at a time, gives the very result of one pass
  over all rows, error included.\<close>

theorem VerifyAuditChain_pages:
  assumes "dense (chained st)"
  shows "VerifyAuditChain st = VerifyChain (chained st)"
  using assms by (rule VerifyAuditChain_dense)

definition ex_log :: audit_db where
  "ex_log = \<lparr>db_log = map plain_row [Link Genesis (ex_entry 1), (Link Genesis (ex_entry 2))], db_checkpoints = []\<rparr>"

theorem VerifyAuditChain_pages_witness: "VerifyAuditChain ex_log \<noteq> None"
proof -
  have rows: "chained ex_log = [Link Genesis (ex_entry 1), Link Genesis (ex_entry 2)]"
    by (simp add: chained_def chain_rows_def ex_log_def plain_row_def go_sort_increasing seq_less_def)
  then have "dense (chained ex_log)"
    by (simp add: dense_Cons)
  moreover have "ComputeHash Genesis (ex_entry 1) \<noteq> Genesis"
    by (metis Genesis_def length_ComputeHash list.size(3) zero_neq_numeral)
  then have "VerifyChain (chained ex_log) \<noteq> None"
    by (auto simp: rows VerifyChain_link Link_fixed)
  ultimately show ?thesis
    by (simp add: VerifyAuditChain_pages)
qed

text \<open>The witness: one login, then a checkpoint.\<close>

theorem audit_log_verifies_witness:
  "\<exists>st. VerifyAuditChain st = None \<and> length (db_log st) = 1 \<and> length (db_checkpoints st) = 1"
proof -
  have law: "jsonb_canonical Some" "key_pair (\<lambda>_ m. m) (\<lambda>_ m s. s = m) () ()"
    by (simp_all add: jsonb_canonical_def key_pair_def)
  obtain st1 where st1: "auditInTx Some 0 ''admin'' ''login'' [] [] empty_log = Inr st1"
    by (simp add: auditInTx_def Let_def)
  then have len: "length (db_log st1) = 1" "db_checkpoints st1 = []"
    by (auto simp: auditInTx_def empty_log_def Let_def)
  obtain st c where st: "AppendCheckpoint (\<lambda>_ m. m) () ''k'' 1000 st1 = (st, c)"
    by fastforce
  have "chain_rows st1 \<noteq> []"
    using len(1) by (auto simp: chain_rows_def simp flip: length_0_conv)
  then have "length (db_log st) = 1" "length (db_checkpoints st) = 1"
    using st len by (auto simp: AppendCheckpoint_def Let_def)
  moreover have "audit_reachable Some (\<lambda>_ m. m) () st"
    using audit_reachable.checkpoint [OF audit_reachable.audit [OF audit_reachable.empty st1] st] .
  ultimately show ?thesis
    using audit_log_verifies [OF _ law] by blast
qed

end
