(* ===== verification/Evidence_Bundle.thy ===== *)
theory Evidence_Bundle
  imports Evidence_Surface Sign_Commands Audit_Store
begin

text \<open>
  internal/evidence/bundle.go and compliance.go: the portable bundle of proof, its offline
  verification, and \<open>ExportEvidence\<close> of internal/storepg/store.go, which builds it from the
  database. The texts of the checks are left out: a check is its name and whether it passed.
  Ed25519, ECDSA, the encodings of their keys and encoding/json are arguments, collected in a
  record. Statuses are ASCII, for which \<open>strings.EqualFold\<close> compares lower cases.

  The last part composes the audit log, the export and the verification: what is exported from
  a log the program can reach verifies, and a bundle that verifies against a checkpoint of the
  log holds the log's entries.
\<close>

section \<open>The bundle\<close>

definition FormatVersion :: string where "FormatVersion = ''defendsec-evidence-v1''"

record Manifest =
  mf_FormatVersion :: string
  mf_GeneratedAt :: time
  mf_Server :: string
  mf_Scope :: string
  mf_FromSeq :: int
  mf_ThroughSeq :: int
  mf_PrevHash :: string

record CommandProof =
  cp_ID :: string
  cp_DeviceID :: string
  cp_Hostname :: string
  cp_Type :: string
  cp_Payload :: string
  cp_Status :: string
  cp_Accepted :: bool
  cp_ActorIdentity :: string
  cp_Message :: string
  cp_Signature :: string
  cp_SigningKeyID :: string
  cp_IssuedUnix :: int
  cp_ExpiresUnix :: int
  cp_AckSignature :: string
  cp_AckResultHash :: string
  cp_AckExecutedUnix :: int

record ExceptionRecord =
  xr_ID :: string
  xr_Reason :: string
  xr_Remediation :: string
  xr_Owner :: string
  xr_OpenedAt :: time
  xr_OpenedBy :: string
  xr_ExpiresAt :: time
  xr_ClosedAt :: "time option"

record ControlSummary =
  cs_ID :: string
  cs_Title :: string
  cs_Coverage :: string
  cs_Status :: string
  cs_Statement :: string
  cs_Note :: string
  cs_AuditEntries :: int
  cs_Alerts :: int
  cs_OpenAtEnd :: int
  cs_Commands :: int
  cs_Exceptions :: "ExceptionRecord list"

record ComplianceScope =
  co_Framework :: string
  co_FrameworkTitle :: string
  co_PeriodID :: string
  co_PeriodName :: string
  co_From :: time
  co_To :: time
  co_Controls :: "ControlSummary list"
  co_Caveats :: "string list"
  co_Provenance :: string

record Bundle =
  bu_Manifest :: Manifest
  bu_ControlPublicKeyPEM :: string
  bu_AgentPublicKeys :: "(string \<times> string) list"
  bu_Audit :: "Entry list"
  bu_Checkpoints :: "Checkpoint list"
  bu_Commands :: "CommandProof list"
  bu_Compliance :: "ComplianceScope option"
  bu_Surface :: "SurfaceScope option"

text \<open>\<open>Read\<close>: \<open>decode\<close> is the JSON decoder.\<close>

definition ReadBundle :: "(string \<Rightarrow> string + Bundle) \<Rightarrow> string \<Rightarrow> string + Bundle" where
  "ReadBundle decode r =
     (case decode r of
        Inl e \<Rightarrow> Inl (''parse bundle: '' @ e)
      | Inr b \<Rightarrow>
          if mf_FormatVersion (bu_Manifest b) \<noteq> FormatVersion then Inl ''unsupported bundle format''
          else Inr b)"

record Report =
  re_Checks :: "check list"
  re_AuditEntries :: nat
  re_CheckpointsChecked :: nat
  re_CommandsVerified :: nat
  re_CommandsUnsigned :: nat
  re_CommandsFailed :: nat
  re_AcksVerified :: nat
  re_AcksUnattested :: nat
  re_AcksFailed :: nat
  re_ComplianceControls :: nat
  re_Surface :: SurfaceReport

definition ReportOK :: "Report \<Rightarrow> bool" where
  "ReportOK r = list_all snd (re_Checks r)"

definition add_check :: "string \<Rightarrow> bool \<Rightarrow> Report \<Rightarrow> Report" where
  "add_check name ok rep = rep\<lparr>re_Checks := re_Checks rep @ [(name, ok)]\<rparr>"

record ('pub, 'ecpub) externals =
  x_parse_pub :: "string \<Rightarrow> string + 'pub"
  x_pkix :: "'pub \<Rightarrow> string option"
  x_ed_verify :: "'pub \<Rightarrow> string \<Rightarrow> string \<Rightarrow> bool"
  x_parse_ecdsa :: "string \<Rightarrow> string + 'ecpub"
  x_ecdsa_verify :: "'ecpub \<Rightarrow> string \<Rightarrow> string \<Rightarrow> bool"
  x_remarshal :: "string \<Rightarrow> string option"
  x_parse_entry :: "string \<Rightarrow> SurfaceScanEntry option"

section \<open>The audit chain and the checkpoints\<close>

definition verifyAuditChain :: "Bundle \<Rightarrow> Report \<Rightarrow> Report" where
  "verifyAuditChain b rep =
     (if bu_Audit b = [] then add_check ''audit chain'' True rep
      else if VerifyFrom (mf_PrevHash (bu_Manifest b)) (bu_Audit b) \<noteq> None then add_check ''audit chain'' False rep
      else if en_Seq (hd (bu_Audit b)) \<noteq> mf_FromSeq (bu_Manifest b) \<or>
              en_Seq (last (bu_Audit b)) \<noteq> mf_ThroughSeq (bu_Manifest b) then add_check ''audit chain'' False rep
      else add_check ''audit chain'' True rep)"

text \<open>The map from sequence numbers to hashes: of two entries the later one stays.\<close>

definition byTip :: "Entry list \<Rightarrow> int \<Rightarrow> string option" where
  "byTip es = map_of (rev (map (\<lambda>e. (en_Seq e, en_EntryHash e)) es))"

text \<open>The loop over the checkpoints: how many passed, and whether all did.\<close>

fun checkpoint_loop ::
  "('pub \<Rightarrow> string \<Rightarrow> string \<Rightarrow> bool) \<Rightarrow> 'pub \<Rightarrow> (int \<Rightarrow> string option) \<Rightarrow> Checkpoint list \<Rightarrow> nat \<Rightarrow> nat \<times> bool" where
  "checkpoint_loop ed_verify pub tips [] n = (n, True)"
| "checkpoint_loop ed_verify pub tips (c # cps) n =
     (if VerifyCheckpoint ed_verify pub c \<noteq> None then (n, False)
      else case tips (ck_ThroughSeq c) of
             None \<Rightarrow> (n, False)
           | Some hash \<Rightarrow>
               if hash \<noteq> ck_EntryHash c then (n, False)
               else checkpoint_loop ed_verify pub tips cps (n + 1))"

definition highest_checkpoint :: "Checkpoint list \<Rightarrow> int" where
  "highest_checkpoint cps = fold (\<lambda>c h. if h < ck_ThroughSeq c then ck_ThroughSeq c else h) cps 0"

definition verifyCheckpoints ::
  "('pub \<Rightarrow> string \<Rightarrow> string \<Rightarrow> bool) \<Rightarrow> 'pub \<Rightarrow> Bundle \<Rightarrow> Report \<Rightarrow> Report" where
  "verifyCheckpoints ed_verify pub b rep =
     (if bu_Checkpoints b = [] then add_check ''checkpoints'' True rep
      else case checkpoint_loop ed_verify pub (byTip (bu_Audit b)) (bu_Checkpoints b) (re_CheckpointsChecked rep) of
        (n, False) \<Rightarrow> add_check ''checkpoints'' False (rep\<lparr>re_CheckpointsChecked := n\<rparr>)
      | (n, True) \<Rightarrow>
          let rep1 = add_check ''checkpoints'' True (rep\<lparr>re_CheckpointsChecked := n\<rparr>)
          in if mf_ThroughSeq (bu_Manifest b) < highest_checkpoint (bu_Checkpoints b)
             then add_check ''coverage'' False rep1 else rep1)"

section \<open>Commands and acknowledgements\<close>

text \<open>One pass of the loop over the commands; a command signed under another key changes no
  counter that is reported.\<close>

definition command_step ::
  "('pub \<Rightarrow> string \<Rightarrow> string \<Rightarrow> bool) \<Rightarrow> 'pub \<Rightarrow> string \<Rightarrow> CommandProof \<Rightarrow> Report \<Rightarrow> Report" where
  "command_step ed_verify pub keyID c rep =
     (if cp_Signature c = [] then rep\<lparr>re_CommandsUnsigned := re_CommandsUnsigned rep + 1\<rparr>
      else if cp_SigningKeyID c \<noteq> [] \<and> cp_SigningKeyID c \<noteq> keyID then rep
      else if VerifyStored ed_verify pub (cp_DeviceID c) (cp_ID c) (cp_Type c) (cp_IssuedUnix c) (cp_ExpiresUnix c)
                (cp_Payload c) (cp_Signature c) \<noteq> None
        then rep\<lparr>re_CommandsFailed := re_CommandsFailed rep + 1\<rparr>
      else rep\<lparr>re_CommandsVerified := re_CommandsVerified rep + 1\<rparr>)"

definition verifyCommands ::
  "('pub \<Rightarrow> string \<Rightarrow> string \<Rightarrow> bool) \<Rightarrow> 'pub \<Rightarrow> string \<Rightarrow> Bundle \<Rightarrow> Report \<Rightarrow> Report" where
  "verifyCommands ed_verify pub keyID b rep =
     (if bu_Commands b = [] then add_check ''command signatures'' True rep
      else let rep1 = fold (command_step ed_verify pub keyID) (bu_Commands b) rep
        in add_check ''command signatures'' (re_CommandsFailed rep1 = 0) rep1)"

definition claimsExecution :: "CommandProof \<Rightarrow> bool" where
  "claimsExecution c \<longleftrightarrow>
     cp_AckSignature c \<noteq> [] \<or> cp_AckExecutedUnix c \<noteq> 0 \<or> ToLower (TrimSpace (cp_Status c)) = ''acked''"

definition ack_step :: "('pub, 'ecpub) externals \<Rightarrow> (string \<times> string) list \<Rightarrow> CommandProof \<Rightarrow> Report \<Rightarrow> Report" where
  "ack_step x keys c rep =
     (if \<not> claimsExecution c then rep
      else
        let pubPEM = (case map_of keys (cp_DeviceID c) of None \<Rightarrow> [] | Some pem \<Rightarrow> pem)
        in if cp_AckSignature c = [] \<or> pubPEM = [] then rep\<lparr>re_AcksUnattested := re_AcksUnattested rep + 1\<rparr>
           else if HashResult (cp_Message c) \<noteq> cp_AckResultHash c then rep\<lparr>re_AcksFailed := re_AcksFailed rep + 1\<rparr>
           else if VerifyAckStored (x_parse_ecdsa x) (x_ecdsa_verify x) pubPEM (cp_ID c) (cp_DeviceID c) (cp_Accepted c)
                     (cp_AckResultHash c) (cp_AckExecutedUnix c) (cp_AckSignature c) \<noteq> None
             then rep\<lparr>re_AcksFailed := re_AcksFailed rep + 1\<rparr>
           else rep\<lparr>re_AcksVerified := re_AcksVerified rep + 1\<rparr>)"

definition verifyAcks :: "('pub, 'ecpub) externals \<Rightarrow> Bundle \<Rightarrow> Report \<Rightarrow> Report" where
  "verifyAcks x b rep =
     (let rep1 = fold (ack_step x (bu_AgentPublicKeys b)) (bu_Commands b) rep
      in if filter claimsExecution (bu_Commands b) = [] then add_check ''acknowledgements'' True rep1
         else add_check ''acknowledgements'' (re_AcksFailed rep1 = 0) rep1)"

section \<open>The compliance section (compliance.go)\<close>

definition ComplianceProvenance :: string where
  "ComplianceProvenance =
     ''Audit-entry counts are recomputed from this bundle'' @ [CHR 0x27] @ ''s chained entries and are verified. '' @
     ''Alert and command counts are derived from records that are not part of the hash chain and cannot be verified from this bundle alone. '' @
     ''The assessment is a reading of those records, not a cryptographic claim.''"

definition count_entry :: "time \<Rightarrow> time \<Rightarrow> Entry \<Rightarrow> (string \<times> int) list \<Rightarrow> (string \<times> int) list" where
  "count_entry from_at to_at e m =
     (if Before (en_At e) from_at \<or> \<not> Before (en_At e) to_at then m
      else fold (\<lambda>i. upd_assoc i (\<lambda>n. (case n of None \<Rightarrow> 0 | Some k \<Rightarrow> k) + 1)) (TagAuditAction (en_Action e)) m)"

definition auditCountsByControl :: "Bundle \<Rightarrow> time \<Rightarrow> time \<Rightarrow> (string \<times> int) list" where
  "auditCountsByControl b from_at to_at = fold (count_entry from_at to_at) (bu_Audit b) []"

text \<open>\<open>verifyCompliance\<close>: what kinds of problem there are; a count that differs is named with
  its control.\<close>

datatype compliance_problem =
  BadProvenance | EmptyWindow | MissingEntries | NoEntries | BadCount string

definition verifyCompliance :: "Bundle \<Rightarrow> compliance_problem list" where
  "verifyCompliance b =
     (case bu_Compliance b of
        None \<Rightarrow> []
      | Some c \<Rightarrow>
          (if co_Provenance c \<noteq> ComplianceProvenance then [BadProvenance] else []) @
          (if \<not> After (co_To c) (co_From c) then [EmptyWindow] else []) @
          (if bu_Audit b \<noteq> [] then
             (if Before (co_From c) (en_At (hd (bu_Audit b))) \<and>
                 \<not> (mf_FromSeq (bu_Manifest b) \<le> 1 \<or> mf_PrevHash (bu_Manifest b) = []) then [MissingEntries] else [])
           else if co_Controls c \<noteq> [] then [NoEntries] else []) @
          (let recomputed = auditCountsByControl b (co_From c) (co_To c)
           in concat (map (\<lambda>cs.
                if (case map_of recomputed (cs_ID cs) of None \<Rightarrow> 0 | Some n \<Rightarrow> n) \<noteq> cs_AuditEntries cs
                then [BadCount (cs_ID cs)] else []) (co_Controls c))))"

definition verifyComplianceScope :: "Bundle \<Rightarrow> Report \<Rightarrow> Report" where
  "verifyComplianceScope b rep =
     (case bu_Compliance b of
        None \<Rightarrow> rep
      | Some c \<Rightarrow>
          add_check ''compliance assessment'' (verifyCompliance b = [])
            (rep\<lparr>re_ComplianceControls := length (co_Controls c)\<rparr>))"

definition SortControlSummaries :: "ControlSummary list \<Rightarrow> ControlSummary list" where
  "SortControlSummaries cs = go_sort (\<lambda>a b. cs_ID a < cs_ID b) cs"

section \<open>Verification\<close>

definition empty_Report :: Report where
  "empty_Report = \<lparr>re_Checks = [], re_AuditEntries = 0, re_CheckpointsChecked = 0, re_CommandsVerified = 0,
     re_CommandsUnsigned = 0, re_CommandsFailed = 0, re_AcksVerified = 0, re_AcksUnattested = 0, re_AcksFailed = 0,
     re_ComplianceControls = 0, re_Surface = empty_report\<rparr>"

definition surface_checks :: "('pub, 'ecpub) externals \<Rightarrow> Bundle \<Rightarrow> Report \<Rightarrow> Report" where
  "surface_checks x b rep =
     (case verifySurface (x_remarshal x) (x_parse_entry x) (bu_Audit b) (bu_Surface b) of
        (checks, r) \<Rightarrow> rep\<lparr>re_Checks := re_Checks rep @ checks, re_Surface := r\<rparr>)"

definition Verify :: "('pub, 'ecpub) externals \<Rightarrow> Bundle \<Rightarrow> Report" where
  "Verify x b =
     (let rep = empty_Report\<lparr>re_AuditEntries := length (bu_Audit b)\<rparr>
      in case x_parse_pub x (bu_ControlPublicKeyPEM b) of
           Inl e \<Rightarrow> add_check ''control key'' False rep
         | Inr pub \<Rightarrow>
             let keyID = PublicKeyID (x_pkix x) pub;
                 rep = add_check ''control key'' True rep;
                 rep = verifyAuditChain b rep;
                 rep = verifyCheckpoints (x_ed_verify x) pub b rep;
                 rep = verifyCommands (x_ed_verify x) pub keyID b rep;
                 rep = verifyAcks x b rep;
                 rep = verifyComplianceScope b rep
             in surface_checks x b rep)"

section \<open>The export (storepg/store.go)\<close>

text \<open>The loop of \<open>ExportEvidence\<close> over the pages of the log.\<close>

function export_pages :: "audit_db \<Rightarrow> int \<Rightarrow> Entry list" where
  "export_pages st fromSeq =
     (let page = ListAuditChain st fromSeq auditChainPage
      in if int (length page) < auditChainPage then page
         else page @ export_pages st (en_Seq (last page) + 1))"
  by pat_completeness auto
termination
proof (relation "measure (\<lambda>(st, fromSeq). length (filter (\<lambda>e. fromSeq \<le> en_Seq e) (chain_rows st)))", goal_cases)
  case (2 st fromSeq page)
  then have "page \<noteq> []"
    by (auto simp: auditChainPage_def)
  then have "last page \<in> set (filter (\<lambda>e. fromSeq \<le> en_Seq e) (chain_rows st))"
    unfolding 2(1) ListAuditChain_def by (metis in_set_takeD last_in_set)
  then show ?case
    by (auto intro!: filter_fewer [of "last page"])
qed simp

text \<open>The hash of the entry before the range; a missing row leaves it empty.\<close>

definition prev_hash_of :: "audit_db \<Rightarrow> Entry list \<Rightarrow> string" where
  "prev_hash_of st entries =
     (if entries \<noteq> [] \<and> 1 < en_Seq (hd entries) then
        (case filter (\<lambda>e. en_Seq e = en_Seq (hd entries) - 1) (chain_rows st) of [] \<Rightarrow> [] | e # _ \<Rightarrow> en_EntryHash e)
      else [])"

text \<open>\<open>cmds\<close> are the stored commands of the device, in the order listed, \<open>agentKey\<close> the enrolled
  public key of a device and \<open>surface\<close> the surface section, all of the same database.\<close>

definition ExportEvidence ::
  "audit_db \<Rightarrow> CommandProof list \<Rightarrow> (string \<Rightarrow> string) \<Rightarrow> SurfaceScope option \<Rightarrow> time \<Rightarrow> string \<Rightarrow> string \<Rightarrow> string \<Rightarrow> string \<Rightarrow> int \<Rightarrow> Bundle" where
  "ExportEvidence st cmds agentKey surface now controlPubPEM server scope deviceID fromSeq =
     (let entries = export_pages st fromSeq;
          throughSeq = (if entries = [] then 0 else en_Seq (last entries));
          devices = first_occurrences (map cp_DeviceID cmds)
      in \<lparr>bu_Manifest =
            \<lparr>mf_FormatVersion = FormatVersion, mf_GeneratedAt = now - now mod Second, mf_Server = server, mf_Scope = scope,
             mf_FromSeq = (if entries = [] then 0 else en_Seq (hd entries)), mf_ThroughSeq = throughSeq,
             mf_PrevHash = prev_hash_of st entries\<rparr>,
          bu_ControlPublicKeyPEM = controlPubPEM,
          bu_AgentPublicKeys = map (\<lambda>d. (d, agentKey d)) (filter (\<lambda>d. agentKey d \<noteq> []) devices),
          bu_Audit = entries,
          bu_Checkpoints = go_sort (\<lambda>a b. ck_ThroughSeq a < ck_ThroughSeq b)
            (filter (\<lambda>c. fromSeq \<le> ck_ThroughSeq c \<and> ck_ThroughSeq c \<le> throughSeq) (db_checkpoints st)),
          bu_Commands = cmds,
          bu_Compliance = None,
          bu_Surface = (if deviceID = [] then surface else None)\<rparr>)"

declare export_pages.simps [simp del]

section \<open>What is exported verifies\<close>

lemma filter_increasing:
  assumes "sorted_wrt seq_less es"
  shows "\<exists>xs. es = xs @ filter (\<lambda>e. k \<le> en_Seq e) es \<and> (\<forall>e \<in> set xs. en_Seq e < k)"
  using assms
proof (induction es)
  case (Cons e es)
  show ?case
  proof (cases "k \<le> en_Seq e")
    case True
    then have "filter (\<lambda>e. k \<le> en_Seq e) (e # es) = e # es"
      using Cons.prems by (auto simp: filter_id_conv seq_less_def)
    then show ?thesis
      by (intro exI [of _ "[]"]) simp
  next
    case False
    obtain xs where "es = xs @ filter (\<lambda>e. k \<le> en_Seq e) es" "\<forall>e \<in> set xs. en_Seq e < k"
      using Cons by auto
    then show ?thesis
      using False by (intro exI [of _ "e # xs"]) auto
  qed
qed simp

lemma export_pages_all:
  assumes "sorted_wrt seq_less (chain_rows st)"
  shows "export_pages st fromSeq = filter (\<lambda>e. fromSeq \<le> en_Seq e) (chain_rows st)"
  using assms
proof (induction st fromSeq rule: export_pages.induct)
  case (1 st fromSeq)
  define rows where "rows = filter (\<lambda>e. fromSeq \<le> en_Seq e) (chain_rows st)"
  have page: "ListAuditChain st fromSeq auditChainPage = take 1000 rows"
    by (simp add: ListAuditChain_def auditChainPage_def rows_def)
  show ?case
  proof (cases "int (length (take 1000 rows)) < auditChainPage")
    case True
    then show ?thesis
      unfolding export_pages.simps [of st fromSeq] Let_def page
      by (auto simp: auditChainPage_def rows_def min_def split: if_splits)
  next
    case False
    then have nonempty: "take 1000 rows \<noteq> []"
      by (auto simp: auditChainPage_def)
    let ?last = "last (take 1000 rows)"
    have "?last \<in> set rows"
      using nonempty by (metis in_set_takeD last_in_set)
    then have "fromSeq \<le> en_Seq ?last"
      by (simp add: rows_def)
    then have "filter (\<lambda>e. en_Seq ?last + 1 \<le> en_Seq e) (chain_rows st) = filter (\<lambda>e. en_Seq ?last + 1 \<le> en_Seq e) rows"
      unfolding rows_def filter_filter by (intro filter_cong) auto
    also have "\<dots> = drop 1000 rows"
      using rows_after_last [of "take 1000 rows" "drop 1000 rows"] nonempty sorted_filter [OF "1.prems"]
      by (simp add: rows_def)
    finally have "export_pages st (en_Seq ?last + 1) = drop 1000 rows"
      using 1(1) [OF refl, unfolded page, OF False "1.prems"] by simp
    then show ?thesis
      using False unfolding export_pages.simps [of st fromSeq] Let_def page by (simp add: rows_def)
  qed
qed

text \<open>The range of a log and the hash before it.\<close>

lemma exported_range:
  assumes "VerifyChain es = None" "chain_rows st = es" and ys_def: "ys = filter (\<lambda>e. fromSeq \<le> en_Seq e) es"
  shows "VerifyFrom (prev_hash_of st ys) ys = None"
proof -
  have chain: "link_all Genesis es = es" "dense es" "es \<noteq> [] \<longrightarrow> en_Seq (hd es) = 1"
    using assms(1) by (simp_all add: VerifyChain_link)
  note sorted = dense_increasing [OF chain(2)]
  obtain xs where es: "es = xs @ ys"
    using filter_increasing [OF sorted, of fromSeq] by (auto simp: ys_def)
  show ?thesis
  proof (cases "ys = []")
    case False
    have link: "link_all (if xs = [] then Genesis else en_EntryHash (last xs)) ys = ys" "dense ys"
      using chain(1,2) by (simp_all add: es link_all_fixed_append dense_append)
    moreover have "prev_hash_of st ys = (if xs = [] then Genesis else en_EntryHash (last xs))"
    proof (cases xs rule: rev_cases)
      case Nil
      then have "en_Seq (hd ys) = 1"
        using chain(3) False by (simp add: es)
      then show ?thesis
        by (simp add: prev_hash_of_def Nil Genesis_def)
    next
      case (snoc zs z)
      have next_seq: "en_Seq (hd ys) = en_Seq z + 1"
        using chain(2) False by (simp add: es snoc dense_append dense_Cons)
      have "1 \<le> en_Seq z"
        using chain(3) sorted by (cases zs) (auto simp: es snoc seq_less_def)
      moreover have "filter (\<lambda>e. en_Seq e = en_Seq z) es = [z]"
      proof -
        have "filter (\<lambda>e. en_Seq e = en_Seq z) zs = []" "filter (\<lambda>e. en_Seq e = en_Seq z) ys = []"
          using sorted by (force simp: es snoc sorted_wrt_append seq_less_def filter_empty_conv)+
        then show ?thesis
          by (simp add: es snoc)
      qed
      ultimately show ?thesis
        using False by (simp add: prev_hash_of_def assms(2) next_seq snoc)
    qed
    ultimately show ?thesis
      by (simp add: VerifyFrom_link)
  qed simp
qed

lemma byTip_increasing: "sorted_wrt seq_less es \<Longrightarrow> e \<in> set es \<Longrightarrow> byTip es (en_Seq e) = Some (en_EntryHash e)"
proof -
  assume "sorted_wrt seq_less es" "e \<in> set es"
  moreover from this(1) have "distinct (map en_Seq es)"
    by (induction es) (force simp: seq_less_def)+
  ultimately show ?thesis
    unfolding byTip_def by (intro map_of_is_SomeI) (simp_all add: rev_map [symmetric] o_def)
qed

lemma checkpoint_loop_ok:
  "checkpoint_loop ed_verify pub tips cps n = (n + length cps, True) \<longleftrightarrow>
     (\<forall>c \<in> set cps. VerifyCheckpoint ed_verify pub c = None \<and> tips (ck_ThroughSeq c) = Some (ck_EntryHash c))"
proof (induction cps arbitrary: n)
  case (Cons c cps)
  from this [of "n + 1"] show ?case
    by (auto split: option.splits)
qed simp

lemma checkpoint_loop_True: "checkpoint_loop ed_verify pub tips cps n = (m, True) \<Longrightarrow> m = n + length cps"
  by (induction cps arbitrary: n) (auto split: if_splits option.splits, fastforce)

lemma highest_checkpoint_le: "(\<forall>c \<in> set cps. ck_ThroughSeq c \<le> m) \<Longrightarrow> 0 \<le> m \<Longrightarrow> highest_checkpoint cps \<le> m"
proof -
  have "fold (\<lambda>c h. if h < ck_ThroughSeq c then ck_ThroughSeq c else h) cps h \<le> m"
    if "\<forall>c \<in> set cps. ck_ThroughSeq c \<le> m" "h \<le> m" for h
    using that by (induction cps arbitrary: h) auto
  then show "(\<forall>c \<in> set cps. ck_ThroughSeq c \<le> m) \<Longrightarrow> 0 \<le> m \<Longrightarrow> highest_checkpoint cps \<le> m"
    by (simp add: highest_checkpoint_def)
qed

text \<open>What the later checks leave of the report.\<close>

definition extends :: "Report \<Rightarrow> Report \<Rightarrow> bool" where
  "extends rep rep' \<longleftrightarrow> (\<exists>rest. re_Checks rep' = re_Checks rep @ rest \<and> ''coverage'' \<notin> fst ` set rest) \<and>
     re_CheckpointsChecked rep' = re_CheckpointsChecked rep"

lemma extends_refl: "extends rep rep"
  by (auto simp: extends_def)

lemma extends_trans: "extends a b \<Longrightarrow> extends b c \<Longrightarrow> extends a c"
  by (auto simp: extends_def image_Un)

lemma extends_add_check: "name \<noteq> ''coverage'' \<Longrightarrow> extends rep rep' \<Longrightarrow> extends rep (add_check name ok rep')"
  by (auto simp: extends_def add_check_def)

lemma extends_fold: "(\<And>c r. extends r (f c r)) \<Longrightarrow> extends rep (fold f cs rep)"
proof (induction cs arbitrary: rep)
  case (Cons c cs)
  then show ?case
    using extends_trans [of rep "f c rep"] by simp
qed (simp add: extends_refl)

lemma extends_counters:
  "extends r (command_step ed_verify pub keyID c r)" "extends r (ack_step x keys c r)"
  by (auto simp: extends_def command_step_def ack_step_def Let_def)

lemma extends_steps:
  "extends rep (verifyCommands ed_verify pub keyID b rep)"
  "extends rep (verifyAcks x b rep)"
  "extends rep (verifyComplianceScope b rep)"
  "extends rep (surface_checks x b rep)"
proof -
  show "extends rep (verifyCommands ed_verify pub keyID b rep)"
    by (simp add: verifyCommands_def Let_def extends_add_check extends_refl extends_fold extends_counters)
  show "extends rep (verifyAcks x b rep)"
    by (simp add: verifyAcks_def Let_def extends_add_check extends_refl extends_fold extends_counters)
  show "extends rep (verifyComplianceScope b rep)"
    by (auto simp: verifyComplianceScope_def extends_refl intro!: extends_add_check split: option.split)
      (simp add: extends_def)
  have "''coverage'' \<notin> fst ` set (fst (verifySurface (x_remarshal x) (x_parse_entry x) (bu_Audit b) (bu_Surface b)))"
    by (auto simp: verifySurface_def Let_def split: option.split prod.split if_splits)
  then show "extends rep (surface_checks x b rep)"
    by (auto simp: surface_checks_def extends_def split: prod.split)
qed

lemma Verify_checks:
  assumes "x_parse_pub x (bu_ControlPublicKeyPEM b) = Inr pub"
  shows "extends (verifyCheckpoints (x_ed_verify x) pub b (verifyAuditChain b
      (add_check ''control key'' True (empty_Report\<lparr>re_AuditEntries := length (bu_Audit b)\<rparr>)))) (Verify x b)"
  unfolding Verify_def Let_def assms sum.case
  by (rule extends_trans [OF extends_steps(1) extends_trans [OF extends_steps(2)
        extends_trans [OF extends_steps(3) extends_steps(4)]]])

lemma byTip_Some: "byTip es i = Some h \<Longrightarrow> \<exists>e \<in> set es. en_Seq e = i \<and> en_EntryHash e = h"
  by (auto simp: byTip_def dest!: map_of_SomeD)

lemma bundle_checked:
  assumes "ReportOK (Verify x b)" "c \<in> set (bu_Checkpoints b)"
  shows "VerifyFrom (mf_PrevHash (bu_Manifest b)) (bu_Audit b) = None" "attests (bu_Audit b) c"
proof -
  obtain pub where pub: "x_parse_pub x (bu_ControlPublicKeyPEM b) = Inr pub"
    using assms(1) by (cases "x_parse_pub x (bu_ControlPublicKeyPEM b)")
      (auto simp: Verify_def Let_def ReportOK_def add_check_def empty_Report_def)
  define rep where "rep = add_check ''control key'' True (empty_Report\<lparr>re_AuditEntries := length (bu_Audit b)\<rparr>)"
  have ok: "list_all snd (re_Checks (verifyCheckpoints (x_ed_verify x) pub b (verifyAuditChain b rep)))"
    using Verify_checks [OF pub] assms(1) by (auto simp: extends_def rep_def ReportOK_def)
  obtain n good where loop: "checkpoint_loop (x_ed_verify x) pub (byTip (bu_Audit b)) (bu_Checkpoints b)
      (re_CheckpointsChecked (verifyAuditChain b rep)) = (n, good)"
    by fastforce
  have "bu_Checkpoints b \<noteq> []"
    using assms(2) by auto
  then have "list_all snd (re_Checks (verifyAuditChain b rep))" and good
    using ok by (cases good; auto simp: verifyCheckpoints_def loop add_check_def Let_def split: if_splits)+
  then show "VerifyFrom (mf_PrevHash (bu_Manifest b)) (bu_Audit b) = None"
    by (cases "bu_Audit b = []") (auto simp: verifyAuditChain_def add_check_def split: if_splits)
  have "byTip (bu_Audit b) (ck_ThroughSeq c) = Some (ck_EntryHash c)"
  proof -
    note loop [unfolded eqTrueI [OF \<open>good\<close>]]
    note this [unfolded checkpoint_loop_True [OF this], THEN iffD1 [OF checkpoint_loop_ok]]
    then show ?thesis
      using assms(2) by simp
  qed
  then show "attests (bu_Audit b) c"
    using byTip_Some by (auto simp: attests_def)
qed

lemma export_checks:
  assumes st: "log_ok ed_verify pub st" and b: "b = ExportEvidence st cmds agentKey surface now pem server scope dev fromSeq"
  shows "verifyCheckpoints ed_verify pub b (verifyAuditChain b rep) =
    add_check ''checkpoints'' True ((add_check ''audit chain'' True rep)
      \<lparr>re_CheckpointsChecked := re_CheckpointsChecked rep + length (bu_Checkpoints b)\<rparr>)"
proof -
  define es where "es = chain_rows st"
  have chain: "VerifyChain es = None" "es = map au_entry (db_log st)"
    using st by (simp_all add: log_ok_def chain_rows_verified es_def)
  have link: "dense es" "es \<noteq> [] \<longrightarrow> en_Seq (hd es) = 1"
    using chain(1) by (simp_all add: VerifyChain_link)
  note sorted = dense_increasing [OF link(1)]
  define ys where "ys = filter (\<lambda>e. fromSeq \<le> en_Seq e) es"
  have audit: "bu_Audit b = ys" and man: "mf_PrevHash (bu_Manifest b) = prev_hash_of st ys"
      "mf_FromSeq (bu_Manifest b) = (if ys = [] then 0 else en_Seq (hd ys))"
      "mf_ThroughSeq (bu_Manifest b) = (if ys = [] then 0 else en_Seq (last ys))"
    using export_pages_all [of st fromSeq] sorted by (simp_all add: b ExportEvidence_def Let_def ys_def es_def)
  have "verifyAuditChain b rep = add_check ''audit chain'' True rep"
    using exported_range [OF chain(1) es_def [symmetric] ys_def] by (simp add: verifyAuditChain_def audit man)
  moreover have cps: "VerifyCheckpoint ed_verify pub c = None \<and> byTip ys (ck_ThroughSeq c) = Some (ck_EntryHash c) \<and>
      ck_ThroughSeq c \<le> mf_ThroughSeq (bu_Manifest b)"
    if "c \<in> set (bu_Checkpoints b)" for c
  proof -
    have c: "c \<in> set (db_checkpoints st)" "fromSeq \<le> ck_ThroughSeq c" "ck_ThroughSeq c \<le> mf_ThroughSeq (bu_Manifest b)"
      using that by (simp_all add: b ExportEvidence_def Let_def)
    then have "VerifyCheckpoint ed_verify pub c = None" "attests es c"
      using st by (auto simp: log_ok_def list_all_iff chain(2))
    then obtain e where "e \<in> set ys" "en_Seq e = ck_ThroughSeq c" "en_EntryHash e = ck_EntryHash c"
      using c(2) by (auto simp: attests_def ys_def)
    then show ?thesis
      using byTip_increasing [of ys e] sorted_filter [OF sorted] \<open>VerifyCheckpoint ed_verify pub c = None\<close> c(3)
      by (simp add: ys_def)
  qed
  moreover have "0 \<le> mf_ThroughSeq (bu_Manifest b)"
  proof (cases "ys = []")
    case False
    have "last ys \<in> set es"
      using last_in_set [OF False] by (simp add: ys_def)
    moreover have "\<forall>e \<in> set es. 1 \<le> en_Seq e"
      using link(2) sorted by (cases es) (auto simp: seq_less_def)
    ultimately show ?thesis
      by (force simp: man)
  qed (simp add: man)
  ultimately show ?thesis
    using checkpoint_loop_ok [of ed_verify pub "byTip ys" "bu_Checkpoints b" "re_CheckpointsChecked rep"]
      highest_checkpoint_le [of "bu_Checkpoints b" "mf_ThroughSeq (bu_Manifest b)"]
    by (auto simp: verifyCheckpoints_def audit add_check_def Let_def)
qed

section \<open>Properties\<close>

text \<open>C26: An export of any range of a log the program can reach verifies offline: with the control
  key's own public half, the checks of the key, the audit chain and every checkpoint carried
  pass, and no checkpoint reaches past the range.\<close>

theorem exported_bundle_verifies:
  assumes "audit_reachable jsonb ed_sign priv st" "jsonb_canonical jsonb" "key_pair ed_sign (x_ed_verify x) priv pub"
    and "x_parse_pub x pem = Inr pub"
    and b: "b = ExportEvidence st cmds agentKey surface now pem server scope dev fromSeq"
  shows "bu_Audit b = filter (\<lambda>e. fromSeq \<le> en_Seq e) (chain_rows st) \<and>
    re_CheckpointsChecked (Verify x b) = length (bu_Checkpoints b) \<and>
    (\<exists>rest. re_Checks (Verify x b) = [(''control key'', True), (''audit chain'', True), (''checkpoints'', True)] @ rest \<and>
       ''coverage'' \<notin> fst ` set rest)"
proof -
  have ok: "log_ok (x_ed_verify x) pub st"
    using audit_reachable_ok assms(1-3) .
  have "x_parse_pub x (bu_ControlPublicKeyPEM b) = Inr pub"
    using assms(4) by (simp add: b ExportEvidence_def Let_def)
  from Verify_checks [OF this, unfolded export_checks [OF ok b]] show ?thesis
    using export_pages_all [of st fromSeq] ok dense_increasing
    by (auto simp: extends_def add_check_def empty_Report_def b ExportEvidence_def Let_def log_ok_def
        chain_rows_verified VerifyChain_link)
qed

text \<open>C27: A bundle from the start of the chain that verifies and carries a checkpoint of the log
  holds, up to that checkpoint, the log's own entries, field by field: nothing can be removed,
  added or changed without two different hashed strings that have the same SHA-256.\<close>

theorem bundle_holds_log:
  assumes "audit_reachable jsonb ed_sign priv st" "jsonb_canonical jsonb" "key_pair ed_sign ed_verify priv (pub :: 'pub)"
    and "ReportOK (Verify x b)" "mf_PrevHash (bu_Manifest b) = Genesis"
    and c: "c \<in> set (bu_Checkpoints b)" "c \<in> set (db_checkpoints st)"
  shows "map entry_view (filter (\<lambda>e. en_Seq e \<le> ck_ThroughSeq c) (bu_Audit b)) =
      map entry_view (filter (\<lambda>e. en_Seq e \<le> ck_ThroughSeq c) (chain_rows st)) \<or>
    (\<exists>e \<in> set (bu_Audit b). \<exists>e' \<in> set (chain_rows st). collision e e')"
proof -
  have ok: "log_ok ed_verify pub st"
    using audit_reachable_ok assms(1-3) .
  have log: "VerifyChain (chain_rows st) = None" "attests (chain_rows st) c"
    using ok c(2) by (auto simp: log_ok_def chain_rows_verified list_all_iff)
  have held: "VerifyFrom Genesis (bu_Audit b) = None" "attests (bu_Audit b) c"
    using bundle_checked [OF assms(4) c(1)] assms(5) by simp_all
  have upto: "\<exists>us e. filter (\<lambda>d. en_Seq d \<le> ck_ThroughSeq c) es = us @ [e] \<and> link_all Genesis (us @ [e]) = us @ [e] \<and>
      en_EntryHash e = ck_EntryHash c" if "link_all Genesis es = es" "dense es" "attests es c" for es
    using chain_upto [OF that(1,2)] that(3) unfolding attests_def by metis
  obtain us e where us: "filter (\<lambda>d. en_Seq d \<le> ck_ThroughSeq c) (bu_Audit b) = us @ [e]"
      "link_all Genesis (us @ [e]) = us @ [e]" "en_EntryHash e = ck_EntryHash c"
    using upto [of "bu_Audit b"] held by (auto simp: VerifyFrom_link)
  obtain vs d where vs: "filter (\<lambda>d. en_Seq d \<le> ck_ThroughSeq c) (chain_rows st) = vs @ [d]"
      "link_all Genesis (vs @ [d]) = vs @ [d]" "en_EntryHash d = ck_EntryHash c"
    using upto [of "chain_rows st"] log by (auto simp: VerifyChain_link)
  have "set (us @ [e]) \<subseteq> set (bu_Audit b)" "set (vs @ [d]) \<subseteq> set (chain_rows st)"
    using us(1) vs(1) by (metis filter_is_subset)+
  then show ?thesis
    using chains_agree [OF us(2) vs(2)] us(3) vs(3) unfolding us(1) vs(1) by auto
qed

text \<open>The witnesses: one login, then a checkpoint, signed under a scheme whose signatures are the
  messages.\<close>

definition ex_externals :: "(unit, unit) externals" where
  "ex_externals = \<lparr>x_parse_pub = (\<lambda>_. Inr ()), x_pkix = (\<lambda>_. None), x_ed_verify = (\<lambda>_ m s. s = m),
     x_parse_ecdsa = (\<lambda>_. Inr ()), x_ecdsa_verify = (\<lambda>_ m s. s = m), x_remarshal = Some, x_parse_entry = (\<lambda>_. None)\<rparr>"

definition ex_export :: "audit_db \<Rightarrow> Bundle" where
  "ex_export st = ExportEvidence st [] (\<lambda>_. []) None 0 ''pem'' ''srv'' [] [] 1"

lemma ex_laws: "jsonb_canonical Some" "key_pair (\<lambda>_ m. m) (x_ed_verify ex_externals) () ()"
  by (simp_all add: jsonb_canonical_def key_pair_def ex_externals_def)

lemma ex_reachable:
  obtains st c where "audit_reachable Some (\<lambda>_ m. m) () st" "map (en_Action \<circ> au_entry) (db_log st) = [''login'']"
    "db_checkpoints st = [c]" "ck_ThroughSeq c = 1"
proof -
  obtain st1 where st1: "auditInTx Some 0 ''admin'' ''login'' [] [] empty_log = Inr st1"
    by (simp add: auditInTx_def Let_def)
  then have 1: "map (en_Action \<circ> au_entry) (db_log st1) = [''login'']" "map (en_Seq \<circ> au_entry) (db_log st1) = [1]"
      "db_checkpoints st1 = []"
    by (auto simp: auditInTx_def empty_log_def Let_def new_entry_def AuditChainTip_def chain_rows_def Link_def)
  obtain st c where st: "AppendCheckpoint (\<lambda>_ m. m) () ''k'' 1000 st1 = (st, c)"
    by fastforce
  obtain r where r: "db_log st1 = [r]" "en_Seq (au_entry r) = 1" "en_Action (au_entry r) = ''login''"
    using 1 by auto
  then have rows: "chain_rows st1 = [au_entry r]"
    by (simp add: chain_rows_def go_sort_Cons)
  have ex: "map (en_Action \<circ> au_entry) (db_log st) = [''login'']" "db_checkpoints st = [the c]" "ck_ThroughSeq (the c) = 1"
    using st 1 r rows by (auto simp: AppendCheckpoint_def Let_def AuditChainTip_def SignCheckpoint_def Microseconds_def)
  show ?thesis
    by (rule that [OF audit_reachable.checkpoint [OF audit_reachable.audit [OF audit_reachable.empty st1] st] ex])
qed

theorem exported_bundle_verifies_witness:
  "\<exists>st. length (bu_Checkpoints (ex_export st)) = 1 \<and> re_CheckpointsChecked (Verify ex_externals (ex_export st)) = 1"
proof -
  obtain st c where st: "audit_reachable Some (\<lambda>_ m. m) () st" "map (en_Action \<circ> au_entry) (db_log st) = [''login'']"
      "db_checkpoints st = [c]" "ck_ThroughSeq c = 1"
    using ex_reachable .
  have pub: "x_parse_pub ex_externals ''pem'' = Inr ()"
    by (simp add: ex_externals_def)
  note holds = exported_bundle_verifies [OF st(1) ex_laws pub ex_export_def]
  have ok: "log_ok (x_ed_verify ex_externals) () st"
    using audit_reachable_ok [OF st(1) ex_laws] .
  then have rows: "length (chain_rows st) = 1" "en_Seq (hd (chain_rows st)) = 1"
    using st(2) by (auto simp: log_ok_def chain_rows_verified VerifyChain_link)
  then have "bu_Audit (ex_export st) = chain_rows st"
    using holds by (cases "chain_rows st") auto
  then have "length (bu_Checkpoints (ex_export st)) = 1"
    using st(3,4) rows by (cases "chain_rows st") (auto simp: ex_export_def ExportEvidence_def Let_def)
  then show ?thesis
    using holds by auto
qed

lemma ex_export_ok:
  assumes "audit_reachable Some (\<lambda>_ m. m) () st" "map (en_Action \<circ> au_entry) (db_log st) = [''login'']"
  shows "ReportOK (Verify ex_externals (ex_export st)) \<and> bu_Audit (ex_export st) = chain_rows st \<and>
    mf_PrevHash (bu_Manifest (ex_export st)) = Genesis"
proof -
  have ok: "log_ok (x_ed_verify ex_externals) () st"
    using audit_reachable_ok [OF assms(1) ex_laws] .
  obtain e where e: "chain_rows st = [e]" "en_Seq e = 1" "en_Action e = ''login''"
    using ok assms(2) by (auto simp: log_ok_def chain_rows_verified VerifyChain_link)
  then have audit: "bu_Audit (ex_export st) = [e]"
    using export_pages_all [of st 1] by (simp add: ex_export_def ExportEvidence_def Let_def)
  have prev: "mf_PrevHash (bu_Manifest (ex_export st)) = Genesis"
    using export_pages_all [of st 1] e by (simp add: ex_export_def ExportEvidence_def Let_def prev_hash_of_def Genesis_def)
  have rest: "bu_Commands (ex_export st) = []" "bu_Compliance (ex_export st) = None" "bu_Surface (ex_export st) = None"
    by (simp_all add: ex_export_def ExportEvidence_def Let_def)
  have "verifySurface (x_remarshal ex_externals) (x_parse_entry ex_externals) [e] None = ([], empty_report)"
    using e(3) by (simp add: verifySurface_def chained_details_def SurfaceScanAction_def)
  moreover have pub: "x_parse_pub ex_externals p = Inr ()" for p
    by (simp add: ex_externals_def)
  ultimately have "ReportOK (Verify ex_externals (ex_export st))"
    unfolding Verify_def Let_def using export_checks [OF ok ex_export_def]
    by (simp add: pub rest audit surface_checks_def verifyComplianceScope_def verifyAcks_def verifyCommands_def ReportOK_def
        add_check_def empty_Report_def)
  with audit prev e(1) show ?thesis
    by simp
qed

theorem bundle_holds_log_witness:
  "\<exists>st c. c \<in> set (bu_Checkpoints (ex_export st)) \<and>
     (map entry_view (filter (\<lambda>e. en_Seq e \<le> ck_ThroughSeq c) (bu_Audit (ex_export st))) =
      map entry_view (filter (\<lambda>e. en_Seq e \<le> ck_ThroughSeq c) (chain_rows st)) \<or>
      (\<exists>e \<in> set (bu_Audit (ex_export st)). \<exists>e' \<in> set (chain_rows st). collision e e'))"
proof -
  obtain st c where st: "audit_reachable Some (\<lambda>_ m. m) () st" "map (en_Action \<circ> au_entry) (db_log st) = [''login'']"
      "db_checkpoints st = [c]" "ck_ThroughSeq c = 1"
    using ex_reachable .
  note ok = ex_export_ok [OF st(1,2)]
  have logok: "log_ok (x_ed_verify ex_externals) () st"
    using audit_reachable_ok [OF st(1) ex_laws] .
  then obtain e where e: "chain_rows st = [e]" "en_Seq e = 1"
    using st(2) by (auto simp: log_ok_def chain_rows_verified VerifyChain_link)
  have c: "c \<in> set (bu_Checkpoints (ex_export st))" "c \<in> set (db_checkpoints st)"
    using export_pages_all [of st 1] st(3,4) e by (simp_all add: ex_export_def ExportEvidence_def Let_def)
  then show ?thesis
    using bundle_holds_log [OF st(1) ex_laws, of ex_externals "ex_export st" c] ok by blast
qed

end
