(* ===== verification/Anchor.thy ===== *)
theory Anchor
  imports Audit_Store
begin

text \<open>
  internal/anchor (anchor.go, ParseTargets and Publish of publish.go), the anchors of
  internal/storepg/anchors.go and \<open>anchorNow\<close> of internal/control/anchors.go: checkpoints are
  published outside the database and later compared with the chain. What a target does with a
  checkpoint (HTTP, files, RFC 3161) is the argument \<open>send\<close>: it returns the record, with the
  proof filled in, and the error. \<open>external_time\<close> is \<open>None\<close> for Go's zero time.
\<close>

section \<open>Anchors (anchor.go)\<close>

definition KindTSA :: string where "KindTSA = ''rfc3161''"
definition KindFile :: string where "KindFile = ''file''"
definition KindPeer :: string where "KindPeer = ''peer''"

record AnchorRecord =
  ar_ID :: string
  ar_ThroughSeq :: int
  ar_EntryHash :: string
  ar_Kind :: string
  ar_Target :: string
  ar_AnchoredAt :: time
  ar_ExternalTime :: "time option"
  ar_Proof :: string
  ar_Reference :: string
  ar_Error :: string

definition RecordOK :: "AnchorRecord \<Rightarrow> bool" where
  "RecordOK r \<longleftrightarrow> ar_Error r = []"

record Verification =
  vf_Record :: AnchorRecord
  vf_Matches :: bool
  vf_CurrentHash :: string
  vf_Detail :: string

definition em_dash :: string where "em_dash = [CHR 0xE2, CHR 0x80, CHR 0x94]"

definition verify_anchor :: "(int \<Rightarrow> string option) \<Rightarrow> AnchorRecord \<Rightarrow> Verification" where
  "verify_anchor currentHashes a =
     (let v = \<lparr>vf_Record = a, vf_Matches = False, vf_CurrentHash = [], vf_Detail = []\<rparr>
      in if \<not> RecordOK a then v\<lparr>vf_Detail := ''This anchor was never published: '' @ ar_Error a\<rparr>
         else case currentHashes (ar_ThroughSeq a) of
           None \<Rightarrow>
             v\<lparr>vf_Detail := ''Sequence '' @ Itoa (ar_ThroughSeq a) @ '' was anchored on '' @ FormatDate (ar_AnchoredAt a) @
               '' but the chain no longer reaches it. Anchored history has been truncated.''\<rparr>
         | Some current \<Rightarrow>
             if current = ar_EntryHash a then
               v\<lparr>vf_Matches := True, vf_CurrentHash := current,
                 vf_Detail := ''Sequence '' @ Itoa (ar_ThroughSeq a) @ '' still matches the hash anchored on '' @
                   FormatDate (ar_AnchoredAt a) @ ''.''\<rparr>
             else
               v\<lparr>vf_CurrentHash := current,
                 vf_Detail := ''Sequence '' @ Itoa (ar_ThroughSeq a) @ '' does not match the hash anchored on '' @
                   FormatDate (ar_AnchoredAt a) @ ''. The chain has been rebuilt since it was published '' @ em_dash @
                   '' a valid signature on the current chain does not clear this.''\<rparr>)"

definition VerifyAgainst :: "AnchorRecord list \<Rightarrow> (int \<Rightarrow> string option) \<Rightarrow> Verification list" where
  "VerifyAgainst anchors currentHashes =
     go_sort (\<lambda>v w. ar_ThroughSeq (vf_Record w) < ar_ThroughSeq (vf_Record v)) (map (verify_anchor currentHashes) anchors)"

record Summary =
  sm_Total :: nat
  sm_Matching :: nat
  sm_Mismatched :: nat
  sm_Missing :: nat
  sm_Failed :: nat
  sm_Verdict :: string

definition count_verification :: "Verification \<Rightarrow> Summary \<Rightarrow> Summary" where
  "count_verification v s =
     (if \<not> RecordOK (vf_Record v) then s\<lparr>sm_Failed := sm_Failed s + 1\<rparr>
      else if vf_Matches v then s\<lparr>sm_Matching := sm_Matching s + 1\<rparr>
      else if vf_CurrentHash v = [] then s\<lparr>sm_Missing := sm_Missing s + 1\<rparr>
      else s\<lparr>sm_Mismatched := sm_Mismatched s + 1\<rparr>)"

definition verdict :: "Summary \<Rightarrow> string" where
  "verdict s =
     (if sm_Total s = 0 then
        ''No checkpoints have been anchored. The ledger is tamper-evident against anyone who can edit the database, but not against anyone who also holds the control signing key.''
      else if 0 < sm_Mismatched s \<or> 0 < sm_Missing s then
        itoa_nat (sm_Mismatched s + sm_Missing s) @
        '' anchored checkpoints no longer match the chain. This is what a rebuilt ledger looks like; investigate before trusting any recent evidence.''
      else if sm_Matching s = 0 then
        ''Every anchoring attempt failed, so nothing is published externally. Fix the targets '' @ em_dash @ '' unpublished anchors protect nothing.''
      else if 0 < sm_Failed s then
        itoa_nat (sm_Matching s) @ '' anchors match the chain, and '' @ itoa_nat (sm_Failed s) @
        '' attempts failed. Check the failing target: gaps in anchoring are gaps in the protection.''
      else ''All '' @ itoa_nat (sm_Matching s) @ '' anchored checkpoints still match the chain.'')"

definition Summarise :: "Verification list \<Rightarrow> Summary" where
  "Summarise vs =
     (let s = fold count_verification vs
         \<lparr>sm_Total = length vs, sm_Matching = 0, sm_Mismatched = 0, sm_Missing = 0, sm_Failed = 0, sm_Verdict = []\<rparr>
      in s\<lparr>sm_Verdict := verdict s\<rparr>)"

section \<open>Targets (publish.go)\<close>

record Target =
  tg_Kind :: string
  tg_Ref :: string
  tg_Token :: string

datatype target_error =
  NotKindRef string | NeedsURL string | NeedsDirectory string | UnknownKind string

definition parse_target :: "string \<Rightarrow> target_error + Target" where
  "parse_target e =
     (case CutByte e (CHR ''='') of (kind, ref, ok) \<Rightarrow>
        if \<not> ok then Inl (NotKindRef e)
        else
          let k = ToLower (TrimSpace kind);
              ref = TrimSpace ref;
              (ref, token) = (if k = KindPeer then
                 (case CutByte ref (CHR ''#'') of (url, token, hasToken) \<Rightarrow> if hasToken then (url, token) else (ref, []))
                 else (ref, []));
              t = \<lparr>tg_Kind = k, tg_Ref = ref, tg_Token = token\<rparr>
          in if k = KindTSA \<or> k = KindPeer then
               (if \<not> HasPrefix ref ''http://'' \<and> \<not> HasPrefix ref ''https://'' then Inl (NeedsURL e) else Inr t)
             else if k = KindFile then (if ref = [] then Inl (NeedsDirectory e) else Inr t)
             else Inl (UnknownKind kind))"

fun parse_entries :: "string list \<Rightarrow> target_error + Target list" where
  "parse_entries [] = Inr []"
| "parse_entries (s # es) =
     (let e = TrimSpace s
      in if e = [] then parse_entries es
         else case parse_target e of
           Inl err \<Rightarrow> Inl err
         | Inr t \<Rightarrow> (case parse_entries es of Inl err \<Rightarrow> Inl err | Inr ts \<Rightarrow> Inr (t # ts)))"

definition ParseTargets :: "string \<Rightarrow> target_error + Target list" where
  "ParseTargets raw = parse_entries (Split raw (CHR '',''))"

type_synonym transport = "Target \<Rightarrow> Checkpoint \<Rightarrow> AnchorRecord \<Rightarrow> AnchorRecord \<times> string option"

definition publish_to :: "transport \<Rightarrow> time \<Rightarrow> Checkpoint \<Rightarrow> Target \<Rightarrow> AnchorRecord" where
  "publish_to send now c t =
     (let rec0 = \<lparr>ar_ID = [], ar_ThroughSeq = ck_ThroughSeq c, ar_EntryHash = ck_EntryHash c, ar_Kind = tg_Kind t,
            ar_Target = tg_Ref t, ar_AnchoredAt = now, ar_ExternalTime = None, ar_Proof = [], ar_Reference = [], ar_Error = []\<rparr>;
          (rec1, err) =
            (if tg_Kind t \<in> {KindTSA, KindFile, KindPeer} then send t c rec0
             else (rec0, Some (''unknown target kind '' @ [CHR 0x22] @ tg_Kind t @ [CHR 0x22])))
      in case err of None \<Rightarrow> rec1 | Some e \<Rightarrow> rec1\<lparr>ar_Error := e\<rparr>)"

definition Publish :: "transport \<Rightarrow> Target list \<Rightarrow> time \<Rightarrow> Checkpoint \<Rightarrow> AnchorRecord list" where
  "Publish send targets now c = map (publish_to send now c) targets"

section \<open>The stored anchors (storepg/anchors.go, control/anchors.go)\<close>

record anchor_db =
  ad_log :: audit_db
  ad_anchors :: "AnchorRecord list"

text \<open>\<open>ON CONFLICT (id) DO NOTHING\<close>.\<close>

definition RecordAnchors :: "AnchorRecord list \<Rightarrow> anchor_db \<Rightarrow> anchor_db" where
  "RecordAnchors records st =
     st\<lparr>ad_anchors := fold (\<lambda>r as. if ar_ID r \<in> ar_ID ` set as then as else as @ [r]) records (ad_anchors st)\<rparr>"

definition newest_first :: "AnchorRecord \<Rightarrow> AnchorRecord \<Rightarrow> bool" where
  "newest_first a b =
     (if ar_ThroughSeq a \<noteq> ar_ThroughSeq b then ar_ThroughSeq b < ar_ThroughSeq a else ar_AnchoredAt b < ar_AnchoredAt a)"

definition ListAnchors :: "anchor_db \<Rightarrow> int \<Rightarrow> AnchorRecord list" where
  "ListAnchors st limit = take (nat (if limit \<le> 0 then 200 else limit)) (go_sort newest_first (ad_anchors st))"

definition ChainHashesAt :: "audit_db \<Rightarrow> int list \<Rightarrow> int \<Rightarrow> string option" where
  "ChainHashesAt st seqs =
     map_of (map (\<lambda>e. (en_Seq e, en_EntryHash e)) (filter (\<lambda>e. en_Seq e \<in> set seqs) (chain_rows st)))"

definition VerifyAnchors :: "anchor_db \<Rightarrow> int \<Rightarrow> Verification list \<times> Summary" where
  "VerifyAnchors st limit =
     (let records = ListAnchors st limit;
          current = ChainHashesAt (ad_log st) (map ar_ThroughSeq (filter RecordOK records));
          vs = VerifyAgainst records current
      in (vs, Summarise vs))"

definition unanchored :: "anchor_db \<Rightarrow> Checkpoint list" where
  "unanchored st =
     filter (\<lambda>c. \<not> list_ex (\<lambda>a. ar_ThroughSeq a = ck_ThroughSeq c \<and> RecordOK a) (ad_anchors st)) (db_checkpoints (ad_log st))"

definition LatestUnanchoredCheckpoint :: "anchor_db \<Rightarrow> Checkpoint option" where
  "LatestUnanchoredCheckpoint st =
     (case go_sort (\<lambda>a b. ck_ThroughSeq b < ck_ThroughSeq a) (unanchored st) of [] \<Rightarrow> None | c # _ \<Rightarrow> Some c)"

text \<open>\<open>anchorNow\<close>: \<open>ids\<close> are the identifiers drawn for the records.\<close>

definition anchorNow ::
  "transport \<Rightarrow> Target list \<Rightarrow> time \<Rightarrow> string list \<Rightarrow> anchor_db \<Rightarrow> anchor_db \<times> AnchorRecord list option" where
  "anchorNow send targets now ids st =
     (case LatestUnanchoredCheckpoint st of
        None \<Rightarrow> (st, None)
      | Some c \<Rightarrow>
          let records = map2 (\<lambda>r i. r\<lparr>ar_ID := i\<rparr>) (Publish send targets now c) ids
          in (RecordAnchors records st, Some records))"

definition AnchorLatest ::
  "transport \<Rightarrow> Target list \<Rightarrow> time \<Rightarrow> string list \<Rightarrow> anchor_db \<Rightarrow> anchor_db \<times> AnchorRecord list option" where
  "AnchorLatest send targets now ids st = (if targets = [] then (st, None) else anchorNow send targets now ids st)"

section \<open>Anchors of a log\<close>

definition record_of :: "Entry list \<Rightarrow> AnchorRecord \<Rightarrow> bool" where
  "record_of es r \<longleftrightarrow> (\<exists>e \<in> set es. en_Seq e = ar_ThroughSeq r \<and> en_EntryHash e = ar_EntryHash r)"

lemma ChainHashesAt_iff:
  assumes "sorted_wrt seq_less (chain_rows st)" "s \<in> set seqs"
  shows "ChainHashesAt st seqs s = Some h \<longleftrightarrow> (\<exists>e \<in> set (chain_rows st). en_Seq e = s \<and> en_EntryHash e = h)"
proof -
  have "distinct (map en_Seq es)" if "sorted_wrt seq_less es" for es
    using that by (induction es) (force simp: seq_less_def)+
  from this [OF sorted_filter [OF assms(1)]]
  have "map_of (map (\<lambda>e. (en_Seq e, en_EntryHash e)) (filter (\<lambda>e. en_Seq e \<in> set seqs) (chain_rows st))) s = Some h \<longleftrightarrow>
      (s, h) \<in> set (map (\<lambda>e. (en_Seq e, en_EntryHash e)) (filter (\<lambda>e. en_Seq e \<in> set seqs) (chain_rows st)))"
    by (intro map_of_eq_Some_iff) (simp add: o_def)
  then show ?thesis
    using assms(2) by (auto simp: ChainHashesAt_def)
qed

lemma verify_anchor_matches: "vf_Matches (verify_anchor cur r) \<longleftrightarrow> RecordOK r \<and> cur (ar_ThroughSeq r) = Some (ar_EntryHash r)"
  by (auto simp: verify_anchor_def Let_def split: option.split)

lemma verify_anchor_Record [simp]: "vf_Record (verify_anchor cur r) = r"
  by (simp add: verify_anchor_def Let_def split: option.split)

lemma Summarise_clean:
  assumes "\<And>v. v \<in> set vs \<Longrightarrow> RecordOK (vf_Record v) \<Longrightarrow> vf_Matches v"
  shows "sm_Mismatched (Summarise vs) = 0 \<and> sm_Missing (Summarise vs) = 0"
proof -
  have "sm_Mismatched (fold count_verification vs s) = sm_Mismatched s \<and> sm_Missing (fold count_verification vs s) = sm_Missing s"
    if "\<forall>v \<in> set vs. RecordOK (vf_Record v) \<longrightarrow> vf_Matches v" for s
    using that by (induction vs arbitrary: s) (simp_all add: count_verification_def)
  then show ?thesis
    using assms by (simp add: Summarise_def Let_def)
qed

text \<open>A target may add its proof to the record, and nothing else.\<close>

definition keeps_anchor :: "transport \<Rightarrow> bool" where
  "keeps_anchor send \<longleftrightarrow>
     (\<forall>t c r. ar_ThroughSeq (fst (send t c r)) = ar_ThroughSeq r \<and> ar_EntryHash (fst (send t c r)) = ar_EntryHash r \<and>
        (snd (send t c r) = None \<longrightarrow> ar_Error (fst (send t c r)) = ar_Error r))"

lemma publish_to_fields:
  "keeps_anchor send \<Longrightarrow> ar_ThroughSeq (publish_to send now c t) = ck_ThroughSeq c \<and> ar_EntryHash (publish_to send now c t) = ck_EntryHash c"
  by (auto simp: publish_to_def keeps_anchor_def Let_def split: prod.split option.split)
    (metis AnchorRecord.select_convs(2,3) fst_conv)+

inductive anchor_reachable ::
  "(string \<Rightarrow> string option) \<Rightarrow> ('priv \<Rightarrow> string \<Rightarrow> string) \<Rightarrow> 'priv \<Rightarrow> anchor_db \<Rightarrow> bool" for jsonb ed_sign priv where
  start: "anchor_reachable jsonb ed_sign priv \<lparr>ad_log = empty_log, ad_anchors = []\<rparr>"
| audit: "anchor_reachable jsonb ed_sign priv st \<Longrightarrow>
    auditInTx jsonb now actor action deviceID raw (ad_log st) = Inr log' \<Longrightarrow>
    anchor_reachable jsonb ed_sign priv (st\<lparr>ad_log := log'\<rparr>)"
| checkpoint: "anchor_reachable jsonb ed_sign priv st \<Longrightarrow> AppendCheckpoint ed_sign priv keyID now (ad_log st) = (log', c) \<Longrightarrow>
    anchor_reachable jsonb ed_sign priv (st\<lparr>ad_log := log'\<rparr>)"
| anchor: "anchor_reachable jsonb ed_sign priv st \<Longrightarrow> keeps_anchor send \<Longrightarrow>
    AnchorLatest send targets now ids st = (st', records) \<Longrightarrow> anchor_reachable jsonb ed_sign priv st'"

lemma RecordAnchors_subset: "set (ad_anchors (RecordAnchors rs st)) \<subseteq> set (ad_anchors st) \<union> set rs"
proof -
  have "set (fold (\<lambda>r as. if ar_ID r \<in> ar_ID ` set as then as else as @ [r]) rs as) \<subseteq> set as \<union> set rs" for as
    by (induction rs arbitrary: as) (auto, fastforce+)
  then show ?thesis
    by (simp add: RecordAnchors_def)
qed

lemma ad_log_RecordAnchors [simp]: "ad_log (RecordAnchors rs st) = ad_log st"
  by (simp add: RecordAnchors_def)

lemma LatestUnanchored_in: "LatestUnanchoredCheckpoint st = Some c \<Longrightarrow> c \<in> set (unanchored st)"
  unfolding LatestUnanchoredCheckpoint_def
  by (metis (no_types, lifting) list.case_eq_if list.set_sel(1) option.distinct(1) option.inject set_go_sort)

lemma record_of_mono: "record_of es r \<Longrightarrow> set es \<subseteq> set es' \<Longrightarrow> record_of es' r"
  by (auto simp: record_of_def)

text \<open>The log below the anchors is one the audit operations reach, and every published anchor is
  an entry of it.\<close>

definition anchors_ok ::
  "(string \<Rightarrow> string option) \<Rightarrow> ('priv \<Rightarrow> string \<Rightarrow> string) \<Rightarrow> 'priv \<Rightarrow> anchor_db \<Rightarrow> bool" where
  "anchors_ok jsonb ed_sign priv st \<longleftrightarrow>
     audit_reachable jsonb ed_sign priv (ad_log st) \<and>
     (\<forall>r \<in> set (ad_anchors st). record_of (map au_entry (db_log (ad_log st))) r)"

lemma AppendCheckpoint_log: "AppendCheckpoint ed_sign priv keyID now st = (st', c) \<Longrightarrow> db_log st' = db_log st"
  by (auto simp: AppendCheckpoint_def Let_def split: if_splits)

lemma anchorNow_records:
  assumes "anchorNow send targets now ids st = (st', records)" "keeps_anchor send"
  shows "ad_log st' = ad_log st \<and>
    (\<forall>r \<in> set (ad_anchors st'). r \<in> set (ad_anchors st) \<or>
       (\<exists>c \<in> set (unanchored st). ar_ThroughSeq r = ck_ThroughSeq c \<and> ar_EntryHash r = ck_EntryHash c))"
proof (cases "LatestUnanchoredCheckpoint st")
  case (Some c)
  let ?rs = "map2 (\<lambda>r i. r\<lparr>ar_ID := i\<rparr>) (Publish send targets now c) ids"
  have "ar_ThroughSeq r = ck_ThroughSeq c \<and> ar_EntryHash r = ck_EntryHash c" if "r \<in> set ?rs" for r
    using that publish_to_fields [OF assms(2)] by (auto simp: Publish_def set_zip)
  moreover have "st' = RecordAnchors ?rs st"
    using assms(1) Some by (simp add: anchorNow_def Let_def)
  ultimately show ?thesis
    using RecordAnchors_subset [of ?rs st] LatestUnanchored_in [OF Some] by fastforce
qed (use assms in \<open>simp add: anchorNow_def\<close>)

lemma anchor_reachable_ok:
  assumes "anchor_reachable jsonb ed_sign priv st"
    and laws: "jsonb_canonical jsonb" "key_pair ed_sign ed_verify priv pub"
  shows "anchors_ok jsonb ed_sign priv st"
  using assms(1)
proof (induction rule: anchor_reachable.induct)
  case start
  then show ?case
    by (simp add: anchors_ok_def audit_reachable.empty)
next
  case (audit st now actor action deviceID raw log')
  from auditInTx_log [OF audit.hyps(2) laws(1)]
  have "set (map au_entry (db_log (ad_log st))) \<subseteq> set (map au_entry (db_log log'))"
    by auto
  then have "\<forall>r \<in> set (ad_anchors st). record_of (map au_entry (db_log log')) r"
    using audit.IH record_of_mono unfolding anchors_ok_def by blast
  moreover have "audit_reachable jsonb ed_sign priv log'"
    by (rule audit_reachable.audit [OF _ audit.hyps(2)]) (use audit.IH in \<open>simp add: anchors_ok_def\<close>)
  ultimately show ?case
    by (simp add: anchors_ok_def)
next
  case (checkpoint st keyID now log' c)
  then show ?case
    using audit_reachable.checkpoint [OF _ checkpoint.hyps(2)] AppendCheckpoint_log [OF checkpoint.hyps(2)]
    by (simp add: anchors_ok_def)
next
  case (anchor st send targets now ids st' records)
  show ?case
  proof (cases "targets = []")
    case False
    then have now: "anchorNow send targets now ids st = (st', records)"
      using anchor.hyps(3) by (simp add: AnchorLatest_def)
    have "log_ok ed_verify pub (ad_log st)"
      using anchor.IH audit_reachable_ok [OF _ laws] by (auto simp: anchors_ok_def)
    then have new: "record_of (map au_entry (db_log (ad_log st))) r"
      if "c \<in> set (unanchored st)" "ar_ThroughSeq r = ck_ThroughSeq c" "ar_EntryHash r = ck_EntryHash c" for c r
      using that by (simp add: log_ok_def unanchored_def list_all_iff attests_def record_of_def)
    note records = anchorNow_records [OF now anchor.hyps(2)]
    have "record_of (map au_entry (db_log (ad_log st))) r" if "r \<in> set (ad_anchors st')" for r
      using that records new anchor.IH unfolding anchors_ok_def by blast
    then show ?thesis
      using records anchor.IH by (simp add: anchors_ok_def)
  qed (use anchor in \<open>simp add: AnchorLatest_def\<close>)
qed

section \<open>Properties\<close>

text \<open>C28: No false alarm. As long as the log, the checkpoints and the anchors are only changed by
  the program, every published anchor that is compared matches the chain, so that the summary
  never counts a mismatched or missing one.\<close>

theorem anchors_never_false_alarm:
  assumes "anchor_reachable jsonb ed_sign priv st" "jsonb_canonical jsonb" "key_pair ed_sign ed_verify priv pub"
    and "VerifyAnchors st limit = (vs, s)"
  shows "(\<forall>v \<in> set vs. vf_Matches v \<longleftrightarrow> RecordOK (vf_Record v)) \<and> sm_Mismatched s = 0 \<and> sm_Missing s = 0"
proof -
  have ok: "anchors_ok jsonb ed_sign priv st"
    using anchor_reachable_ok assms(1-3) .
  then have "log_ok ed_verify pub (ad_log st)"
    using audit_reachable_ok [OF _ assms(2,3)] by (simp add: anchors_ok_def)
  then have rows: "chain_rows (ad_log st) = map au_entry (db_log (ad_log st))" "sorted_wrt seq_less (chain_rows (ad_log st))"
    by (simp_all add: log_ok_def chain_rows_verified VerifyChain_link dense_increasing)
  define cur where "cur = ChainHashesAt (ad_log st) (map ar_ThroughSeq (filter RecordOK (ListAnchors st limit)))"
  have vs: "set vs = verify_anchor cur ` set (ListAnchors st limit)" and s: "s = Summarise vs"
    using assms(4) by (auto simp: VerifyAnchors_def Let_def VerifyAgainst_def cur_def)
  have matches: "vf_Matches v \<longleftrightarrow> RecordOK (vf_Record v)" if v: "v \<in> set vs" for v
  proof -
    obtain r where r: "r \<in> set (ListAnchors st limit)" "v = verify_anchor cur r"
      using v vs by auto
    then have "record_of (chain_rows (ad_log st)) r"
      using ok rows(1) by (auto simp: ListAnchors_def anchors_ok_def dest!: in_set_takeD)
    then have "cur (ar_ThroughSeq r) = Some (ar_EntryHash r)" if "RecordOK r"
      unfolding cur_def using that r(1) by (subst ChainHashesAt_iff [OF rows(2)]) (auto simp: record_of_def)
    then show ?thesis
      by (auto simp: r(2) verify_anchor_matches)
  qed
  with Summarise_clean [of vs] s show ?thesis
    by simp
qed

text \<open>C29: A rewritten log is found out even if it was signed again. If an anchor was taken of a log
  that verified, and still matches the log there is now, which verifies too, then both have the
  same entries up to the anchor, or two different hashed strings with one SHA-256 are among them.\<close>

theorem anchor_pins_history:
  assumes "VerifyChain es = None" "record_of es r"
    and "VerifyChain (chain_rows st) = None" "vf_Matches (verify_anchor (ChainHashesAt st seqs) r)"
  shows "map entry_view (filter (\<lambda>e. en_Seq e \<le> ar_ThroughSeq r) es) =
      map entry_view (filter (\<lambda>e. en_Seq e \<le> ar_ThroughSeq r) (chain_rows st)) \<or>
    (\<exists>e \<in> set es. \<exists>e' \<in> set (chain_rows st). collision e e')"
proof -
  have "record_of (chain_rows st) r"
    using assms(4) by (simp add: verify_anchor_matches ChainHashesAt_def record_of_def) (force dest!: map_of_SomeD)
  then obtain d where d: "d \<in> set (chain_rows st)" "en_Seq d = ar_ThroughSeq r" "en_EntryHash d = ar_EntryHash r"
    by (auto simp: record_of_def)
  obtain e where e: "e \<in> set es" "en_Seq e = ar_ThroughSeq r" "en_EntryHash e = ar_EntryHash r"
    using assms(2) by (auto simp: record_of_def)
  obtain us where us: "filter (\<lambda>x. en_Seq x \<le> ar_ThroughSeq r) es = us @ [e]" "link_all Genesis (us @ [e]) = us @ [e]"
    using chain_upto [of Genesis es e] assms(1) e by (auto simp: VerifyChain_link)
  obtain vs where vs: "filter (\<lambda>x. en_Seq x \<le> ar_ThroughSeq r) (chain_rows st) = vs @ [d]"
      "link_all Genesis (vs @ [d]) = vs @ [d]"
    using chain_upto [of Genesis "chain_rows st" d] assms(3) d by (auto simp: VerifyChain_link)
  have "set (us @ [e]) \<subseteq> set es" "set (vs @ [d]) \<subseteq> set (chain_rows st)"
    using us(1) vs(1) by (metis filter_is_subset)+
  then show ?thesis
    using chains_agree [OF us(2) vs(2)] d(3) e(3) unfolding us(1) vs(1) by auto
qed

section \<open>Every checkpoint is anchored in the end\<close>

definition run_ticks :: "Target list \<Rightarrow> (transport \<times> time \<times> string list) list \<Rightarrow> anchor_db \<Rightarrow> anchor_db" where
  "run_ticks targets ticks st =
     fold (\<lambda>(send, now, ids) st. fst (AnchorLatest send targets now ids st)) ticks st"

text \<open>A run of the scheduler in which one target takes the checkpoint.\<close>

definition healthy_tick :: "Target list \<Rightarrow> transport \<times> time \<times> string list \<Rightarrow> bool" where
  "healthy_tick targets = (\<lambda>(send, now, ids).
     keeps_anchor send \<and> length ids = length targets \<and> distinct ids \<and>
     (\<forall>c. \<exists>t \<in> set targets. RecordOK (publish_to send now c t)))"

lemma RecordAnchors_fresh:
  assumes "distinct (map ar_ID rs)" "ar_ID ` set rs \<inter> ar_ID ` set (ad_anchors st) = {}"
  shows "ad_anchors (RecordAnchors rs st) = ad_anchors st @ rs"
proof -
  have "fold (\<lambda>r as. if ar_ID r \<in> ar_ID ` set as then as else as @ [r]) rs as = as @ rs"
    if "distinct (map ar_ID rs)" "ar_ID ` set rs \<inter> ar_ID ` set as = {}" for as
    using that by (induction rs arbitrary: as) auto
  then show ?thesis
    using assms by (simp add: RecordAnchors_def)
qed

lemma ids_of_map2: "length rs = length ids \<Longrightarrow> map ar_ID (map2 (\<lambda>r i. r\<lparr>ar_ID := i\<rparr>) rs ids) = ids"
  by (induction rs ids rule: list_induct2) auto

lemma tick_progress:
  assumes "healthy_tick targets (send, now, ids)" "set ids \<inter> ar_ID ` set (ad_anchors st) = {}"
  defines "st' \<equiv> fst (AnchorLatest send targets now ids st)"
  shows "ad_log st' = ad_log st" "ar_ID ` set (ad_anchors st') \<subseteq> ar_ID ` set (ad_anchors st) \<union> set ids"
    "unanchored st \<noteq> [] \<Longrightarrow> length (unanchored st') < length (unanchored st)"
proof -
  have some: "targets \<noteq> []" and keep: "keeps_anchor send" and len: "length ids = length targets" "distinct ids"
    using assms(1) by (auto simp: healthy_tick_def)
  have "ad_log st' = ad_log st \<and> ar_ID ` set (ad_anchors st') \<subseteq> ar_ID ` set (ad_anchors st) \<union> set ids \<and>
    (unanchored st \<noteq> [] \<longrightarrow> length (unanchored st') < length (unanchored st))"
  proof (cases "LatestUnanchoredCheckpoint st")
    case None
    then have "unanchored st = []"
      by (auto simp: LatestUnanchoredCheckpoint_def split: list.splits)
    then show ?thesis
      using None some by (auto simp: st'_def AnchorLatest_def anchorNow_def)
  next
    case (Some c)
    let ?rs = "map2 (\<lambda>r i. r\<lparr>ar_ID := i\<rparr>) (Publish send targets now c) ids"
    have st': "st' = RecordAnchors ?rs st"
      using Some some by (simp add: st'_def AnchorLatest_def anchorNow_def Let_def)
    have ids: "map ar_ID ?rs = ids"
      using len(1) by (intro ids_of_map2) (simp add: Publish_def)
    then have "ar_ID ` set ?rs = set ids"
      by (metis set_map)
    then have anchors: "ad_anchors st' = ad_anchors st @ ?rs"
      unfolding st' by (intro RecordAnchors_fresh) (use ids len(2) assms(2) in simp_all)
    obtain t where "t \<in> set targets" "RecordOK (publish_to send now c t)"
      using assms(1) by (auto simp: healthy_tick_def)
    then have "\<exists>r \<in> set ?rs. RecordOK r \<and> ar_ThroughSeq r = ck_ThroughSeq c"
    proof -
      obtain j where j: "j < length targets" "targets ! j = t"
        using \<open>t \<in> set targets\<close> by (auto simp: in_set_conv_nth)
      let ?r = "(publish_to send now c t)\<lparr>ar_ID := ids ! j\<rparr>"
      have "?r = ?rs ! j" "j < length ?rs"
        using j len(1) by (simp_all add: Publish_def)
      then have "?r \<in> set ?rs"
        by (metis nth_mem)
      then show ?thesis
        using \<open>RecordOK (publish_to send now c t)\<close> publish_to_fields [OF keep, of now c t]
        by (intro bexI [of _ ?r]) (simp_all add: RecordOK_def)
    qed
    then have "c \<notin> set (unanchored st')"
      by (auto simp: unanchored_def anchors list_ex_iff)
    moreover have "unanchored st' = filter (\<lambda>c. \<not> list_ex (\<lambda>a. ar_ThroughSeq a = ck_ThroughSeq c \<and> RecordOK a) ?rs) (unanchored st)"
      unfolding unanchored_def anchors by (auto simp: st' intro!: filter_cong)
    ultimately have "length (unanchored st') < length (unanchored st)"
      using LatestUnanchored_in [OF Some] by (metis (no_types, lifting) length_filter_less mem_Collect_eq set_filter)
    moreover have "ar_ID ` set (ad_anchors st') \<subseteq> ar_ID ` set (ad_anchors st) \<union> set ids"
      using \<open>ar_ID ` set ?rs = set ids\<close> by (simp add: anchors image_Un)
    ultimately show ?thesis
      by (simp add: st')
  qed
  then show "ad_log st' = ad_log st" "ar_ID ` set (ad_anchors st') \<subseteq> ar_ID ` set (ad_anchors st) \<union> set ids"
    "unanchored st \<noteq> [] \<Longrightarrow> length (unanchored st') < length (unanchored st)"
    by simp_all
qed

lemma LatestUnanchored_None: "LatestUnanchoredCheckpoint st = None \<longleftrightarrow> unanchored st = []"
  by (auto simp: LatestUnanchoredCheckpoint_def split: list.split)

text \<open>C30: Progress. As long as in every run of the scheduler some target takes what it is sent and
  record identifiers are not drawn twice, as many runs as there are unanchored checkpoints
  leave none without a published anchor, the older ones included.\<close>

theorem every_checkpoint_anchored:
  assumes "list_all (healthy_tick targets) ticks" "length (unanchored st) \<le> length ticks"
    and "distinct (concat (map (\<lambda>(_, _, ids). ids) ticks))"
    and "set (concat (map (\<lambda>(_, _, ids). ids) ticks)) \<inter> ar_ID ` set (ad_anchors st) = {}"
  shows "LatestUnanchoredCheckpoint (run_ticks targets ticks st) = None \<and>
    (\<forall>c \<in> set (db_checkpoints (ad_log st)).
       \<exists>r \<in> set (ad_anchors (run_ticks targets ticks st)). RecordOK r \<and> ar_ThroughSeq r = ck_ThroughSeq c)"
proof -
  have "unanchored (run_ticks targets ticks st) = [] \<and> ad_log (run_ticks targets ticks st) = ad_log st"
    using assms
  proof (induction ticks arbitrary: st)
    case (Cons tick ticks)
    obtain send now ids where tick: "tick = (send, now, ids)"
      by (cases tick)
    let ?st = "fst (AnchorLatest send targets now ids st)"
    have healthy: "healthy_tick targets (send, now, ids)" and fresh: "set ids \<inter> ar_ID ` set (ad_anchors st) = {}"
      using Cons.prems by (auto simp: tick)
    note step = tick_progress [OF this]
    have "length (unanchored ?st) \<le> length ticks"
    proof (cases "unanchored st = []")
      case True
      then have "LatestUnanchoredCheckpoint st = None"
        by (simp add: LatestUnanchoredCheckpoint_def)
      then have "?st = st"
        by (simp add: AnchorLatest_def anchorNow_def)
      then show ?thesis
        using True by simp
    next
      case False
      then show ?thesis
        using step(3) Cons.prems(2) by simp
    qed
    moreover have "set (concat (map (\<lambda>(_, _, ids). ids) ticks)) \<inter> ar_ID ` set (ad_anchors ?st) = {}"
      using step(2) Cons.prems(3,4) by (simp add: tick) blast
    ultimately show ?case
      using Cons.IH [of ?st] Cons.prems(1,3) step(1) by (simp add: tick run_ticks_def)
  qed (simp add: run_ticks_def)
  then show ?thesis
    by (auto simp: LatestUnanchored_None unanchored_def filter_empty_conv list_ex_iff)
qed

text \<open>The witnesses: a checkpoint of a log of one login, and a file target.\<close>

definition ex_send :: transport where "ex_send t c r = (r\<lparr>ar_Reference := tg_Ref t\<rparr>, None)"

definition ex_target :: Target where
  "ex_target = \<lparr>tg_Kind = KindFile, tg_Ref = ''/var/anchors'', tg_Token = []\<rparr>"

lemma ex_send_keeps: "keeps_anchor ex_send"
  by (simp add: keeps_anchor_def ex_send_def)

lemma ex_send_ok: "RecordOK (publish_to ex_send now c ex_target)"
  by (simp add: RecordOK_def publish_to_def ex_send_def ex_target_def Let_def)

definition ex_log_db :: anchor_db where
  "ex_log_db = \<lparr>ad_log = \<lparr>db_log = [plain_row (Link Genesis (ex_entry 1))],
     db_checkpoints = [ex_checkpoint (Link Genesis (ex_entry 1))]\<rparr>, ad_anchors = []\<rparr>"

lemma ex_unanchored: "length (unanchored ex_log_db) = 1"
  by (simp add: unanchored_def ex_log_db_def)

theorem every_checkpoint_anchored_witness:
  "LatestUnanchoredCheckpoint (run_ticks [ex_target] [(ex_send, 5, [''id-1''])] ex_log_db) = None"
proof -
  have "list_all (healthy_tick [ex_target]) [(ex_send, 5, [''id-1''])]"
    by (simp add: healthy_tick_def ex_send_keeps ex_send_ok)
  from every_checkpoint_anchored [OF this, of ex_log_db] ex_unanchored show ?thesis
    by (simp add: ex_log_db_def)
qed

theorem anchors_never_false_alarm_witness:
  "\<exists>st vs s. VerifyAnchors st 0 = (vs, s) \<and> length (db_checkpoints (ad_log st)) = 1 \<and> sm_Mismatched s = 0"
proof -
  have laws: "jsonb_canonical Some" "key_pair (\<lambda>_ m. m) (\<lambda>_ m s. s = m) () ()"
    by (simp_all add: jsonb_canonical_def key_pair_def)
  obtain log1 where log1: "auditInTx Some 0 ''admin'' ''login'' [] [] empty_log = Inr log1"
    by (simp add: auditInTx_def Let_def)
  obtain log2 c where log2: "AppendCheckpoint (\<lambda>_ m. m) () ''k'' 1000 log1 = (log2, c)"
    by fastforce
  have "chain_rows log1 \<noteq> []" "db_checkpoints log1 = []"
    using log1 by (auto simp: auditInTx_def Let_def empty_log_def chain_rows_def)
  then have one: "length (db_checkpoints log2) = 1"
    using log2 by (auto simp: AppendCheckpoint_def Let_def)
  let ?st1 = "\<lparr>ad_log = log2, ad_anchors = []\<rparr>"
  have "anchor_reachable Some (\<lambda>_ m. m) () \<lparr>ad_log = log1, ad_anchors = []\<rparr>"
    using anchor_reachable.audit [OF anchor_reachable.start] log1 by fastforce
  from anchor_reachable.checkpoint [OF this] log2
  have r1: "anchor_reachable Some (\<lambda>_ m. m) () ?st1"
    by fastforce
  obtain st2 rs where st2: "AnchorLatest ex_send [ex_target] 5 [''id-1''] ?st1 = (st2, rs)"
    by fastforce
  note reach = anchor_reachable.anchor [OF r1 ex_send_keeps st2]
  have "ad_log st2 = log2"
    using st2 anchorNow_records [OF _ ex_send_keeps, of "[ex_target]" 5 "[''id-1'']" ?st1 st2 rs] by (simp add: AnchorLatest_def)
  moreover obtain vs s where v: "VerifyAnchors st2 0 = (vs, s)"
    by fastforce
  ultimately show ?thesis
    using anchors_never_false_alarm [OF reach laws v] one by blast
qed

theorem anchor_pins_history_witness:
  "let es = chain_rows (ad_log ex_log_db)
   in map entry_view es = map entry_view es \<or> (\<exists>e \<in> set es. \<exists>e' \<in> set es. collision e e')"
proof -
  let ?e = "Link Genesis (ex_entry 1)"
  let ?r = "publish_to ex_send 5 (ex_checkpoint ?e) ex_target"
  have rows: "chain_rows (ad_log ex_log_db) = [?e]"
    by (simp add: chain_rows_def ex_log_db_def plain_row_def go_sort_Cons)
  have fields: "ar_ThroughSeq ?r = 1" "ar_EntryHash ?r = en_EntryHash ?e"
    using publish_to_fields [OF ex_send_keeps] by (simp_all add: ex_checkpoint_def SignCheckpoint_def)
  have "VerifyChain [?e] = None"
    by (simp add: VerifyChain_link Link_fixed)
  moreover have "record_of [?e] ?r"
    by (simp add: record_of_def fields)
  moreover have "vf_Matches (verify_anchor (ChainHashesAt (ad_log ex_log_db) [1]) ?r)"
    by (simp add: verify_anchor_matches ex_send_ok ChainHashesAt_def rows fields)
  ultimately show ?thesis
    using anchor_pins_history [of "[?e]" ?r "ad_log ex_log_db" "[1]"] rows by (simp add: fields)
qed

end
