(* ===== verification/Ticket_Groups.thy ===== *)
theory Ticket_Groups
  imports Complex_Main Sha256 Go_Time
begin

text \<open>
  internal/autotask/types.go and group.go: the settings of the ticket integration, and the
  grouping of the open findings of the "fix this week" list into remediation actions, one per
  ticket. The zone URL check of the client package and \<open>net/url\<close> are arguments of
  \<open>Normalize\<close>, and encoding/json of \<open>Fingerprint\<close>. Which of several bad settings is named
  first depends on the order of Go's map iteration, so \<open>Normalize\<close> only says that there is one.
  A score is a rational number, printed with its ties rounded to even.
\<close>

section \<open>Constants (types.go)\<close>

definition SourceVuln :: string where "SourceVuln = ''vuln''"
definition SourceEOL :: string where "SourceEOL = ''eol''"
definition SourceSurface :: string where "SourceSurface = ''surface''"
definition SourceIdentity :: string where "SourceIdentity = ''identity''"

definition UrgencyCritical :: string where "UrgencyCritical = ''critical''"
definition UrgencyHigh :: string where "UrgencyHigh = ''high''"
definition UrgencyMedium :: string where "UrgencyMedium = ''medium''"
definition UrgencyLow :: string where "UrgencyLow = ''low''"

lemmas urgency_defs = UrgencyCritical_def UrgencyHigh_def UrgencyMedium_def UrgencyLow_def

definition UrgencyRank :: "string \<Rightarrow> nat" where
  "UrgencyRank u =
     (if u = UrgencyCritical then 3 else if u = UrgencyHigh then 2 else if u = UrgencyMedium then 1 else 0)"

definition ModeDryRun :: string where "ModeDryRun = ''dry_run''"
definition ModeLive :: string where "ModeLive = ''live''"

record OpenFinding =
  of_Source :: string
  of_MemberKey :: string
  of_MemberLabel :: string
  of_FirstSeen :: time
  of_Family :: string
  of_Package :: string
  of_Installed :: string
  of_Fixed :: string
  of_AdvisoryID :: string
  of_CVE :: string
  of_Severity :: string
  of_KEV :: bool
  of_EPSS :: "rat option"
  of_CVSS :: "rat option"
  of_PackageManager :: string
  of_Distro :: string
  of_EOLProduct :: string
  of_EOLCycle :: string
  of_EOLStage :: string
  of_EOLLabel :: string
  of_EOLUpgrade :: string
  of_EOLDate :: string
  of_CheckID :: string
  of_Provider :: string
  of_Subject :: string
  of_Title :: string
  of_Detail :: string
  of_Fix :: string

record Member =
  mb_Key :: string
  mb_Label :: string
  mb_Line :: string
  mb_Digest :: string

record Group =
  gr_Key :: string
  gr_Source :: string
  gr_Title :: string
  gr_Urgency :: string
  gr_Why :: string
  gr_Fix :: string
  gr_Link :: string
  gr_Members :: "Member list"
  gr_Advisories :: nat

section \<open>Settings\<close>

record Settings =
  st_Mode :: string
  st_APIUser :: string
  st_ZoneURL :: string
  st_CompanyID :: int
  st_QueueID :: string
  st_Status :: string
  st_Source :: string
  st_IssueType :: string
  st_SubIssueType :: string
  st_PriorityCritical :: string
  st_PriorityHigh :: string
  st_PriorityMedium :: string
  st_NoteType :: string
  st_NotePublish :: string
  st_AutoComplete :: bool
  st_CompleteStatus :: string
  st_MinUrgency :: string
  st_DueDaysCritical :: int
  st_DueDaysHigh :: int
  st_DueDaysMedium :: int
  st_ConsoleURL :: string
  st_MaxCreates :: int

definition DefaultMaxCreates :: int where "DefaultMaxCreates = 10"
definition MaxMaxCreates :: int where "MaxMaxCreates = 50"
definition MaxNotesPerRun :: int where "MaxNotesPerRun = 60"

definition DefaultSettings :: Settings where
  "DefaultSettings = \<lparr>st_Mode = ModeDryRun, st_APIUser = [], st_ZoneURL = [], st_CompanyID = 0, st_QueueID = [],
     st_Status = [], st_Source = [], st_IssueType = [], st_SubIssueType = [], st_PriorityCritical = [], st_PriorityHigh = [],
     st_PriorityMedium = [], st_NoteType = [], st_NotePublish = [], st_AutoComplete = False, st_CompleteStatus = [],
     st_MinUrgency = UrgencyHigh, st_DueDaysCritical = 2, st_DueDaysHigh = 7, st_DueDaysMedium = 14, st_ConsoleURL = [],
     st_MaxCreates = DefaultMaxCreates\<rparr>"

text \<open>\<open>^-?[0-9]{1,12}$\<close> and \<open>^[A-Za-z0-9._%+@-]{3,254}$\<close>.\<close>

definition pickRe :: "string \<Rightarrow> bool" where
  "pickRe s \<longleftrightarrow>
     (let d = (case s of c # r \<Rightarrow> if c = CHR ''-'' then r else s | [] \<Rightarrow> s)
      in 1 \<le> length d \<and> length d \<le> 12 \<and> list_all isASCIIDigit d)"

definition userRe :: "string \<Rightarrow> bool" where
  "userRe s \<longleftrightarrow> 3 \<le> length s \<and> length s \<le> 254 \<and>
     list_all (\<lambda>c. isASCIIDigit c \<or> isASCIILetter c \<or> c \<in> set ''._%+@-'') s"

definition pick_fields :: "Settings \<Rightarrow> string list" where
  "pick_fields s = [st_QueueID s, st_Status s, st_Source s, st_IssueType s, st_SubIssueType s, st_PriorityCritical s,
     st_PriorityHigh s, st_PriorityMedium s, st_NoteType s, st_NotePublish s, st_CompleteStatus s]"

definition trim_picks :: "Settings \<Rightarrow> Settings" where
  "trim_picks s = s\<lparr>st_QueueID := TrimSpace (st_QueueID s), st_Status := TrimSpace (st_Status s),
     st_Source := TrimSpace (st_Source s), st_IssueType := TrimSpace (st_IssueType s),
     st_SubIssueType := TrimSpace (st_SubIssueType s), st_PriorityCritical := TrimSpace (st_PriorityCritical s),
     st_PriorityHigh := TrimSpace (st_PriorityHigh s), st_PriorityMedium := TrimSpace (st_PriorityMedium s),
     st_NoteType := TrimSpace (st_NoteType s), st_NotePublish := TrimSpace (st_NotePublish s),
     st_CompleteStatus := TrimSpace (st_CompleteStatus s)\<rparr>"

text \<open>\<open>zone\<close> is \<open>client.CheckZoneURL\<close>; \<open>console\<close> parses an address, and gives its printed form
  when it is http or https, has a host, no user, no query and no fragment.\<close>

definition Normalize :: "(string \<Rightarrow> string option) \<Rightarrow> (string \<Rightarrow> string option) \<Rightarrow> Settings \<Rightarrow> Settings option" where
  "Normalize zone console s0 =
     (let s = s0\<lparr>st_APIUser := TrimSpace (st_APIUser s0)\<rparr> in
      if st_APIUser s \<noteq> [] \<and> \<not> userRe (st_APIUser s) then None
      else case (if TrimSpace (st_ZoneURL s) \<noteq> [] then zone (TrimSpace (st_ZoneURL s)) else Some []) of
        None \<Rightarrow> None
      | Some z \<Rightarrow>
        let s = s\<lparr>st_ZoneURL := z\<rparr> in
        if st_CompanyID s < 0 \<or> 2 ^ 53 < st_CompanyID s then None
        else if st_Mode s \<notin> {[], ModeDryRun, ModeLive} then None
        else
          let s = trim_picks (if st_Mode s = [] then s\<lparr>st_Mode := ModeDryRun\<rparr> else s) in
          if list_ex (\<lambda>v. v \<noteq> [] \<and> \<not> pickRe v) (pick_fields s) then None
          else if st_SubIssueType s \<noteq> [] \<and> st_IssueType s = [] then None
          else if st_AutoComplete s \<and> st_CompleteStatus s = [] then None
          else if st_MinUrgency s \<notin> {[], UrgencyCritical, UrgencyHigh, UrgencyMedium} then None
          else
            let s = (if st_MinUrgency s = [] then s\<lparr>st_MinUrgency := UrgencyHigh\<rparr> else s) in
            if list_ex (\<lambda>d. d < 1 \<or> 90 < d) [st_DueDaysCritical s, st_DueDaysHigh s, st_DueDaysMedium s] then None
            else
              let s = (if st_MaxCreates s = 0 then s\<lparr>st_MaxCreates := DefaultMaxCreates\<rparr> else s) in
              if st_MaxCreates s < 1 \<or> MaxMaxCreates < st_MaxCreates s then None
              else if TrimSpace (st_ConsoleURL s) = [] then Some (s\<lparr>st_ConsoleURL := []\<rparr>)
              else case console (TrimSpace (st_ConsoleURL s)) of
                None \<Rightarrow> None
              | Some u \<Rightarrow> Some (s\<lparr>st_ConsoleURL := rev (dropWhile (\<lambda>c. c = CHR ''/'') (rev u))\<rparr>))"

definition Priority :: "Settings \<Rightarrow> string \<Rightarrow> string" where
  "Priority s urgency =
     (if urgency = UrgencyCritical then st_PriorityCritical s
      else if urgency = UrgencyHigh then st_PriorityHigh s
      else if urgency = UrgencyMedium then st_PriorityMedium s
      else [])"

definition DueDays :: "Settings \<Rightarrow> string \<Rightarrow> int" where
  "DueDays s urgency =
     (if urgency = UrgencyCritical then st_DueDaysCritical s
      else if urgency = UrgencyHigh then st_DueDaysHigh s
      else st_DueDaysMedium s)"

definition apos :: string where "apos = [CHR 0x27]"

definition Missing :: "Settings \<Rightarrow> string list" where
  "Missing s =
     (if st_APIUser s = [] then [''the API user'' @ apos @ ''s name''] else []) @
     (if st_CompanyID s = 0 then [''the Autotask company (by id)''] else []) @
     (if st_QueueID s = [] then [''the queue''] else []) @
     (if st_Status s = [] then [''the status of a new ticket''] else []) @
     (if st_PriorityCritical s = [] \<or> st_PriorityHigh s = [] \<or> st_PriorityMedium s = []
      then [''a priority for each of critical, high and medium''] else []) @
     (if st_NoteType s = [] \<or> st_NotePublish s = [] then [''the note type and who may see a note''] else [])"

datatype json = JStr string | JInt int | JBool bool | JNull

definition fingerprint_values :: "Settings \<Rightarrow> json list" where
  "fingerprint_values s =
     [JStr (st_APIUser s), JStr (st_ZoneURL s), JInt (st_CompanyID s), JStr (st_QueueID s), JStr (st_Status s),
      JStr (st_Source s), JStr (st_IssueType s), JStr (st_SubIssueType s), JStr (st_PriorityCritical s),
      JStr (st_PriorityHigh s), JStr (st_PriorityMedium s), JStr (st_NoteType s), JStr (st_NotePublish s),
      JBool (st_AutoComplete s), JStr (st_CompleteStatus s), JStr (st_MinUrgency s), JInt (st_DueDaysCritical s),
      JInt (st_DueDaysHigh s), JInt (st_DueDaysMedium s), JStr (st_ConsoleURL s)]"

definition Fingerprint :: "(json list \<Rightarrow> string) \<Rightarrow> Settings \<Rightarrow> string" where
  "Fingerprint encode s = take 16 (EncodeToString (Sum256 (encode (fingerprint_values s))))"

section \<open>Keys and urgencies (group.go)\<close>

definition vulnKey :: "string \<Rightarrow> string" where "vulnKey family = ''vuln|'' @ family"

definition eolKey :: "string \<Rightarrow> string \<Rightarrow> string" where
  "eolKey product cycle = ''eol|'' @ product @ ''|'' @ cycle"

definition surfaceKey :: "OpenFinding \<Rightarrow> string" where
  "surfaceKey f =
     (if of_CheckID f = ''ports.open'' \<or> of_CheckID f = ''cname.dangling'' \<or> HasPrefix (of_CheckID f) ''dkim.''
      then ''surface|'' @ of_CheckID f @ ''|'' @ of_Subject f
      else ''surface|'' @ of_CheckID f)"

definition identityKey :: "OpenFinding \<Rightarrow> string" where
  "identityKey f =
     (if of_CheckID f = ''mfa.not_registered'' then ''identity|'' @ of_Provider f @ ''|'' @ of_CheckID f
      else ''identity|'' @ of_Provider f @ ''|'' @ of_CheckID f @ ''|'' @ of_Subject f)"

definition shortHash :: "string list \<Rightarrow> string" where
  "shortHash parts = take 12 (EncodeToString (Sum256 (Join parts [CHR 0x00])))"

definition raise_to :: "string \<Rightarrow> string \<Rightarrow> string" where
  "raise_to urgency u = (if UrgencyRank u < UrgencyRank urgency then urgency else u)"

definition at_least :: "rat option \<Rightarrow> rat \<Rightarrow> bool" where
  "at_least score bound = (case score of None \<Rightarrow> False | Some x \<Rightarrow> bound \<le> x)"

definition vuln_raise :: "OpenFinding \<Rightarrow> string \<Rightarrow> string" where
  "vuln_raise f u =
     (if of_KEV f then raise_to UrgencyCritical u
      else if at_least (of_EPSS f) (1 / 10) \<or> at_least (of_CVSS f) 7 \<or> of_Severity f = ''critical'' \<or> of_Severity f = ''high''
        then raise_to UrgencyHigh u
      else if of_Severity f = ''medium'' \<or> at_least (of_CVSS f) 4 then raise_to UrgencyMedium u
      else u)"

definition vulnUrgency :: "OpenFinding list \<Rightarrow> string" where
  "vulnUrgency fs = fold vuln_raise fs UrgencyLow"

definition severityUrgency :: "string \<Rightarrow> string" where
  "severityUrgency s =
     (if s = ''critical'' then UrgencyCritical else if s = ''high'' then UrgencyHigh
      else if s = ''medium'' then UrgencyMedium else UrgencyLow)"

definition maxUrgency :: "string \<Rightarrow> string \<Rightarrow> string" where
  "maxUrgency a b = (if UrgencyRank a < UrgencyRank b then b else a)"

definition linkFor :: "string \<Rightarrow> string" where
  "linkFor console = (if console = [] then [] else console @ ''/advisories'')"

definition plural :: "nat \<Rightarrow> string \<Rightarrow> string \<Rightarrow> string" where
  "plural n one many = (if n = 1 then ''1 '' @ one else itoa_nat n @ '' '' @ many)"

definition capList :: "string list \<Rightarrow> nat \<Rightarrow> string" where
  "capList items max_items =
     (if length items \<le> max_items then Join items '', ''
      else Join (take max_items items) '', '' @ '' and '' @ itoa_nat (length items - max_items) @ '' more'')"

text \<open>\<open>fmt\<close>'s \<open>%.2f\<close> and \<open>%.1f\<close> of a score that is not negative.\<close>

definition round_even :: "rat \<Rightarrow> nat" where
  "round_even x =
     (let n = nat \<lfloor>x\<rfloor>; r = x - of_int \<lfloor>x\<rfloor>
      in if r < 1 / 2 then n else if 1 / 2 < r then Suc n else if even n then n else Suc n)"

definition FormatFixed :: "nat \<Rightarrow> rat \<Rightarrow> string" where
  "FormatFixed prec x =
     (let n = round_even (x * 10 ^ prec)
      in itoa_nat (n div 10 ^ prec) @ ''.'' @ pad prec (itoa_nat (n mod 10 ^ prec)))"

section \<open>The four kinds of action\<close>

text \<open>A map filled in a loop: the findings of a member, and its label (the last one stays).\<close>

definition by_member :: "OpenFinding list \<Rightarrow> (string \<times> OpenFinding list) list" where
  "by_member fs = fold (\<lambda>f. upd_assoc (of_MemberKey f) (\<lambda>v. (case v of None \<Rightarrow> [] | Some xs \<Rightarrow> xs) @ [f])) fs []"

definition label_of :: "OpenFinding list \<Rightarrow> string \<Rightarrow> string" where
  "label_of fs k = (case filter (\<lambda>f. of_MemberKey f = k) (rev fs) of [] \<Rightarrow> [] | f # _ \<Rightarrow> of_MemberLabel f)"

definition label_less :: "(string \<Rightarrow> string) \<Rightarrow> string \<Rightarrow> string \<Rightarrow> bool" where
  "label_less labels i j =
     (if ToLower (labels i) \<noteq> ToLower (labels j) then ToLower (labels i) < ToLower (labels j) else i < j)"

definition sortedKeysByLabel :: "OpenFinding list \<Rightarrow> string list" where
  "sortedKeysByLabel fs = go_sort (label_less (label_of fs)) (map fst (by_member fs))"

definition pmFamily :: "string \<Rightarrow> string" where
  "pmFamily pm =
     (let p = ToLower pm
      in if p = ''dpkg'' \<or> p = ''apt'' then ''apt''
         else if p = ''rpm'' \<or> p = ''dnf'' \<or> p = ''yum'' then ''dnf''
         else if p = ''zypper'' then ''zypper'' else [])"

definition top_score :: "rat option list \<Rightarrow> rat option" where
  "top_score scores =
     fold (\<lambda>s t. case s of None \<Rightarrow> t | Some x \<Rightarrow> (case t of None \<Rightarrow> Some x | Some y \<Rightarrow> if y < x then Some x else t)) scores None"

definition first_of_advisory :: "OpenFinding list \<Rightarrow> OpenFinding list" where
  "first_of_advisory fs =
     List.map_filter (\<lambda>a. case filter (\<lambda>f. of_AdvisoryID f = a) fs of [] \<Rightarrow> None | f # _ \<Rightarrow> Some f)
       (first_occurrences (map of_AdvisoryID fs))"

definition vulnLine :: "string \<Rightarrow> OpenFinding list \<Rightarrow> string" where
  "vulnLine label fs =
     (let versions = go_sort (\<lambda>v w. fst v < fst w)
            (first_occurrences (map (\<lambda>f. (of_Package f, of_Installed f, of_Fixed f)) fs));
          firsts = first_of_advisory fs;
          cves = sort_strings (map (\<lambda>f. if of_CVE f = [] then of_AdvisoryID f else of_CVE f) firsts);
          kev = length (filter of_KEV firsts);
          parts = map (\<lambda>(pkg, installed, fixed).
            if fixed \<noteq> [] then pkg @ '' '' @ installed @ '' -> fixed in '' @ fixed else pkg @ '' '' @ installed) versions;
          tail = plural (length cves) ''advisory'' ''advisories'' @ '': '' @ capList cves 4 @
            (if 0 < kev then ''; '' @ itoa_nat kev @ '' exploited in the wild'' else [])
      in label @ '': '' @ capList parts 3 @ '' ('' @ tail @ '')'')"

definition vulnDigest :: "OpenFinding list \<Rightarrow> string" where
  "vulnDigest fs = shortHash (sort_strings (map (\<lambda>f. of_AdvisoryID f @ ''@'' @ of_Fixed f) fs))"

definition vulnWhy :: "nat \<Rightarrow> nat \<Rightarrow> nat \<Rightarrow> rat option \<Rightarrow> rat option \<Rightarrow> string" where
  "vulnWhy advisories kev hosts epss cvss =
     (let sig = (case epss of None \<Rightarrow> [] | Some x \<Rightarrow> [''highest EPSS '' @ FormatFixed 2 x]) @
            (case cvss of None \<Rightarrow> [] | Some x \<Rightarrow> [''highest CVSS '' @ FormatFixed 1 x])
      in plural advisories ''advisory'' ''advisories'' @ '' open on '' @ plural hosts ''host'' ''hosts'' @ ''. '' @
         (if 0 < kev then itoa_nat kev @ '' of them '' @ (if kev = 1 then ''is'' else ''are'') @
            '' on the CISA KEV list (exploited in the wild). ''
          else ''None of them is on the CISA KEV list. '') @
         (case sig of
            [] \<Rightarrow> []
          | s # rest \<Rightarrow> ToUpper (take 1 s) @ drop 1 s @ (case rest of [] \<Rightarrow> [] | s2 # _ \<Rightarrow> '', '' @ s2) @ ''. '') @
         ''Every host listed has an update from its own distribution that closes these.'')"

definition vulnFix :: "string \<Rightarrow> string list \<Rightarrow> string list \<Rightarrow> string" where
  "vulnFix family pkgs managers =
     (let ps = Join pkgs '' '';
          cmds = List.map_filter (\<lambda>m.
            if m = ''apt'' then Some (''Debian/Ubuntu: sudo apt-get update && sudo apt-get install --only-upgrade '' @ ps)
            else if m = ''dnf'' then Some (''RHEL family: sudo dnf upgrade '' @ ps)
            else if m = ''zypper'' then Some (''SUSE: sudo zypper update '' @ ps)
            else None) managers
      in if cmds = [] then ''Install the vendor'' @ apos @ ''s update for '' @ family @ '' on every host listed.''
         else Join cmds [CHR 0x0A] @ [CHR 0x0A] @
           ''Restart the services that use the package afterwards (needrestart or a reboot), then DefendSec confirms the new version on its next check-in.'')"

definition keys_sorted :: "string list \<Rightarrow> string list" where
  "keys_sorted ks = sort_strings (first_occurrences ks)"

text \<open>The findings of a host, sorted by advisory.\<close>

definition host_findings :: "OpenFinding list \<Rightarrow> string \<Rightarrow> OpenFinding list" where
  "host_findings fs k = (case map_of (by_member fs) k of None \<Rightarrow> [] | Some xs \<Rightarrow> xs)"

definition vulnGroup :: "string \<Rightarrow> OpenFinding list \<Rightarrow> Group" where
  "vulnGroup key fs =
     (let family = of_Family (hd fs);
          hosts = sortedKeysByLabel fs;
          labels = label_of fs;
          advisories = first_occurrences (map of_AdvisoryID fs);
          kevAdvisories = first_occurrences (map of_AdvisoryID (filter of_KEV fs))
      in \<lparr>gr_Key = key, gr_Source = SourceVuln,
          gr_Title = (if length hosts = 1 then ''Update '' @ family @ '' on '' @ labels (hd hosts)
            else ''Update '' @ family @ '' on '' @ itoa_nat (length hosts) @ '' hosts''),
          gr_Urgency = vulnUrgency fs,
          gr_Why = vulnWhy (length advisories) (length kevAdvisories) (length hosts)
            (top_score (map of_EPSS fs)) (top_score (map of_CVSS fs)),
          gr_Fix = vulnFix family (keys_sorted (map of_Package fs)) (keys_sorted (map (\<lambda>f. pmFamily (of_PackageManager f)) fs)),
          gr_Link = [],
          gr_Members = map (\<lambda>k. let hf = go_sort (\<lambda>a b. of_AdvisoryID a < of_AdvisoryID b) (host_findings fs k)
            in \<lparr>mb_Key = k, mb_Label = labels k, mb_Line = vulnLine (labels k) hf, mb_Digest = vulnDigest hf\<rparr>) hosts,
          gr_Advisories = length advisories\<rparr>)"

definition orUnknown :: "string \<Rightarrow> string" where
  "orUnknown s = (if s = [] then ''on a date its vendor gave'' else ''since '' @ s)"

definition eol_packages :: "OpenFinding list \<Rightarrow> string list" where
  "eol_packages hf =
     sort_strings (map (\<lambda>f. of_Package f @ '' '' @ of_Installed f) (filter (\<lambda>f. of_Package f \<noteq> []) hf))"

definition eolGroup :: "string \<Rightarrow> OpenFinding list \<Rightarrow> Group" where
  "eolGroup key fs =
     (let first = hd fs;
          labels = label_of fs;
          label = (if of_EOLLabel first = [] then TrimSpace (of_EOLProduct first @ '' '' @ of_EOLCycle first) else of_EOLLabel first);
          ended = of_EOLStage first = ''eol'';
          members = map (\<lambda>k.
            let pk = eol_packages (host_findings fs k)
            in \<lparr>mb_Key = k, mb_Label = labels k,
                mb_Line = labels k @ '': '' @ label @ (if pk \<noteq> [] then '' ('' @ capList pk 3 @ '')'' else []),
                mb_Digest = shortHash [of_EOLStage first, Join pk '','']\<rparr>) (sortedKeysByLabel fs);
          place = (if length members = 1 then mb_Label (hd members) else plural (length members) ''host'' ''hosts'')
      in \<lparr>gr_Key = key, gr_Source = SourceEOL,
          gr_Title = (if ended then ''Upgrade '' @ label @ '', past end of security support, on '' @ place
            else ''Upgrade '' @ label @ '', past end of active support, on '' @ place),
          gr_Urgency = (if ended then UrgencyHigh else UrgencyLow),
          gr_Why = (if ended then label @ '' no longer receives security fixes (support ended '' @ orUnknown (of_EOLDate first) @
              ''), so every future flaw stays open. No exploitation score applies: nothing will ever patch it.''
            else label @ '' is past its end of active support ('' @ orUnknown (of_EOLDate first) @ ''); security fixes still arrive for now.''),
          gr_Fix = (if of_EOLUpgrade first \<noteq> [] then ''Upgrade to '' @ of_EOLUpgrade first @
              '' (or another supported release) and remove the old packages.''
            else ''Upgrade to a release that still receives security fixes and remove the old packages.''),
          gr_Link = [], gr_Members = members, gr_Advisories = 1\<rparr>)"

definition severity_max :: "OpenFinding list \<Rightarrow> string" where
  "severity_max fs = fold (\<lambda>f u. maxUrgency u (severityUrgency (of_Severity f))) fs UrgencyLow"

definition finding_digest :: "OpenFinding \<Rightarrow> string" where
  "finding_digest f = shortHash [of_CheckID f, of_Subject f, of_Severity f, of_Title f]"

definition surfaceGroup :: "string \<Rightarrow> OpenFinding list \<Rightarrow> Group" where
  "surfaceGroup key fs0 =
     (let fs = go_sort (\<lambda>a b. if of_MemberLabel a \<noteq> of_MemberLabel b then of_MemberLabel a < of_MemberLabel b
            else of_Subject a < of_Subject b) fs0;
          first = hd fs;
          members = map (\<lambda>f. let label = of_MemberLabel f @ (if of_Subject f \<noteq> [] then '' ('' @ of_Subject f @ '')'' else [])
            in \<lparr>mb_Key = of_MemberKey f, mb_Label = label, mb_Line = label @ '': '' @ of_Title f, mb_Digest = finding_digest f\<rparr>) fs
      in \<lparr>gr_Key = key, gr_Source = SourceSurface,
          gr_Title = (if length members = 1 then of_Title first @
              (if \<not> Contains (of_Title first) (of_MemberLabel first) then '' on '' @ of_MemberLabel first else [])
            else of_Title first @ '' (and '' @ plural (length members - 1) ''other asset'' ''other assets'' @ '')''),
          gr_Urgency = severity_max fs,
          gr_Why = ''External surface finding, '' @ of_Severity first @ '' severity: '' @ TrimSpace (of_Detail first) @
            '' What the internet can see needs no foothold and no exploit. Reachable is not the same as compromised.'',
          gr_Fix = of_Fix first, gr_Link = [], gr_Members = members, gr_Advisories = length fs\<rparr>)"

definition identityGroup :: "string \<Rightarrow> OpenFinding list \<Rightarrow> Group" where
  "identityGroup key fs0 =
     (let fs = go_sort (\<lambda>a b. if of_MemberLabel a \<noteq> of_MemberLabel b then of_MemberLabel a < of_MemberLabel b
            else of_MemberKey a < of_MemberKey b) fs0;
          first = hd fs;
          members = map (\<lambda>f. \<lparr>mb_Key = of_MemberKey f, mb_Label = of_MemberLabel f,
            mb_Line = of_MemberLabel f @ '': '' @ of_Title f @ '' ('' @ of_Severity f @ '')'', mb_Digest = finding_digest f\<rparr>) fs
      in \<lparr>gr_Key = key, gr_Source = SourceIdentity,
          gr_Title = (if of_CheckID first = ''mfa.not_registered'' \<and> 1 < length fs
              then ''Register MFA for '' @ itoa_nat (length fs) @ '' accounts''
            else of_Title first @ (if length fs = 1 \<and> of_MemberLabel first \<noteq> [] \<and> \<not> Contains (of_Title first) (of_MemberLabel first)
              then '' ('' @ of_MemberLabel first @ '')'' else [])),
          gr_Urgency = severity_max fs,
          gr_Why = ''Identity finding, '' @ of_Severity first @ '' severity: '' @ TrimSpace (of_Detail first) @
            '' A stolen password or a hidden rule needs no exploit. Worth a question to the account'' @ apos @ ''s owner before any change.'',
          gr_Fix = of_Fix first, gr_Link = [], gr_Members = members, gr_Advisories = length fs\<rparr>)"

section \<open>BuildGroups\<close>

definition finding_key :: "OpenFinding \<Rightarrow> string option" where
  "finding_key f =
     (if of_Source f = SourceVuln then Some (vulnKey (of_Family f))
      else if of_Source f = SourceEOL then Some (eolKey (of_EOLProduct f) (of_EOLCycle f))
      else if of_Source f = SourceSurface then Some (surfaceKey f)
      else if of_Source f = SourceIdentity then Some (identityKey f)
      else None)"

definition bucket_step :: "OpenFinding \<Rightarrow> (string \<times> OpenFinding list) list \<Rightarrow> (string \<times> OpenFinding list) list" where
  "bucket_step f buckets =
     (case finding_key f of
        None \<Rightarrow> buckets
      | Some k \<Rightarrow> upd_assoc k (\<lambda>v. (case v of None \<Rightarrow> [] | Some fs \<Rightarrow> fs) @ [f]) buckets)"

definition buckets_of :: "OpenFinding list \<Rightarrow> (string \<times> OpenFinding list) list" where
  "buckets_of fs = fold bucket_step fs []"

definition group_of :: "string \<Rightarrow> string \<times> OpenFinding list \<Rightarrow> Group" where
  "group_of console = (\<lambda>(key, fs).
     (let src = of_Source (hd fs);
          g = (if src = SourceVuln then vulnGroup key fs
               else if src = SourceEOL then eolGroup key fs
               else if src = SourceSurface then surfaceGroup key fs
               else identityGroup key fs)
      in g\<lparr>gr_Link := linkFor console\<rparr>))"

definition group_less :: "Group \<Rightarrow> Group \<Rightarrow> bool" where
  "group_less a b =
     (if UrgencyRank (gr_Urgency a) \<noteq> UrgencyRank (gr_Urgency b) then UrgencyRank (gr_Urgency b) < UrgencyRank (gr_Urgency a)
      else gr_Key a < gr_Key b)"

definition BuildGroups :: "OpenFinding list \<Rightarrow> Settings \<Rightarrow> Group list" where
  "BuildGroups fs cfg = go_sort group_less (map (group_of (st_ConsoleURL cfg)) (buckets_of fs))"

section \<open>Grouping\<close>

lemma map_of_group_fold:
  "map_of (fold (\<lambda>x m. case key x of None \<Rightarrow> m
      | Some k \<Rightarrow> upd_assoc k (\<lambda>v. (case v of None \<Rightarrow> [] | Some ys \<Rightarrow> ys) @ [x]) m) xs m) k =
   (case map_of m k of
      None \<Rightarrow> if filter (\<lambda>x. key x = Some k) xs = [] then None else Some (filter (\<lambda>x. key x = Some k) xs)
    | Some ys \<Rightarrow> Some (ys @ filter (\<lambda>x. key x = Some k) xs))"
proof (induction xs arbitrary: m)
  case (Cons x xs)
  show ?case
  proof (cases "key x")
    case None
    then show ?thesis
      using Cons by (simp split: option.split)
  next
    case (Some k')
    then show ?thesis
      using Cons [of "upd_assoc k' (\<lambda>v. (case v of None \<Rightarrow> [] | Some ys \<Rightarrow> ys) @ [x]) m"]
      by (auto simp: map_of_upd_assoc split: option.split)
  qed
qed (auto split: option.split)

lemma distinct_group_fold:
  "distinct (map fst m) \<Longrightarrow> distinct (map fst (fold (\<lambda>x m. case key x of None \<Rightarrow> m
      | Some k \<Rightarrow> upd_assoc k (\<lambda>v. (case v of None \<Rightarrow> [] | Some ys \<Rightarrow> ys) @ [x]) m) xs m))"
  by (induction xs arbitrary: m) (auto simp: distinct_upd_assoc split: option.split)

lemma buckets_of_alt: "buckets_of fs = fold (\<lambda>x m. case finding_key x of None \<Rightarrow> m
      | Some k \<Rightarrow> upd_assoc k (\<lambda>v. (case v of None \<Rightarrow> [] | Some ys \<Rightarrow> ys) @ [x]) m) fs []"
  by (simp add: buckets_of_def bucket_step_def [abs_def])

lemma by_member_alt: "by_member fs = fold (\<lambda>x m. case Some (of_MemberKey x) of None \<Rightarrow> m
      | Some k \<Rightarrow> upd_assoc k (\<lambda>v. (case v of None \<Rightarrow> [] | Some ys \<Rightarrow> ys) @ [x]) m) fs []"
  by (simp add: by_member_def)

lemma buckets_of_props:
  "distinct (map fst (buckets_of fs))"
  "(k, xs) \<in> set (buckets_of fs) \<longleftrightarrow> xs = filter (\<lambda>f. finding_key f = Some k) fs \<and> xs \<noteq> []"
proof -
  show distinct: "distinct (map fst (buckets_of fs))"
    unfolding buckets_of_alt by (rule distinct_group_fold) simp
  show "(k, xs) \<in> set (buckets_of fs) \<longleftrightarrow> xs = filter (\<lambda>f. finding_key f = Some k) fs \<and> xs \<noteq> []"
    unfolding map_of_eq_Some_iff [OF distinct, symmetric] unfolding buckets_of_alt map_of_group_fold
    by (auto split: if_splits)
qed

lemma by_member_keys: "set (map fst (by_member fs)) = of_MemberKey ` set fs" "distinct (map fst (by_member fs))"
proof -
  have "map_of (by_member fs) k = None \<longleftrightarrow> k \<notin> of_MemberKey ` set fs" for k
    unfolding by_member_alt map_of_group_fold by (auto simp: filter_empty_conv)
  then show "set (map fst (by_member fs)) = of_MemberKey ` set fs"
    by (auto simp: map_of_eq_None_iff)
  show "distinct (map fst (by_member fs))"
    unfolding by_member_alt by (rule distinct_group_fold) simp
qed

lemma set_sortedKeysByLabel: "set (sortedKeysByLabel fs) = of_MemberKey ` set fs"
  using by_member_keys(1) [of fs] by (simp add: sortedKeysByLabel_def)

lemma group_of_key [simp]: "gr_Key (group_of console (k, fs)) = k"
  by (simp add: group_of_def Let_def vulnGroup_def eolGroup_def surfaceGroup_def identityGroup_def)

lemma group_of_members: "mb_Key ` set (gr_Members (group_of console (k, fs))) = of_MemberKey ` set fs"
  by (simp add: group_of_def Let_def vulnGroup_def eolGroup_def surfaceGroup_def identityGroup_def image_image
      set_sortedKeysByLabel)

lemma group_of_members_all: "set (map mb_Key (gr_Members (group_of console (k, fs)))) = of_MemberKey ` set fs"
  unfolding set_map by (rule group_of_members)

text \<open>A group has findings of one source: the key starts with it.\<close>

lemma sources_distinct:
  "distinct [SourceVuln, SourceEOL, SourceSurface, SourceIdentity]"
  by (simp add: SourceVuln_def SourceEOL_def SourceSurface_def SourceIdentity_def)

lemma key_source: "finding_key f = Some k \<Longrightarrow>
    (of_Source f = SourceVuln \<longleftrightarrow> take 2 k = ''vu'') \<and> (of_Source f = SourceEOL \<longleftrightarrow> take 2 k = ''eo'') \<and>
    (of_Source f = SourceSurface \<longleftrightarrow> take 2 k = ''su'') \<and> (of_Source f = SourceIdentity \<longleftrightarrow> take 2 k = ''id'')"
  using sources_distinct
  by (auto simp: finding_key_def vulnKey_def eolKey_def surfaceKey_def identityKey_def split: if_splits)

lemma UrgencyRank_raise: "UrgencyRank (raise_to v u) = max (UrgencyRank u) (UrgencyRank v)"
  by (simp add: raise_to_def)

lemma vuln_raise_mono: "UrgencyRank u \<le> UrgencyRank (vuln_raise f u)"
  by (simp add: vuln_raise_def UrgencyRank_raise)

lemma UrgencyRank_top: "UrgencyRank u \<le> 3" "UrgencyRank u = 3 \<longleftrightarrow> u = UrgencyCritical"
  by (simp_all add: UrgencyRank_def)

lemma vulnUrgency_KEV:
  assumes "f \<in> set fs" "of_KEV f"
  shows "vulnUrgency fs = UrgencyCritical"
proof -
  have mono: "UrgencyRank u \<le> UrgencyRank (fold vuln_raise gs u)" for gs u
    by (induction gs arbitrary: u) (simp, simp, meson order_trans vuln_raise_mono)
  obtain xs ys where fs: "fs = xs @ f # ys"
    using assms(1) by (meson split_list)
  have "UrgencyRank (vuln_raise f u) = 3" for u
    using UrgencyRank_top(1) [of u] assms(2) by (simp add: vuln_raise_def UrgencyRank_raise) (simp add: UrgencyRank_def)
  then have "3 \<le> UrgencyRank (vulnUrgency fs)"
    using mono [of "vuln_raise f (fold vuln_raise xs UrgencyLow)" ys] by (simp add: vulnUrgency_def fs)
  then show ?thesis
    using UrgencyRank_top by (metis le_antisym)
qed

interpretation groups: strict_weak group_less
  by unfold_locales (auto simp: group_less_def split: if_splits)

lemma sorted_strictly:
  "sorted_wrt (\<lambda>a b. \<not> group_less b a) gs \<Longrightarrow> distinct (map gr_Key gs) \<Longrightarrow> sorted_wrt group_less gs"
proof (induction gs)
  case (Cons g gs)
  have "group_less g h" if "h \<in> set gs" for h
  proof -
    have "\<not> group_less h g" "gr_Key h \<noteq> gr_Key g"
      using Cons.prems that by (auto simp: image_iff)
    then show ?thesis
      by (auto simp: group_less_def split: if_splits)
  qed
  then show ?case
    using Cons by simp
qed simp

lemma set_BuildGroups: "set (BuildGroups fs cfg) = group_of (st_ConsoleURL cfg) ` set (buckets_of fs)"
  by (simp add: BuildGroups_def)

lemma BuildGroups_keys: "distinct (map gr_Key (BuildGroups fs cfg))"
proof -
  have "map gr_Key (map (group_of (st_ConsoleURL cfg)) (buckets_of fs)) = map fst (buckets_of fs)"
    by auto
  then have "distinct (map gr_Key (map (group_of (st_ConsoleURL cfg)) (buckets_of fs)))"
    using buckets_of_props(1) by metis
  moreover have "mset (map gr_Key (BuildGroups fs cfg)) = mset (map gr_Key (map (group_of (st_ConsoleURL cfg)) (buckets_of fs)))"
    unfolding mset_map BuildGroups_def mset_go_sort ..
  ultimately show ?thesis
    by (metis mset_eq_imp_distinct_iff)
qed

lemma BuildGroups_group:
  assumes "g \<in> set (BuildGroups fs cfg)"
  shows "g = group_of (st_ConsoleURL cfg) (gr_Key g, filter (\<lambda>f. finding_key f = Some (gr_Key g)) fs) \<and>
    filter (\<lambda>f. finding_key f = Some (gr_Key g)) fs \<noteq> []"
proof -
  obtain k xs where "(k, xs) \<in> set (buckets_of fs)" "g = group_of (st_ConsoleURL cfg) (k, xs)"
    using assms by (auto simp: set_BuildGroups)
  then show ?thesis
    unfolding buckets_of_props(2) by auto
qed

section \<open>Properties\<close>

text \<open>C31: One ticket per action. The groups have different keys and are in one strict order;
  every open finding of a known source belongs to the group of its key and to no other, as one
  of its members; a group has no other members; and an exploited vulnerability makes its group
  critical.\<close>

theorem BuildGroups_partition:
  "distinct (map gr_Key (BuildGroups fs cfg)) \<and> sorted_wrt group_less (BuildGroups fs cfg) \<and>
   (\<forall>g \<in> set (BuildGroups fs cfg).
      mb_Key ` set (gr_Members g) = {of_MemberKey f | f. f \<in> set fs \<and> finding_key f = Some (gr_Key g)} \<and> gr_Members g \<noteq> []) \<and>
   (\<forall>f \<in> set fs. of_Source f \<in> {SourceVuln, SourceEOL, SourceSurface, SourceIdentity} \<longrightarrow>
      (\<exists>!g. g \<in> set (BuildGroups fs cfg) \<and> finding_key f = Some (gr_Key g)) \<and>
      (of_Source f = SourceVuln \<and> of_KEV f \<longrightarrow>
         (\<exists>g \<in> set (BuildGroups fs cfg). finding_key f = Some (gr_Key g) \<and> gr_Urgency g = UrgencyCritical)))"
proof (intro conjI ballI impI)
  let ?gs = "BuildGroups fs cfg"
  show keys: "distinct (map gr_Key ?gs)"
    by (rule BuildGroups_keys)
  have "sorted_wrt (\<lambda>a b. \<not> group_less b a) ?gs"
    unfolding BuildGroups_def by (rule groups.sorted_go_sort)
  then show "sorted_wrt group_less ?gs"
    using keys by (rule sorted_strictly)
next
  fix g assume g: "g \<in> set (BuildGroups fs cfg)"
  note * = BuildGroups_group [OF g]
  have "mb_Key ` set (gr_Members g) = of_MemberKey ` set (filter (\<lambda>f. finding_key f = Some (gr_Key g)) fs)"
    using group_of_members * by metis
  then show "mb_Key ` set (gr_Members g) = {of_MemberKey f | f. f \<in> set fs \<and> finding_key f = Some (gr_Key g)}"
    by auto
  with * show "gr_Members g \<noteq> []"
    by (force simp: filter_empty_conv)
next
  fix f assume f: "f \<in> set fs" "of_Source f \<in> {SourceVuln, SourceEOL, SourceSurface, SourceIdentity}"
  obtain k where k: "finding_key f = Some k"
    using f(2) unfolding finding_key_def by (cases "of_Source f = SourceVuln"; cases "of_Source f = SourceEOL";
      cases "of_Source f = SourceSurface"; simp)
  let ?xs = "filter (\<lambda>f. finding_key f = Some k) fs"
  let ?g = "group_of (st_ConsoleURL cfg) (k, ?xs)"
  have xs: "f \<in> set ?xs"
    using f(1) k by simp
  have g: "?g \<in> set (BuildGroups fs cfg)"
  proof -
    have "?xs \<noteq> []"
      using f(1) k by (auto simp: filter_empty_conv)
    then show ?thesis
      unfolding set_BuildGroups by (intro imageI) (simp only: buckets_of_props(2) simp_thms)
  qed
  show "\<exists>!g. g \<in> set (BuildGroups fs cfg) \<and> finding_key f = Some (gr_Key g)"
  proof (rule ex1I [of _ ?g])
    show "?g \<in> set (BuildGroups fs cfg) \<and> finding_key f = Some (gr_Key ?g)"
      using g k by simp
    fix g' assume "g' \<in> set (BuildGroups fs cfg) \<and> finding_key f = Some (gr_Key g')"
    then show "g' = ?g"
      using BuildGroups_group [of g' fs cfg] k by simp
  qed
  assume kev: "of_Source f = SourceVuln \<and> of_KEV f"
  have "of_Source (hd ?xs) = SourceVuln"
  proof -
    have "hd ?xs \<in> set ?xs"
      using xs by (metis hd_in_set list.set(1) empty_iff)
    then have "finding_key (hd ?xs) = Some k"
      by simp
    then show ?thesis
      using key_source [OF k] key_source kev by blast
  qed
  then have "gr_Urgency ?g = vulnUrgency ?xs"
    by (simp add: group_of_def vulnGroup_def Let_def)
  then show "\<exists>g \<in> set (BuildGroups fs cfg). finding_key f = Some (gr_Key g) \<and> gr_Urgency g = UrgencyCritical"
    using g k vulnUrgency_KEV [OF xs] kev by (intro bexI [of _ ?g]) simp_all
qed

definition ex_open_finding :: OpenFinding where
  "ex_open_finding = \<lparr>of_Source = SourceVuln, of_MemberKey = ''host-1'', of_MemberLabel = ''web'', of_FirstSeen = 0,
     of_Family = ''openssl'', of_Package = ''libssl3'', of_Installed = ''3.0.2'', of_Fixed = ''3.0.3'', of_AdvisoryID = ''USN-1'',
     of_CVE = [], of_Severity = ''high'', of_KEV = True, of_EPSS = None, of_CVSS = None, of_PackageManager = ''dpkg'',
     of_Distro = ''ubuntu'', of_EOLProduct = [], of_EOLCycle = [], of_EOLStage = [], of_EOLLabel = [], of_EOLUpgrade = [],
     of_EOLDate = [], of_CheckID = [], of_Provider = [], of_Subject = [], of_Title = [], of_Detail = [], of_Fix = []\<rparr>"

theorem BuildGroups_partition_witness:
  "\<exists>g \<in> set (BuildGroups [ex_open_finding] DefaultSettings). gr_Urgency g = UrgencyCritical"
  using BuildGroups_partition [of "[ex_open_finding]" DefaultSettings] by (auto simp: ex_open_finding_def)

end
