(* ===== verification/Ticket_Render.thy ===== *)
theory Ticket_Render
  imports Ticket_Groups
begin

text \<open>
  internal/autotask/render.go: the tag, title, description and notes of a ticket. Texts are valid
  UTF-8 (they come from JSON or the database), so a rune is a byte that is not a continuation
  byte with the continuation bytes after it.
\<close>

section \<open>Runes and words\<close>

definition is_cont :: "char \<Rightarrow> bool" where
  "is_cont c \<longleftrightarrow> 128 \<le> byte c \<and> byte c < 192"

definition RuneCount :: "string \<Rightarrow> int" where
  "RuneCount s = int (length (filter (\<lambda>c. \<not> is_cont c) s))"

fun take_runes :: "nat \<Rightarrow> string \<Rightarrow> string" where
  "take_runes n [] = []"
| "take_runes n (c # s) =
     (if is_cont c then c # take_runes n s
      else case n of 0 \<Rightarrow> [] | Suc m \<Rightarrow> c # take_runes m s)"

text \<open>\<open>strings.Fields\<close>.\<close>

function FieldsOf :: "string \<Rightarrow> string list" where
  "FieldsOf s =
     (let t = dropWhile is_space s
      in if t = [] then [] else takeWhile (\<lambda>c. \<not> is_space c) t # FieldsOf (dropWhile (\<lambda>c. \<not> is_space c) t))"
  by pat_completeness auto
termination
proof (relation "measure length", goal_cases)
  case (2 s t)
  then obtain c r where t: "t = c # r" "dropWhile is_space s = c # r"
    by (cases "dropWhile is_space s") auto
  then have c: "\<not> is_space c"
    using hd_dropWhile [of is_space s] by simp
  have "length (dropWhile (\<lambda>c. \<not> is_space c) r) \<le> length r" "length t \<le> length s"
    using 2(1) by (simp_all add: length_dropWhile_le)
  then show ?case
    using t(1) c by simp
qed simp

declare FieldsOf.simps [simp del]

definition ellipsis :: string where "ellipsis = [CHR 0xE2, CHR 0x80, CHR 0xA6]"

definition truncRunes :: "string \<Rightarrow> int \<Rightarrow> string" where
  "truncRunes s n =
     (if n \<le> 0 then []
      else if RuneCount s \<le> n then s
      else if n \<le> 1 then take_runes (nat n) s
      else take_runes (nat (n - 1)) s @ ellipsis)"

section \<open>The ticket\<close>

definition TicketTag :: "string \<Rightarrow> int \<Rightarrow> string" where
  "TicketTag groupKey generation =
     ''DS-'' @ take 10 (EncodeToString (Sum256
       (''defendsec-autotask'' @ [CHR 0x00] @ groupKey @ [CHR 0x00] @ Itoa generation)))"

definition tag_suffix :: "string \<Rightarrow> string" where
  "tag_suffix tag = '' ['' @ tag @ '']''"

definition TitleWithTag :: "string \<Rightarrow> string \<Rightarrow> int \<Rightarrow> string" where
  "TitleWithTag base tag max_runes =
     truncRunes (Join (FieldsOf base) '' '') (max_runes - RuneCount (tag_suffix tag)) @ tag_suffix tag"

definition format_minute :: "time \<Rightarrow> string" where
  "format_minute t = FormatDate t @ '' '' @ take 5 (clock t) @ '' UTC''"

definition nl :: string where "nl = [CHR 0x0A]"

definition more_line :: "nat \<Rightarrow> string" where
  "more_line n = ''- and '' @ itoa_nat n @ '' more; DefendSec has the full list'' @ nl"

text \<open>The loop over the members: the list so far and how many it holds.\<close>

fun list_members :: "nat \<Rightarrow> int \<Rightarrow> string \<Rightarrow> nat \<Rightarrow> Member list \<Rightarrow> string \<times> nat" where
  "list_members cnt room acc listed [] = (acc, listed)"
| "list_members cnt room acc listed (m # ms) =
     (let line = ''- '' @ mb_Line m @ nl
      in if room < RuneCount acc + RuneCount line + RuneCount (more_line (cnt - listed - 1)) \<and> listed + 1 < cnt
         then (acc, listed)
         else
           let line = (if room < RuneCount acc + RuneCount line then ''- '' @ truncRunes (mb_Line m) 200 @ nl else line)
           in list_members cnt room (acc @ line) (listed + 1) ms)"

definition description_head :: "Group \<Rightarrow> string" where
  "description_head g =
     ''DefendSec: Fix this week'' @ nl @ gr_Title g @ nl @ nl @ ''Why it ranks: '' @ gr_Why g @ nl @
     ''Urgency: '' @ gr_Urgency g @ nl @ nl"

definition description_tail :: "Group \<Rightarrow> string \<Rightarrow> time \<Rightarrow> string" where
  "description_tail g tag now =
     nl @ ''How to fix:'' @ nl @ TrimSpace (gr_Fix g) @ nl @
     (if gr_Link g \<noteq> [] then nl @ ''In DefendSec: '' @ gr_Link g @ nl else []) @
     nl @ ''---'' @ nl @ ''DefendSec key: '' @ tag @ '' | action: '' @ gr_Key g @ '' | opened '' @ FormatDate now @ nl @
     ''Do not edit the key: DefendSec finds this ticket by it. DefendSec adds notes here when hosts or findings join and when it sees them fixed.''"

definition Description :: "Group \<Rightarrow> string \<Rightarrow> time \<Rightarrow> int \<Rightarrow> string" where
  "Description g tag now max_runes =
     (let head = description_head g;
          tail = description_tail g tag now;
          room = max_runes - RuneCount head - RuneCount tail;
          cnt = length (gr_Members g);
          (listing, listed) = list_members cnt room (''Affected ('' @ itoa_nat cnt @ ''):'' @ nl) 0 (gr_Members g);
          listing = (if listed < cnt then listing @ more_line (cnt - listed) else listing);
          out = head @ listing @ tail
      in if max_runes < RuneCount out
         then truncRunes (head @ listing) (max_runes - RuneCount tail - 1) @ nl @ tail
         else out)"

section \<open>The notes\<close>

record Delta =
  dl_Joined :: "Member list"
  dl_Changed :: "Member list"
  dl_Resolved :: "string list"
  dl_UrgencyFrom :: string
  dl_UrgencyTo :: string
  dl_Returned :: bool
  dl_AllResolved :: bool
  dl_Completing :: bool
  dl_Open :: nat

definition no_delta :: Delta where
  "no_delta = \<lparr>dl_Joined = [], dl_Changed = [], dl_Resolved = [], dl_UrgencyFrom = [], dl_UrgencyTo = [],
     dl_Returned = False, dl_AllResolved = False, dl_Completing = False, dl_Open = 0\<rparr>"

definition DeltaEmpty :: "Delta \<Rightarrow> bool" where
  "DeltaEmpty d \<longleftrightarrow> dl_Joined d = [] \<and> dl_Changed d = [] \<and> dl_Resolved d = [] \<and> dl_UrgencyFrom d = [] \<and>
     \<not> dl_Returned d \<and> \<not> dl_AllResolved d"

definition NoteTitle :: "time \<Rightarrow> string" where
  "NoteTitle now = ''DefendSec update '' @ format_minute now"

definition note_section :: "string \<Rightarrow> string list \<Rightarrow> string" where
  "note_section head lines =
     (if lines = [] then []
      else head @ nl @ concat (map (\<lambda>l. ''- '' @ l @ nl) lines) @ nl)"

definition NoteText :: "Delta \<Rightarrow> int \<Rightarrow> string" where
  "NoteText d max_runes =
     (let body =
        (if dl_Returned d then ''DefendSec sees this again: findings of this action are open after they had been resolved.'' @ nl @ nl else []) @
        note_section (''New since this ticket was opened ('' @ itoa_nat (length (dl_Joined d)) @ ''):'') (map mb_Line (dl_Joined d)) @
        note_section (''What is open changed on ('' @ itoa_nat (length (dl_Changed d)) @ ''):'') (map mb_Line (dl_Changed d)) @
        note_section (''No longer open ('' @ itoa_nat (length (dl_Resolved d)) @ ''):'') (dl_Resolved d) @
        (if dl_UrgencyFrom d \<noteq> [] then ''Urgency went from '' @ dl_UrgencyFrom d @ '' to '' @ dl_UrgencyTo d @ ''. This ticket'' @ apos @
           ''s priority was not changed; raise it if you agree.'' @ nl @ nl else []) @
        (if dl_AllResolved d \<and> dl_Completing d then
           ''DefendSec no longer sees any open finding for this action. Auto-complete is on, so DefendSec is completing this ticket.'' @ nl
         else if dl_AllResolved d then
           ''DefendSec no longer sees any open finding for this action. The ticket is left open: close it when you have checked.'' @ nl
         else ''Still open in DefendSec: '' @ itoa_nat (dl_Open d) @ ''.'' @ nl)
      in truncRunes (rev (dropWhile (\<lambda>c. c = CHR 0x0A) (rev body))) max_runes)"

record Evidence =
  ve_Label :: string
  ve_ResolvedAt :: time
  ve_Detail :: string
  ve_Found :: bool

definition ResolvedLine :: "string \<Rightarrow> Evidence option \<Rightarrow> string" where
  "ResolvedLine label ev =
     (case ev of
        Some v \<Rightarrow>
          if ve_Found v then label @ '': '' @ ve_Detail v @ '' at '' @ format_minute (ve_ResolvedAt v)
          else label @ '': no longer reported by DefendSec (the host, asset or account was removed, so how it closed is not on record)''
      | None \<Rightarrow> label @ '': no longer reported by DefendSec (the host, asset or account was removed, so how it closed is not on record)'')"

section \<open>What is never cut off\<close>

lemma HasPrefix_append [simp]: "HasPrefix (p @ s) p"
  by (simp add: HasPrefix_def)

lemma Contains_middle: "Contains (xs @ p @ ys) p"
proof (induction xs)
  case Nil
  show ?case
    by (cases "p @ ys") (simp_all add: HasPrefix_def, metis append_eq_conv_conj)
qed simp

lemma TitleWithTag_Contains: "Contains (TitleWithTag base tag n) tag"
proof -
  have "TitleWithTag base tag n = (truncRunes (Join (FieldsOf base) '' '') (n - RuneCount (tag_suffix tag)) @ '' ['') @ tag @ '']''"
    by (simp add: TitleWithTag_def tag_suffix_def)
  then show ?thesis
    by (metis Contains_middle)
qed

lemma RuneCount_append [simp]: "RuneCount (s @ t) = RuneCount s + RuneCount t"
  by (simp add: RuneCount_def)

lemma RuneCount_take: "RuneCount (take_runes n s) \<le> int n"
proof (induction n s rule: take_runes.induct)
  case (2 n c s)
  then show ?case
    by (cases n) (auto simp: RuneCount_def)
qed (simp add: RuneCount_def)

lemma RuneCount_trunc: "RuneCount (truncRunes s n) \<le> max 0 n"
proof -
  have "RuneCount ellipsis = 1"
    by (simp add: RuneCount_def ellipsis_def is_cont_def)
  then show ?thesis
    using RuneCount_take [of "nat n" s] RuneCount_take [of "nat (n - 1)" s] by (auto simp: truncRunes_def RuneCount_def)
qed

text \<open>A title keeps to Autotask's limit and keeps its tag whole; a description keeps its footer
  with the key of the action.\<close>

lemma TitleWithTag_fits:
  assumes "RuneCount (tag_suffix tag) \<le> n"
  shows "RuneCount (TitleWithTag base tag n) \<le> n \<and> HasSuffix (TitleWithTag base tag n) (tag_suffix tag)"
  using RuneCount_trunc [of "Join (FieldsOf base) '' ''" "n - RuneCount (tag_suffix tag)"] assms
  by (simp add: TitleWithTag_def HasSuffix_def)

lemma Description_footer: "HasSuffix (Description g tag now n) (description_tail g tag now)"
  by (simp add: Description_def Let_def HasSuffix_def split: prod.split)

end
