(* ===== verification/Ticket_Client.thy ===== *)
theory Ticket_Client
  imports Ticket_Render
begin

text \<open>
  internal/autotask/client: the calls of the Autotask client and the loop that sends one with its
  retries and its budget. The network is an argument (\<open>transport\<close>): a step from one state of the
  world to the next that answers or fails, with the wait between attempts. JSON is read by
  encoding/json: a body is sent as the value it encodes, and an answer holds the members of its
  object, or nothing if it does not decode. \<open>Ticket_Engine\<close> uses the client through the record
  \<open>desk\<close> (the interface \<open>Desk\<close> of types.go).
\<close>

section \<open>Errors\<close>

datatype Kind = KindAuth | KindThrottled | KindRejected | KindServer | KindNetwork | KindBadResponse | KindBudget

fun kind_string :: "Kind \<Rightarrow> string" where
  "kind_string KindAuth = ''auth''"
| "kind_string KindThrottled = ''throttled''"
| "kind_string KindRejected = ''rejected''"
| "kind_string KindServer = ''server''"
| "kind_string KindNetwork = ''network''"
| "kind_string KindBadResponse = ''bad_response''"
| "kind_string KindBudget = ''budget''"

record Error =
  er_Kind :: Kind
  er_Status :: int
  er_Op :: string
  er_Messages :: "string list"
  er_Ambiguous :: bool
  er_RetryAfter :: duration

text \<open>A value of Go's \<open>error\<close>: one of this package, or another.\<close>

datatype go_error = ClientError Error | OtherError

definition error_of :: "Kind \<Rightarrow> string \<Rightarrow> int \<Rightarrow> string list \<Rightarrow> bool \<Rightarrow> go_error" where
  "error_of kind op_name status msgs ambiguous =
     ClientError \<lparr>er_Kind = kind, er_Status = status, er_Op = op_name, er_Messages = msgs, er_Ambiguous = ambiguous,
       er_RetryAfter = 0\<rparr>"

definition Error_text :: "Error \<Rightarrow> string" where
  "Error_text e = ''autotask '' @ er_Op e @ '': '' @ kind_string (er_Kind e) @
     (if er_Status e \<noteq> 0 then '' (HTTP '' @ Itoa (er_Status e) @ '')'' else []) @
     (if er_Messages e \<noteq> [] then '': '' @ Join (er_Messages e) ''; '' else []) @
     (if er_Ambiguous e then '' (the request may have been carried out)'' else [])"

fun IsAmbiguous :: "go_error \<Rightarrow> bool" where
  "IsAmbiguous (ClientError e) = er_Ambiguous e"
| "IsAmbiguous OtherError = False"

fun IsFatal :: "go_error \<Rightarrow> bool" where
  "IsFatal (ClientError e) = (er_Kind e \<in> {KindAuth, KindBudget, KindThrottled})"
| "IsFatal OtherError = False"

section \<open>Entities (api.go)\<close>

record Company =
  co_ID :: int
  co_CompanyName :: string
  co_IsActive :: bool
  co_CompanyType :: int

record Ticket =
  tk_ID :: int
  tk_TicketNumber :: string
  tk_CompanyID :: int
  tk_Title :: string
  tk_Status :: int
  tk_Priority :: int
  tk_QueueID :: "int option"
  tk_CompletedDate :: "string option"

definition Completed :: "Ticket \<Rightarrow> bool" where
  "Completed t = (case tk_CompletedDate t of None \<Rightarrow> False | Some d \<Rightarrow> TrimSpace d \<noteq> [])"

record TicketCreate =
  tc_CompanyID :: int
  tc_Title :: string
  tc_Description :: string
  tc_Status :: int
  tc_Priority :: int
  tc_QueueID :: "int option"
  tc_Source :: "int option"
  tc_IssueType :: "int option"
  tc_SubIssueType :: "int option"
  tc_DueDateTime :: string

record NoteCreate =
  nc_TicketID :: int
  nc_Title :: string
  nc_Description :: string
  nc_NoteType :: int
  nc_Publish :: int

record PickValue =
  pv_Value :: string
  pv_Label :: string
  pv_IsDefault :: bool
  pv_SortOrder :: int
  pv_ParentValue :: string
  pv_IsActive :: bool
  pv_IsSystemItem :: bool

text \<open>Of a field the engine reads the name, the length and the picklist.\<close>

record Field =
  fd_Name :: string
  fd_Length :: int
  fd_PicklistValues :: "PickValue list"

definition no_field :: Field where
  "no_field = \<lparr>fd_Name = [], fd_Length = 0, fd_PicklistValues = []\<rparr>"

text \<open>A nil map (\<open>None\<close>) reads like an empty one.\<close>

type_synonym Fields = "(string \<times> Field) list option"

definition field_at :: "Fields \<Rightarrow> string \<Rightarrow> Field" where
  "field_at f name = (case f of None \<Rightarrow> no_field | Some m \<Rightarrow> (case map_of m name of None \<Rightarrow> no_field | Some x \<Rightarrow> x))"

definition Active :: "Fields \<Rightarrow> string \<Rightarrow> PickValue list" where
  "Active f name = filter pv_IsActive (fd_PicklistValues (field_at f name))"

definition HasActive :: "Fields \<Rightarrow> string \<Rightarrow> string \<Rightarrow> bool" where
  "HasActive f name val = list_ex (\<lambda>v. pv_Value v = val) (Active f name)"

definition Label :: "Fields \<Rightarrow> string \<Rightarrow> string \<Rightarrow> string" where
  "Label f name val = (case filter (\<lambda>v. pv_Value v = val) (fd_PicklistValues (field_at f name)) of [] \<Rightarrow> [] | v # _ \<Rightarrow> pv_Label v)"

record Threshold =
  th_ExternalRequestThreshold :: int
  th_RequestThresholdTimeframe :: int
  th_CurrentTimeframeRequestCount :: int

section \<open>Requests and answers\<close>

datatype FilterValue = FStr string | FInt int | FBool bool | FInts "int list"

record Filter =
  fl_op :: string
  fl_field :: string
  fl_value :: FilterValue

datatype Body =
    NoBody
  | QueryBody "Filter list" "string list" int
  | TicketBody TicketCreate
  | StatusBody int int
  | NoteBody NoteCreate

record Request =
  rq_method :: string
  rq_path :: string
  rq_body :: Body

record Reply =
  re_Threshold :: Threshold
  re_Item :: "Company option"
  re_Fields :: "Field list"
  re_Companies :: "Company list"
  re_Tickets :: "Ticket list"
  re_ItemID :: int

record Raw =
  ra_json :: "Reply option"
  ra_errors :: "string list"

datatype answer = NetFailure string | Answer int Raw duration

record 'w transport =
  tr_once :: "Request \<Rightarrow> 'w \<Rightarrow> answer \<times> 'w"
  tr_cancelled :: "'w \<Rightarrow> bool"
  tr_sleep :: "duration \<Rightarrow> 'w \<Rightarrow> bool \<times> 'w"

text \<open>\<open>errorMessages\<close>: at most five messages, each on one line and bounded.\<close>

definition clean_message :: "string \<Rightarrow> string" where
  "clean_message m =
     (let line = Join (FieldsOf m) '' '' in if 300 < length line then take 300 line @ ellipsis else line)"

definition errorMessages :: "Raw \<Rightarrow> string list" where
  "errorMessages raw = take 5 (filter (\<lambda>m. m \<noteq> []) (map clean_message (ra_errors raw)))"

section \<open>Sending a request (client.go)\<close>

record Config =
  cf_MaxRequests :: int
  cf_MaxWait :: duration

record 'w client =
  cl_sent :: int
  cl_net :: 'w

text \<open>\<open>request\<close>: the attempts that are left (three at first), and the error of the last one. A
  request that may be repeated is \<open>idem\<close>.\<close>

fun send :: "'w transport \<Rightarrow> Config \<Rightarrow> string \<Rightarrow> Request \<Rightarrow> bool \<Rightarrow> nat \<Rightarrow> go_error \<Rightarrow> 'w client \<Rightarrow>
    (go_error + Reply) \<times> 'w client" where
  "send T cfg op_name rq idem 0 last_error c = (Inl last_error, c)"
| "send T cfg op_name rq idem (Suc k) last_error c =
     (if cf_MaxRequests cfg \<le> cl_sent c then
        (Inl (error_of KindBudget op_name 0
          [''this run'' @ apos @ ''s budget of '' @ Itoa (cf_MaxRequests cfg) @ '' requests is spent''] False), c)
      else
        let (ans, w) = tr_once T rq (cl_net c);
            c = \<lparr>cl_sent = cl_sent c + 1, cl_net = w\<rparr>;
            again = (\<lambda>err wait.
              let (ok, w') = tr_sleep T wait (cl_net c); c' = c\<lparr>cl_net := w'\<rparr>
              in if ok then send T cfg op_name rq idem k err c' else (Inl err, c'))
        in (case ans of
              NetFailure why \<Rightarrow>
                let err = error_of KindNetwork op_name 0 [why] (\<not> idem)
                in if tr_cancelled T (cl_net c) \<or> \<not> idem then (Inl err, c) else again err (int (3 - k) * Second)
            | Answer status raw retry_after \<Rightarrow>
                if status = 200 \<or> status = 201 then
                  (case ra_json raw of
                     None \<Rightarrow> (Inl (error_of KindBadResponse op_name status
                       [''the answer is not the JSON the API documents''] False), c)
                   | Some r \<Rightarrow> (Inr r, c))
                else if status = 401 \<or> status = 403 then
                  (Inl (error_of KindAuth op_name status (errorMessages raw) False), c)
                else if status = 429 then
                  let wait = (if retry_after \<le> 0 then 5 * Second else retry_after);
                      err = ClientError \<lparr>er_Kind = KindThrottled, er_Status = status, er_Op = op_name,
                        er_Messages = errorMessages raw, er_Ambiguous = False, er_RetryAfter = retry_after\<rparr>
                  in if cf_MaxWait cfg < wait \<or> k = 0 then (Inl err, c) else again err wait
                else if 500 \<le> status then
                  if errorMessages raw \<noteq> [] then (Inl (error_of KindRejected op_name status (errorMessages raw) False), c)
                  else
                    let err = error_of KindServer op_name status [] (\<not> idem)
                    in if \<not> idem then (Inl err, c) else again err (int (3 - k) * Second)
                else (Inl (error_of KindRejected op_name status (errorMessages raw) False), c)))"

definition request :: "'w transport \<Rightarrow> Config \<Rightarrow> string \<Rightarrow> Request \<Rightarrow> bool \<Rightarrow> 'w client \<Rightarrow> (go_error + Reply) \<times> 'w client" where
  "request T cfg op_name rq idem c = send T cfg op_name rq idem 3 OtherError c"

section \<open>The calls (api.go)\<close>

definition ticketFieldList :: "string list" where
  "ticketFieldList = [''id'', ''ticketNumber'', ''companyID'', ''title'', ''status'', ''priority'', ''queueID'', ''completedDate'']"

definition call ::
  "'w transport \<Rightarrow> Config \<Rightarrow> string \<Rightarrow> string \<Rightarrow> string \<Rightarrow> Body \<Rightarrow> bool \<Rightarrow> (Reply \<Rightarrow> go_error + 'r) \<Rightarrow> 'w client \<Rightarrow>
    (go_error + 'r) \<times> 'w client" where
  "call T cfg op_name meth path body idem read c =
     (case request T cfg op_name \<lparr>rq_method = meth, rq_path = path, rq_body = body\<rparr> idem c of
        (Inl err, c') \<Rightarrow> (Inl err, c')
      | (Inr r, c') \<Rightarrow> (read r, c'))"

definition GetThreshold :: "'w transport \<Rightarrow> Config \<Rightarrow> 'w client \<Rightarrow> (go_error + Threshold) \<times> 'w client" where
  "GetThreshold T cfg = call T cfg ''read threshold'' ''GET'' ''/ThresholdInformation'' NoBody True
     (\<lambda>r. if th_ExternalRequestThreshold (re_Threshold r) \<le> 0
          then Inl (error_of KindBadResponse ''read threshold'' 0 [''no threshold in the answer''] False)
          else Inr (re_Threshold r))"

definition GetCompany :: "'w transport \<Rightarrow> Config \<Rightarrow> int \<Rightarrow> 'w client \<Rightarrow> (go_error + Company) \<times> 'w client" where
  "GetCompany T cfg i = call T cfg ''read company'' ''GET'' (''/Companies/'' @ Itoa i) NoBody True
     (\<lambda>r. case re_Item r of
        Some x \<Rightarrow> if co_ID x = i then Inr x
          else Inl (error_of KindRejected ''read company'' 0 [''no such company, or the API user cannot see it''] False)
      | None \<Rightarrow> Inl (error_of KindRejected ''read company'' 0 [''no such company, or the API user cannot see it''] False))"

definition SearchCompanies :: "'w transport \<Rightarrow> Config \<Rightarrow> string \<Rightarrow> 'w client \<Rightarrow> (go_error + Company list) \<times> 'w client" where
  "SearchCompanies T cfg raw_text c =
     (let needle = TrimSpace raw_text
      in if length needle < 2 then (Inl (error_of KindRejected ''search companies'' 0 [''type at least two characters''] False), c)
         else call T cfg ''search companies'' ''POST'' ''/Companies/query''
           (QueryBody [\<lparr>fl_op = ''contains'', fl_field = ''companyName'', fl_value = FStr needle\<rparr>,
              \<lparr>fl_op = ''eq'', fl_field = ''isActive'', fl_value = FBool True\<rparr>]
              [''id'', ''companyName'', ''isActive'', ''companyType''] 25) True (\<lambda>r. Inr (re_Companies r)) c)"

definition get_fields :: "string \<Rightarrow> 'w transport \<Rightarrow> Config \<Rightarrow> 'w client \<Rightarrow> (go_error + Fields) \<times> 'w client" where
  "get_fields entity T cfg = call T cfg (''read '' @ entity @ '' fields'') ''GET'' (''/'' @ entity @ ''/entityInformation/fields'') NoBody True
     (\<lambda>r. if re_Fields r = [] then Inl (error_of KindBadResponse (''read '' @ entity @ '' fields'') 0 [''no fields in the answer''] False)
          else Inr (Some (fold (\<lambda>f. upd_assoc (fd_Name f) (\<lambda>_. f)) (re_Fields r) [])))"

definition TicketFields :: "'w transport \<Rightarrow> Config \<Rightarrow> 'w client \<Rightarrow> (go_error + Fields) \<times> 'w client" where
  "TicketFields = get_fields ''Tickets''"

definition NoteFields :: "'w transport \<Rightarrow> Config \<Rightarrow> 'w client \<Rightarrow> (go_error + Fields) \<times> 'w client" where
  "NoteFields = get_fields ''TicketNotes''"

fun get_batches :: "'w transport \<Rightarrow> Config \<Rightarrow> int list list \<Rightarrow> (int \<times> Ticket) list \<Rightarrow> 'w client \<Rightarrow>
    (go_error + (int \<times> Ticket) list) \<times> 'w client" where
  "get_batches T cfg [] out c = (Inr out, c)"
| "get_batches T cfg (ids # batches) out c =
     (case call T cfg ''read tickets'' ''POST'' ''/Tickets/query''
        (QueryBody [\<lparr>fl_op = ''in'', fl_field = ''id'', fl_value = FInts ids\<rparr>] ticketFieldList 500) True (\<lambda>r. Inr (re_Tickets r)) c of
        (Inl err, c') \<Rightarrow> (Inl err, c')
      | (Inr ts, c') \<Rightarrow> get_batches T cfg batches (fold (\<lambda>t. upd_assoc (tk_ID t) (\<lambda>_. t)) ts out) c')"

definition GetTickets :: "'w transport \<Rightarrow> Config \<Rightarrow> int list \<Rightarrow> 'w client \<Rightarrow> (go_error + (int \<times> Ticket) list) \<times> 'w client" where
  "GetTickets T cfg ids = get_batches T cfg (chunks 100 ((length ids + 99) div 100) ids) []"

definition FindTickets :: "'w transport \<Rightarrow> Config \<Rightarrow> int \<Rightarrow> string \<Rightarrow> 'w client \<Rightarrow> (go_error + Ticket list) \<times> 'w client" where
  "FindTickets T cfg companyID tag c =
     (if TrimSpace tag = [] then (Inl (error_of KindRejected ''find tickets'' 0 [''no tag''] False), c)
      else call T cfg ''find tickets'' ''POST'' ''/Tickets/query''
        (QueryBody [\<lparr>fl_op = ''eq'', fl_field = ''companyID'', fl_value = FInt companyID\<rparr>,
           \<lparr>fl_op = ''contains'', fl_field = ''title'', fl_value = FStr tag\<rparr>] ticketFieldList 50) True (\<lambda>r. Inr (re_Tickets r)) c)"

definition CreateTicket :: "'w transport \<Rightarrow> Config \<Rightarrow> TicketCreate \<Rightarrow> 'w client \<Rightarrow> (go_error + int) \<times> 'w client" where
  "CreateTicket T cfg t = call T cfg ''create ticket'' ''POST'' ''/Tickets'' (TicketBody t) False
     (\<lambda>r. if re_ItemID r \<le> 0 then Inl (error_of KindBadResponse ''create ticket'' 0 [''no ticket id in the answer''] True)
          else Inr (re_ItemID r))"

definition SetTicketStatus :: "'w transport \<Rightarrow> Config \<Rightarrow> int \<Rightarrow> int \<Rightarrow> 'w client \<Rightarrow> (go_error + unit) \<times> 'w client" where
  "SetTicketStatus T cfg i status = call T cfg ''update ticket'' ''PATCH'' ''/Tickets'' (StatusBody i status) True (\<lambda>r. Inr ())"

definition CreateNote :: "'w transport \<Rightarrow> Config \<Rightarrow> NoteCreate \<Rightarrow> 'w client \<Rightarrow> (go_error + int) \<times> 'w client" where
  "CreateNote T cfg n = call T cfg ''create ticket note'' ''POST'' (''/Tickets/'' @ Itoa (nc_TicketID n) @ ''/Notes'') (NoteBody n) False
     (\<lambda>r. if re_ItemID r \<le> 0 then Inl (error_of KindBadResponse ''create ticket note'' 0 [''no note id in the answer''] True)
          else Inr (re_ItemID r))"

section \<open>The interface the engine uses (\<open>Desk\<close> of types.go)\<close>

record 'd desk =
  dk_Threshold :: "'d \<Rightarrow> (go_error + Threshold) \<times> 'd"
  dk_Company :: "int \<Rightarrow> 'd \<Rightarrow> (go_error + Company) \<times> 'd"
  dk_TicketFields :: "'d \<Rightarrow> (go_error + Fields) \<times> 'd"
  dk_NoteFields :: "'d \<Rightarrow> (go_error + Fields) \<times> 'd"
  dk_GetTickets :: "int list \<Rightarrow> 'd \<Rightarrow> (go_error + (int \<times> Ticket) list) \<times> 'd"
  dk_FindTickets :: "int \<Rightarrow> string \<Rightarrow> 'd \<Rightarrow> (go_error + Ticket list) \<times> 'd"
  dk_CreateTicket :: "TicketCreate \<Rightarrow> 'd \<Rightarrow> (go_error + int) \<times> 'd"
  dk_SetTicketStatus :: "int \<Rightarrow> int \<Rightarrow> 'd \<Rightarrow> (go_error + unit) \<times> 'd"
  dk_CreateNote :: "NoteCreate \<Rightarrow> 'd \<Rightarrow> (go_error + int) \<times> 'd"
  dk_Requests :: "'d \<Rightarrow> int"

definition client_desk :: "'w transport \<Rightarrow> Config \<Rightarrow> 'w client desk" where
  "client_desk T cfg = \<lparr>dk_Threshold = GetThreshold T cfg, dk_Company = GetCompany T cfg, dk_TicketFields = TicketFields T cfg,
     dk_NoteFields = NoteFields T cfg, dk_GetTickets = GetTickets T cfg, dk_FindTickets = FindTickets T cfg,
     dk_CreateTicket = CreateTicket T cfg, dk_SetTicketStatus = SetTicketStatus T cfg, dk_CreateNote = CreateNote T cfg,
     dk_Requests = cl_sent\<rparr>"

text \<open>What the engine may rely on: \<open>writes\<close> is the history of what Autotask carried out for this
  client. Reads leave no trace. A create is carried out at most once, also when it failed, and
  was carried out when it succeeded; and a ticket that was created is found by a text in its
  title.\<close>

datatype Write = WTicket int string | WNote int | WStatus int int

locale ticket_desk =
  fixes D :: "'d desk"
    and writes :: "'d \<Rightarrow> Write list"
  assumes threshold: "dk_Threshold D d = (r1, d') \<Longrightarrow> writes d' = writes d"
    and company: "dk_Company D i d = (r2, d') \<Longrightarrow> writes d' = writes d"
    and ticket_fields: "dk_TicketFields D d = (r3, d') \<Longrightarrow> writes d' = writes d"
    and note_fields: "dk_NoteFields D d = (r3, d') \<Longrightarrow> writes d' = writes d"
    and get: "dk_GetTickets D ids d = (r4, d') \<Longrightarrow> writes d' = writes d"
    and find: "dk_FindTickets D i tag d = (r5, d') \<Longrightarrow> writes d' = writes d"
    and found: "dk_FindTickets D i tag d = (Inr ts, d') \<Longrightarrow> WTicket i title \<in> set (writes d) \<Longrightarrow> Contains title tag \<Longrightarrow>
      ts \<noteq> []"
    and create: "dk_CreateTicket D t d = (r6, d') \<Longrightarrow>
      writes d' = writes d \<or> writes d' = writes d @ [WTicket (tc_CompanyID t) (tc_Title t)]"
    and created: "dk_CreateTicket D t d = (Inr i, d') \<Longrightarrow> writes d' = writes d @ [WTicket (tc_CompanyID t) (tc_Title t)]"
    and status: "dk_SetTicketStatus D i s d = (r7, d') \<Longrightarrow> \<exists>n. writes d' = writes d @ replicate n (WStatus i s)"
    and note_once: "dk_CreateNote D n d = (r6, d') \<Longrightarrow> writes d' = writes d \<or> writes d' = writes d @ [WNote (nc_TicketID n)]"

text \<open>What the service promises, one request at a time: what each kind of request can add to the
  history; that a request answered with 429 was not carried out (which is why the client may
  send it again); and that a query for a text in titles finds the tickets of the history.\<close>

fun writes_of :: "Request \<Rightarrow> Write option" where
  "writes_of rq =
     (case rq_body rq of
        TicketBody t \<Rightarrow> Some (WTicket (tc_CompanyID t) (tc_Title t))
      | StatusBody i s \<Rightarrow> Some (WStatus i s)
      | NoteBody n \<Rightarrow> Some (WNote (nc_TicketID n))
      | _ \<Rightarrow> None)"

definition find_body :: "int \<Rightarrow> string \<Rightarrow> Body" where
  "find_body i tag = QueryBody [\<lparr>fl_op = ''eq'', fl_field = ''companyID'', fl_value = FInt i\<rparr>,
     \<lparr>fl_op = ''contains'', fl_field = ''title'', fl_value = FStr tag\<rparr>] ticketFieldList 50"

fun refused :: "answer \<Rightarrow> bool" where
  "refused (Answer status raw retry_after) = (status = 429)"
| "refused (NetFailure why) = False"

fun accepted :: "answer \<Rightarrow> bool" where
  "accepted (Answer status raw retry_after) = (status = 200 \<or> status = 201)"
| "accepted (NetFailure why) = False"

definition history :: "('w \<Rightarrow> Write list) \<Rightarrow> 'w client \<Rightarrow> Write list" where
  "history served c = served (cl_net c)"

text \<open>One attempt: it ends the call, or (only if the call may be repeated, or was refused) it
  sleeps and goes on.\<close>

lemma send_cases:
  assumes "send T cfg op_name rq idem (Suc k) last_error c = (res, c')"
  obtains (budget) e where "c' = c" "res = Inl e"
  | (failed) ans e where "tr_once T rq (cl_net c) = (ans, cl_net c')" "res = Inl e"
  | (answered) status raw ra r where "tr_once T rq (cl_net c) = (Answer status raw ra, cl_net c')" "status = 200 \<or> status = 201"
      "ra_json raw = Some r" "res = Inr r"
  | (gave_up) ans w wait ok e where "tr_once T rq (cl_net c) = (ans, w)" "idem \<or> refused ans"
      "tr_sleep T wait w = (ok, cl_net c')" "res = Inl e"
  | (again) ans w wait ok err c1 where "tr_once T rq (cl_net c) = (ans, w)" "idem \<or> refused ans"
      "tr_sleep T wait w = (ok, cl_net c1)" "send T cfg op_name rq idem k err c1 = (res, c')"
proof (cases "cf_MaxRequests cfg \<le> cl_sent c")
  case True
  then show ?thesis
    using assms by (auto intro: budget)
next
  case False
  obtain ans w where once: "tr_once T rq (cl_net c) = (ans, w)"
    by (cases "tr_once T rq (cl_net c)")
  have go_on: thesis
    if "tr_sleep T wait w = (True, w')" "send T cfg op_name rq idem k err \<lparr>cl_sent = cl_sent c + 1, cl_net = w'\<rparr> = (res, c')"
      "idem \<or> refused ans" for err wait w'
    using that by (intro again [OF once that(3), of wait True "\<lparr>cl_sent = cl_sent c + 1, cl_net = w'\<rparr>" err]) simp_all
  have give_up: thesis
    if "tr_sleep T wait w = (False, w')" "Inl err = res" "\<lparr>cl_sent = cl_sent c + 1, cl_net = w'\<rparr> = c'" "idem \<or> refused ans"
    for err wait w'
    using that by (intro gave_up [OF once that(4), of wait False err]) auto
  have stop: thesis if "Inl e = res" "\<lparr>cl_sent = cl_sent c + 1, cl_net = w\<rparr> = c'" for e
    using that once by (intro failed [of ans e]) auto
  show ?thesis
  proof (cases ans)
    case (NetFailure why)
    then show ?thesis
      using assms False once by (auto simp: Let_def split: if_splits prod.splits intro: stop go_on give_up)
  next
    case (Answer status raw ra)
    show ?thesis
    proof (cases "(status = 200 \<or> status = 201) \<and> ra_json raw \<noteq> None")
      case True
      then obtain r where "ra_json raw = Some r"
        by blast
      then show ?thesis
        using True assms False once Answer by (intro answered [of status raw ra r]) auto
    next
      case no: False
      then show ?thesis
        using assms False once Answer by (auto simp: Let_def split: if_splits prod.splits intro: stop go_on give_up)
    qed
  qed
qed

locale autotask_service =
  fixes T :: "'w transport"
    and served :: "'w \<Rightarrow> Write list"
  assumes serve: "tr_once T rq w = (ans, w') \<Longrightarrow>
      served w' = served w \<or> (\<exists>x. writes_of rq = Some x \<and> \<not> refused ans \<and> served w' = served w @ [x])"
    and serve_ok: "tr_once T rq w = (ans, w') \<Longrightarrow> accepted ans \<Longrightarrow> writes_of rq = Some x \<Longrightarrow> served w' = served w @ [x]"
    and sleeping: "tr_sleep T wait w = (ok, w') \<Longrightarrow> served w' = served w"
    and query: "tr_once T \<lparr>rq_method = ''POST'', rq_path = ''/Tickets/query'', rq_body = find_body i tag\<rparr> w = (Answer status raw ra, w') \<Longrightarrow>
      status = 200 \<or> status = 201 \<Longrightarrow> ra_json raw = Some r \<Longrightarrow> WTicket i title \<in> set (served w) \<Longrightarrow> Contains title tag \<Longrightarrow>
      re_Tickets r \<noteq> []"
begin

lemma send_write_once:
  assumes "send T cfg op_name rq False k last_error c = (res, c')"
  shows "history served c' = history served c \<and> (\<forall>r. res \<noteq> Inr r \<or> writes_of rq = None) \<or>
    (\<exists>x. writes_of rq = Some x \<and> history served c' = history served c @ [x])"
  using assms
proof (induction k arbitrary: last_error c)
  case (Suc k)
  from Suc.prems show ?case
  proof (cases rule: send_cases)
    case (failed ans e)
    then show ?thesis
      using serve [OF failed(1)] by (auto simp: history_def)
  next
    case (answered status raw ra r)
    then have ok: "accepted (Answer status raw ra)"
      by simp
    show ?thesis
      using serve [OF answered(1)] serve_ok [OF answered(1) ok] by (cases "writes_of rq") (auto simp: history_def)
  next
    case (gave_up ans w wait ok e)
    then show ?thesis
      using serve [OF gave_up(1)] sleeping [OF gave_up(3)] by (auto simp: history_def)
  next
    case (again ans w wait ok err c1)
    have "history served c1 = history served c"
      using serve [OF again(1)] sleeping [OF again(3)] again(2) by (auto simp: history_def)
    then show ?thesis
      using Suc.IH [OF again(4)] by simp
  qed simp
qed auto

lemma send_idem:
  assumes "send T cfg op_name rq True k last_error c = (res, c')"
  shows "\<exists>ws. history served c' = history served c @ ws \<and> set ws \<subseteq> set_option (writes_of rq)"
  using assms
proof (induction k arbitrary: last_error c)
  case (Suc k)
  have attempt: "\<exists>ws. served w = served (cl_net c) @ ws \<and> set ws \<subseteq> set_option (writes_of rq)"
    if "tr_once T rq (cl_net c) = (ans, w)" for ans w
    using serve [OF that] by auto
  from Suc.prems show ?case
  proof (cases rule: send_cases)
    case (failed ans e)
    then show ?thesis
      using attempt by (simp add: history_def)
  next
    case (answered status raw ra r)
    then show ?thesis
      using attempt by (simp add: history_def)
  next
    case (gave_up ans w wait ok e)
    then show ?thesis
      using attempt [OF gave_up(1)] sleeping [OF gave_up(3)] by (simp add: history_def)
  next
    case (again ans w wait ok err c1)
    obtain ws where ws: "served w = served (cl_net c) @ ws" "set ws \<subseteq> set_option (writes_of rq)"
      using attempt [OF again(1)] by blast
    obtain vs where "history served c' = history served c1 @ vs" "set vs \<subseteq> set_option (writes_of rq)"
      using Suc.IH [OF again(4)] by blast
    then show ?thesis
      using ws sleeping [OF again(3)] by (intro exI [of _ "ws @ vs"]) (simp add: history_def)
  qed simp
qed simp

lemma send_read:
  assumes "send T cfg op_name rq True k last_error c = (res, c')" "writes_of rq = None"
  shows "history served c' = history served c"
  using send_idem [OF assms(1)] assms(2) by auto

lemma send_query:
  assumes "send T cfg op_name rq True k last_error c = (Inr r, c')"
    and "rq = \<lparr>rq_method = ''POST'', rq_path = ''/Tickets/query'', rq_body = find_body i tag\<rparr>"
    and "WTicket i title \<in> set (history served c)" "Contains title tag"
  shows "re_Tickets r \<noteq> []"
  using assms
proof (induction k arbitrary: last_error c)
  case (Suc k)
  from Suc.prems(1) show ?case
  proof (cases rule: send_cases)
    case (answered status raw ra r')
    then show ?thesis
      using query [of i tag "cl_net c" status raw ra "cl_net c'" r' title] Suc.prems(2-) by (simp add: history_def)
  next
    case (again ans w wait ok err c1)
    have "history served c1 = history served c"
      using serve [OF again(1)] sleeping [OF again(3)] Suc.prems(2) by (auto simp: history_def find_body_def)
    then show ?thesis
      using Suc.IH [OF again(4)] Suc.prems by simp
  qed simp_all
qed simp

lemma call_result:
  assumes "call T cfg op_name meth path body idem read c = (res, c')"
  obtains rep where "send T cfg op_name \<lparr>rq_method = meth, rq_path = path, rq_body = body\<rparr> idem 3 OtherError c = (rep, c')"
    "res = (case rep of Inl err \<Rightarrow> Inl err | Inr r \<Rightarrow> read r)"
  using assms by (auto simp: call_def request_def simp del: send.simps split: prod.splits sum.splits)

lemma call_read:
  assumes "call T cfg op_name meth path body True read c = (res, c')"
    and "writes_of \<lparr>rq_method = meth, rq_path = path, rq_body = body\<rparr> = None"
  shows "history served c' = history served c"
  using assms(1) by (rule call_result) (rule send_read [OF _ assms(2)])

lemma call_write_once:
  assumes "call T cfg op_name meth path body False read c = (res, c')"
    and "writes_of \<lparr>rq_method = meth, rq_path = path, rq_body = body\<rparr> = Some x"
  shows "history served c' = history served c \<and> (\<forall>y. res \<noteq> Inr y) \<or> history served c' = history served c @ [x]"
  using assms(1)
proof (rule call_result)
  fix rep
  assume "send T cfg op_name \<lparr>rq_method = meth, rq_path = path, rq_body = body\<rparr> False 3 OtherError c = (rep, c')"
    "res = (case rep of Inl err \<Rightarrow> Inl err | Inr r \<Rightarrow> read r)"
  then show ?thesis
    using send_write_once [of cfg op_name "\<lparr>rq_method = meth, rq_path = path, rq_body = body\<rparr>" 3 OtherError c rep c'] assms(2)
    by (cases rep) auto
qed

lemma GetTickets_read: "get_batches T cfg bs out c = (res, c') \<Longrightarrow> history served c' = history served c"
proof (induction bs arbitrary: out c)
  case (Cons ids bs)
  obtain r c1 where one: "call T cfg ''read tickets'' ''POST'' ''/Tickets/query''
      (QueryBody [\<lparr>fl_op = ''in'', fl_field = ''id'', fl_value = FInts ids\<rparr>] ticketFieldList 500) True (\<lambda>r. Inr (re_Tickets r)) c = (r, c1)"
    by (metis surj_pair)
  have "history served c1 = history served c"
    by (rule call_read [OF one]) simp
  then show ?case
    using Cons one by (cases r) auto
qed simp

end

sublocale autotask_service \<subseteq> service: ticket_desk "client_desk T cfg" "history served" for cfg
proof (unfold_locales, goal_cases)
  case (1 d r d')
  then show ?case
    unfolding client_desk_def GetThreshold_def desk.simps by (rule call_read) simp
next
  case (2 i d r d')
  then show ?case
    unfolding client_desk_def GetCompany_def desk.simps by (rule call_read) simp
next
  case (3 d r d')
  then show ?case
    unfolding client_desk_def TicketFields_def get_fields_def desk.simps by (rule call_read) simp
next
  case (4 d r d')
  then show ?case
    unfolding client_desk_def NoteFields_def get_fields_def desk.simps by (rule call_read) simp
next
  case (5 ids d r d')
  then show ?case
    unfolding client_desk_def GetTickets_def desk.simps by (rule GetTickets_read)
next
  case (6 i tag d r d')
  then show ?case
    unfolding client_desk_def FindTickets_def desk.simps
    by (auto split: if_splits dest!: call_read)
next
  case (7 i tag d ts d' title)
  show ?case
  proof (cases "TrimSpace tag = []")
    case False
    then have "call T cfg ''find tickets'' ''POST'' ''/Tickets/query'' (find_body i tag) True (\<lambda>r. Inr (re_Tickets r)) d = (Inr ts, d')"
      using 7(1) by (simp add: client_desk_def FindTickets_def find_body_def)
    then show ?thesis
    proof (rule call_result)
      fix rep
      assume *: "send T cfg ''find tickets'' \<lparr>rq_method = ''POST'', rq_path = ''/Tickets/query'', rq_body = find_body i tag\<rparr> True 3 OtherError d = (rep, d')"
        "Inr ts = (case rep of Inl err \<Rightarrow> Inl err | Inr r \<Rightarrow> Inr (re_Tickets r))"
      then obtain r where "rep = Inr r" "ts = re_Tickets r"
        by (cases rep) auto
      then show ?thesis
        using send_query [OF *(1) [unfolded \<open>rep = Inr r\<close>] refl 7(2,3)] by simp
    qed
  qed (use 7(1) in \<open>simp add: client_desk_def FindTickets_def\<close>)
next
  case (8 t d r d')
  then have "call T cfg ''create ticket'' ''POST'' ''/Tickets'' (TicketBody t) False
     (\<lambda>r. if re_ItemID r \<le> 0 then Inl (error_of KindBadResponse ''create ticket'' 0 [''no ticket id in the answer''] True)
          else Inr (re_ItemID r)) d = (r, d')"
    by (simp add: client_desk_def CreateTicket_def)
  from call_write_once [OF this] show ?case
    by auto
next
  case (9 t d i d')
  then have "call T cfg ''create ticket'' ''POST'' ''/Tickets'' (TicketBody t) False
     (\<lambda>r. if re_ItemID r \<le> 0 then Inl (error_of KindBadResponse ''create ticket'' 0 [''no ticket id in the answer''] True)
          else Inr (re_ItemID r)) d = (Inr i, d')"
    by (simp add: client_desk_def CreateTicket_def)
  from call_write_once [OF this] show ?case
    by simp
next
  case (10 i s d r d')
  then have "call T cfg ''update ticket'' ''PATCH'' ''/Tickets'' (StatusBody i s) True (\<lambda>r. Inr ()) d = (r, d')"
    by (simp add: client_desk_def SetTicketStatus_def)
  then show ?case
  proof (rule call_result)
    fix rep
    assume "send T cfg ''update ticket'' \<lparr>rq_method = ''PATCH'', rq_path = ''/Tickets'', rq_body = StatusBody i s\<rparr> True 3 OtherError d = (rep, d')"
    from send_idem [OF this] obtain ws where ws: "history served d' = history served d @ ws" "set ws \<subseteq> {WStatus i s}"
      by auto
    have "ws = replicate (length ws) (WStatus i s)"
      using ws(2) by (metis replicate_length_same singletonD subsetD)
    then show ?thesis
      using ws(1) by metis
  qed
next
  case (11 n d r d')
  then have "call T cfg ''create ticket note'' ''POST'' (''/Tickets/'' @ Itoa (nc_TicketID n) @ ''/Notes'') (NoteBody n) False
     (\<lambda>r. if re_ItemID r \<le> 0 then Inl (error_of KindBadResponse ''create ticket note'' 0 [''no note id in the answer''] True)
          else Inr (re_ItemID r)) d = (r, d')"
    by (simp add: client_desk_def CreateNote_def)
  from call_write_once [OF this] show ?case
    by auto
qed

text \<open>An answer of success whose body does not decode ends a call with an error that is not marked as
  ambiguous, although the service has carried the request out.\<close>

lemma unreadable_answer_not_ambiguous:
  assumes "autotask_service T served" "cl_sent c < cf_MaxRequests cfg"
    and "tr_once T rq (cl_net c) = (Answer 200 \<lparr>ra_json = None, ra_errors = []\<rparr> 0, w)" "writes_of rq = Some x"
    and "request T cfg op_name rq False c = (res, c')"
  shows "history served c' = history served c @ [x] \<and> (\<exists>err. res = Inl err \<and> \<not> IsAmbiguous err)"
  using autotask_service.serve_ok [OF assms(1,3) _ assms(4)] assms(2,3,5)
  by (auto simp: request_def eval_nat_numeral history_def error_of_def)

section \<open>A service in memory\<close>

text \<open>A small service, like the fake one of the repository's tests (atest/server.go): it keeps what it
  carried out, numbers tickets by their place in that history, answers queries from it, and can
  lose an answer after carrying a request out.\<close>

record memory =
  me_log :: "Write list"
  me_lost :: "bool list"

fun ticket_of :: "int \<times> Write \<Rightarrow> Ticket option" where
  "ticket_of (i, WTicket co title) = Some \<lparr>tk_ID = i, tk_TicketNumber = ''T'' @ Itoa i, tk_CompanyID = co, tk_Title = title,
     tk_Status = 1, tk_Priority = 1, tk_QueueID = None, tk_CompletedDate = None\<rparr>"
| "ticket_of (i, _) = None"

fun log_tickets :: "int \<Rightarrow> Write list \<Rightarrow> Ticket list" where
  "log_tickets i [] = []"
| "log_tickets i (x # xs) = (case ticket_of (i, x) of None \<Rightarrow> [] | Some t \<Rightarrow> [t]) @ log_tickets (i + 1) xs"

fun filter_holds :: "Filter \<Rightarrow> Ticket \<Rightarrow> bool" where
  "filter_holds f t =
     (case fl_value f of
        FInts ids \<Rightarrow> fl_field f = ''id'' \<and> tk_ID t \<in> set ids
      | FInt i \<Rightarrow> fl_field f = ''companyID'' \<and> tk_CompanyID t = i
      | FStr s \<Rightarrow> fl_field f = ''title'' \<and> Contains (tk_Title t) s
      | FBool b \<Rightarrow> False)"

definition pick :: "string \<Rightarrow> string \<Rightarrow> Field" where
  "pick name v = \<lparr>fd_Name = name, fd_Length = 0, fd_PicklistValues =
     [\<lparr>pv_Value = v, pv_Label = name, pv_IsDefault = False, pv_SortOrder = 0, pv_ParentValue = [], pv_IsActive = True, pv_IsSystemItem = False\<rparr>]\<rparr>"

definition memory_reply :: "Request \<Rightarrow> Write list \<Rightarrow> Reply" where
  "memory_reply rq ws =
     \<lparr>re_Threshold = \<lparr>th_ExternalRequestThreshold = 10000, th_RequestThresholdTimeframe = 60, th_CurrentTimeframeRequestCount = 0\<rparr>,
      re_Item = Some \<lparr>co_ID = 3001, co_CompanyName = ''Example'', co_IsActive = True, co_CompanyType = 1\<rparr>,
      re_Fields = [pick ''queueID'' ''8'', pick ''status'' ''1'', pick ''priority'' ''2'', pick ''noteType'' ''3'', pick ''publish'' ''1''],
      re_Companies = [],
      re_Tickets = (case rq_body rq of QueryBody fs _ _ \<Rightarrow> filter (\<lambda>t. list_all (\<lambda>f. filter_holds f t) fs) (log_tickets 1 ws) | _ \<Rightarrow> []),
      re_ItemID = int (length ws)\<rparr>"

definition memory_once :: "Request \<Rightarrow> memory \<Rightarrow> answer \<times> memory" where
  "memory_once rq w =
     (let ws = me_log w @ (case writes_of rq of None \<Rightarrow> [] | Some x \<Rightarrow> [x]);
          w' = \<lparr>me_log = ws, me_lost = tl (me_lost w)\<rparr>
      in (if me_lost w \<noteq> [] \<and> hd (me_lost w) then NetFailure ''timed out''
          else Answer 200 \<lparr>ra_json = Some (memory_reply rq ws), ra_errors = []\<rparr> 0, w'))"

definition memory_service :: "memory transport" where
  "memory_service = \<lparr>tr_once = memory_once, tr_cancelled = (\<lambda>_. False), tr_sleep = (\<lambda>_ w. (True, w))\<rparr>"

lemma log_tickets_has: "WTicket co title \<in> set ws \<Longrightarrow> \<exists>t \<in> set (log_tickets i ws). tk_CompanyID t = co \<and> tk_Title t = title"
  by (induction ws arbitrary: i) auto

interpretation memory: autotask_service memory_service me_log
proof (unfold_locales, goal_cases)
  case (1 rq w ans w')
  then show ?case
    by (auto simp: memory_service_def memory_once_def Let_def simp del: writes_of.simps split: option.splits if_splits)
next
  case (2 rq w ans w' x)
  then show ?case
    by (auto simp: memory_service_def memory_once_def Let_def simp del: writes_of.simps)
next
  case (4 i tag w status raw ra w' r title)
  then have r: "r = memory_reply \<lparr>rq_method = ''POST'', rq_path = ''/Tickets/query'', rq_body = find_body i tag\<rparr> (me_log w)"
    by (auto simp: memory_service_def memory_once_def Let_def find_body_def split: if_splits)
  obtain t where "t \<in> set (log_tickets 1 (me_log w))" "tk_CompanyID t = i" "tk_Title t = title"
    using log_tickets_has [OF 4(4)] by blast
  then have "t \<in> set (re_Tickets r)"
    using 4(5) by (simp add: r memory_reply_def find_body_def)
  then show ?case
    by auto
qed (auto simp: memory_service_def)

end
