(* ===== verification/Ticket_Engine.thy ===== *)
theory Ticket_Engine
  imports Ticket_Client Audit_Store
begin

text \<open>
  internal/autotask/engine.go, with the part of types.go it uses and the storage port of
  storepg/autotask.go: one run compares the actions of "fix this week" with the tickets that are
  followed, decides what to do, and does it or shows it. The desk (the Autotask client) is a
  record of operations on a state; the world of a run is that state, the table of followed
  tickets, and the audit log. A commit writes a row and its ledger entry in one transaction,
  which can also fail as a whole (an argument). Members are association lists with one entry per
  key; Go iterates over them only in sorted order. In \<open>return []Op{op}, fail(&op, err)\<close> Go
  leaves open whether the operation is copied before or after \<open>fail\<close> has marked it; the model
  has the order of the Go compiler, which calls first, and which the tests rely on.
\<close>

section \<open>Followed tickets (types.go)\<close>

datatype State = StateOpen | StateResolved | StateClosedInPSA

record MemberState =
  ms_Label :: string
  ms_Digest :: string

record Tracked =
  tr_GroupKey :: string
  tr_Generation :: int
  tr_Tag :: string
  tr_TicketID :: int
  tr_TicketNumber :: string
  tr_CompanyID :: int
  tr_Title :: string
  tr_State :: State
  tr_Urgency :: string
  tr_Members :: "(string \<times> MemberState) list"
  tr_CreatedAt :: time
  tr_UpdatedAt :: time
  tr_ResolvedAt :: "time option"

record MemberRef =
  mr_GroupKey :: string
  mr_MemberKey :: string
  mr_Since :: time

datatype OpKind = OpCreate | OpAdopt | OpNote | OpComplete | OpFlag
datatype OpStatus = OpPlanned | OpDone | OpFailed | OpDeferred | OpSkipped

record Op =
  op_Kind :: OpKind
  op_Status :: OpStatus
  op_GroupKey :: string
  op_Tag :: string
  op_Urgency :: string
  op_TicketID :: int
  op_TicketNumber :: string
  op_Title :: string
  op_Create :: "TicketCreate option"
  op_Labels :: "(string \<times> string) list"
  op_Note :: string
  op_Reason :: string
  op_Error :: string
  op_Members :: int

record Result =
  rs_Mode :: string
  rs_Verified :: bool
  rs_UnverifiedWhy :: string
  rs_CompanyName :: string
  rs_Problems :: "string list"
  rs_Ops :: "Op list"
  rs_Groups :: int
  rs_BelowThreshold :: int
  rs_Requests :: int
  rs_Fingerprint :: string
  rs_Created :: int
  rs_Noted :: int
  rs_Completed :: int
  rs_Failed :: int
  rs_Deferred :: int
  rs_Flagged :: int

definition new_result :: "string \<Rightarrow> string \<Rightarrow> Result" where
  "new_result mode fp = \<lparr>rs_Mode = mode, rs_Verified = False, rs_UnverifiedWhy = [], rs_CompanyName = [], rs_Problems = [],
     rs_Ops = [], rs_Groups = 0, rs_BelowThreshold = 0, rs_Requests = 0, rs_Fingerprint = fp, rs_Created = 0, rs_Noted = 0,
     rs_Completed = 0, rs_Failed = 0, rs_Deferred = 0, rs_Flagged = 0\<rparr>"

text \<open>\<open>Status\<close>: ok, partial or not_run.\<close>

definition RunStatus :: "Result \<Rightarrow> string" where
  "RunStatus r =
     (if rs_Problems r \<noteq> [] \<and> rs_Ops r = [] then ''not_run''
      else if rs_Problems r \<noteq> [] \<or> 0 < rs_Failed r \<or> 0 < rs_Deferred r then ''partial''
      else ''ok'')"

text \<open>\<open>CheckAgainst\<close>: what is wrong with the picklist choices, in words.\<close>

definition check_pick :: "string \<Rightarrow> string \<Rightarrow> string \<Rightarrow> Fields \<Rightarrow> string list" where
  "check_pick label field val f =
     (if val = [] \<or> HasActive f field val then []
      else [label @ '' ('' @ val @ '') is not an active value of Autotask'' @ apos @ ''s '' @ field @ '' list any more''])"

definition CheckAgainst :: "Settings \<Rightarrow> Fields \<Rightarrow> Fields \<Rightarrow> string list" where
  "CheckAgainst s tf nf =
     check_pick ''the queue'' ''queueID'' (st_QueueID s) tf @
     check_pick ''the status of a new ticket'' ''status'' (st_Status s) tf @
     check_pick ''the source'' ''source'' (st_Source s) tf @
     check_pick ''the issue type'' ''issueType'' (st_IssueType s) tf @
     check_pick ''the critical priority'' ''priority'' (st_PriorityCritical s) tf @
     check_pick ''the high priority'' ''priority'' (st_PriorityHigh s) tf @
     check_pick ''the medium priority'' ''priority'' (st_PriorityMedium s) tf @
     check_pick ''the completed status'' ''status'' (st_CompleteStatus s) tf @
     check_pick ''the note type'' ''noteType'' (st_NoteType s) nf @
     check_pick ''who may see a note'' ''publish'' (st_NotePublish s) nf @
     (if st_SubIssueType s = [] then []
      else
        let vs = filter (\<lambda>v. pv_Value v = st_SubIssueType s) (Active tf ''subIssueType'')
        in concat (map (\<lambda>v. if pv_ParentValue v \<noteq> st_IssueType s
             then [''the sub-issue type ('' @ st_SubIssueType s @ '') belongs to another issue type than the one chosen''] else []) vs) @
           (if vs = [] then [''the sub-issue type ('' @ st_SubIssueType s @ '') is not an active value of Autotask'' @ apos @
             ''s list any more''] else [])) @
     (if st_AutoComplete s \<and> st_CompleteStatus s = st_Status s
      then [''the completed status is the same as the status of a new ticket''] else [])"

section \<open>The store (storepg/autotask.go)\<close>

record Change =
  ch_Action :: string
  ch_Tracked :: Tracked
  ch_Detail :: "(string \<times> json) list"

record 'd world =
  w_desk :: 'd
  w_rows :: "Tracked list"
  w_audit :: audit_db

text \<open>\<open>ON CONFLICT (group_key, generation) DO UPDATE\<close>: which columns an existing row takes over.
  Times are stored with microseconds.\<close>

definition stored :: "Tracked \<Rightarrow> Tracked" where
  "stored t = t\<lparr>tr_CreatedAt := Microseconds (tr_CreatedAt t), tr_UpdatedAt := Microseconds (tr_UpdatedAt t),
     tr_ResolvedAt := map_option Microseconds (tr_ResolvedAt t)\<rparr>"

definition same_row :: "Tracked \<Rightarrow> Tracked \<Rightarrow> bool" where
  "same_row a b \<longleftrightarrow> tr_GroupKey a = tr_GroupKey b \<and> tr_Generation a = tr_Generation b"

definition take_over :: "Tracked \<Rightarrow> Tracked \<Rightarrow> Tracked" where
  "take_over t row = row\<lparr>tr_TicketNumber := tr_TicketNumber t, tr_Title := tr_Title t, tr_State := tr_State t,
     tr_Urgency := tr_Urgency t, tr_Members := tr_Members t, tr_UpdatedAt := tr_UpdatedAt t, tr_ResolvedAt := tr_ResolvedAt t\<rparr>"

text \<open>The row, unless another has its tag (the column is unique).\<close>

definition upsert :: "Tracked \<Rightarrow> Tracked list \<Rightarrow> Tracked list option" where
  "upsert t rows =
     (if list_ex (same_row t) rows then Some (map (\<lambda>row. if same_row t row then take_over t row else row) rows)
      else if list_ex (\<lambda>row. tr_Tag row = tr_Tag t) rows then None
      else Some (rows @ [t]))"

text \<open>The surroundings of a run: the desk if one is connected, the clock, the actor, the
  fingerprint of the last good dry run, the encodings, the evidence the database holds, and
  which reads and commits fail.\<close>

record 'd Engine =
  eg_Desk :: "'d desk option"
  eg_Now :: "'d \<Rightarrow> time"
  eg_Actor :: string
  eg_DryRunFingerprint :: string
  eg_encode :: "json list \<Rightarrow> string"
  eg_marshal :: "(string \<times> json) list \<Rightarrow> string"
  eg_jsonb :: "string \<Rightarrow> string option"
  eg_tracked_fails :: "'d \<Rightarrow> bool"
  eg_evidence :: "'d \<Rightarrow> MemberRef list \<Rightarrow> (MemberRef \<Rightarrow> Evidence option) option"
  eg_commit_fails :: "'d \<Rightarrow> Change \<Rightarrow> bool"

definition AutotaskTracked :: "'d world \<Rightarrow> Tracked list" where
  "AutotaskTracked w = go_sort (\<lambda>a b. if tr_GroupKey a \<noteq> tr_GroupKey b then tr_GroupKey a < tr_GroupKey b
     else tr_Generation a < tr_Generation b) (w_rows w)"

definition AutotaskCommit :: "'d Engine \<Rightarrow> Change \<Rightarrow> 'd world \<Rightarrow> 'd world option" where
  "AutotaskCommit e ch w =
     (case upsert (stored (ch_Tracked ch)) (w_rows w) of
        None \<Rightarrow> None
      | Some rows \<Rightarrow>
          (case auditInTx (eg_jsonb e) (eg_Now e (w_desk w)) (eg_Actor e) (ch_Action ch) [] (eg_marshal e (ch_Detail ch)) (w_audit w) of
             Inl _ \<Rightarrow> None
           | Inr db \<Rightarrow> if eg_commit_fails e (w_desk w) ch then None else Some (w\<lparr>w_rows := rows, w_audit := db\<rparr>)))"

section \<open>Plans\<close>

datatype PlanKind = PlanOp OpKind | KindPendingNote | KindPendingClose

definition no_tracked :: Tracked where
  "no_tracked = \<lparr>tr_GroupKey = [], tr_Generation = 0, tr_Tag = [], tr_TicketID = 0, tr_TicketNumber = [], tr_CompanyID = 0,
     tr_Title = [], tr_State = StateOpen, tr_Urgency = [], tr_Members = [], tr_CreatedAt = 0, tr_UpdatedAt = 0, tr_ResolvedAt = None\<rparr>"

definition no_group :: Group where
  "no_group = \<lparr>gr_Key = [], gr_Source = [], gr_Title = [], gr_Urgency = [], gr_Why = [], gr_Fix = [], gr_Link = [],
     gr_Members = [], gr_Advisories = 0\<rparr>"

record plan =
  pl_kind :: PlanKind
  pl_group :: Group
  pl_tracked :: "Tracked option"
  pl_gen :: int
  pl_delta :: Delta
  pl_next :: Tracked
  pl_reason :: string

definition new_plan :: "PlanKind \<Rightarrow> Group \<Rightarrow> Tracked option \<Rightarrow> int \<Rightarrow> plan" where
  "new_plan kind g t gen = \<lparr>pl_kind = kind, pl_group = g, pl_tracked = t, pl_gen = gen, pl_delta = no_delta,
     pl_next = no_tracked, pl_reason = []\<rparr>"

text \<open>The row of a plan; every plan but that of a new ticket has one.\<close>

definition row_of :: "plan \<Rightarrow> Tracked" where
  "row_of p = (case pl_tracked p of None \<Rightarrow> no_tracked | Some t \<Rightarrow> t)"

record env =
  v_tf :: Fields
  v_set :: Settings
  v_now :: time
  v_verified :: bool
  v_live :: bool
  v_psa :: "(int \<times> Ticket) list"
  v_titleMax :: int
  v_descMax :: int
  v_noteMax :: int

definition sortedKeys :: "(string \<times> 'v) list \<Rightarrow> string list" where
  "sortedKeys m = sort_strings (map fst m)"

definition ticketName :: "Tracked \<Rightarrow> string" where
  "ticketName t = (if tr_TicketNumber t \<noteq> [] then tr_TicketNumber t else ''#'' @ Itoa (tr_TicketID t))"

definition memberStates :: "Member list \<Rightarrow> (string \<times> MemberState) list" where
  "memberStates ms = fold (\<lambda>m. upd_assoc (mb_Key m) (\<lambda>_. \<lparr>ms_Label = mb_Label m, ms_Digest = mb_Digest m\<rparr>)) ms []"

text \<open>\<open>diffGroup\<close>: the news of an action, and the keys of the members that left it.\<close>

definition gone_keys :: "Tracked \<Rightarrow> Group \<Rightarrow> string list" where
  "gone_keys t g = filter (\<lambda>k. k \<notin> mb_Key ` set (gr_Members g)) (sortedKeys (tr_Members t))"

definition diffGroup :: "Tracked \<Rightarrow> Group \<Rightarrow> Delta \<times> string list" where
  "diffGroup t g =
     (let joined = filter (\<lambda>m. map_of (tr_Members t) (mb_Key m) = None) (gr_Members g);
          changed = filter (\<lambda>m. case map_of (tr_Members t) (mb_Key m) of None \<Rightarrow> False | Some old \<Rightarrow> ms_Digest old \<noteq> mb_Digest m)
            (gr_Members g);
          worse = tr_Urgency t \<noteq> [] \<and> UrgencyRank (tr_Urgency t) < UrgencyRank (gr_Urgency g)
      in (no_delta\<lparr>dl_Joined := joined, dl_Changed := changed, dl_UrgencyFrom := if worse then tr_Urgency t else [],
            dl_UrgencyTo := if worse then gr_Urgency g else []\<rparr>, gone_keys t g))"

text \<open>The newest row of each action.\<close>

definition latest_step :: "Tracked \<Rightarrow> (string \<times> Tracked) list \<Rightarrow> (string \<times> Tracked) list" where
  "latest_step t = upd_assoc (tr_GroupKey t)
     (\<lambda>cur. case cur of None \<Rightarrow> t | Some c \<Rightarrow> if tr_Generation c < tr_Generation t then t else c)"

definition latest_of :: "Tracked list \<Rightarrow> (string \<times> Tracked) list" where
  "latest_of rows = fold latest_step rows []"

text \<open>Autotask says that the ticket was completed, or no longer knows it.\<close>

definition done_or_gone :: "env \<Rightarrow> Tracked \<Rightarrow> bool" where
  "done_or_gone v t \<longleftrightarrow> v_verified v \<and> (case map_of (v_psa v) (tr_TicketID t) of None \<Rightarrow> True | Some pt \<Rightarrow> Completed pt)"

definition qualifies :: "env \<Rightarrow> Group \<Rightarrow> bool" where
  "qualifies v g \<longleftrightarrow> UrgencyRank (st_MinUrgency (v_set v)) \<le> UrgencyRank (gr_Urgency g) \<and> Priority (v_set v) (gr_Urgency g) \<noteq> []"

definition flag_reason :: "env \<Rightarrow> Tracked \<Rightarrow> Group \<Rightarrow> string" where
  "flag_reason v t g =
     (if map_of (v_psa v) (tr_TicketID t) = None
      then ''Ticket '' @ ticketName t @ '' was not found in Autotask (deleted, or the API user cannot see it) while '' @
        plural (length (gr_Members g)) ''member is'' ''members are'' @
        '' still open in DefendSec. DefendSec does not recreate it; a new host or finding would get a new ticket.''
      else ''Ticket '' @ ticketName t @ '' was completed in Autotask while '' @
        plural (length (gr_Members g)) ''member is'' ''members are'' @
        '' still open in DefendSec. DefendSec leaves it alone and opens no second ticket for the same findings; a new host or finding would get a new one.'')"

definition member_refs :: "Tracked \<Rightarrow> string list \<Rightarrow> MemberRef list" where
  "member_refs t ks = map (\<lambda>k. \<lparr>mr_GroupKey = tr_GroupKey t, mr_MemberKey = k, mr_Since = tr_CreatedAt t\<rparr>) ks"

text \<open>\<open>decide\<close>, for an action that has open findings: its plan, the members that left, and
  whether it is below the threshold.\<close>

definition decide_group :: "env \<Rightarrow> (string \<times> Tracked) list \<Rightarrow> Group \<Rightarrow> plan option \<times> MemberRef list \<times> bool" where
  "decide_group v latest g =
     (case map_of latest (gr_Key g) of
        None \<Rightarrow> if qualifies v g then (Some (new_plan (PlanOp OpCreate) g None 1), [], False) else (None, [], True)
      | Some t \<Rightarrow>
          (case tr_State t of
             StateOpen \<Rightarrow>
               if done_or_gone v t then
                 (Some ((new_plan (PlanOp OpFlag) g (Some t) (tr_Generation t))
                    \<lparr>pl_next := t\<lparr>tr_State := StateClosedInPSA, tr_Members := memberStates (gr_Members g), tr_Urgency := gr_Urgency g\<rparr>,
                     pl_reason := flag_reason v t g\<rparr>), [], False)
               else
                 (case diffGroup t g of (d, gone) \<Rightarrow>
                    (Some ((new_plan KindPendingNote g (Some t) (tr_Generation t))\<lparr>pl_delta := d\<lparr>dl_Open := length (gr_Members g)\<rparr>\<rparr>),
                     member_refs t gone, False))
           | StateClosedInPSA \<Rightarrow>
               if list_ex (\<lambda>m. map_of (tr_Members t) (mb_Key m) = None) (gr_Members g) \<and> qualifies v g
               then (Some (new_plan (PlanOp OpCreate) g None (tr_Generation t + 1)), [], False)
               else (None, [], False)
           | StateResolved \<Rightarrow>
               if done_or_gone v t then
                 (if qualifies v g then (Some (new_plan (PlanOp OpCreate) g None (tr_Generation t + 1)), [], False)
                  else (None, [], False))
               else
                 (Some ((new_plan (PlanOp OpNote) g (Some t) (tr_Generation t))
                    \<lparr>pl_next := t\<lparr>tr_State := StateOpen, tr_Members := memberStates (gr_Members g), tr_Urgency := gr_Urgency g,
                       tr_ResolvedAt := None\<rparr>,
                     pl_delta := no_delta\<lparr>dl_Returned := True, dl_Joined := gr_Members g, dl_Open := length (gr_Members g)\<rparr>\<rparr>),
                  [], False)))"

text \<open>For a row whose action has no open finding any more.\<close>

definition decide_gone :: "env \<Rightarrow> Tracked \<Rightarrow> plan option \<times> MemberRef list" where
  "decide_gone v t =
     (case tr_State t of
        StateOpen \<Rightarrow>
          if done_or_gone v t then
            (Some ((new_plan (PlanOp OpFlag) no_group (Some t) (tr_Generation t))
               \<lparr>pl_next := t\<lparr>tr_State := StateResolved, tr_ResolvedAt := Some (v_now v), tr_Members := []\<rparr>,
                pl_reason := ''Nothing of ticket '' @ ticketName t @ apos @ ''s action is open in DefendSec any more, and the ticket is already completed in Autotask (or gone): nothing to add.''\<rparr>), [])
          else if tr_Members t = [] then
            (let next_row = t\<lparr>tr_State := StateResolved, tr_ResolvedAt := Some (v_now v)\<rparr>
             in if st_AutoComplete (v_set v)
                then (Some ((new_plan (PlanOp OpComplete) no_group (Some t) (tr_Generation t))\<lparr>pl_next := next_row\<rparr>), [])
                else (Some ((new_plan (PlanOp OpFlag) no_group (Some t) (tr_Generation t))
                  \<lparr>pl_next := next_row,
                   pl_reason := ''Ticket '' @ ticketName t @ '': auto-complete was switched off before DefendSec completed it; it stays open for a person to close.''\<rparr>), []))
          else (Some (new_plan KindPendingClose no_group (Some t) (tr_Generation t)), member_refs t (sortedKeys (tr_Members t)))
      | StateClosedInPSA \<Rightarrow>
          (Some ((new_plan (PlanOp OpFlag) no_group (Some t) (tr_Generation t))
             \<lparr>pl_next := t\<lparr>tr_State := StateResolved, tr_ResolvedAt := Some (v_now v)\<rparr>,
              pl_reason := ''Nothing of this action is open in DefendSec any more (its ticket was already completed in Autotask).''\<rparr>), [])
      | StateResolved \<Rightarrow> (None, []))"

definition planUrgency :: "plan \<Rightarrow> string" where
  "planUrgency p =
     (if gr_Key (pl_group p) \<noteq> [] then gr_Urgency (pl_group p)
      else case pl_tracked p of None \<Rightarrow> UrgencyLow | Some t \<Rightarrow> tr_Urgency t)"

definition planKey :: "plan \<Rightarrow> string" where
  "planKey p =
     Itoa (3 - int (UrgencyRank (planUrgency p))) @ ''|'' @
     (if gr_Key (pl_group p) = [] then case pl_tracked p of None \<Rightarrow> [] | Some t \<Rightarrow> tr_GroupKey t else gr_Key (pl_group p))"

text \<open>\<open>decide\<close>: the plans in order, the members that left, and how many actions are below the
  threshold. The order in which Go visits the rows does not show in the result, as the plans are
  sorted by keys that differ.\<close>

definition decide :: "Group list \<Rightarrow> (string \<times> Tracked) list \<Rightarrow> env \<Rightarrow> plan list \<times> MemberRef list \<times> int" where
  "decide groups latest v =
     (let present = map (decide_group v latest) groups;
          absent = map (decide_gone v \<circ> snd) (filter (\<lambda>(k, t). k \<notin> gr_Key ` set groups) latest)
      in (go_sort (\<lambda>a b. planKey a < planKey b) (List.map_filter fst present @ List.map_filter fst absent),
          concat (map (fst \<circ> snd) present) @ concat (map snd absent),
          int (length (filter (snd \<circ> snd) present))))"

text \<open>\<open>finish\<close>: a plan that waited for evidence.\<close>

definition resolved_lines :: "(MemberRef \<Rightarrow> Evidence option) \<Rightarrow> Tracked \<Rightarrow> string list \<Rightarrow> string list" where
  "resolved_lines evidence t ks =
     map (\<lambda>k. ResolvedLine (case map_of (tr_Members t) k of None \<Rightarrow> [] | Some m \<Rightarrow> ms_Label m)
       (evidence \<lparr>mr_GroupKey = tr_GroupKey t, mr_MemberKey = k, mr_Since = tr_CreatedAt t\<rparr>)) ks"

definition finish_plan :: "(MemberRef \<Rightarrow> Evidence option) \<Rightarrow> env \<Rightarrow> plan \<Rightarrow> plan" where
  "finish_plan evidence v p =
     (let t = row_of p in
      case pl_kind p of
        KindPendingNote \<Rightarrow>
          p\<lparr>pl_kind := PlanOp OpNote,
            pl_delta := (pl_delta p)\<lparr>dl_Resolved := dl_Resolved (pl_delta p) @ resolved_lines evidence t (gone_keys t (pl_group p))\<rparr>,
            pl_next := t\<lparr>tr_Members := memberStates (gr_Members (pl_group p)), tr_Urgency := gr_Urgency (pl_group p)\<rparr>\<rparr>
      | KindPendingClose \<Rightarrow>
          p\<lparr>pl_kind := PlanOp OpNote,
            pl_delta := no_delta\<lparr>dl_AllResolved := True, dl_Completing := st_AutoComplete (v_set v),
              dl_Resolved := resolved_lines evidence t (sortedKeys (tr_Members t))\<rparr>,
            pl_next := t\<lparr>tr_State := StateResolved, tr_ResolvedAt := Some (v_now v), tr_Members := []\<rparr>\<rparr>
      | PlanOp k \<Rightarrow> p)"

section \<open>Rendering\<close>

text \<open>\<open>strconv.ParseInt(v, 10, 64)\<close>; an error of range still gives the nearest number.\<close>

definition parsePick :: "string \<Rightarrow> int" where
  "parsePick v = AtoiVal v"

definition pickInt :: "string \<Rightarrow> int option" where
  "pickInt v = (if v = [] then None else Atoi v)"

definition payload :: "Group \<Rightarrow> string \<Rightarrow> env \<Rightarrow> TicketCreate" where
  "payload g tag v =
     (let s = v_set v;
          due = v_now v + DueDays s (gr_Urgency g) * Day;
          due = due - due mod Second
      in \<lparr>tc_CompanyID = st_CompanyID s, tc_Title = TitleWithTag (gr_Title g) tag (v_titleMax v),
          tc_Description = Description g tag (v_now v) (v_descMax v), tc_Status = parsePick (st_Status s),
          tc_Priority = parsePick (Priority s (gr_Urgency g)), tc_QueueID = pickInt (st_QueueID s),
          tc_Source = pickInt (st_Source s), tc_IssueType = pickInt (st_IssueType s),
          tc_SubIssueType = pickInt (st_SubIssueType s),
          tc_DueDateTime = FormatDate due @ ''T'' @ clock due @ ''.00''\<rparr>)"

definition pick_label :: "Fields \<Rightarrow> string \<Rightarrow> string \<Rightarrow> int option \<Rightarrow> (string \<times> string) list" where
  "pick_label tf key field val =
     (case val of None \<Rightarrow> [] | Some n \<Rightarrow> if Label tf field (Itoa n) \<noteq> [] then [(key, Label tf field (Itoa n))] else [])"

definition pickLabels :: "Fields \<Rightarrow> TicketCreate \<Rightarrow> (string \<times> string) list" where
  "pickLabels tf pl =
     (if tf = None then []
      else pick_label tf ''queue'' ''queueID'' (tc_QueueID pl) @ pick_label tf ''source'' ''source'' (tc_Source pl) @
        pick_label tf ''issueType'' ''issueType'' (tc_IssueType pl) @
        pick_label tf ''subIssueType'' ''subIssueType'' (tc_SubIssueType pl) @
        pick_label tf ''status'' ''status'' (Some (tc_Status pl)) @ pick_label tf ''priority'' ''priority'' (Some (tc_Priority pl)))"

definition row_op :: "OpKind \<Rightarrow> Tracked \<Rightarrow> Op" where
  "row_op kind t = \<lparr>op_Kind = kind, op_Status = OpPlanned, op_GroupKey = tr_GroupKey t, op_Tag = tr_Tag t, op_Urgency = [],
     op_TicketID = tr_TicketID t, op_TicketNumber = tr_TicketNumber t, op_Title = tr_Title t, op_Create = None, op_Labels = [],
     op_Note = [], op_Reason = [], op_Error = [], op_Members = 0\<rparr>"

definition noteOp :: "plan \<Rightarrow> env \<Rightarrow> Op" where
  "noteOp p v = (row_op OpNote (row_of p))\<lparr>op_Urgency := tr_Urgency (pl_next p), op_Note := NoteText (pl_delta p) (v_noteMax v),
     op_Members := int (length (tr_Members (pl_next p)))\<rparr>"

definition createOp :: "plan \<Rightarrow> env \<Rightarrow> Op" where
  "createOp p v =
     (let g = pl_group p;
          tag = TicketTag (gr_Key g) (pl_gen p);
          pl = payload g tag v
      in \<lparr>op_Kind = OpCreate, op_Status = OpPlanned, op_GroupKey = gr_Key g, op_Tag = tag, op_Urgency = gr_Urgency g,
          op_TicketID = 0, op_TicketNumber = [], op_Title = tc_Title pl, op_Create = Some pl, op_Labels = pickLabels (v_tf v) pl,
          op_Note = [],
          op_Reason = (if 1 < pl_gen p
            then ''A new ticket (number '' @ Itoa (pl_gen p) @ '' for this action): the earlier one was completed in Autotask.''
            else ''A new ticket for this action.''),
          op_Error = [], op_Members = int (length (gr_Members g))\<rparr>)"

definition flagOp :: "plan \<Rightarrow> Op" where
  "flagOp p = (row_op OpFlag (row_of p))\<lparr>op_Reason := pl_reason p\<rparr>"

definition dryOps :: "plan \<Rightarrow> env \<Rightarrow> Op list" where
  "dryOps p v =
     (if pl_kind p = PlanOp OpCreate then [createOp p v]
      else if pl_kind p = PlanOp OpNote then [noteOp p v]
      else if pl_kind p = PlanOp OpComplete then [row_op OpComplete (row_of p)]
      else [flagOp p])"

definition ledgerDetail :: "Tracked \<Rightarrow> (string \<times> json) list \<Rightarrow> (string \<times> json) list" where
  "ledgerDetail t extra =
     fold (\<lambda>(k, x). upd_assoc k (\<lambda>_. x)) extra
       [(''groupKey'', JStr (tr_GroupKey t)), (''generation'', JInt (tr_Generation t)), (''tag'', JStr (tr_Tag t)),
        (''ticketId'', JInt (tr_TicketID t)), (''ticketNumber'', JStr (tr_TicketNumber t)), (''companyId'', JInt (tr_CompanyID t)),
        (''urgency'', JStr (tr_Urgency t)), (''members'', JInt (int (length (tr_Members t))))]"

fun errText :: "go_error \<Rightarrow> string" where
  "errText (ClientError e) = Error_text e"
| "errText OtherError = ''unexpected failure''"

text \<open>\<open>fail\<close> and \<open>storeFail\<close>: the operation as it is reported, and why the run must stop, if it must.\<close>

definition fail_op :: "Op \<Rightarrow> go_error \<Rightarrow> Op \<times> string" where
  "fail_op op err =
     (op\<lparr>op_Status := OpFailed, op_Error := errText err,
         op_Reason := if IsAmbiguous err
           then (if op_Kind op = OpNote
             then ''It may have been carried out. A note is not looked up again, so the next run may add it a second time.''
             else ''It may have been carried out; the next run checks before doing it again.'')
           else op_Reason op\<rparr>,
      if IsFatal err then errText err else [])"

definition storeFail :: "Op \<Rightarrow> string \<Rightarrow> Op \<times> string" where
  "storeFail op what = (op\<lparr>op_Status := OpFailed, op_Error := what\<rparr>, what)"

fun state_text :: "State \<Rightarrow> string" where
  "state_text StateOpen = ''open''"
| "state_text StateResolved = ''resolved''"
| "state_text StateClosedInPSA = ''closed_in_psa''"

section \<open>Sending\<close>

definition commit_change :: "'d Engine \<Rightarrow> string \<Rightarrow> Tracked \<Rightarrow> (string \<times> json) list \<Rightarrow> 'd world \<Rightarrow> 'd world option" where
  "commit_change e action row extra w =
     AutotaskCommit e \<lparr>ch_Action = action, ch_Tracked = row, ch_Detail = ledgerDetail row extra\<rparr> w"

text \<open>\<open>doCreate\<close>. A live run has a desk, and so has a verified one.\<close>

definition oldest :: "Ticket list \<Rightarrow> Ticket" where
  "oldest found = hd (go_sort (\<lambda>a b. tk_ID a < tk_ID b) found)"

definition show_create :: "'d Engine \<Rightarrow> plan \<Rightarrow> env \<Rightarrow> 'd world \<Rightarrow> (Op list \<times> string) \<times> 'd world" where
  "show_create e p v w =
     (let op = createOp p v in
      case eg_Desk e of
        None \<Rightarrow> (([op], []), w)
      | Some D \<Rightarrow>
          if \<not> v_verified v then (([op], []), w)
          else
            (case dk_FindTickets D (st_CompanyID (v_set v)) (op_Tag op) (w_desk w) of
               (Inr (tk # _), d) \<Rightarrow>
                 (([op\<lparr>op_Kind := OpAdopt, op_TicketID := tk_ID tk, op_TicketNumber := tk_TicketNumber tk,
                      op_Reason := ''Autotask already has ticket '' @ tk_TicketNumber tk @ '' with this tag: it would be adopted, not duplicated.''\<rparr>], []),
                  w\<lparr>w_desk := d\<rparr>)
             | (_, d) \<Rightarrow> (([op], []), w\<lparr>w_desk := d\<rparr>)))"

definition adopt :: "'d Engine \<Rightarrow> Op \<Rightarrow> Tracked \<Rightarrow> Ticket list \<Rightarrow> 'd world \<Rightarrow> (Op list \<times> string) \<times> 'd world" where
  "adopt e op row found w =
     (let tk = oldest found;
          row = row\<lparr>tr_TicketID := tk_ID tk, tr_TicketNumber := tk_TicketNumber tk,
            tr_State := if Completed tk then StateClosedInPSA else tr_State row\<rparr>;
          op = op\<lparr>op_Kind := OpAdopt, op_TicketID := tk_ID tk, op_TicketNumber := tk_TicketNumber tk,
            op_Reason := ''Ticket '' @ tk_TicketNumber tk @ '' with this tag already existed (an earlier run stopped before it recorded it): adopted, not duplicated.'' @
              (if 1 < length found then '' '' @ itoa_nat (length found) @ '' tickets carry the tag; the oldest was adopted.'' else [])\<rparr>
      in (case commit_change e ''autotask_ticket_adopted'' row [] w of
            None \<Rightarrow> (let (op, fatal) = storeFail op ''DefendSec could not record the adopted ticket'' in (([op], fatal), w))
          | Some w' \<Rightarrow> (([op\<lparr>op_Status := OpDone\<rparr>], []), w')))"

definition new_row :: "plan \<Rightarrow> env \<Rightarrow> Op \<Rightarrow> TicketCreate \<Rightarrow> Tracked" where
  "new_row p v op pl = \<lparr>tr_GroupKey = gr_Key (pl_group p), tr_Generation = pl_gen p, tr_Tag = op_Tag op, tr_TicketID = 0,
     tr_TicketNumber = [], tr_CompanyID = st_CompanyID (v_set v), tr_Title = tc_Title pl, tr_State = StateOpen,
     tr_Urgency = gr_Urgency (pl_group p), tr_Members = memberStates (gr_Members (pl_group p)), tr_CreatedAt = v_now v,
     tr_UpdatedAt = v_now v, tr_ResolvedAt = None\<rparr>"

definition json_id :: "int option \<Rightarrow> json" where
  "json_id x = (case x of None \<Rightarrow> JNull | Some n \<Rightarrow> JInt n)"

definition create_new :: "'d Engine \<Rightarrow> 'd desk \<Rightarrow> Op \<Rightarrow> TicketCreate \<Rightarrow> Tracked \<Rightarrow> 'd world \<Rightarrow> (Op list \<times> string) \<times> 'd world" where
  "create_new e D op pl row w =
     (case dk_CreateTicket D pl (w_desk w) of
        (Inl err, d) \<Rightarrow> (let (op, fatal) = fail_op op err in (([op], fatal), w\<lparr>w_desk := d\<rparr>))
      | (Inr i, d) \<Rightarrow>
          (case dk_GetTickets D [i] d of (got, d) \<Rightarrow>
             (let number = (case got of Inl _ \<Rightarrow> [] | Inr m \<Rightarrow> (case map_of m i of None \<Rightarrow> [] | Some tk \<Rightarrow> tk_TicketNumber tk));
                  row = row\<lparr>tr_TicketID := i, tr_TicketNumber := number\<rparr>;
                  op = op\<lparr>op_TicketID := i, op_TicketNumber := number\<rparr>
              in (case commit_change e ''autotask_ticket_created'' row
                    [(''title'', JStr (tc_Title pl)), (''priority'', JInt (tc_Priority pl)), (''queueId'', json_id (tc_QueueID pl)),
                     (''dueDateTime'', JStr (tc_DueDateTime pl))] (w\<lparr>w_desk := d\<rparr>) of
                    None \<Rightarrow> (let (op, fatal) = storeFail op
                        (''ticket #'' @ Itoa i @ '' was created but DefendSec could not record it; the next run finds it by its tag'')
                      in (([op], fatal), w\<lparr>w_desk := d\<rparr>))
                  | Some w' \<Rightarrow> (([op\<lparr>op_Status := OpDone\<rparr>], []), w')))))"

definition doCreate :: "'d Engine \<Rightarrow> plan \<Rightarrow> env \<Rightarrow> 'd world \<Rightarrow> (Op list \<times> string) \<times> 'd world" where
  "doCreate e p v w =
     (if \<not> v_live v then show_create e p v w
      else
        let op = createOp p v; pl = payload (pl_group p) (op_Tag op) v in
        case eg_Desk e of
          None \<Rightarrow> (([op], []), w)
        | Some D \<Rightarrow>
            (case dk_FindTickets D (st_CompanyID (v_set v)) (op_Tag op) (w_desk w) of
               (Inl err, d) \<Rightarrow> (let (op, fatal) = fail_op op err in (([op], fatal), w\<lparr>w_desk := d\<rparr>))
             | (Inr found, d) \<Rightarrow>
                 if found \<noteq> [] then adopt e op (new_row p v op pl) found (w\<lparr>w_desk := d\<rparr>)
                 else create_new e D op pl (new_row p v op pl) (w\<lparr>w_desk := d\<rparr>)))"

text \<open>\<open>completeTicket\<close>, and \<open>doComplete\<close> and \<open>doNote\<close> that use it.\<close>

definition completeTicket :: "'d Engine \<Rightarrow> 'd desk \<Rightarrow> Op \<Rightarrow> Tracked \<Rightarrow> env \<Rightarrow> 'd world \<Rightarrow> (Op \<times> string) \<times> 'd world" where
  "completeTicket e D op final v w =
     (case dk_SetTicketStatus D (tr_TicketID final) (parsePick (st_CompleteStatus (v_set v))) (w_desk w) of
        (Inl err, d) \<Rightarrow> (fail_op op err, w\<lparr>w_desk := d\<rparr>)
      | (Inr _, d) \<Rightarrow>
          (case commit_change e ''autotask_ticket_completed'' (final\<lparr>tr_UpdatedAt := eg_Now e d\<rparr>)
              [(''status'', JStr (st_CompleteStatus (v_set v)))] (w\<lparr>w_desk := d\<rparr>) of
             None \<Rightarrow> (storeFail op ''the ticket was completed but DefendSec could not record it'', w\<lparr>w_desk := d\<rparr>)
           | Some w' \<Rightarrow> ((op\<lparr>op_Status := OpDone\<rparr>, []), w')))"

definition doComplete :: "'d Engine \<Rightarrow> plan \<Rightarrow> env \<Rightarrow> 'd world \<Rightarrow> (Op list \<times> string) \<times> 'd world" where
  "doComplete e p v w =
     (let op = (row_op OpComplete (row_of p))\<lparr>op_Reason :=
        ''Auto-complete is on, nothing of this action is open any more, and the note saying so was already added.''\<rparr> in
      if \<not> v_live v then (([op], []), w)
      else case eg_Desk e of
        None \<Rightarrow> (([op], []), w)
      | Some D \<Rightarrow> (case completeTicket e D op (pl_next p) v w of ((op, fatal), w') \<Rightarrow> (([op], fatal), w')))"

definition doNote :: "'d Engine \<Rightarrow> plan \<Rightarrow> env \<Rightarrow> 'd world \<Rightarrow> (Op list \<times> string) \<times> 'd world" where
  "doNote e p v w =
     (let op = noteOp p v;
          t = row_of p;
          completeNeeded = (dl_AllResolved (pl_delta p) \<and> st_AutoComplete (v_set v));
          cop = (row_op OpComplete t)\<lparr>op_Reason := ''Auto-complete is on and nothing of this action is open any more.''\<rparr>
      in
      if \<not> v_live v then ((op # (if completeNeeded then [cop] else []), []), w)
      else case eg_Desk e of
        None \<Rightarrow> (([op], []), w)
      | Some D \<Rightarrow>
          (case dk_CreateNote D \<lparr>nc_TicketID = tr_TicketID t, nc_Title = NoteTitle (eg_Now e (w_desk w)), nc_Description = op_Note op,
              nc_NoteType = parsePick (st_NoteType (v_set v)), nc_Publish = parsePick (st_NotePublish (v_set v))\<rparr> (w_desk w) of
             (Inl err, d) \<Rightarrow> (let (op, fatal) = fail_op op err in (([op], fatal), w\<lparr>w_desk := d\<rparr>))
           | (Inr _, d) \<Rightarrow>
               (let row = (pl_next p)\<lparr>tr_UpdatedAt := eg_Now e d\<rparr>;
                    row = (if completeNeeded then row\<lparr>tr_State := StateOpen, tr_ResolvedAt := None\<rparr> else row)
                in (case commit_change e ''autotask_ticket_note_added'' row
                      [(''joined'', JInt (int (length (dl_Joined (pl_delta p))))), (''changed'', JInt (int (length (dl_Changed (pl_delta p))))),
                       (''resolved'', JInt (int (length (dl_Resolved (pl_delta p))))), (''allResolved'', JBool (dl_AllResolved (pl_delta p))),
                       (''returned'', JBool (dl_Returned (pl_delta p)))] (w\<lparr>w_desk := d\<rparr>) of
                      None \<Rightarrow> (let (op, fatal) = storeFail op ''the note was added but DefendSec could not record it''
                               in (([op], fatal), w\<lparr>w_desk := d\<rparr>))
                    | Some w' \<Rightarrow>
                        if \<not> completeNeeded then (([op\<lparr>op_Status := OpDone\<rparr>], []), w')
                        else
                          (case completeTicket e D cop ((pl_next p)\<lparr>tr_State := StateResolved, tr_ResolvedAt := Some (v_now v)\<rparr>) v w' of
                             ((cop, fatal), w'') \<Rightarrow> (([op\<lparr>op_Status := OpDone\<rparr>, cop], fatal), w''))))))"

definition doFlag :: "'d Engine \<Rightarrow> plan \<Rightarrow> env \<Rightarrow> 'd world \<Rightarrow> (Op list \<times> string) \<times> 'd world" where
  "doFlag e p v w =
     (let op = flagOp p in
      if \<not> v_live v then (([op], []), w)
      else
        let row = (pl_next p)\<lparr>tr_UpdatedAt := eg_Now e (w_desk w)\<rparr> in
        case commit_change e ''autotask_ticket_state'' row
            [(''state'', JStr (state_text (tr_State row))), (''why'', JStr (op_Reason op))] w of
          None \<Rightarrow> (let (op, fatal) = storeFail op (''DefendSec could not record the ticket'' @ apos @ ''s state'') in (([op], fatal), w))
        | Some w' \<Rightarrow> (([op\<lparr>op_Status := OpDone\<rparr>], []), w'))"

section \<open>A run\<close>

definition limit_op :: "OpStatus \<Rightarrow> string \<Rightarrow> Op \<Rightarrow> Op" where
  "limit_op status reason op = op\<lparr>op_Status := status, op_Reason := reason\<rparr>"

text \<open>The loop over the plans: how many tickets and notes were sent, and why the run stopped.\<close>

fun execute :: "'d Engine \<Rightarrow> env \<Rightarrow> int \<Rightarrow> int \<Rightarrow> string \<Rightarrow> plan list \<Rightarrow> 'd world \<Rightarrow> Op list \<times> 'd world" where
  "execute e v creates notes_sent stopped [] w = ([], w)"
| "execute e v creates notes_sent stopped (p # ps) w =
     (if stopped \<noteq> [] then
        (case execute e v creates notes_sent stopped ps w of (ops, w') \<Rightarrow>
           (map (limit_op OpSkipped stopped) (dryOps p v) @ ops, w'))
      else if pl_kind p = PlanOp OpCreate \<and> st_MaxCreates (v_set v) \<le> creates then
        (case execute e v creates notes_sent stopped ps w of (ops, w') \<Rightarrow>
           (map (limit_op OpDeferred (''Over this run'' @ apos @ ''s limit of '' @ Itoa (st_MaxCreates (v_set v)) @
              '' new tickets; the next run opens it.'')) (dryOps p v) @ ops, w'))
      else if pl_kind p = PlanOp OpNote \<and> MaxNotesPerRun \<le> notes_sent then
        (case execute e v creates notes_sent stopped ps w of (ops, w') \<Rightarrow>
           (map (limit_op OpDeferred (''Over this run'' @ apos @ ''s limit of '' @ Itoa MaxNotesPerRun @
              '' notes; the next run adds it.'')) (dryOps p v) @ ops, w'))
      else
        (case (if pl_kind p = PlanOp OpCreate then doCreate e p v w
               else if pl_kind p = PlanOp OpNote then doNote e p v w
               else if pl_kind p = PlanOp OpComplete then doComplete e p v w
               else if pl_kind p = PlanOp OpFlag then doFlag e p v w
               else (([], []), w)) of
           ((ops, fatal), w') \<Rightarrow>
             (case execute e v (if pl_kind p = PlanOp OpCreate then creates + 1 else creates)
                 (if pl_kind p = PlanOp OpNote then notes_sent + 1 else notes_sent)
                 (if fatal \<noteq> [] then ''The run stopped before this: '' @ fatal else []) ps w' of
                (ops', w'') \<Rightarrow> (ops @ ops', w''))))"

definition tally_op :: "Op \<Rightarrow> Result \<Rightarrow> Result" where
  "tally_op x r =
     (case op_Status x of
        OpFailed \<Rightarrow> r\<lparr>rs_Failed := rs_Failed r + 1\<rparr>
      | OpDeferred \<Rightarrow> r\<lparr>rs_Deferred := rs_Deferred r + 1\<rparr>
      | OpSkipped \<Rightarrow> r
      | _ \<Rightarrow>
        (case op_Kind x of
           OpCreate \<Rightarrow> r\<lparr>rs_Created := rs_Created r + 1\<rparr>
         | OpNote \<Rightarrow> r\<lparr>rs_Noted := rs_Noted r + 1\<rparr>
         | OpComplete \<Rightarrow> r\<lparr>rs_Completed := rs_Completed r + 1\<rparr>
         | OpFlag \<Rightarrow>
             if Contains (op_Reason x) ''was completed in Autotask while'' \<or> Contains (op_Reason x) ''was not found in Autotask''
             then r\<lparr>rs_Flagged := rs_Flagged r + 1\<rparr> else r
         | OpAdopt \<Rightarrow> r))"

definition tally :: "Result \<Rightarrow> Result" where
  "tally r = fold tally_op (rs_Ops r) r"

definition joinAnd :: "string list \<Rightarrow> string" where
  "joinAnd items =
     (if items = [] then [] else if length items = 1 then hd items
      else Join (butlast items) '', '' @ '' and '' @ last items)"

text \<open>\<open>preflight\<close>: the ticket and note fields and why the run cannot go on, with the company's name
  and the problems it adds to the result.\<close>

definition preflight :: "'d desk \<Rightarrow> Settings \<Rightarrow> Result \<Rightarrow> 'd \<Rightarrow> (Fields \<times> Fields \<times> string \<times> Result) \<times> 'd" where
  "preflight D s res d =
     (case dk_Threshold D d of
        (Inl err, d) \<Rightarrow> ((None, None, ''Autotask could not be read: '' @ errText err, res), d)
      | (Inr th, d) \<Rightarrow>
        if th_ExternalRequestThreshold th \<le> 2 * th_CurrentTimeframeRequestCount th then
          ((None, None, ''Autotask reports '' @ Itoa (th_CurrentTimeframeRequestCount th) @ '' of '' @
             Itoa (th_ExternalRequestThreshold th) @ '' requests used in the last '' @ Itoa (th_RequestThresholdTimeframe th) @
             '' minutes by every integration of this database. DefendSec stops at half, where Autotask starts slowing every request down, and runs again when the count is lower.'',
            res), d)
        else
          (case dk_Company D (st_CompanyID s) d of
             (Inl err, d) \<Rightarrow> ((None, None, ''The company could not be read: '' @ errText err, res), d)
           | (Inr co, d) \<Rightarrow>
             if \<not> co_IsActive co then
               ((None, None, ''The company \"'' @ co_CompanyName co @ ''\" ('' @ Itoa (co_ID co) @ '') is not active in Autotask.'', res), d)
             else
               let res = res\<lparr>rs_CompanyName := co_CompanyName co\<rparr> in
               (case dk_TicketFields D d of
                  (Inl err, d) \<Rightarrow> ((None, None, ''The ticket picklists could not be read: '' @ errText err, res), d)
                | (Inr tf, d) \<Rightarrow>
                  (case dk_NoteFields D d of
                     (Inl err, d) \<Rightarrow> ((None, None, ''The note picklists could not be read: '' @ errText err, res), d)
                   | (Inr nf, d) \<Rightarrow>
                     if CheckAgainst s tf nf \<noteq> [] then
                       ((tf, nf, ''The settings no longer match Autotask: '' @ Join (CheckAgainst s tf nf) ''; '' @ ''.'',
                         res\<lparr>rs_Problems := rs_Problems res @ CheckAgainst s tf nf\<rparr>), d)
                     else ((tf, nf, [], res), d)))))"

definition requests_of :: "'d Engine \<Rightarrow> 'd world \<Rightarrow> Result \<Rightarrow> Result" where
  "requests_of e w res = (case eg_Desk e of None \<Rightarrow> res | Some D \<Rightarrow> res\<lparr>rs_Requests := dk_Requests D (w_desk w)\<rparr>)"

definition limit_or :: "Fields \<Rightarrow> string \<Rightarrow> int \<Rightarrow> int" where
  "limit_or f name n = (if 0 < fd_Length (field_at f name) then fd_Length (field_at f name) else n)"

text \<open>What a run knows after reading Autotask: the environment, or the reason why a live run stops
  here, and the result so far.\<close>

definition read_autotask ::
  "'d Engine \<Rightarrow> Settings \<Rightarrow> bool \<Rightarrow> (string \<times> Tracked) list \<Rightarrow> Result \<Rightarrow> 'd world \<Rightarrow> (env option \<times> Result) \<times> 'd world" where
  "read_autotask e s live latest res w =
     (let v = \<lparr>v_tf = None, v_set = s, v_now = eg_Now e (w_desk w), v_verified = False, v_live = live, v_psa = [],
            v_titleMax = 255, v_descMax = 8000, v_noteMax = 32000\<rparr>
      in case eg_Desk e of
           None \<Rightarrow> ((Some v, res\<lparr>rs_UnverifiedWhy := ''Autotask was not read: no credentials are configured, so the company, the picklists and existing tickets are not checked. The tickets below are exactly what would be sent.''\<rparr>), w)
         | Some D \<Rightarrow>
           (case preflight D s res (w_desk w) of
              ((tf, nf, why, res), d) \<Rightarrow>
                if why \<noteq> [] \<and> live then
                  ((None, requests_of e (w\<lparr>w_desk := d\<rparr>) (res\<lparr>rs_Problems := rs_Problems res @ [why]\<rparr>)), w\<lparr>w_desk := d\<rparr>)
                else if why \<noteq> [] then ((Some v, res\<lparr>rs_UnverifiedWhy := why\<rparr>), w\<lparr>w_desk := d\<rparr>)
                else
                  let v = v\<lparr>v_verified := True, v_tf := tf, v_titleMax := limit_or tf ''title'' 255,
                        v_descMax := limit_or tf ''description'' 8000, v_noteMax := limit_or nf ''description'' 32000\<rparr>;
                      res = res\<lparr>rs_Verified := True\<rparr>;
                      ids = sort (map (tr_TicketID \<circ> snd) (filter (\<lambda>(k, t). tr_State t \<noteq> StateClosedInPSA) latest))
                  in if ids = [] then ((Some v, res), w\<lparr>w_desk := d\<rparr>)
                     else (case dk_GetTickets D ids d of
                             (Inl err, d) \<Rightarrow>
                               ((None, requests_of e (w\<lparr>w_desk := d\<rparr>)
                                  (res\<lparr>rs_Problems := rs_Problems res @ [''Stopped while reading the tickets DefendSec follows: '' @ errText err]\<rparr>)),
                                w\<lparr>w_desk := d\<rparr>)
                           | (Inr m, d) \<Rightarrow> ((Some (v\<lparr>v_psa := m\<rparr>), res), w\<lparr>w_desk := d\<rparr>))))"

text \<open>\<open>Run\<close>: whether it ended with an error of the storage, and the result.\<close>

definition Run :: "'d Engine \<Rightarrow> Settings \<Rightarrow> OpenFinding list \<Rightarrow> string \<Rightarrow> 'd world \<Rightarrow> (bool \<times> Result) \<times> 'd world" where
  "Run e s findings mode w =
     (let fp = Fingerprint (eg_encode e) s;
          res = new_result mode fp;
          live = (mode = ModeLive);
          problem = (\<lambda>msg. ((False, res\<lparr>rs_Problems := [msg]\<rparr>), w))
      in
      if mode \<noteq> ModeLive \<and> mode \<noteq> ModeDryRun then ((True, res), w)
      else if live \<and> st_Mode s \<noteq> ModeLive then
        problem ''The settings are still in dry-run mode: tickets are shown, not opened. Switch the mode to live (after a dry run) to open them.''
      else if live \<and> eg_DryRunFingerprint e \<noteq> fp then
        problem ''No dry run has been shown for these exact settings. Run a dry run and look at the tickets it lists, then go live: the settings (company, queue, priorities, thresholds) changed since the last one.''
      else if live \<and> Option.is_none (eg_Desk e) then problem ''Autotask is not connected.''
      else if Missing s \<noteq> [] then
        problem (''Choose '' @ joinAnd (Missing s) @ '' in the settings first: DefendSec does not guess an Autotask taxonomy.'')
      else
        let groups = BuildGroups findings s;
            res = res\<lparr>rs_Groups := int (length groups)\<rparr>
        in if eg_tracked_fails e (w_desk w) then ((True, res), w)
        else
          let latest = latest_of (AutotaskTracked w) in
          (case read_autotask e s live latest res w of
             ((None, res), w) \<Rightarrow> ((False, res), w)
           | ((Some v, res), w) \<Rightarrow>
               (case decide groups latest v of
                  (plans, vanished, below) \<Rightarrow>
                    let res = res\<lparr>rs_BelowThreshold := below\<rparr> in
                    (case eg_evidence e (w_desk w) vanished of
                       None \<Rightarrow> ((True, res), w)
                     | Some evidence \<Rightarrow>
                         let kept = filter (\<lambda>p. \<not> (pl_kind p = PlanOp OpNote \<and> DeltaEmpty (pl_delta p)))
                               (map (finish_plan evidence v) plans)
                         in (case execute e v 0 0 [] kept w of
                               (ops, w') \<Rightarrow> ((False, requests_of e w' (tally (res\<lparr>rs_Ops := ops\<rparr>))), w'))))))"

end
