(* ===== verification/Ticket_Run.thy ===== *)
theory Ticket_Run
  imports Ticket_Engine
begin

text \<open>
  What runs of the ticket integration do to Autotask, to the table of followed tickets and to the
  audit log. A run is a sequence of small steps (\<open>run_step\<close>): a request to the desk that creates no
  ticket, one that creates a ticket for a tag that no ticket carries, and a commit of a row of
  the newest generation of its action. The properties are invariants of these steps, for a desk
  that keeps the laws of \<open>ticket_desk\<close>; the client keeps them over any service that serves a
  request at most once (\<open>autotask_service\<close>).
\<close>

section \<open>Rows\<close>

definition rows_of :: "string \<Rightarrow> Tracked list \<Rightarrow> Tracked list" where
  "rows_of k rows = filter (\<lambda>r. tr_GroupKey r = k) rows"

text \<open>A row may be added as the first of its action, or as the next generation once no earlier
  one is open; and only the newest generation may be changed.\<close>

definition may_add :: "string \<Rightarrow> int \<Rightarrow> Tracked list \<Rightarrow> bool" where
  "may_add k g rows \<longleftrightarrow> (\<forall>r \<in> set (rows_of k rows). tr_Generation r < g \<and> tr_State r \<noteq> StateOpen) \<and>
     (g = 1 \<or> 1 < g \<and> (\<exists>r \<in> set (rows_of k rows). tr_Generation r = g - 1))"

definition may_change :: "string \<Rightarrow> int \<Rightarrow> Tracked list \<Rightarrow> bool" where
  "may_change k g rows \<longleftrightarrow> (\<forall>r \<in> set (rows_of k rows). tr_Generation r \<le> g) \<and>
     (\<exists>r \<in> set (rows_of k rows). tr_Generation r = g)"

definition row_id :: "Tracked \<Rightarrow> string \<times> int" where
  "row_id r = (tr_GroupKey r, tr_Generation r)"

definition rows_ok :: "Tracked list \<Rightarrow> bool" where
  "rows_ok rows \<longleftrightarrow> distinct (map row_id rows) \<and>
     (\<forall>r \<in> set rows. tr_Tag r = TicketTag (tr_GroupKey r) (tr_Generation r) \<and> 1 \<le> tr_Generation r \<and>
        (tr_Generation r = 1 \<or> (\<exists>r' \<in> set rows. tr_GroupKey r' = tr_GroupKey r \<and> tr_Generation r' = tr_Generation r - 1)) \<and>
        (tr_State r = StateOpen \<longrightarrow>
           (\<forall>r' \<in> set rows. tr_GroupKey r' = tr_GroupKey r \<longrightarrow> tr_Generation r' \<le> tr_Generation r)))"

lemma take_over_id [simp]:
  "tr_GroupKey (take_over t r) = tr_GroupKey r" "tr_Generation (take_over t r) = tr_Generation r"
  "tr_Tag (take_over t r) = tr_Tag r" "tr_State (take_over t r) = tr_State t"
  by (simp_all add: take_over_def)

lemma stored_id [simp]:
  "tr_GroupKey (stored t) = tr_GroupKey t" "tr_Generation (stored t) = tr_Generation t" "tr_Tag (stored t) = tr_Tag t"
  "tr_State (stored t) = tr_State t"
  by (simp_all add: stored_def)

lemma same_row_id: "same_row a b \<longleftrightarrow> row_id a = row_id b"
  by (simp add: same_row_def row_id_def)

lemma upsert_cases:
  assumes "upsert t rows = Some rows'"
  obtains (changed) r where "r \<in> set rows" "row_id r = row_id t"
      "rows' = map (\<lambda>row. if row_id t = row_id row then take_over t row else row) rows"
  | (added) "row_id t \<notin> row_id ` set rows" "rows' = rows @ [t]"
  using assms unfolding upsert_def same_row_id list_ex_iff by (auto split: if_splits)

lemma row_id_take_over [simp]: "row_id (take_over t r) = row_id r"
  by (simp add: row_id_def)

lemma rows_of_upsert: "upsert t rows = Some rows' \<Longrightarrow> k \<noteq> tr_GroupKey t \<Longrightarrow> rows_of k rows' = rows_of k rows"
proof (erule upsert_cases)
  assume k: "k \<noteq> tr_GroupKey t"
  assume "rows' = map (\<lambda>row. if row_id t = row_id row then take_over t row else row) rows"
  moreover have "filter (\<lambda>r. tr_GroupKey r = k) (map (\<lambda>row. if row_id t = row_id row then take_over t row else row) rows) =
      filter (\<lambda>r. tr_GroupKey r = k) rows"
    using k by (induction rows) (auto simp: row_id_def)
  ultimately show ?thesis
    by (simp add: rows_of_def)
qed (simp add: rows_of_def)

lemma may_change_id: "may_change k g rows \<Longrightarrow> (k, g) \<in> row_id ` set rows"
  by (force simp: may_change_def rows_of_def row_id_def)

lemma may_add_id: "may_add k g rows \<Longrightarrow> (k, g) \<notin> row_id ` set rows"
  by (auto simp: may_add_def rows_of_def row_id_def)

lemma may_change_upsert:
  assumes "upsert t rows = Some rows'" "may_change k g rows" "tr_GroupKey t = k" "tr_Generation t = g"
  shows "may_change k g rows'"
  using assms(1)
proof (cases rule: upsert_cases)
  case (changed r)
  have "map row_id rows' = map row_id rows"
    unfolding changed(3) by simp
  then have "row_id ` set rows' = row_id ` set rows"
    by (metis set_map)
  then have "(\<exists>r \<in> set rows'. row_id r = x) \<longleftrightarrow> (\<exists>r \<in> set rows. row_id r = x)" for x
    by (metis (no_types, lifting) imageE imageI)
  moreover have "may_change k g xs \<longleftrightarrow> (\<forall>h. (\<exists>r \<in> set xs. row_id r = (k, h)) \<longrightarrow> h \<le> g) \<and> (\<exists>r \<in> set xs. row_id r = (k, g))" for xs
    by (auto simp: may_change_def rows_of_def row_id_def)
  ultimately show ?thesis
    using assms(2) by simp
next
  case added
  then show ?thesis
    using assms by (force simp: may_change_def rows_of_def row_id_def)
qed

lemma rows_ok_change:
  assumes ok: "rows_ok rows" and u: "upsert t rows = Some rows'" and m: "may_change (tr_GroupKey t) (tr_Generation t) rows"
  shows "rows_ok rows'"
  using u
proof (cases rule: upsert_cases)
  case (changed r)
  let ?f = "\<lambda>row. if row_id t = row_id row then take_over t row else row"
  have f: "row_id (?f r) = row_id r" "tr_Tag (?f r) = tr_Tag r" "tr_GroupKey (?f r) = tr_GroupKey r"
    "tr_Generation (?f r) = tr_Generation r" for r
    by (auto simp: row_id_def)
  have newest: "tr_Generation s \<le> tr_Generation t" if "s \<in> set rows" "tr_GroupKey s = tr_GroupKey t" for s
    using m that by (auto simp: may_change_def rows_of_def)
  have ids: "map row_id rows' = map row_id rows"
    unfolding changed(3) by (simp add: f(1) o_def)
  show ?thesis
    unfolding rows_ok_def
  proof (intro conjI ballI impI)
    show "distinct (map row_id rows')"
      using ok unfolding ids rows_ok_def by blast
    fix r assume "r \<in> set rows'"
    then obtain r0 where r0: "r0 \<in> set rows" "r = ?f r0"
      unfolding changed(3) by auto
    have ok0: "tr_Tag r0 = TicketTag (tr_GroupKey r0) (tr_Generation r0)" "1 \<le> tr_Generation r0"
      using ok r0(1) unfolding rows_ok_def by blast+
    then show "tr_Tag r = TicketTag (tr_GroupKey r) (tr_Generation r)" "1 \<le> tr_Generation r"
      unfolding r0(2) f by blast+
    show "tr_Generation r = 1 \<or> (\<exists>r' \<in> set rows'. tr_GroupKey r' = tr_GroupKey r \<and> tr_Generation r' = tr_Generation r - 1)"
    proof (cases "tr_Generation r0 = 1")
      case False
      then obtain r' where "r' \<in> set rows" "tr_GroupKey r' = tr_GroupKey r0" "tr_Generation r' = tr_Generation r0 - 1"
        using ok r0(1) unfolding rows_ok_def by blast
      then show ?thesis
        unfolding changed(3) r0(2) f by (intro disjI2 bexI [of _ "?f r'"]) (simp_all only: f set_map image_eqI)
    qed (simp add: r0(2) f)
    fix s assume s: "tr_State r = StateOpen" "s \<in> set rows'" "tr_GroupKey s = tr_GroupKey r"
    then obtain s0 where s0: "s0 \<in> set rows" "s = ?f s0"
      unfolding changed(3) by auto
    show "tr_Generation s \<le> tr_Generation r"
    proof (cases "row_id t = row_id r0")
      case True
      then show ?thesis
        using newest [OF s0(1)] s(3) unfolding r0(2) s0(2) f by (simp add: row_id_def)
    next
      case False
      then have "tr_State r0 = StateOpen"
        using s(1) r0(2) by simp
      then show ?thesis
        using ok r0(1) s0(1) s(3) unfolding r0(2) s0(2) f rows_ok_def by blast
    qed
  qed
next
  case added
  then show ?thesis
    using may_change_id [OF m] by (simp add: row_id_def [of t])
qed

lemma rows_ok_add:
  assumes ok: "rows_ok rows" and u: "upsert t rows = Some rows'" and m: "may_add (tr_GroupKey t) (tr_Generation t) rows"
    and tag: "tr_Tag t = TicketTag (tr_GroupKey t) (tr_Generation t)"
  shows "rows_ok rows'"
  using u
proof (cases rule: upsert_cases)
  case (changed r)
  then show ?thesis
    using may_add_id [OF m] by (metis image_eqI row_id_def)
next
  case added
  have older: "tr_Generation s < tr_Generation t \<and> tr_State s \<noteq> StateOpen" if "s \<in> set rows" "tr_GroupKey s = tr_GroupKey t" for s
    using m that by (auto simp: may_add_def rows_of_def)
  have first: "1 \<le> tr_Generation t" "tr_Generation t = 1 \<or>
      (\<exists>r \<in> set rows. tr_GroupKey r = tr_GroupKey t \<and> tr_Generation r = tr_Generation t - 1)"
    using m by (auto simp: may_add_def rows_of_def)
  show ?thesis
    unfolding rows_ok_def added(2)
  proof (intro conjI ballI impI)
    show "distinct (map row_id (rows @ [t]))"
      using ok added by (simp add: rows_ok_def)
    fix r assume r: "r \<in> set (rows @ [t])"
    then show "tr_Tag r = TicketTag (tr_GroupKey r) (tr_Generation r)" "1 \<le> tr_Generation r"
      using ok tag first(1) by (auto simp: rows_ok_def)
    show "tr_Generation r = 1 \<or> (\<exists>r' \<in> set (rows @ [t]). tr_GroupKey r' = tr_GroupKey r \<and> tr_Generation r' = tr_Generation r - 1)"
    proof (cases "r = t")
      case True
      then show ?thesis
        using first(2) by auto
    next
      case False
      then have "r \<in> set rows"
        using r by simp
      then have "tr_Generation r = 1 \<or> (\<exists>r' \<in> set rows. tr_GroupKey r' = tr_GroupKey r \<and> tr_Generation r' = tr_Generation r - 1)"
        using ok unfolding rows_ok_def by blast
      then show ?thesis
        by auto
    qed
    fix r' assume "tr_State r = StateOpen" "r' \<in> set (rows @ [t])" "tr_GroupKey r' = tr_GroupKey r"
    then show "tr_Generation r' \<le> tr_Generation r"
    proof (cases "r = t")
      case True
      then show ?thesis
        using older [of r'] \<open>r' \<in> set (rows @ [t])\<close> \<open>tr_GroupKey r' = tr_GroupKey r\<close> by auto
    next
      case False
      then have "r \<in> set rows" "r' \<noteq> t"
        using r older [of r] \<open>tr_State r = StateOpen\<close> \<open>tr_GroupKey r' = tr_GroupKey r\<close> by auto
      then show ?thesis
        using ok \<open>r' \<in> set (rows @ [t])\<close> \<open>tr_State r = StateOpen\<close> \<open>tr_GroupKey r' = tr_GroupKey r\<close>
        unfolding rows_ok_def by auto
    qed
  qed
qed

section \<open>Steps\<close>

definition tickets_of :: "Write list \<Rightarrow> (int \<times> string) list" where
  "tickets_of ws = concat (map (\<lambda>x. case x of WTicket co title \<Rightarrow> [(co, title)] | _ \<Rightarrow> []) ws)"

definition notes_of :: "Write list \<Rightarrow> int list" where
  "notes_of ws = concat (map (\<lambda>x. case x of WNote i \<Rightarrow> [i] | _ \<Rightarrow> []) ws)"

lemma tickets_of_simps [simp]:
  "tickets_of [] = []" "tickets_of (xs @ ys) = tickets_of xs @ tickets_of ys"
  "tickets_of [WTicket co title] = [(co, title)]" "tickets_of [WNote i] = []" "tickets_of (replicate n (WStatus i s)) = []"
  by (simp_all add: tickets_of_def)

lemma notes_of_simps [simp]:
  "notes_of [] = []" "notes_of (xs @ ys) = notes_of xs @ notes_of ys"
  "notes_of [WTicket co title] = []" "notes_of [WNote i] = [i]" "notes_of (replicate n (WStatus i s)) = []"
  by (simp_all add: notes_of_def)

lemma tickets_of_mem: "(co, title) \<in> set (tickets_of ws) \<longleftrightarrow> WTicket co title \<in> set ws"
  by (force simp: tickets_of_def split: Write.splits)

text \<open>What the plans of a run, and the operations that carry them out, do to the world.\<close>

inductive run_step :: "'d Engine \<Rightarrow> ('d \<Rightarrow> Write list) \<Rightarrow> 'd world \<Rightarrow> 'd world \<Rightarrow> bool" for e writes where
  request: "tickets_of (writes d') = tickets_of (writes (w_desk w)) \<Longrightarrow> run_step e writes w (w\<lparr>w_desk := d'\<rparr>)"
| ticket: "tickets_of (writes d') = tickets_of (writes (w_desk w)) @ [(co, TitleWithTag base (TicketTag k g) n)] \<Longrightarrow>
    (\<forall>t. (co, t) \<in> set (tickets_of (writes (w_desk w))) \<longrightarrow> \<not> Contains t (TicketTag k g)) \<Longrightarrow>
    run_step e writes w (w\<lparr>w_desk := d'\<rparr>)"
| added: "AutotaskCommit e ch w = Some w' \<Longrightarrow> may_add (tr_GroupKey (ch_Tracked ch)) (tr_Generation (ch_Tracked ch)) (w_rows w) \<Longrightarrow>
    tr_Tag (ch_Tracked ch) = TicketTag (tr_GroupKey (ch_Tracked ch)) (tr_Generation (ch_Tracked ch)) \<Longrightarrow>
    ch_Action ch \<in> {''autotask_ticket_created'', ''autotask_ticket_adopted''} \<Longrightarrow>
    ch_Detail ch = ledgerDetail (ch_Tracked ch) extra \<Longrightarrow> run_step e writes w w'"
| changed: "AutotaskCommit e ch w = Some w' \<Longrightarrow> may_change (tr_GroupKey (ch_Tracked ch)) (tr_Generation (ch_Tracked ch)) (w_rows w) \<Longrightarrow>
    run_step e writes w w'"

definition plan_key :: "plan \<Rightarrow> string" where
  "plan_key p = (if pl_kind p = PlanOp OpCreate then gr_Key (pl_group p) else tr_GroupKey (pl_next p))"

definition plan_fits :: "Tracked list \<Rightarrow> plan \<Rightarrow> bool" where
  "plan_fits rows p \<longleftrightarrow>
     (if pl_kind p = PlanOp OpCreate then may_add (gr_Key (pl_group p)) (pl_gen p) rows
      else may_change (tr_GroupKey (pl_next p)) (tr_Generation (pl_next p)) rows)"

definition others_kept :: "string \<Rightarrow> 'd world \<Rightarrow> 'd world \<Rightarrow> bool" where
  "others_kept k w w' \<longleftrightarrow> (\<forall>k'. k' \<noteq> k \<longrightarrow> rows_of k' (w_rows w') = rows_of k' (w_rows w))"

lemma others_kept_trans: "others_kept k w w1 \<Longrightarrow> others_kept k w1 w2 \<Longrightarrow> others_kept k w w2"
  by (simp add: others_kept_def)

lemma plan_fits_kept: "others_kept k w w' \<Longrightarrow> plan_key p \<noteq> k \<Longrightarrow> plan_fits (w_rows w') p = plan_fits (w_rows w) p"
  by (cases "pl_kind p = PlanOp OpCreate") (simp_all add: others_kept_def plan_fits_def plan_key_def may_add_def may_change_def)

lemma commit_desk: "AutotaskCommit e ch w = Some w' \<Longrightarrow> w_desk w' = w_desk w"
  by (auto simp: AutotaskCommit_def split: option.splits sum.splits if_splits)

lemma commit_rows: "AutotaskCommit e ch w = Some w' \<Longrightarrow> upsert (stored (ch_Tracked ch)) (w_rows w) = Some (w_rows w')"
  by (auto simp: AutotaskCommit_def split: option.splits sum.splits if_splits)

lemma commit_kept: "AutotaskCommit e ch w = Some w' \<Longrightarrow> others_kept (tr_GroupKey (ch_Tracked ch)) w w'"
  unfolding others_kept_def using rows_of_upsert [OF commit_rows] by (metis stored_id(1))

text \<open>The effect of one plan: steps, no change of the rows of other actions, and at most as many
  new tickets and notes as given.\<close>

definition effect :: "'d Engine \<Rightarrow> ('d \<Rightarrow> Write list) \<Rightarrow> string \<Rightarrow> nat \<Rightarrow> nat \<Rightarrow> 'd world \<Rightarrow> 'd world \<Rightarrow> bool" where
  "effect e writes k new_tickets new_notes w w' \<longleftrightarrow>
     (run_step e writes)\<^sup>*\<^sup>* w w' \<and> others_kept k w w' \<and>
     length (tickets_of (writes (w_desk w'))) \<le> length (tickets_of (writes (w_desk w))) + new_tickets \<and>
     length (notes_of (writes (w_desk w'))) \<le> length (notes_of (writes (w_desk w))) + new_notes"

lemma effect_refl [simp, intro!]: "effect e writes k 0 0 w w"
  by (simp add: effect_def others_kept_def)

lemma effect_trans: "effect e writes k a b w w1 \<Longrightarrow> effect e writes k c d w1 w2 \<Longrightarrow> effect e writes k (a + c) (b + d) w w2"
  unfolding effect_def by (auto intro: rtranclp_trans others_kept_trans)

lemma effect_mono: "effect e writes k a b w w' \<Longrightarrow> a \<le> c \<Longrightarrow> b \<le> d \<Longrightarrow> effect e writes k c d w w'"
  by (auto simp: effect_def)

lemma effect_read: "writes d' = writes (w_desk w) \<Longrightarrow> effect e writes k 0 0 w (w\<lparr>w_desk := d'\<rparr>)"
  unfolding effect_def by (auto simp: others_kept_def intro!: r_into_rtranclp run_step.request)

lemma effect_note: "writes d' = writes (w_desk w) \<or> writes d' = writes (w_desk w) @ [WNote i] \<Longrightarrow>
    effect e writes k 0 1 w (w\<lparr>w_desk := d'\<rparr>)"
  unfolding effect_def by (auto simp: others_kept_def intro!: r_into_rtranclp run_step.request)

lemma effect_status: "writes d' = writes (w_desk w) @ replicate n (WStatus i s) \<Longrightarrow> effect e writes k 0 0 w (w\<lparr>w_desk := d'\<rparr>)"
  unfolding effect_def by (auto simp: others_kept_def intro!: r_into_rtranclp run_step.request)

lemma effect_ticket:
  assumes "writes d' = writes (w_desk w) \<or> writes d' = writes (w_desk w) @ [WTicket co (TitleWithTag base (TicketTag k g) n)]"
    and "\<forall>t. (co, t) \<in> set (tickets_of (writes (w_desk w))) \<longrightarrow> \<not> Contains t (TicketTag k g)"
  shows "effect e writes k' 1 0 w (w\<lparr>w_desk := d'\<rparr>)"
proof -
  have "run_step e writes w (w\<lparr>w_desk := d'\<rparr>)"
    using assms run_step.request [of writes d' w e] run_step.ticket [of writes d' w co base k g n e] by auto
  then show ?thesis
    using assms(1) by (auto simp: effect_def others_kept_def)
qed

lemma effect_changed:
  assumes "AutotaskCommit e ch w = Some w'"
    and "may_change (tr_GroupKey (ch_Tracked ch)) (tr_Generation (ch_Tracked ch)) (w_rows w)"
  shows "effect e writes (tr_GroupKey (ch_Tracked ch)) 0 0 w w'"
  using run_step.changed [OF assms, of writes] commit_kept [OF assms(1)] commit_desk [OF assms(1)]
  by (auto simp: effect_def)

lemma effect_added:
  assumes "AutotaskCommit e ch w = Some w'"
    and "may_add (tr_GroupKey (ch_Tracked ch)) (tr_Generation (ch_Tracked ch)) (w_rows w)"
    and "tr_Tag (ch_Tracked ch) = TicketTag (tr_GroupKey (ch_Tracked ch)) (tr_Generation (ch_Tracked ch))"
    and "ch_Action ch \<in> {''autotask_ticket_created'', ''autotask_ticket_adopted''}"
    and "ch_Detail ch = ledgerDetail (ch_Tracked ch) extra"
  shows "effect e writes (tr_GroupKey (ch_Tracked ch)) 0 0 w w'"
  using run_step.added [OF assms, of writes] commit_kept [OF assms(1)] commit_desk [OF assms(1)]
  by (auto simp: effect_def)

context ticket_desk
begin

lemma effect_completeTicket:
  assumes "completeTicket e D op final v w = ((op', fatal), w')"
    and "may_change (tr_GroupKey final) (tr_Generation final) (w_rows w)"
  shows "effect e writes (tr_GroupKey final) 0 0 w w'"
proof -
  obtain r d where s: "dk_SetTicketStatus D (tr_TicketID final) (parsePick (st_CompleteStatus (v_set v))) (w_desk w) = (r, d)"
    by (metis surj_pair)
  obtain n where n: "writes d = writes (w_desk w) @ replicate n (WStatus (tr_TicketID final) (parsePick (st_CompleteStatus (v_set v))))"
    using status [OF s] by blast
  note first = effect_status [OF n, of e "tr_GroupKey final"]
  show ?thesis
  proof (cases r)
    case (Inl err)
    then show ?thesis
      using assms(1) s first by (simp add: completeTicket_def)
  next
    case (Inr u)
    let ?ch = "\<lparr>ch_Action = ''autotask_ticket_completed'', ch_Tracked = final\<lparr>tr_UpdatedAt := eg_Now e d\<rparr>,
      ch_Detail = ledgerDetail (final\<lparr>tr_UpdatedAt := eg_Now e d\<rparr>) [(''status'', JStr (st_CompleteStatus (v_set v)))]\<rparr>"
    show ?thesis
    proof (cases "AutotaskCommit e ?ch (w\<lparr>w_desk := d\<rparr>)")
      case None
      then show ?thesis
        using assms(1) s first Inr by (simp add: completeTicket_def commit_change_def)
    next
      case (Some w1)
      then have "effect e writes (tr_GroupKey final) 0 0 (w\<lparr>w_desk := d\<rparr>) w1"
        using effect_changed [OF Some, of writes] assms(2) by simp
      then show ?thesis
        using assms(1) s first Inr Some effect_trans [OF first] by (simp add: completeTicket_def commit_change_def)
    qed
  qed
qed

lemma effect_doComplete:
  assumes "eg_Desk e = Some D" "doComplete e p v w = ((ops, fatal), w')" "may_change (tr_GroupKey (pl_next p)) (tr_Generation (pl_next p)) (w_rows w)"
  shows "effect e writes (tr_GroupKey (pl_next p)) 0 0 w w'"
proof -
  let ?op = "(row_op OpComplete (row_of p))\<lparr>op_Reason :=
        ''Auto-complete is on, nothing of this action is open any more, and the note saying so was already added.''\<rparr>"
  obtain op' fatal' w1 where c: "completeTicket e D ?op (pl_next p) v w = ((op', fatal'), w1)"
    by (metis surj_pair)
  show ?thesis
  proof (cases "v_live v")
    case True
    then have "w' = w1"
      using assms(1,2) c by (simp add: doComplete_def Let_def)
    then show ?thesis
      using effect_completeTicket [OF c assms(3)] by simp
  qed (use assms in \<open>simp add: doComplete_def Let_def\<close>)
qed

lemma effect_doFlag:
  assumes "doFlag e p v w = ((ops, fatal), w')" "may_change (tr_GroupKey (pl_next p)) (tr_Generation (pl_next p)) (w_rows w)"
  shows "effect e writes (tr_GroupKey (pl_next p)) 0 0 w w'"
proof (cases "v_live v")
  case True
  let ?row = "(pl_next p)\<lparr>tr_UpdatedAt := eg_Now e (w_desk w)\<rparr>"
  let ?ch = "\<lparr>ch_Action = ''autotask_ticket_state'', ch_Tracked = ?row,
    ch_Detail = ledgerDetail ?row [(''state'', JStr (state_text (tr_State ?row))), (''why'', JStr (op_Reason (flagOp p)))]\<rparr>"
  show ?thesis
  proof (cases "AutotaskCommit e ?ch w")
    case None
    then show ?thesis
      using assms(1) True by (simp add: doFlag_def Let_def commit_change_def storeFail_def)
  next
    case (Some w1)
    then show ?thesis
      using assms True effect_changed [OF Some, of writes] by (simp add: doFlag_def Let_def commit_change_def)
  qed
qed (use assms in \<open>simp add: doFlag_def Let_def\<close>)

lemma effect_doNote:
  assumes desk: "eg_Desk e = Some D" and run: "doNote e p v w = ((ops, fatal), w')"
    and may: "may_change (tr_GroupKey (pl_next p)) (tr_Generation (pl_next p)) (w_rows w)"
  shows "effect e writes (tr_GroupKey (pl_next p)) 0 1 w w'"
proof (cases "v_live v")
  case False
  then show ?thesis
    using run effect_mono [OF effect_refl, of 0 1] by (simp add: doNote_def Let_def)
next
  case live: True
  let ?k = "tr_GroupKey (pl_next p)"
  let ?note = "\<lparr>nc_TicketID = tr_TicketID (row_of p), nc_Title = NoteTitle (eg_Now e (w_desk w)), nc_Description = op_Note (noteOp p v),
      nc_NoteType = parsePick (st_NoteType (v_set v)), nc_Publish = parsePick (st_NotePublish (v_set v))\<rparr>"
  let ?more = "dl_AllResolved (pl_delta p) \<and> st_AutoComplete (v_set v)"
  obtain r d where n: "dk_CreateNote D ?note (w_desk w) = (r, d)"
    by (metis surj_pair)
  have sent: "effect e writes ?k 0 1 w (w\<lparr>w_desk := d\<rparr>)"
    using note_once [OF n] by (rule effect_note)
  show ?thesis
  proof (cases r)
    case (Inl err)
    then show ?thesis
      using run live desk n sent by (simp add: doNote_def Let_def fail_op_def)
  next
    case (Inr i)
    let ?row = "if ?more then (pl_next p)\<lparr>tr_UpdatedAt := eg_Now e d, tr_State := StateOpen, tr_ResolvedAt := None\<rparr>
      else (pl_next p)\<lparr>tr_UpdatedAt := eg_Now e d\<rparr>"
    let ?ch = "\<lparr>ch_Action = ''autotask_ticket_note_added'', ch_Tracked = ?row, ch_Detail = ledgerDetail ?row
      [(''joined'', JInt (int (length (dl_Joined (pl_delta p))))), (''changed'', JInt (int (length (dl_Changed (pl_delta p))))),
       (''resolved'', JInt (int (length (dl_Resolved (pl_delta p))))), (''allResolved'', JBool (dl_AllResolved (pl_delta p))),
       (''returned'', JBool (dl_Returned (pl_delta p)))]\<rparr>"
    have row: "tr_GroupKey ?row = ?k" "tr_Generation ?row = tr_Generation (pl_next p)"
      by auto
    show ?thesis
    proof (cases "AutotaskCommit e ?ch (w\<lparr>w_desk := d\<rparr>)")
      case None
      then show ?thesis
        using run live desk n sent Inr by (simp add: doNote_def Let_def commit_change_def storeFail_def cong: if_cong)
    next
      case (Some w1)
      have "effect e writes ?k 0 0 (w\<lparr>w_desk := d\<rparr>) w1"
        using effect_changed [OF Some, of writes] may row by simp
      from effect_trans [OF sent this] have noted: "effect e writes ?k 0 1 w w1"
        by simp
      have may1: "may_change ?k (tr_Generation (pl_next p)) (w_rows w1)"
        using may_change_upsert [OF commit_rows [OF Some]] may row by simp
      show ?thesis
      proof (cases ?more)
        case False
        then show ?thesis
          using run live desk n noted Inr Some by (auto simp: doNote_def Let_def commit_change_def)
      next
        case True
        let ?final = "(pl_next p)\<lparr>tr_State := StateResolved, tr_ResolvedAt := Some (v_now v)\<rparr>"
        let ?cop = "(row_op OpComplete (row_of p))\<lparr>op_Reason := ''Auto-complete is on and nothing of this action is open any more.''\<rparr>"
        obtain cop fatal' w2 where c: "completeTicket e D ?cop ?final v w1 = ((cop, fatal'), w2)"
          by (metis surj_pair)
        have "effect e writes ?k 0 0 w1 w2"
          using effect_completeTicket [OF c] may1 by simp
        moreover have "w' = w2"
          using run live desk n Inr Some True c by (simp add: doNote_def Let_def commit_change_def)
        ultimately show ?thesis
          using effect_trans [OF noted] by auto
      qed
    qed
  qed
qed

lemma effect_show_create:
  assumes "eg_Desk e = Some D" "show_create e p v w = (r, w')"
  shows "effect e writes k 0 0 w w'"
proof -
  obtain x d where f: "dk_FindTickets D (st_CompanyID (v_set v)) (op_Tag (createOp p v)) (w_desk w) = (x, d)"
    by (metis surj_pair)
  have "w' = w \<or> w' = w\<lparr>w_desk := d\<rparr>"
    using assms f by (auto simp: show_create_def Let_def split: if_splits sum.splits list.splits)
  then show ?thesis
    using effect_read [OF find [OF f], of e k] by auto
qed

lemma effect_doCreate:
  assumes desk: "eg_Desk e = Some D" and run: "doCreate e p v w = ((ops, fatal), w')"
    and may: "may_add (gr_Key (pl_group p)) (pl_gen p) (w_rows w)"
  shows "effect e writes (gr_Key (pl_group p)) 1 0 w w'"
proof (cases "v_live v")
  case False
  then show ?thesis
    using run effect_mono [OF effect_show_create [OF desk]] by (fastforce simp: doCreate_def)
next
  case live: True
  let ?k = "gr_Key (pl_group p)" and ?g = "pl_gen p"
  let ?op = "createOp p v"
  let ?pl = "payload (pl_group p) (op_Tag ?op) v"
  let ?row = "new_row p v ?op ?pl"
  have op: "op_Tag ?op = TicketTag ?k ?g"
    by (simp add: createOp_def Let_def)
  have row: "tr_GroupKey ?row = ?k" "tr_Generation ?row = ?g" "tr_Tag ?row = TicketTag ?k ?g"
    by (simp_all add: new_row_def op)
  have pl: "tc_Title ?pl = TitleWithTag (gr_Title (pl_group p)) (TicketTag ?k ?g) (v_titleMax v)"
    "tc_CompanyID ?pl = st_CompanyID (v_set v)"
    by (simp_all add: payload_def Let_def op)
  obtain x d where f: "dk_FindTickets D (st_CompanyID (v_set v)) (op_Tag ?op) (w_desk w) = (x, d)"
    by (metis surj_pair)
  note searched = effect_read [OF find [OF f], of e ?k]
  show ?thesis
  proof (cases x)
    case (Inl err)
    then show ?thesis
      using run live desk f effect_mono [OF searched] by (simp add: doCreate_def Let_def fail_op_def)
  next
    case (Inr ts)
    let ?w = "w\<lparr>w_desk := d\<rparr>"
    show ?thesis
    proof (cases "ts = []")
      case False
      let ?tk = "oldest ts"
      let ?row' = "?row\<lparr>tr_TicketID := tk_ID ?tk, tr_TicketNumber := tk_TicketNumber ?tk,
        tr_State := if Completed ?tk then StateClosedInPSA else tr_State ?row\<rparr>"
      let ?ch = "\<lparr>ch_Action = ''autotask_ticket_adopted'', ch_Tracked = ?row', ch_Detail = ledgerDetail ?row' []\<rparr>"
      have w': "w' = (case AutotaskCommit e ?ch ?w of None \<Rightarrow> ?w | Some w1 \<Rightarrow> w1)"
      proof -
        have "snd (adopt e ?op ?row ts ?w) = (case AutotaskCommit e ?ch ?w of None \<Rightarrow> ?w | Some w1 \<Rightarrow> w1)"
          by (simp add: adopt_def Let_def commit_change_def storeFail_def split: option.split)
        moreover have "adopt e ?op ?row ts ?w = ((ops, fatal), w')"
          using run live desk f Inr False by (simp add: doCreate_def Let_def)
        ultimately show ?thesis
          by simp
      qed
      show ?thesis
      proof (cases "AutotaskCommit e ?ch ?w")
        case None
        then show ?thesis
          using w' effect_mono [OF searched] by simp
      next
        case (Some w1)
        have "effect e writes ?k 0 0 ?w w1"
          using effect_added [OF Some, of "[]" writes] may row by simp
        then show ?thesis
          using w' Some effect_mono [OF effect_trans [OF searched]] by simp
      qed
    next
      case True
      have none: "\<forall>t. (st_CompanyID (v_set v), t) \<in> set (tickets_of (writes d)) \<longrightarrow> \<not> Contains t (TicketTag ?k ?g)"
        using found [OF f [unfolded Inr True]] find [OF f] by (auto simp: tickets_of_mem op)
      obtain y d1 where c: "dk_CreateTicket D ?pl d = (y, d1)"
        by (metis surj_pair)
      have made: "effect e writes ?k 1 0 ?w (w\<lparr>w_desk := d1\<rparr>)"
        using effect_ticket [of writes d1 ?w] create [OF c] none pl by simp
      show ?thesis
      proof (cases y)
        case (Inl err)
        then show ?thesis
          using run live desk f Inr True c effect_trans [OF searched made]
          by (simp add: doCreate_def Let_def create_new_def fail_op_def)
      next
        case y: (Inr i)
        obtain got d2 where got: "dk_GetTickets D [i] d1 = (got, d2)"
          by (metis surj_pair)
        let ?w2 = "w\<lparr>w_desk := d2\<rparr>"
        have read: "effect e writes ?k 0 0 (w\<lparr>w_desk := d1\<rparr>) ?w2"
          using effect_read [of writes d2 "w\<lparr>w_desk := d1\<rparr>" e ?k] get [OF got] by simp
        note sofar = effect_trans [OF effect_trans [OF searched made] read, simplified]
        let ?number = "case got of Inl _ \<Rightarrow> [] | Inr m \<Rightarrow> (case map_of m i of None \<Rightarrow> [] | Some tk \<Rightarrow> tk_TicketNumber tk)"
        let ?row' = "?row\<lparr>tr_TicketID := i, tr_TicketNumber := ?number\<rparr>"
        let ?extra = "[(''title'', JStr (tc_Title ?pl)), (''priority'', JInt (tc_Priority ?pl)), (''queueId'', json_id (tc_QueueID ?pl)),
                     (''dueDateTime'', JStr (tc_DueDateTime ?pl))]"
        let ?ch = "\<lparr>ch_Action = ''autotask_ticket_created'', ch_Tracked = ?row', ch_Detail = ledgerDetail ?row' ?extra\<rparr>"
        have w': "w' = (case AutotaskCommit e ?ch ?w2 of None \<Rightarrow> ?w2 | Some w1 \<Rightarrow> w1)"
          using run live desk f Inr True c y got
          by (auto simp: doCreate_def Let_def create_new_def commit_change_def storeFail_def split: option.splits)
        show ?thesis
        proof (cases "AutotaskCommit e ?ch ?w2")
          case None
          then show ?thesis
            using w' sofar by simp
        next
          case (Some w1)
          have "effect e writes ?k 0 0 ?w2 w1"
            using effect_added [OF Some, of ?extra writes] may row by simp
          then show ?thesis
            using w' Some effect_trans [OF sofar] by simp
        qed
      qed
    qed
  qed
qed

lemma effect_plan:
  assumes "eg_Desk e = Some D" "plan_fits (w_rows w) p"
    and "(if pl_kind p = PlanOp OpCreate then doCreate e p v w
          else if pl_kind p = PlanOp OpNote then doNote e p v w
          else if pl_kind p = PlanOp OpComplete then doComplete e p v w
          else if pl_kind p = PlanOp OpFlag then doFlag e p v w
          else (([], []), w)) = ((ops, fatal), w')"
  shows "effect e writes (plan_key p) (if pl_kind p = PlanOp OpCreate then 1 else 0) (if pl_kind p = PlanOp OpNote then 1 else 0) w w'"
  using assms effect_doCreate [OF assms(1), of p v w ops fatal w'] effect_doNote [OF assms(1), of p v w ops fatal w']
    effect_doComplete [OF assms(1), of p v w ops fatal w'] effect_doFlag [of e p v w ops fatal w']
  by (simp add: plan_fits_def plan_key_def split: if_splits)

lemma execute_effect:
  assumes "eg_Desk e = Some D" "execute e v c n stopped ps w = (ops, w')"
    and "\<forall>p \<in> set ps. plan_fits (w_rows w) p" "distinct (map plan_key ps)"
  shows "(run_step e writes)\<^sup>*\<^sup>* w w' \<and>
    length (tickets_of (writes (w_desk w'))) \<le> length (tickets_of (writes (w_desk w))) + nat (st_MaxCreates (v_set v) - c) \<and>
    length (notes_of (writes (w_desk w'))) \<le> length (notes_of (writes (w_desk w))) + nat (MaxNotesPerRun - n)"
  using assms(2-)
proof (induction ps arbitrary: c n stopped w ops)
  case (Cons p ps)
  let ?skip = "stopped \<noteq> [] \<or> pl_kind p = PlanOp OpCreate \<and> st_MaxCreates (v_set v) \<le> c \<or> pl_kind p = PlanOp OpNote \<and> MaxNotesPerRun \<le> n"
  show ?case
  proof (cases ?skip)
    case True
    then obtain ops1 where "execute e v c n stopped ps w = (ops1, w')"
      using Cons.prems(1) by (fastforce split: prod.splits if_splits)
    then show ?thesis
      using Cons.IH Cons.prems by simp
  next
    case False
    obtain ops1 fatal w1 where d: "(if pl_kind p = PlanOp OpCreate then doCreate e p v w
          else if pl_kind p = PlanOp OpNote then doNote e p v w
          else if pl_kind p = PlanOp OpComplete then doComplete e p v w
          else if pl_kind p = PlanOp OpFlag then doFlag e p v w
          else (([], []), w)) = ((ops1, fatal), w1)"
      by (metis surj_pair)
    let ?c = "if pl_kind p = PlanOp OpCreate then c + 1 else c" and ?n = "if pl_kind p = PlanOp OpNote then n + 1 else n"
    let ?stop = "if fatal \<noteq> [] then ''The run stopped before this: '' @ fatal else []"
    obtain ops2 where rest: "execute e v ?c ?n ?stop ps w1 = (ops2, w')"
      using Cons.prems(1) False d by (auto simp del: append.simps split: prod.splits)
    have fx: "effect e writes (plan_key p) (if pl_kind p = PlanOp OpCreate then 1 else 0) (if pl_kind p = PlanOp OpNote then 1 else 0) w w1"
      using effect_plan [OF assms(1) _ d] Cons.prems(2) by simp
    have "plan_fits (w_rows w1) q" if "q \<in> set ps" for q
    proof -
      have "plan_key q \<noteq> plan_key p"
        using Cons.prems(3) that by (metis distinct.simps(2) image_eqI list.map(2) set_map)
      then show ?thesis
        using plan_fits_kept [of "plan_key p" w w1 q] fx Cons.prems(2) that by (simp add: effect_def)
    qed
    then have "(run_step e writes)\<^sup>*\<^sup>* w1 w' \<and>
      length (tickets_of (writes (w_desk w'))) \<le> length (tickets_of (writes (w_desk w1))) + nat (st_MaxCreates (v_set v) - ?c) \<and>
      length (notes_of (writes (w_desk w'))) \<le> length (notes_of (writes (w_desk w1))) + nat (MaxNotesPerRun - ?n)"
      using Cons.IH [OF rest] Cons.prems(3) by simp
    then show ?thesis
      using fx False unfolding effect_def by (auto intro: rtranclp_trans split: if_splits)
  qed
qed simp

lemma execute_dry:
  assumes "execute e v c n stopped ps w = (ops, w')" "\<not> v_live v" "eg_Desk e = Some D"
  shows "w_rows w' = w_rows w \<and> w_audit w' = w_audit w \<and> writes (w_desk w') = writes (w_desk w)"
  using assms(1)
proof (induction ps arbitrary: c n stopped w ops)
  case (Cons p ps)
  obtain ops1 fatal w1 where d: "(if pl_kind p = PlanOp OpCreate then doCreate e p v w
          else if pl_kind p = PlanOp OpNote then doNote e p v w
          else if pl_kind p = PlanOp OpComplete then doComplete e p v w
          else if pl_kind p = PlanOp OpFlag then doFlag e p v w
          else (([], []), w)) = ((ops1, fatal), w1)"
    by (metis surj_pair)
  obtain x d' where f: "dk_FindTickets D (st_CompanyID (v_set v)) (op_Tag (createOp p v)) (w_desk w) = (x, d')"
    by (metis surj_pair)
  have "w1 = w \<or> w1 = w\<lparr>w_desk := d'\<rparr>"
    using d f assms(2,3) by (auto simp: doCreate_def show_create_def doNote_def doComplete_def doFlag_def Let_def
        split: if_splits sum.splits list.splits)
  then have "w_rows w1 = w_rows w \<and> w_audit w1 = w_audit w \<and> writes (w_desk w1) = writes (w_desk w)"
    using find [OF f] by auto
  moreover obtain c' n' s' w2 ops2 where "execute e v c' n' s' ps w2 = (ops2, w')" "w2 = w \<or> w2 = w1"
    using Cons.prems d by (auto simp del: append.simps split: prod.splits if_splits)
  ultimately show ?case
    using Cons.IH by metis
qed simp

end

section \<open>The plans of a run\<close>

lemma latest_of_keys: "distinct (map fst (latest_of rows))"
  unfolding latest_of_def
  by (induction rows rule: rev_induct) (simp_all add: latest_step_def distinct_upd_assoc)

lemma latest_of_newest:
  "case map_of (latest_of rows) k of
     None \<Rightarrow> rows_of k rows = []
   | Some t \<Rightarrow> t \<in> set (rows_of k rows) \<and> (\<forall>r \<in> set (rows_of k rows). tr_Generation r \<le> tr_Generation t)"
proof (induction rows rule: rev_induct)
  case (snoc r rows)
  then show ?case
    by (cases "map_of (latest_of rows) k")
      (auto simp: latest_of_def latest_step_def rows_of_def map_of_upd_assoc filter_empty_conv split: option.splits)
qed (simp add: latest_of_def rows_of_def)

lemma latest_may_change: "map_of (latest_of rows) k = Some t \<Longrightarrow> may_change k (tr_Generation t) rows \<and> tr_GroupKey t = k"
  using latest_of_newest [of k rows] by (auto simp: may_change_def rows_of_def)

lemma latest_may_add:
  assumes "rows_ok rows" "map_of (latest_of rows) k = Some t" "tr_State t \<noteq> StateOpen"
  shows "may_add k (tr_Generation t + 1) rows"
proof -
  have t: "t \<in> set (rows_of k rows)" "\<forall>r \<in> set (rows_of k rows). tr_Generation r \<le> tr_Generation t"
    using latest_of_newest [of k rows] assms(2) by auto
  have "tr_State r \<noteq> StateOpen" if "r \<in> set (rows_of k rows)" for r
  proof
    assume "tr_State r = StateOpen"
    then have "tr_Generation t \<le> tr_Generation r"
      using assms(1) that t(1) by (auto simp: rows_ok_def rows_of_def)
    then have "row_id r = row_id t"
      using t that by (force simp: row_id_def rows_of_def)
    then have "r = t"
      using assms(1) t(1) that by (auto simp: rows_ok_def rows_of_def dest: distinct_map [THEN iffD1] inj_onD)
    then show False
      using assms(3) \<open>tr_State r = StateOpen\<close> by simp
  qed
  moreover have "1 \<le> tr_Generation t"
    using assms(1) t(1) by (auto simp: rows_ok_def rows_of_def)
  ultimately show ?thesis
    using t by (force simp: may_add_def)
qed

lemma latest_may_start: "map_of (latest_of rows) k = None \<Longrightarrow> may_add k 1 rows"
  using latest_of_newest [of k rows] by (simp add: may_add_def)

lemma decide_group_fits:
  assumes "rows_ok rows" "fst (decide_group v (latest_of rows) g) = Some p"
  shows "plan_key (finish_plan ev v p) = gr_Key g \<and> plan_fits rows (finish_plan ev v p)"
proof (cases "map_of (latest_of rows) (gr_Key g)")
  case None
  then show ?thesis
    using assms(2) latest_may_start [OF None]
    by (auto simp: decide_group_def new_plan_def finish_plan_def plan_key_def plan_fits_def split: if_splits)
next
  case (Some t)
  note t = latest_may_change [OF Some]
  show ?thesis
  proof (cases "tr_State t")
    case StateOpen
    then show ?thesis
      using assms(2) Some t
      by (auto simp: decide_group_def new_plan_def finish_plan_def plan_key_def plan_fits_def row_of_def Let_def split: if_splits prod.splits)
  next
    case StateResolved
    then show ?thesis
      using assms(2) Some t latest_may_add [OF assms(1) Some]
      by (auto simp: decide_group_def new_plan_def finish_plan_def plan_key_def plan_fits_def row_of_def Let_def split: if_splits)
  next
    case StateClosedInPSA
    then show ?thesis
      using assms(2) Some t latest_may_add [OF assms(1) Some]
      by (auto simp: decide_group_def new_plan_def finish_plan_def plan_key_def plan_fits_def row_of_def Let_def split: if_splits)
  qed
qed

lemma decide_gone_fits:
  assumes "map_of (latest_of rows) k = Some t" "fst (decide_gone v t) = Some p"
  shows "plan_key (finish_plan ev v p) = k \<and> plan_fits rows (finish_plan ev v p)"
  using assms(2) latest_may_change [OF assms(1)]
  by (cases "tr_State t")
    (auto simp: decide_gone_def new_plan_def finish_plan_def plan_key_def plan_fits_def row_of_def Let_def split: if_splits)

lemma map_filter_keys:
  assumes "\<And>x y. x \<in> set xs \<Longrightarrow> f x = Some y \<Longrightarrow> h y = key x" "distinct (map key xs)"
  shows "distinct (map h (List.map_filter f xs)) \<and> h ` set (List.map_filter f xs) \<subseteq> key ` set xs"
  using assms
proof (induction xs)
  case (Cons x xs)
  then have "distinct (map h (List.map_filter f xs))" "h ` set (List.map_filter f xs) \<subseteq> key ` set xs"
    by auto
  moreover have "h y = key x" if "f x = Some y" for y
    using Cons.prems(1) that by simp
  ultimately show ?case
    using Cons.prems(2) by (cases "f x") (force simp: List.map_filter_simps)+
qed (simp add: List.map_filter_simps)

lemma map_filter_map: "List.map_filter f (map g xs) = List.map_filter (f \<circ> g) xs"
  by (simp add: List.map_filter_def filter_map o_def)

lemma decide_fits:
  assumes rows: "rows_ok rows" and groups: "distinct (map gr_Key groups)"
    and plans: "fst (decide groups (latest_of rows) v) = plans"
  shows "distinct (map plan_key (map (finish_plan ev v) plans)) \<and> (\<forall>p \<in> set (map (finish_plan ev v) plans). plan_fits rows p)"
proof -
  let ?gone = "filter (\<lambda>(k, t). k \<notin> gr_Key ` set groups) (latest_of rows)"
  let ?A = "List.map_filter (fst \<circ> decide_group v (latest_of rows)) groups"
  let ?B = "List.map_filter (fst \<circ> (decide_gone v \<circ> snd)) ?gone"
  let ?h = "plan_key \<circ> finish_plan ev v"
  have plans_eq: "plans = go_sort (\<lambda>a b. planKey a < planKey b) (?A @ ?B)"
    using plans by (simp add: decide_def Let_def map_filter_map del: filter.simps)
  have A: "distinct (map ?h ?A)" "?h ` set ?A \<subseteq> gr_Key ` set groups"
    using map_filter_keys [of groups "fst \<circ> decide_group v (latest_of rows)" ?h gr_Key] groups decide_group_fits [OF rows] by auto
  have gone: "map_of (latest_of rows) k = Some t" if "(k, t) \<in> set ?gone" for k t
    using that latest_of_keys by (auto intro: map_of_is_SomeI)
  have "distinct (map fst ?gone)"
    using latest_of_keys by (rule distinct_map_filter)
  then have B: "distinct (map ?h ?B)" "?h ` set ?B \<subseteq> fst ` set ?gone"
    using map_filter_keys [of ?gone "fst \<circ> (decide_gone v \<circ> snd)" ?h fst] gone decide_gone_fits by fastforce+
  have "?h ` set ?A \<inter> ?h ` set ?B = {}"
  proof -
    have "fst ` set ?gone \<inter> gr_Key ` set groups = {}"
      by auto
    then show ?thesis
      using A(2) B(2) by blast
  qed
  then have "distinct (map ?h (?A @ ?B))"
    using A(1) B(1) by (simp add: image_comp)
  moreover have "mset (map ?h plans) = mset (map ?h (?A @ ?B))"
    unfolding mset_map plans_eq mset_go_sort ..
  ultimately have "distinct (map ?h plans)"
    by (metis mset_eq_imp_distinct_iff)
  moreover have "plan_fits rows (finish_plan ev v p)" if "p \<in> set plans" for p
  proof -
    have "p \<in> set ?A \<or> p \<in> set ?B"
      using that by (simp add: plans_eq)
    then show ?thesis
      unfolding set_map_filter using decide_group_fits [OF rows] gone decide_gone_fits by fastforce
  qed
  ultimately show ?thesis
    by auto
qed

section \<open>A run\<close>

lemma rows_of_set: "set (rows_of k rows) = {r \<in> set rows. tr_GroupKey r = k}"
  by (simp add: rows_of_def)

lemma rows_ok_cong: "mset rows = mset rows' \<Longrightarrow> rows_ok rows = rows_ok rows'"
proof -
  assume eq: "mset rows = mset rows'"
  then have "mset (map row_id rows) = mset (map row_id rows')"
    by simp
  then have "distinct (map row_id rows) = distinct (map row_id rows')"
    by (rule mset_eq_imp_distinct_iff)
  then show ?thesis
    using mset_eq_setD [OF eq] by (simp add: rows_ok_def)
qed

lemma plan_fits_cong: "set rows = set rows' \<Longrightarrow> plan_fits rows p = plan_fits rows' p"
  by (simp add: plan_fits_def may_add_def may_change_def rows_of_set)

lemma AutotaskTracked_mset: "mset (AutotaskTracked w) = mset (w_rows w)"
  by (simp add: AutotaskTracked_def)

text \<open>Nothing but the desk is touched before the plans are carried out.\<close>

lemma read_autotask_env:
  assumes "read_autotask e s live latest res w = ((Some v, res'), w')"
  shows "v_live v = live \<and> v_set v = s"
  using assms by (auto simp: read_autotask_def Let_def split: option.splits prod.splits sum.splits if_splits)

lemma read_autotask_off: "eg_Desk e = None \<Longrightarrow> read_autotask e s live latest res w = ((vo, res'), w') \<Longrightarrow> w' = w"
  by (auto simp: read_autotask_def Let_def)

context ticket_desk
begin

lemma preflight_reads: "preflight D s res d = (out, d') \<Longrightarrow> writes d' = writes d"
  unfolding preflight_def
  by (auto simp: Let_def split: prod.splits sum.splits if_splits dest!: threshold company ticket_fields note_fields)

lemma read_autotask_reads:
  assumes "eg_Desk e = Some D" "read_autotask e s live latest res w = (out, w')"
  shows "\<exists>d'. w' = w\<lparr>w_desk := d'\<rparr> \<and> writes d' = writes (w_desk w)"
proof -
  obtain tf nf why res1 d1 where p: "preflight D s res (w_desk w) = ((tf, nf, why, res1), d1)"
    by (metis surj_pair)
  note same = preflight_reads [OF p]
  have "w' = w\<lparr>w_desk := d1\<rparr> \<or> (\<exists>ids r d2. dk_GetTickets D ids d1 = (r, d2) \<and> w' = w\<lparr>w_desk := d2\<rparr>)"
    using assms p by (auto simp: read_autotask_def Let_def split: prod.splits sum.splits if_splits)
  then show ?thesis
    using same get by auto
qed

end

text \<open>A live run has passed its gate: live settings that a dry run has shown.\<close>

definition gate_open :: "'d Engine \<Rightarrow> Settings \<Rightarrow> bool" where
  "gate_open e s \<longleftrightarrow> st_Mode s = ModeLive \<and> eg_DryRunFingerprint e = Fingerprint (eg_encode e) s \<and> \<not> Option.is_none (eg_Desk e)"

definition to_send :: "(MemberRef \<Rightarrow> Evidence option) \<Rightarrow> env \<Rightarrow> plan list \<Rightarrow> plan list" where
  "to_send ev v plans = filter (\<lambda>p. \<not> (pl_kind p = PlanOp OpNote \<and> DeltaEmpty (pl_delta p))) (map (finish_plan ev v) plans)"

lemma Run_cases:
  assumes "Run e s fs mode w = (out, w')"
  obtains (nothing) "w' = w"
  | (read) res0 vo res1 where "mode = ModeLive \<Longrightarrow> gate_open e s" "Missing s = []"
      "read_autotask e s (mode = ModeLive) (latest_of (AutotaskTracked w)) res0 w = ((vo, res1), w')"
  | (ran) res0 v res1 w1 ev ops where "mode = ModeLive \<Longrightarrow> gate_open e s" "Missing s = []"
      "read_autotask e s (mode = ModeLive) (latest_of (AutotaskTracked w)) res0 w = ((Some v, res1), w1)"
      "execute e v 0 0 [] (to_send ev v (fst (decide (BuildGroups fs s) (latest_of (AutotaskTracked w)) v))) w1 = (ops, w')"
proof (cases "(mode = ModeLive \<longrightarrow> gate_open e s) \<and> Missing s = [] \<and> (mode = ModeLive \<or> mode = ModeDryRun) \<and>
    \<not> eg_tracked_fails e (w_desk w)")
  case False
  then have "w' = w"
    using assms by (auto simp: Run_def Let_def gate_open_def split: if_splits)
  then show ?thesis
    by (rule nothing)
next
  case True
  let ?latest = "latest_of (AutotaskTracked w)"
  define res0 where "res0 = (new_result mode (Fingerprint (eg_encode e) s))\<lparr>rs_Groups := int (length (BuildGroups fs s))\<rparr>"
  obtain vo res1 w1 where r: "read_autotask e s (mode = ModeLive) ?latest res0 w = ((vo, res1), w1)"
    by (metis surj_pair)
  have run: "Run e s fs mode w =
      (case ((vo, res1), w1) of
         ((None, res), w) \<Rightarrow> ((False, res), w)
       | ((Some v, res), w) \<Rightarrow>
               (case decide (BuildGroups fs s) ?latest v of
                  (plans, vanished, below) \<Rightarrow>
                    (case eg_evidence e (w_desk w) vanished of
                       None \<Rightarrow> ((True, res\<lparr>rs_BelowThreshold := below\<rparr>), w)
                     | Some ev \<Rightarrow>
                         (case execute e v 0 0 [] (to_send ev v plans) w of
                               (ops, w') \<Rightarrow> ((False, requests_of e w' (tally (res\<lparr>rs_BelowThreshold := below, rs_Ops := ops\<rparr>))), w')))))"
    unfolding r [symmetric] res0_def to_send_def Run_def Let_def using True
    by (cases "mode = ModeLive"; cases "mode = ModeDryRun") (simp_all add: gate_open_def)
  show ?thesis
  proof (cases vo)
    case None
    then show ?thesis
      using run assms r True by (intro read [of res0 vo res1]) auto
  next
    case (Some v)
    obtain plans vanished below where d: "decide (BuildGroups fs s) ?latest v = (plans, vanished, below)"
      by (metis surj_pair)
    show ?thesis
    proof (cases "eg_evidence e (w_desk w1) vanished")
      case None
      then show ?thesis
        using run assms r True Some d by (intro read [of res0 vo res1]) auto
    next
      case ev: (Some ev)
      obtain ops w2 where x: "execute e v 0 0 [] (to_send ev v plans) w1 = (ops, w2)"
        by (metis surj_pair)
      have "w2 = w'"
        using run assms Some d ev x by auto
      then show ?thesis
        using r True Some d x by (intro ran [of res0 v res1 w1 ev ops]) auto
    qed
  qed
qed

lemma execute_off: "eg_Desk e = None \<Longrightarrow> \<not> v_live v \<Longrightarrow> execute e v c n stopped ps w = (ops, w') \<Longrightarrow> w' = w"
proof (induction ps arbitrary: c n stopped w ops)
  case (Cons p ps)
  obtain ops1 fatal w1 where d: "(if pl_kind p = PlanOp OpCreate then doCreate e p v w
          else if pl_kind p = PlanOp OpNote then doNote e p v w
          else if pl_kind p = PlanOp OpComplete then doComplete e p v w
          else if pl_kind p = PlanOp OpFlag then doFlag e p v w
          else (([], []), w)) = ((ops1, fatal), w1)"
    by (metis surj_pair)
  then have "w1 = w"
    using Cons.prems(1,2) by (auto simp: doCreate_def show_create_def doNote_def doComplete_def doFlag_def Let_def split: if_splits)
  then obtain c' n' s' ops2 where "execute e v c' n' s' ps w = (ops2, w')"
    using Cons.prems(3) d by (auto simp del: append.simps split: prod.splits if_splits)
  then show ?case
    using Cons.IH Cons.prems by metis
qed simp

lemma Run_off:
  assumes "eg_Desk e = None" "Run e s fs mode w = (out, w')"
  shows "w' = w"
  using assms(2)
proof (cases rule: Run_cases)
  case (read res0 vo res1)
  then show ?thesis
    using read_autotask_off assms(1) by blast
next
  case (ran res0 v res1 w1 ev ops)
  have "mode \<noteq> ModeLive"
    using ran(1) assms(1) by (auto simp: gate_open_def)
  then have "\<not> v_live v"
    using read_autotask_env [OF ran(3)] by simp
  then show ?thesis
    using execute_off [OF assms(1) _ ran(4)] read_autotask_off [OF assms(1) ran(3)] by simp
qed

context ticket_desk
begin

lemma Run_dry:
  assumes "eg_Desk e = Some D" "Run e s fs mode w = (out, w')" "\<not> (mode = ModeLive \<and> gate_open e s \<and> Missing s = [])"
  shows "w_rows w' = w_rows w \<and> w_audit w' = w_audit w \<and> writes (w_desk w') = writes (w_desk w)"
  using assms(2)
proof (cases rule: Run_cases)
  case (read res0 vo res1)
  then show ?thesis
    using read_autotask_reads [OF assms(1) read(3)] by auto
next
  case (ran res0 v res1 w1 ev ops)
  then have "\<not> v_live v"
    using read_autotask_env [OF ran(3)] assms(3) by auto
  then show ?thesis
    using execute_dry [OF ran(4) _ assms(1)] read_autotask_reads [OF assms(1) ran(3)] by auto
qed simp

lemma Run_effect:
  assumes desk: "eg_Desk e = Some D" and run: "Run e s fs mode w = (out, w')" and rows: "rows_ok (w_rows w)"
  shows "(run_step e writes)\<^sup>*\<^sup>* w w' \<and>
    length (tickets_of (writes (w_desk w'))) \<le> length (tickets_of (writes (w_desk w))) + nat (st_MaxCreates s) \<and>
    length (notes_of (writes (w_desk w'))) \<le> length (notes_of (writes (w_desk w))) + nat MaxNotesPerRun"
  using run
proof (cases rule: Run_cases)
  case (read res0 vo res1)
  then obtain d' where "w' = w\<lparr>w_desk := d'\<rparr>" "writes d' = writes (w_desk w)"
    using read_autotask_reads [OF desk read(3)] by auto
  then show ?thesis
    using run_step.request [of writes d' w e] by auto
next
  case (ran res0 v res1 w1 ev ops)
  let ?rows = "AutotaskTracked w"
  let ?plans = "fst (decide (BuildGroups fs s) (latest_of ?rows) v)"
  obtain d' where w1: "w1 = w\<lparr>w_desk := d'\<rparr>" "writes d' = writes (w_desk w)"
    using read_autotask_reads [OF desk ran(3)] by auto
  have v: "v_set v = s"
    using read_autotask_env [OF ran(3)] by simp
  have "rows_ok ?rows"
    using rows rows_ok_cong [OF AutotaskTracked_mset] by blast
  note fits = decide_fits [OF this BuildGroups_keys refl, of ev v fs s]
  have "distinct (map plan_key (to_send ev v ?plans))"
    using fits unfolding to_send_def by (intro distinct_map_filter) simp
  moreover have "\<forall>p \<in> set (to_send ev v ?plans). plan_fits (w_rows w1) p"
    using fits plan_fits_cong [OF mset_eq_setD [OF AutotaskTracked_mset]] by (auto simp: to_send_def w1(1))
  ultimately have "(run_step e writes)\<^sup>*\<^sup>* w1 w' \<and>
      length (tickets_of (writes (w_desk w'))) \<le> length (tickets_of (writes (w_desk w1))) + nat (st_MaxCreates s) \<and>
      length (notes_of (writes (w_desk w'))) \<le> length (notes_of (writes (w_desk w1))) + nat MaxNotesPerRun"
    using execute_effect [OF desk ran(4)] v by simp
  moreover have "run_step e writes w w1"
    using run_step.request [of writes d' w e] w1 by simp
  ultimately show ?thesis
    using w1 by auto
qed simp

end

end
