(* ===== verification/Ticket_Reach.thy ===== *)
theory Ticket_Reach
  imports Ticket_Run
begin

text \<open>
  The ticket integration over time: the states that runs can reach from an empty table, with the
  outside world at work in between, what holds in all of them, and the properties of a single
  run. The examples run the whole engine with the client over the service in memory.
\<close>

section \<open>The states that runs can reach\<close>

text \<open>The last sixteen characters of a title, which hold the tag of a ticket opened by a run.\<close>

definition title_end :: "string \<Rightarrow> string" where
  "title_end t = drop (length t - 16) t"

lemma length_TicketTag: "length (TicketTag k g) = 13"
  by (simp add: TicketTag_def)

lemma title_end_TitleWithTag: "title_end (TitleWithTag base (TicketTag k g) n) = tag_suffix (TicketTag k g)"
  by (simp add: title_end_def TitleWithTag_def tag_suffix_def length_TicketTag)

lemma title_end_Contains:
  assumes "title_end t = tag_suffix tag"
  shows "Contains t tag"
proof -
  have "t = (take (length t - 16) t @ '' ['') @ tag @ '']''"
    using append_take_drop_id [of "length t - 16" t] assms unfolding title_end_def tag_suffix_def
    by (metis append.assoc append_Cons append_Nil)
  then show ?thesis
    by (metis Contains_middle)
qed

definition tickets_once :: "Write list \<Rightarrow> bool" where
  "tickets_once ws \<longleftrightarrow> distinct (map (\<lambda>(co, t). (co, title_end t)) (tickets_of ws))"

text \<open>A row and the entry of the audit log that says where it came from.\<close>

definition opening_entry :: "(string \<Rightarrow> string option) \<Rightarrow> ((string \<times> json) list \<Rightarrow> string) \<Rightarrow> Tracked \<Rightarrow> Entry \<Rightarrow> bool" where
  "opening_entry jsonb marshal r x \<longleftrightarrow>
     en_Action x \<in> {''autotask_ticket_created'', ''autotask_ticket_adopted''} \<and>
     (\<exists>t extra raw. tr_GroupKey t = tr_GroupKey r \<and> tr_Generation t = tr_Generation r \<and> tr_Tag t = tr_Tag r \<and>
        tr_TicketID t = tr_TicketID r \<and> tr_CompanyID t = tr_CompanyID r \<and> raw = marshal (ledgerDetail t extra) \<and>
        jsonb (if raw = [] then ''{}'' else raw) = Some (en_Detail x))"

definition rows_recorded :: "(string \<Rightarrow> string option) \<Rightarrow> ((string \<times> json) list \<Rightarrow> string) \<Rightarrow> 'd world \<Rightarrow> bool" where
  "rows_recorded jsonb marshal w \<longleftrightarrow>
     (\<forall>r \<in> set (w_rows w). \<exists>x \<in> set (db_log (w_audit w)). opening_entry jsonb marshal r (au_entry x))"

text \<open>Runs with any settings, findings and engine over the same desk and encodings, with whatever
  happens in between: technicians at work in Autotask, and other parts of the program adding to
  the audit log.\<close>

inductive ticket_reachable ::
  "('d \<Rightarrow> Write list) \<Rightarrow> (string \<Rightarrow> string option) \<Rightarrow> ((string \<times> json) list \<Rightarrow> string) \<Rightarrow>
    ('priv \<Rightarrow> string \<Rightarrow> string) \<Rightarrow> 'priv \<Rightarrow> 'd world \<Rightarrow> bool" for writes jsonb marshal ed_sign priv where
  start: "writes d = [] \<Longrightarrow> ticket_reachable writes jsonb marshal ed_sign priv \<lparr>w_desk = d, w_rows = [], w_audit = empty_log\<rparr>"
| run: "ticket_reachable writes jsonb marshal ed_sign priv w \<Longrightarrow>
    (\<And>D. eg_Desk e = Some D \<Longrightarrow> ticket_desk D writes) \<Longrightarrow> eg_jsonb e = jsonb \<Longrightarrow> eg_marshal e = marshal \<Longrightarrow>
    Run e s fs mode w = (out, w') \<Longrightarrow> ticket_reachable writes jsonb marshal ed_sign priv w'"
| outside: "ticket_reachable writes jsonb marshal ed_sign priv w \<Longrightarrow> writes d' = writes (w_desk w) \<Longrightarrow>
    ticket_reachable writes jsonb marshal ed_sign priv (w\<lparr>w_desk := d'\<rparr>)"
| audit: "ticket_reachable writes jsonb marshal ed_sign priv w \<Longrightarrow>
    auditInTx jsonb now actor action deviceID raw (w_audit w) = Inr db \<Longrightarrow>
    ticket_reachable writes jsonb marshal ed_sign priv (w\<lparr>w_audit := db\<rparr>)"
| checkpoint: "ticket_reachable writes jsonb marshal ed_sign priv w \<Longrightarrow>
    AppendCheckpoint ed_sign priv keyID now (w_audit w) = (db, c) \<Longrightarrow>
    ticket_reachable writes jsonb marshal ed_sign priv (w\<lparr>w_audit := db\<rparr>)"

lemma auditInTx_entry:
  assumes "auditInTx jsonb now actor action d raw db = Inr db'" "jsonb_canonical jsonb"
  shows "\<exists>x. db_log db' = db_log db @ [x] \<and> en_Action (au_entry x) = action \<and>
    jsonb (if raw = [] then ''{}'' else raw) = Some (en_Detail (au_entry x))"
  using assms
  by (auto simp: auditInTx_def Let_def jsonb_canonical_def new_entry_fields split: option.splits)

lemma AutotaskCommit_audit:
  assumes "AutotaskCommit e ch w = Some w'"
  shows "auditInTx (eg_jsonb e) (eg_Now e (w_desk w)) (eg_Actor e) (ch_Action ch) [] (eg_marshal e (ch_Detail ch)) (w_audit w) =
    Inr (w_audit w')"
  using assms by (auto simp: AutotaskCommit_def split: option.splits sum.splits if_splits)

definition world_ok where
  "world_ok writes jsonb marshal ed_sign priv w \<longleftrightarrow>
     tickets_once (writes (w_desk w)) \<and> rows_ok (w_rows w) \<and> audit_reachable jsonb ed_sign priv (w_audit w) \<and>
     (jsonb_canonical jsonb \<longrightarrow> rows_recorded jsonb marshal w)"

lemma opening_entry_take_over [simp]: "opening_entry jsonb marshal (take_over t r) x = opening_entry jsonb marshal r x"
  by (simp add: opening_entry_def take_over_def)

lemma rows_recorded_commit:
  assumes c: "AutotaskCommit e ch w = Some w'" and ok: "rows_recorded (eg_jsonb e) (eg_marshal e) w" "jsonb_canonical (eg_jsonb e)"
    and new: "row_id (ch_Tracked ch) \<in> row_id ` set (w_rows w) \<or>
      ch_Action ch \<in> {''autotask_ticket_created'', ''autotask_ticket_adopted''} \<and> ch_Detail ch = ledgerDetail (ch_Tracked ch) extra"
  shows "rows_recorded (eg_jsonb e) (eg_marshal e) w'"
proof -
  obtain x where x: "db_log (w_audit w') = db_log (w_audit w) @ [x]" "en_Action (au_entry x) = ch_Action ch"
    "eg_jsonb e (if eg_marshal e (ch_Detail ch) = [] then ''{}'' else eg_marshal e (ch_Detail ch)) = Some (en_Detail (au_entry x))"
    using auditInTx_entry [OF AutotaskCommit_audit [OF c] ok(2)] by blast
  have old: "\<exists>y \<in> set (db_log (w_audit w')). opening_entry (eg_jsonb e) (eg_marshal e) r (au_entry y)" if "r \<in> set (w_rows w)" for r
    using ok(1) that by (auto simp: rows_recorded_def x(1))
  show ?thesis
    using commit_rows [OF c]
  proof (cases rule: upsert_cases)
    case (changed r)
    then show ?thesis
      using old by (auto simp: rows_recorded_def)
  next
    case added
    have id: "row_id (stored t) = row_id t" for t
      by (simp add: row_id_def)
    have "opening_entry (eg_jsonb e) (eg_marshal e) (stored (ch_Tracked ch)) (au_entry x)"
      using new added(1) x(2,3) unfolding opening_entry_def id
      by (intro conjI exI [of _ "ch_Tracked ch"] exI [of _ extra] exI [of _ "eg_marshal e (ch_Detail ch)"]) (auto simp: stored_def)
    then show ?thesis
      using old by (auto simp: rows_recorded_def added(2) x(1))
  qed
qed

lemma run_step_ok:
  assumes "run_step e writes w w'" "world_ok writes (eg_jsonb e) (eg_marshal e) ed_sign priv w"
  shows "world_ok writes (eg_jsonb e) (eg_marshal e) ed_sign priv w'"
  using assms(1)
proof cases
  case (request d')
  then show ?thesis
    using assms(2) by (simp add: world_ok_def tickets_once_def rows_recorded_def)
next
  case (ticket d' co base k g n)
  have "(co, title_end (TitleWithTag base (TicketTag k g) n)) \<notin> (\<lambda>(co, t). (co, title_end t)) ` set (tickets_of (writes (w_desk w)))"
    using ticket(3) title_end_Contains by (auto simp: title_end_TitleWithTag)
  then show ?thesis
    using assms(2) ticket(1,2) by (simp add: world_ok_def tickets_once_def rows_recorded_def)
next
  case (added ch extra)
  have "rows_ok (w_rows w')"
    using rows_ok_add [OF _ commit_rows [OF added(1)]] added(2,3) assms(2) by (simp add: world_ok_def)
  moreover have "audit_reachable (eg_jsonb e) ed_sign priv (w_audit w')"
    using audit_reachable.audit [OF _ AutotaskCommit_audit [OF added(1)]] assms(2) by (auto simp: world_ok_def)
  moreover have "jsonb_canonical (eg_jsonb e) \<longrightarrow> rows_recorded (eg_jsonb e) (eg_marshal e) w'"
    using rows_recorded_commit [OF added(1), of extra] added(4,5) assms(2) by (auto simp: world_ok_def)
  ultimately show ?thesis
    using assms(2) commit_desk [OF added(1)] by (simp add: world_ok_def)
next
  case (changed ch)
  have "rows_ok (w_rows w')"
    using rows_ok_change [OF _ commit_rows [OF changed(1)]] changed(2) assms(2) by (simp add: world_ok_def)
  moreover have "audit_reachable (eg_jsonb e) ed_sign priv (w_audit w')"
    using audit_reachable.audit [OF _ AutotaskCommit_audit [OF changed(1)]] assms(2) by (auto simp: world_ok_def)
  moreover have "row_id (ch_Tracked ch) \<in> row_id ` set (w_rows w)"
    using may_change_id [OF changed(2)] by (simp add: row_id_def [of "ch_Tracked ch"])
  then have "jsonb_canonical (eg_jsonb e) \<longrightarrow> rows_recorded (eg_jsonb e) (eg_marshal e) w'"
    using rows_recorded_commit [OF changed(1), of "[]"] assms(2) by (auto simp: world_ok_def)
  ultimately show ?thesis
    using assms(2) commit_desk [OF changed(1)] by (simp add: world_ok_def)
qed

lemma ticket_reachable_ok:
  "ticket_reachable writes jsonb marshal ed_sign priv w \<Longrightarrow> world_ok writes jsonb marshal ed_sign priv w"
proof (induction rule: ticket_reachable.induct)
  case (start d)
  then show ?case
    by (simp add: world_ok_def tickets_once_def rows_ok_def rows_recorded_def audit_reachable.empty)
next
  case (run w e s fs mode out w')
  show ?case
  proof (cases "eg_Desk e")
    case None
    then show ?thesis
      using Run_off [OF None run.hyps(5)] run.IH by simp
  next
    case (Some D)
    then have desk: "ticket_desk D writes"
      using run.hyps(2) by blast
    have "(run_step e writes)\<^sup>*\<^sup>* w w'"
      using ticket_desk.Run_effect [OF desk Some run.hyps(5)] run.IH by (simp add: world_ok_def)
    then show ?thesis
      using run.hyps(3,4) run.IH
    proof (induction rule: rtranclp_induct)
      case (step y z)
      then show ?case
        using run_step_ok [of e writes y z ed_sign priv] by simp
    qed simp
  qed
next
  case (outside w d')
  then show ?case
    by (simp add: world_ok_def rows_recorded_def)
next
  case (audit w now actor action deviceID raw db)
  have "jsonb_canonical jsonb \<longrightarrow> rows_recorded jsonb marshal (w\<lparr>w_audit := db\<rparr>)"
    using auditInTx_entry [OF audit.hyps(2)] audit.IH by (fastforce simp: world_ok_def rows_recorded_def)
  then show ?case
    using audit.IH audit_reachable.audit [OF _ audit.hyps(2)] by (auto simp: world_ok_def)
next
  case (checkpoint w keyID now db c)
  have "db_log db = db_log (w_audit w)"
    using checkpoint.hyps(2) by (auto simp: AppendCheckpoint_def Let_def split: if_splits)
  then show ?case
    using checkpoint.IH audit_reachable.checkpoint [OF _ checkpoint.hyps(2)] by (auto simp: world_ok_def rows_recorded_def)
qed

lemma rows_ok_no_gap:
  assumes ok: "rows_ok rows" and r: "r \<in> set rows" "1 \<le> g" "g \<le> tr_Generation r"
  shows "\<exists>r' \<in> set rows. tr_GroupKey r' = tr_GroupKey r \<and> tr_Generation r' = g"
  using r
proof (induction "nat (tr_Generation r - g)" arbitrary: r)
  case (Suc n)
  obtain r1 where r1: "r1 \<in> set rows" "tr_GroupKey r1 = tr_GroupKey r" "tr_Generation r1 = tr_Generation r - 1"
    using ok Suc.prems Suc.hyps(2) unfolding rows_ok_def by force
  then show ?case
    using Suc.hyps(1) [of r1] Suc.hyps(2) Suc.prems(2) by force
qed force

section \<open>Examples\<close>

text \<open>The service in memory answers every request that is within the budget, if it loses none.\<close>

definition ex_config :: Config where
  "ex_config = \<lparr>cf_MaxRequests = 300, cf_MaxWait = 60 * Second\<rparr>"

definition ex_settings :: Settings where
  "ex_settings = DefaultSettings\<lparr>st_Mode := ModeLive, st_APIUser := ''api'', st_CompanyID := 3001, st_QueueID := ''8'',
     st_Status := ''1'', st_PriorityCritical := ''2'', st_PriorityHigh := ''2'', st_PriorityMedium := ''2'',
     st_NoteType := ''3'', st_NotePublish := ''1''\<rparr>"

definition ex_engine :: "memory client Engine" where
  "ex_engine = \<lparr>eg_Desk = Some (client_desk memory_service ex_config), eg_Now = (\<lambda>_. 0), eg_Actor = ''schedule'',
     eg_DryRunFingerprint = Fingerprint (\<lambda>_. []) ex_settings, eg_encode = (\<lambda>_. []), eg_marshal = (\<lambda>_. ''{}''),
     eg_jsonb = Some, eg_tracked_fails = (\<lambda>_. False), eg_evidence = (\<lambda>_ _. Some (\<lambda>_. None)), eg_commit_fails = (\<lambda>_ _. False)\<rparr>"

definition ex_world :: "bool list \<Rightarrow> memory client world" where
  "ex_world lost = \<lparr>w_desk = \<lparr>cl_sent = 0, cl_net = \<lparr>me_log = [], me_lost = lost\<rparr>\<rparr>, w_rows = [], w_audit = empty_log\<rparr>"

lemma ex_engine_desk: "eg_Desk ex_engine = Some D \<Longrightarrow> ticket_desk D (history me_log)"
  using memory.service.ticket_desk_axioms by (auto simp: ex_engine_def)

definition ex_run :: "bool list \<Rightarrow> memory client world" where
  "ex_run lost = snd (Run ex_engine ex_settings [ex_open_finding] ModeLive (ex_world lost))"

lemma ex_run_reachable: "ticket_reachable (history me_log) Some (\<lambda>_. ''{}'') (\<lambda>_ _. []) () (ex_run lost)"
proof -
  have first: "ticket_reachable (history me_log) Some (\<lambda>_. ''{}'') (\<lambda>_ _. []) () (ex_world lost)"
    unfolding ex_world_def by (rule ticket_reachable.start) (simp add: history_def)
  have encodings: "eg_jsonb ex_engine = Some" "eg_marshal ex_engine = (\<lambda>_. ''{}'')"
    by (simp_all add: ex_engine_def)
  have "Run ex_engine ex_settings [ex_open_finding] ModeLive (ex_world lost) =
      (fst (Run ex_engine ex_settings [ex_open_finding] ModeLive (ex_world lost)), ex_run lost)"
    by (simp add: ex_run_def)
  from ticket_reachable.run [OF first ex_engine_desk encodings this] show ?thesis .
qed

abbreviation mc :: "int \<Rightarrow> Write list \<Rightarrow> memory client" where
  "mc n ws \<equiv> \<lparr>cl_sent = n, cl_net = \<lparr>me_log = ws, me_lost = []\<rparr>\<rparr>"

lemma memory_call:
  assumes "n < 300"
  shows "call memory_service ex_config op_name meth path body idem read (mc n ws) =
    (let rq = \<lparr>rq_method = meth, rq_path = path, rq_body = body\<rparr>;
         ws' = ws @ (case writes_of rq of None \<Rightarrow> [] | Some x \<Rightarrow> [x])
     in (read (memory_reply rq ws'), mc (n + 1) ws'))"
  using assms by (simp add: call_def request_def eval_nat_numeral memory_service_def memory_once_def ex_config_def Let_def
      del: writes_of.simps)

lemma ex_groups: "\<exists>g. BuildGroups [ex_open_finding] ex_settings = [g] \<and> gr_Urgency g = UrgencyCritical"
proof -
  let ?f = ex_open_finding
  have b: "buckets_of [?f] = [(vulnKey ''openssl'', [?f])]"
    by (simp add: buckets_of_def bucket_step_def finding_key_def ex_open_finding_def)
  then have "BuildGroups [?f] ex_settings = [group_of [] (vulnKey ''openssl'', [?f])]"
    by (simp add: BuildGroups_def go_sort_Cons ex_settings_def DefaultSettings_def)
  moreover have "gr_Urgency (group_of [] (vulnKey ''openssl'', [?f])) = vulnUrgency [?f]"
    by (simp add: group_of_def vulnGroup_def Let_def ex_open_finding_def)
  moreover have "vulnUrgency [?f] = UrgencyCritical"
    by (rule vulnUrgency_KEV [of ?f]) (simp_all add: ex_open_finding_def)
  ultimately show ?thesis
    by simp
qed

lemma ex_preflight: "preflight (client_desk memory_service ex_config) ex_settings res (mc 0 []) =
  ((tf, nf, why, res'), d) \<Longrightarrow> why = [] \<and> d = mc 4 []"
  by (simp add: preflight_def client_desk_def GetThreshold_def GetCompany_def TicketFields_def NoteFields_def get_fields_def
      memory_call Let_def memory_reply_def pick_def CheckAgainst_def check_pick_def HasActive_def Active_def field_at_def
      ex_settings_def DefaultSettings_def upd_assoc.simps)


lemma ex_desk: "eg_Desk ex_engine = Some (client_desk memory_service ex_config)"
  by (simp add: ex_engine_def)

lemma ex_start: "w_desk (ex_world []) = mc 0 []"
  by (simp add: ex_world_def)

lemma ex_read: "read_autotask ex_engine ex_settings True [] res (ex_world []) = ((vo, res'), w') \<Longrightarrow>
  \<exists>v. vo = Some v \<and> v_live v \<and> v_set v = ex_settings \<and> w' = (ex_world [])\<lparr>w_desk := mc 4 []\<rparr>"
proof -
  assume r: "read_autotask ex_engine ex_settings True [] res (ex_world []) = ((vo, res'), w')"
  obtain tf nf why res1 d where p: "preflight (client_desk memory_service ex_config) ex_settings res (mc 0 []) = ((tf, nf, why, res1), d)"
    by (metis surj_pair)
  note ok = ex_preflight [OF p]
  then show ?thesis
    using r p ok unfolding read_autotask_def Let_def
    by (clarsimp simp: ex_desk ex_start)
qed

lemma ex_decide:
  assumes "gr_Urgency g = UrgencyCritical" "v_set v = ex_settings"
  shows "fst (decide [g] [] v) = [new_plan (PlanOp OpCreate) g None 1]"
proof -
  have "qualifies v g"
    by (simp add: qualifies_def assms ex_settings_def DefaultSettings_def Priority_def urgency_defs UrgencyRank_def)
  then have dg: "decide_group v [] g = (Some (new_plan (PlanOp OpCreate) g None 1), [], False)"
    by (simp add: decide_group_def)
  have one: "go_sort lt [x] = [x]" for lt :: "plan \<Rightarrow> plan \<Rightarrow> bool" and x
    by (simp add: go_sort_Cons)
  show ?thesis
    by (simp add: decide_def dg one List.map_filter_def Let_def)
qed

lemma ex_create:
  assumes "v_live v" "v_set v = ex_settings" "pl_kind p = PlanOp OpCreate"
    and "w = (ex_world [])\<lparr>w_desk := mc 4 []\<rparr>"
  shows "tickets_of (history me_log (w_desk (snd (doCreate ex_engine p v w)))) =
    [(3001, TitleWithTag (gr_Title (pl_group p)) (TicketTag (gr_Key (pl_group p)) (pl_gen p)) (v_titleMax v))]"
proof -
  have op: "op_Tag (createOp p v) = TicketTag (gr_Key (pl_group p)) (pl_gen p)"
    by (simp add: createOp_def Let_def)
  have tag: "TrimSpace (TicketTag (gr_Key (pl_group p)) (pl_gen p)) \<noteq> []"
  proof -
    have "dropWhile is_space (TicketTag (gr_Key (pl_group p)) (pl_gen p)) = TicketTag (gr_Key (pl_group p)) (pl_gen p)"
      by (simp add: TicketTag_def is_space_def)
    moreover have "CHR ''D'' \<in> set (TicketTag (gr_Key (pl_group p)) (pl_gen p))" "\<not> is_space (CHR ''D'')"
      by (simp_all add: TicketTag_def is_space_def)
    ultimately show ?thesis
      by (auto simp: TrimSpace_def dropWhile_eq_Nil_conv)
  qed
  show ?thesis
    using assms op tag
    by (auto simp: doCreate_def ex_engine_def client_desk_def FindTickets_def memory_call Let_def memory_reply_def ex_world_def
      create_new_def CreateTicket_def GetTickets_def payload_def ex_settings_def DefaultSettings_def history_def commit_change_def
      dest: commit_desk split: option.splits prod.splits)
qed


text \<open>So the model gets somewhere: the run of the example opens one ticket.\<close>

lemma ex_run_opens: "\<exists>title. tickets_of (history me_log (w_desk (ex_run []))) = [(3001, title)]"
proof -
  let ?r = "Run ex_engine ex_settings [ex_open_finding] ModeLive (ex_world [])"
  obtain g where g: "BuildGroups [ex_open_finding] ex_settings = [g]" "gr_Urgency g = UrgencyCritical"
    using ex_groups by blast
  have latest: "latest_of (AutotaskTracked (ex_world [])) = []"
    by (simp add: latest_of_def AutotaskTracked_def ex_world_def)
  let ?fp = "Fingerprint (\<lambda>_. []) ex_settings"
  let ?res = "(new_result ModeLive ?fp)\<lparr>rs_Groups := 1\<rparr>"
  obtain vo res1 w1 where r: "read_autotask ex_engine ex_settings True [] ?res (ex_world []) = ((vo, res1), w1)"
    by (metis surj_pair)
  from ex_read [OF r] obtain v where v: "vo = Some v" "v_live v" "v_set v = ex_settings"
    "w1 = (ex_world [])\<lparr>w_desk := mc 4 []\<rparr>"
    by blast
  let ?p = "new_plan (PlanOp OpCreate) g None 1"
  obtain vanished below where d: "decide [g] [] v = ([?p], vanished, below)"
    using ex_decide [OF g(2) v(3)] by (metis prod.exhaust_sel)
  obtain ops fatal w2 where c: "doCreate ex_engine ?p v w1 = ((ops, fatal), w2)"
    by (metis surj_pair)
  have gate: "st_Mode ex_settings = ModeLive" "Missing ex_settings = []" "eg_DryRunFingerprint ex_engine = ?fp"
    "eg_encode ex_engine = (\<lambda>_. [])" "\<And>d. \<not> eg_tracked_fails ex_engine d" "\<And>d ks. eg_evidence ex_engine d ks = Some (\<lambda>_. None)"
    by (simp_all add: ex_settings_def DefaultSettings_def Missing_def ex_engine_def)
  have fin: "finish_plan ev v ?p = ?p" for ev
    by (simp add: finish_plan_def new_plan_def)
  have "execute ex_engine v 0 0 [] [?p] w1 = (ops, w2)"
    using c by (simp add: v(3) ex_settings_def DefaultSettings_def DefaultMaxCreates_def new_plan_def)
  moreover have "pl_kind ?p = PlanOp OpCreate"
    by (simp add: new_plan_def)
  ultimately have "snd ?r = w2"
    unfolding Run_def Let_def
    using r d by (simp add: gate g(1) latest ex_desk v(1) fin ModeLive_def ModeDryRun_def del: execute.simps)
  moreover have "\<exists>title. tickets_of (history me_log (w_desk w2)) = [(3001, title)]"
    using ex_create [OF v(2,3) _ v(4), of ?p] c by (simp add: new_plan_def)
  ultimately show ?thesis
    by (simp add: ex_run_def)
qed

section \<open>Properties\<close>

text \<open>C32: A run writes nothing (to Autotask, to the followed tickets, to the audit log) unless it
  is a live run of complete, live settings that a dry run has shown: the same fingerprint, and a
  desk that is connected.\<close>

theorem Run_gate:
  assumes "\<And>D. eg_Desk e = Some D \<Longrightarrow> ticket_desk D writes"
    and "Run e s fs mode w = (out, w')"
    and "\<not> (mode = ModeLive \<and> st_Mode s = ModeLive \<and> eg_DryRunFingerprint e = Fingerprint (eg_encode e) s \<and>
      eg_Desk e \<noteq> None \<and> Missing s = [])"
  shows "w_rows w' = w_rows w \<and> w_audit w' = w_audit w \<and> writes (w_desk w') = writes (w_desk w)"
proof (cases "eg_Desk e")
  case None
  then show ?thesis
    using Run_off [OF None assms(2)] by simp
next
  case (Some D)
  have "\<not> (mode = ModeLive \<and> gate_open e s \<and> Missing s = [])"
    using assms(3) by (auto simp: gate_open_def)
  then show ?thesis
    by (rule ticket_desk.Run_dry [OF assms(1) [OF Some] Some assms(2)])
qed

theorem Run_gate_witness:
  "w_rows (snd (Run ex_engine ex_settings [ex_open_finding] ModeDryRun (ex_world []))) = []"
proof -
  let ?r = "Run ex_engine ex_settings [ex_open_finding] ModeDryRun (ex_world [])"
  have "?r = (fst ?r, snd ?r)"
    by simp
  from Run_gate [where e = ex_engine, OF ex_engine_desk this] show ?thesis
    by (simp add: ModeDryRun_def ModeLive_def ex_world_def)
qed

text \<open>C33: No second ticket: whatever answers are lost, whatever commits fail and however often runs
  are repeated, Autotask never carries out two creates of a company for one action and
  generation. The tag at the end of a title tells them apart.\<close>

theorem ticket_tags_once:
  assumes "ticket_reachable writes jsonb marshal ed_sign priv w"
  shows "distinct (map (\<lambda>(co, t). (co, title_end t)) (tickets_of (writes (w_desk w))))"
  using ticket_reachable_ok [OF assms] by (simp add: world_ok_def tickets_once_def)

theorem ticket_tags_once_witness:
  "distinct (map (\<lambda>(co, t). (co, title_end t)) (tickets_of (history me_log (w_desk (ex_run []))))) \<and>
   tickets_of (history me_log (w_desk (ex_run []))) \<noteq> []"
  using ticket_tags_once [OF ex_run_reachable, of "[]"] ex_run_opens by auto

text \<open>C34: The table of followed tickets: one row for an action and generation, with the tag made
  from them; the generations of an action count up from one without gaps; and only the newest
  can be open.\<close>

theorem tracked_rows_sound:
  assumes "ticket_reachable writes jsonb marshal ed_sign priv w"
  shows "distinct (map (\<lambda>r. (tr_GroupKey r, tr_Generation r)) (w_rows w)) \<and>
    (\<forall>r \<in> set (w_rows w). tr_Tag r = TicketTag (tr_GroupKey r) (tr_Generation r) \<and> 1 \<le> tr_Generation r \<and>
       (\<forall>g. 1 \<le> g \<and> g \<le> tr_Generation r \<longrightarrow> (\<exists>r' \<in> set (w_rows w). tr_GroupKey r' = tr_GroupKey r \<and> tr_Generation r' = g)) \<and>
       (tr_State r = StateOpen \<longrightarrow>
          (\<forall>r' \<in> set (w_rows w). tr_GroupKey r' = tr_GroupKey r \<longrightarrow> tr_Generation r' \<le> tr_Generation r)))"
proof -
  have ok: "rows_ok (w_rows w)"
    using ticket_reachable_ok [OF assms] by (simp add: world_ok_def)
  have "\<exists>r' \<in> set (w_rows w). tr_GroupKey r' = tr_GroupKey r \<and> tr_Generation r' = g"
    if "r \<in> set (w_rows w)" "1 \<le> g" "g \<le> tr_Generation r" for r g
    using rows_ok_no_gap [OF ok that] .
  moreover have "map row_id (w_rows w) = map (\<lambda>r. (tr_GroupKey r, tr_Generation r)) (w_rows w)"
    by (simp add: row_id_def)
  then have "distinct (map (\<lambda>r. (tr_GroupKey r, tr_Generation r)) (w_rows w))"
    using ok unfolding rows_ok_def by metis
  ultimately show ?thesis
    using ok unfolding rows_ok_def by simp
qed

theorem tracked_rows_sound_witness:
  "distinct (map (\<lambda>r. (tr_GroupKey r, tr_Generation r)) (w_rows (ex_run [])))"
  using tracked_rows_sound [OF ex_run_reachable, of "[]"] by blast



text \<open>C36: What one run may send is bounded: at most as many new tickets as the settings allow, and
  sixty notes.\<close>

theorem Run_bounds:
  assumes "ticket_reachable writes jsonb marshal ed_sign priv w" "eg_Desk e = Some D" "ticket_desk D writes"
    and "Run e s fs mode w = (out, w')"
  shows "length (tickets_of (writes (w_desk w'))) \<le> length (tickets_of (writes (w_desk w))) + nat (st_MaxCreates s) \<and>
    length (notes_of (writes (w_desk w'))) \<le> length (notes_of (writes (w_desk w))) + 60"
proof -
  have "rows_ok (w_rows w)"
    using ticket_reachable_ok [OF assms(1)] by (simp add: world_ok_def)
  then show ?thesis
    using ticket_desk.Run_effect [OF assms(3,2,4)] by (simp add: MaxNotesPerRun_def)
qed

theorem Run_bounds_witness:
  "length (tickets_of (history me_log (w_desk (ex_run [])))) \<le> 10"
proof -
  let ?r = "Run ex_engine ex_settings [ex_open_finding] ModeLive (ex_world [])"
  have run: "?r = (fst ?r, ex_run [])"
    by (simp add: ex_run_def)
  have start: "ticket_reachable (history me_log) Some (\<lambda>_. ''{}'') (\<lambda>_ _. []) () (ex_world [])"
    unfolding ex_world_def by (rule ticket_reachable.start) (simp add: history_def)
  have desk: "eg_Desk ex_engine = Some (client_desk memory_service ex_config)"
    by (simp add: ex_engine_def)
  show ?thesis
    using Run_bounds [OF start desk ex_engine_desk [OF desk] run]
    by (simp add: ex_world_def history_def ex_settings_def DefaultSettings_def DefaultMaxCreates_def)
qed

end
