(* ===== verification/Go_Hmac.thy ===== *)
theory Go_Hmac
  imports Go_Encoding
begin

unbundle bit_operations_syntax

text \<open>
  The parts of the Go standard library that package identity builds on: SHA-1, HMAC and PBKDF2
  (FIPS 180-4, RFC 2104, RFC 8018), the unpadded encodings of encoding/base32 and
  encoding/base64, and the integer verbs of \<open>fmt.Sscanf\<close>. The definitions compute: the test
  vectors of RFC 4226 are evaluated in the theory that uses them.
\<close>

section \<open>SHA-1\<close>

definition rotl :: "nat \<Rightarrow> w32 \<Rightarrow> w32" where
  "rotl n x = push_bit n x OR drop_bit (32 - n) x"

definition sha1_H0 :: "w32 list" where
  "sha1_H0 = [0x67452301, 0xEFCDAB89, 0x98BADCFE, 0x10325476, 0xC3D2E1F0]"

text \<open>The schedule, newest word first.\<close>

fun extend1 :: "nat \<Rightarrow> w32 list \<Rightarrow> w32 list" where
  "extend1 0 ws = ws"
| "extend1 (Suc n) ws = extend1 n (rotl 1 (ws ! 2 XOR ws ! 7 XOR ws ! 13 XOR ws ! 15) # ws)"

definition sha1_f :: "nat \<Rightarrow> w32 \<Rightarrow> w32 \<Rightarrow> w32 \<Rightarrow> w32 \<times> w32" where
  "sha1_f i b c d =
     (if i < 20 then (sha_ch b c d, 0x5A827999)
      else if i < 40 then (b XOR c XOR d, 0x6ED9EBA1)
      else if i < 60 then (sha_maj b c d, 0x8F1BBCDC)
      else (b XOR c XOR d, 0xCA62C1D6))"

fun sha1_round :: "w32 list \<Rightarrow> nat \<times> w32 \<Rightarrow> w32 list" where
  "sha1_round [a, b, c, d, e] (i, w) =
     (case sha1_f i b c d of (f, k) \<Rightarrow> [rotl 5 a + f + e + k + w, a, rotl 30 b, c, d])"
| "sha1_round s iw = s"

definition compress1 :: "w32 list \<Rightarrow> w32 list \<Rightarrow> w32 list" where
  "compress1 s block = map2 (+) s (foldl sha1_round s (zip [0..<80] (rev (extend1 64 (rev block)))))"

definition Sum1 :: "string \<Rightarrow> string" where
  "Sum1 m = concat (map word_bytes (foldl compress1 sha1_H0 (sha_blocks m)))"

lemma length_Sum1 [simp]: "length (Sum1 m) = 20"
proof -
  have round: "length (sha1_round s iw) = length s" for s iw
    by (cases "(s, iw)" rule: sha1_round.cases) (simp_all add: sha1_f_def)
  have rounds: "length (foldl sha1_round s iws) = length s" for s iws
    by (induction iws rule: rev_induct) (simp_all add: round)
  have "length (foldl compress1 sha1_H0 bs) = 5" for bs
    by (induction bs rule: rev_induct) (simp_all add: compress1_def rounds sha1_H0_def)
  then show ?thesis
    by (simp add: Sum1_def length_concat word_bytes_def o_def sum_list_triv)
qed

section \<open>HMAC and PBKDF2\<close>

text \<open>HMAC for a hash with blocks of 64 bytes, which SHA-1 and SHA-256 have.\<close>

definition xor_byte :: "nat \<Rightarrow> char \<Rightarrow> char" where
  "xor_byte n c = char_of (byte c XOR n)"

definition hmac_key :: "(string \<Rightarrow> string) \<Rightarrow> string \<Rightarrow> string" where
  "hmac_key H key =
     (let k = (if 64 < length key then H key else key)
      in k @ replicate (64 - length k) (char_of (0 :: nat)))"

definition Hmac :: "(string \<Rightarrow> string) \<Rightarrow> string \<Rightarrow> string \<Rightarrow> string" where
  "Hmac H key m =
     (let k = hmac_key H key
      in H (map (xor_byte 92) k @ H (map (xor_byte 54) k @ m)))"

lemma length_Hmac [simp]: "length (Hmac Sum1 key m) = 20" "length (Hmac Sum256 key m) = 32"
  by (simp_all add: Hmac_def Let_def)

definition xor_bytes :: "string \<Rightarrow> string \<Rightarrow> string" where
  "xor_bytes a b = map2 (\<lambda>x y. xor_byte (byte y) x) a b"

text \<open>The exclusive or of \<open>n\<close> further iterations of the PRF after \<open>u\<close>.\<close>

fun pbkdf2_iter :: "(string \<Rightarrow> string) \<Rightarrow> nat \<Rightarrow> string \<Rightarrow> string \<Rightarrow> string" where
  "pbkdf2_iter prf 0 u t = t"
| "pbkdf2_iter prf (Suc n) u t = (let u' = prf u in pbkdf2_iter prf n u' (xor_bytes t u'))"

definition pbkdf2_block :: "string \<Rightarrow> string \<Rightarrow> nat \<Rightarrow> nat \<Rightarrow> string" where
  "pbkdf2_block password salt iterations i =
     (let prf = Hmac Sum256 password;
          u = prf (salt @ be_bytes 4 (of_nat i :: 32 word))
      in pbkdf2_iter prf (iterations - 1) u u)"

definition Pbkdf2 :: "string \<Rightarrow> string \<Rightarrow> nat \<Rightarrow> nat \<Rightarrow> string" where
  "Pbkdf2 password salt iterations keyLength =
     take keyLength (concat (map (pbkdf2_block password salt iterations) [1..<Suc ((keyLength + 31) div 32)]))"

lemma length_pbkdf2_iter: "(\<And>u. length (prf u) = 32) \<Longrightarrow> length t = 32 \<Longrightarrow> length (pbkdf2_iter prf n u t) = 32"
  by (induction n arbitrary: u t) (simp_all add: Let_def xor_bytes_def)

lemma length_Pbkdf2 [simp]: "length (Pbkdf2 password salt iterations keyLength) = keyLength"
proof -
  have "length (pbkdf2_block password salt iterations i) = 32" for i
    by (simp add: pbkdf2_block_def Let_def length_pbkdf2_iter)
  moreover have "keyLength \<le> 32 * ((keyLength + 31) div 32)"
    by arith
  ultimately show ?thesis
    by (auto simp: Pbkdf2_def length_concat o_def sum_list_triv)
qed

section \<open>Package encoding/base32, without padding\<close>

definition b32_char :: "nat \<Rightarrow> char" where
  "b32_char n = (if n < 26 then char_of (65 + n) else char_of (24 + n))"

definition b32_val :: "char \<Rightarrow> nat option" where
  "b32_val c =
     (if 65 \<le> byte c \<and> byte c \<le> 90 then Some (byte c - 65)
      else if 50 \<le> byte c \<and> byte c \<le> 55 then Some (byte c - 24) else None)"

definition bits_of :: "nat \<Rightarrow> nat \<Rightarrow> bool list" where
  "bits_of k n = map (\<lambda>i. odd (n div 2 ^ (k - 1 - i))) [0..<k]"

definition bits_val :: "bool list \<Rightarrow> nat" where
  "bits_val bs = foldl (\<lambda>n b. 2 * n + (if b then 1 else 0)) 0 bs"

text \<open>Encoding: groups of five bits, the last filled up with zeros.\<close>

fun b32_groups :: "bool list \<Rightarrow> string" where
  "b32_groups (b0 # b1 # b2 # b3 # b4 # bs) = b32_char (bits_val [b0, b1, b2, b3, b4]) # b32_groups bs"
| "b32_groups [] = []"
| "b32_groups bs = [b32_char (bits_val (bs @ replicate (5 - length bs) False))]"

definition Base32 :: "string \<Rightarrow> string" where
  "Base32 s = b32_groups (concat (map (\<lambda>c. bits_of 8 (byte c)) s))"

text \<open>One quantum of at most eight values; a quantum of one, three or six values gives no byte,
  which is what the switch of the decoder does without padding.\<close>

definition b32_quantum :: "nat list \<Rightarrow> string" where
  "b32_quantum vs =
     (let bs = concat (map (bits_of 5) vs);
          n = (if length vs \<in> {2, 4, 5, 7, 8} then 5 * length vs div 8 else 0)
      in map (\<lambda>i. char_of (bits_val (take 8 (drop (8 * i) bs)))) [0..<n])"

definition DecodeBase32 :: "string \<Rightarrow> string option" where
  "DecodeBase32 s =
     (let cs = filter (\<lambda>c. c \<noteq> CHR 0x0D \<and> c \<noteq> newline) s;
          vs = List.map_filter b32_val cs
      in if list_all (\<lambda>c. b32_val c \<noteq> None) cs
         then Some (concat (map b32_quantum (chunks 8 ((length vs + 7) div 8) vs))) else None)"

section \<open>Package encoding/base64, without padding\<close>

fun RawBase64 :: "string \<Rightarrow> string" where
  "RawBase64 [] = []"
| "RawBase64 [a] = [b64_char (byte a div 4), b64_char (byte a mod 4 * 16)]"
| "RawBase64 [a, b] =
     [b64_char (byte a div 4), b64_char (byte a mod 4 * 16 + byte b div 16), b64_char (byte b mod 16 * 4)]"
| "RawBase64 (a # b # c # s) =
     [b64_char (byte a div 4), b64_char (byte a mod 4 * 16 + byte b div 16),
      b64_char (byte b mod 16 * 4 + byte c div 64), b64_char (byte c mod 64)] @ RawBase64 s"

fun raw_quads :: "string \<Rightarrow> string option" where
  "raw_quads [] = Some []"
| "raw_quads [a] = None"
| "raw_quads [a, b] =
     (case (b64_val a, b64_val b) of (Some x, Some y) \<Rightarrow> Some [char_of (x * 4 + y div 16)] | _ \<Rightarrow> None)"
| "raw_quads [a, b, c] =
     (case (b64_val a, b64_val b, b64_val c) of
        (Some x, Some y, Some z) \<Rightarrow> Some [char_of (x * 4 + y div 16), char_of (y mod 16 * 16 + z div 4)]
      | _ \<Rightarrow> None)"
| "raw_quads (a # b # c # d # s) =
     (case (b64_val a, b64_val b, b64_val c, b64_val d) of
        (Some x, Some y, Some z, Some w) \<Rightarrow>
          map_option (\<lambda>r. [char_of (x * 4 + y div 16), char_of (y mod 16 * 16 + z div 4), char_of (z mod 4 * 64 + w)] @ r)
            (raw_quads s)
      | _ \<Rightarrow> None)"

definition RawDecode :: "string \<Rightarrow> string option" where
  "RawDecode s = raw_quads (filter (\<lambda>c. c \<noteq> CHR 0x0D \<and> c \<noteq> newline) s)"

lemma filter_RawBase64: "filter (\<lambda>c. c \<noteq> CHR 0x0D \<and> c \<noteq> newline) (RawBase64 s) = RawBase64 s"
  by (induction s rule: RawBase64.induct) (simp_all add: b64_char_not_special byte_parts)

lemma raw_quads_RawBase64: "raw_quads (RawBase64 s) = Some s"
  by (induction s rule: RawBase64.induct) (simp_all add: b64_val_char byte_parts byte_divs)

lemma RawDecode_RawBase64 [simp]: "RawDecode (RawBase64 s) = Some s"
  by (simp add: RawDecode_def filter_RawBase64 raw_quads_RawBase64)

text \<open>The URL alphabet writes the last two digits as \<open>-\<close> and \<open>_\<close>.\<close>

definition RawURLBase64 :: "string \<Rightarrow> string" where
  "RawURLBase64 s =
     map (\<lambda>c. if c = CHR ''+'' then CHR ''-'' else if c = CHR ''/'' then CHR ''_'' else c) (RawBase64 s)"

lemma dollar_RawBase64: "CHR ''$'' \<notin> set (RawBase64 s)"
proof -
  have "b64_char n \<noteq> CHR ''$''" if "n < 64" for n
    using b64_val_char [OF that] by (auto simp: b64_val_def)
  then show ?thesis
    by (induction s rule: RawBase64.induct) (auto simp: byte_parts dest: sym)
qed

section \<open>The integer verbs of Sscanf\<close>

text \<open>\<open>%d\<close> skips spaces but not a newline, reads the longest run of digits, and fails if there
  is none or if the value does not fit; what follows the last verb is not looked at.\<close>

definition scan_number :: "string \<Rightarrow> (nat \<times> string) option" where
  "scan_number s =
     (let ds = takeWhile isASCIIDigit s
      in if ds = [] then None else Some (digits_val ds, dropWhile isASCIIDigit s))"

definition skip_space :: "string \<Rightarrow> string" where
  "skip_space s = dropWhile (\<lambda>c. is_space c \<and> c \<noteq> newline) s"

definition ScanInt :: "string \<Rightarrow> (int \<times> string) option" where
  "ScanInt s =
     (let r = skip_space s;
          neg = HasPrefix r ''-'';
          r' = (if neg \<or> HasPrefix r ''+'' then tl r else r)
      in case scan_number r' of
           None \<Rightarrow> None
         | Some (n, rest) \<Rightarrow>
             let v = (if neg then - int n else int n)
             in if min_int64 \<le> v \<and> v \<le> max_int64 then Some (v, rest) else None)"

definition ScanUint :: "nat \<Rightarrow> string \<Rightarrow> (nat \<times> string) option" where
  "ScanUint bits s =
     (case scan_number (skip_space s) of
        None \<Rightarrow> None
      | Some (n, rest) \<Rightarrow> if n < 2 ^ bits then Some (n, rest) else None)"

definition scan_literal :: "string \<Rightarrow> string \<Rightarrow> string option" where
  "scan_literal p s = (if HasPrefix s p then Some (drop (length p) s) else None)"

lemma takeWhile_digits:
  "rest = [] \<or> \<not> isASCIIDigit (hd rest) \<Longrightarrow>
   takeWhile isASCIIDigit (itoa_nat n @ rest) = itoa_nat n \<and> dropWhile isASCIIDigit (itoa_nat n @ rest) = rest"
  using isDigits_itoa_nat [of n]
  by (cases rest) (simp_all add: isDigits_def list_all_iff takeWhile_append2 dropWhile_append2)

lemma skip_space_itoa [simp]: "skip_space (itoa_nat n @ rest) = itoa_nat n @ rest"
proof -
  have "itoa_nat n \<noteq> []" "list_all isASCIIDigit (itoa_nat n)"
    using isDigits_itoa_nat [of n] by (simp_all add: isDigits_def)
  then show ?thesis
    by (cases "itoa_nat n") (auto simp: skip_space_def is_space_def isASCIIDigit_def)
qed

lemma scan_number_itoa:
  "rest = [] \<or> \<not> isASCIIDigit (hd rest) \<Longrightarrow> scan_number (itoa_nat n @ rest) = Some (n, rest)"
  using isDigits_itoa_nat [of n] by (simp add: scan_number_def takeWhile_digits isDigits_def Let_def)

lemma ScanUint_itoa:
  "rest = [] \<or> \<not> isASCIIDigit (hd rest) \<Longrightarrow> n < 2 ^ bits \<Longrightarrow> ScanUint bits (itoa_nat n @ rest) = Some (n, rest)"
  by (simp add: ScanUint_def scan_number_itoa)

lemma ScanInt_itoa:
  assumes "rest = [] \<or> \<not> isASCIIDigit (hd rest)" "int n \<le> max_int64"
  shows "ScanInt (itoa_nat n @ rest) = Some (int n, rest)"
proof -
  obtain c s where cs: "itoa_nat n = c # s" "isASCIIDigit c"
    using isDigits_itoa_nat [of n] by (cases "itoa_nat n") (auto simp: isDigits_def)
  then have "\<not> HasPrefix (itoa_nat n @ rest) ''-''" "\<not> HasPrefix (itoa_nat n @ rest) ''+''"
    by (auto simp: HasPrefix_def isASCIIDigit_def)
  then show ?thesis
    using assms by (simp add: ScanInt_def Let_def scan_number_itoa min_int64_def)
qed

lemma scan_literal_append [simp]: "scan_literal p (p @ s) = Some s"
  by (simp add: scan_literal_def HasPrefix_def)

end
