(* ===== verification/Identity.thy ===== *)
theory Identity
  imports Go_Hmac Go_Time
begin

unbundle bit_operations_syntax

text \<open>
  Package internal/identity: roles, accounts and sessions (session.go), passwords (password.go,
  fips.go) and one-time codes (totp.go). Argon2id is golang.org/x/crypto and an argument
  (\<open>argon2 password salt time memory threads keyLength\<close>); HMAC-SHA1 and PBKDF2 are the standard
  library's (theory Go_Hmac). Random bytes, the FIPS mode of the Go module and the environment
  variable are arguments; a failing random source is \<open>None\<close>. Names are ASCII and texts valid
  UTF-8, which decoding JSON ensures; a zero time is \<open>None\<close>.
\<close>

section \<open>Accounts and sessions\<close>

definition RoleAdmin :: string where "RoleAdmin = ''admin''"
definition RoleViewer :: string where "RoleViewer = ''viewer''"

definition ValidRole :: "string \<Rightarrow> bool" where
  "ValidRole role \<longleftrightarrow> role = RoleAdmin \<or> role = RoleViewer"

definition SessionTTL :: duration where "SessionTTL = 12 * Hour"

definition MaxFailedAttempts :: int where "MaxFailedAttempts = 8"
definition LockoutDuration :: duration where "LockoutDuration = 15 * Minute"

record User =
  us_ID :: string
  us_Username :: string
  us_DisplayName :: string
  us_Role :: string
  us_Disabled :: bool
  us_TOTPEnabled :: bool
  us_CreatedAt :: time
  us_LastLoginAt :: "time option"
  us_PasswordHash :: string
  us_TOTPSecret :: string
  us_TOTPLastCounter :: int
  us_FailedAttempts :: int
  us_LockedUntil :: "time option"

definition Locked :: "User \<Rightarrow> time \<Rightarrow> bool" where
  "Locked u now = (case us_LockedUntil u of None \<Rightarrow> False | Some t \<Rightarrow> Before now t)"

record Session =
  se_TokenHash :: string
  se_UserID :: string
  se_CreatedAt :: time
  se_ExpiresAt :: time
  se_Attributed :: bool

text \<open>An expiry time is stored with every session, so \<open>ExpiresAt\<close> is never the zero time.\<close>

definition Expired :: "Session \<Rightarrow> time \<Rightarrow> bool" where
  "Expired s now \<longleftrightarrow> After now (se_ExpiresAt s)"

definition HashSessionToken :: "string \<Rightarrow> string" where
  "HashSessionToken token = EncodeToString (Sum256 token)"

definition NewSessionToken :: "string option \<Rightarrow> (string \<times> string) option" where
  "NewSessionToken rnd =
     (case rnd of
        None \<Rightarrow> None
      | Some raw \<Rightarrow> (let token = RawURLBase64 raw in Some (token, HashSessionToken token)))"

definition ActorIdentity :: "User option \<Rightarrow> bool \<Rightarrow> string" where
  "ActorIdentity u attributed =
     (case u of
        None \<Rightarrow> ''unattributed:shared-bootstrap-token''
      | Some v \<Rightarrow> if \<not> attributed then ''unattributed:shared-bootstrap-token'' else ''user:'' @ us_Username v)"

definition NormalizeUsername :: "string \<Rightarrow> string" where
  "NormalizeUsername name = ToLower (TrimSpace name)"

definition username_char :: "char \<Rightarrow> bool" where
  "username_char c \<longleftrightarrow>
     97 \<le> byte c \<and> byte c \<le> 122 \<or> isASCIIDigit c \<or> c \<in> {CHR ''.'', CHR ''-'', CHR ''_'', CHR 0x40}"

definition ValidUsername :: "string \<Rightarrow> string option" where
  "ValidUsername name =
     (if length name < 2 \<or> length name > 64 then Some ''username must be between 2 and 64 characters''
      else if \<not> list_all username_char name then
        Some (''username may only contain lowercase letters, digits, and . - _ '' @ [CHR 0x40])
      else None)"

definition MinPasswordLength :: nat where "MinPasswordLength = 12"

definition rune_count :: "string \<Rightarrow> nat" where
  "rune_count s = length (filter (\<lambda>c. \<not> (128 \<le> byte c \<and> byte c < 192)) s)"

definition ValidPassword :: "string \<Rightarrow> string option" where
  "ValidPassword password =
     (if rune_count password < MinPasswordLength then Some ''password must be at least 12 characters''
      else if length password > 1024 then Some ''password must be at most 1024 bytes''
      else None)"

section \<open>Passwords\<close>

datatype KDF = KDFArgon2id | KDFPBKDF2

definition fipsRequired :: "bool \<Rightarrow> string \<Rightarrow> bool" where
  "fipsRequired enabled fips_env \<longleftrightarrow>
     enabled \<or> ToLower (TrimSpace fips_env) \<in> {''1'', ''true'', ''yes'', ''on'', ''only''}"

definition ActiveKDF :: "bool \<Rightarrow> KDF" where
  "ActiveKDF fips = (if fips then KDFPBKDF2 else KDFArgon2id)"

definition argonMemoryKiB :: nat where "argonMemoryKiB = 64 * 1024"
definition argonTime :: nat where "argonTime = 1"
definition argonThreads :: nat where "argonThreads = 4"
definition argonKeyLength :: nat where "argonKeyLength = 32"
definition pbkdf2Iterations :: nat where "pbkdf2Iterations = 600000"
definition pbkdf2KeyLength :: nat where "pbkdf2KeyLength = 32"

text \<open>\<open>argon2.Version\<close>, which the code quotes in its comment on the format.\<close>

definition argon2_Version :: nat where "argon2_Version = 19"

type_synonym argon = "string \<Rightarrow> string \<Rightarrow> nat \<Rightarrow> nat \<Rightarrow> nat \<Rightarrow> nat \<Rightarrow> string"

definition encodePBKDF2 :: "string \<Rightarrow> string \<Rightarrow> nat \<Rightarrow> string" where
  "encodePBKDF2 password salt iterations =
     ''$pbkdf2-sha256$i='' @ itoa_nat iterations @ ''$'' @ RawBase64 salt @ ''$'' @
     RawBase64 (Pbkdf2 password salt iterations pbkdf2KeyLength)"

definition encodeHash :: "argon \<Rightarrow> string \<Rightarrow> string \<Rightarrow> nat \<Rightarrow> nat \<Rightarrow> nat \<Rightarrow> string" where
  "encodeHash argon2 password salt memory timeCost threads =
     ''$argon2id$v='' @ itoa_nat argon2_Version @ ''$m='' @ itoa_nat memory @ '',t='' @ itoa_nat timeCost @
     '',p='' @ itoa_nat threads @ ''$'' @ RawBase64 salt @ ''$'' @
     RawBase64 (argon2 password salt timeCost memory threads argonKeyLength)"

text \<open>\<open>salt\<close> is what the random source gives, sixteen bytes for both algorithms.\<close>

definition HashPassword :: "argon \<Rightarrow> bool \<Rightarrow> string option \<Rightarrow> string \<Rightarrow> string option" where
  "HashPassword argon2 fips salt password =
     (if password = [] then None
      else case salt of
        None \<Rightarrow> None
      | Some s \<Rightarrow>
          if ActiveKDF fips = KDFPBKDF2 then Some (encodePBKDF2 password s pbkdf2Iterations)
          else Some (encodeHash argon2 password s argonMemoryKiB argonTime argonThreads))"

definition verifyPBKDF2 :: "string \<Rightarrow> string list \<Rightarrow> bool" where
  "verifyPBKDF2 password parts =
     (if length parts \<noteq> 5 then False
      else case Option.bind (scan_literal ''i='' (parts ! 2)) ScanInt of
        None \<Rightarrow> False
      | Some (iterations, _) \<Rightarrow>
          if iterations \<le> 0 then False
          else case RawDecode (parts ! 3) of
            None \<Rightarrow> False
          | Some salt \<Rightarrow>
              if salt = [] then False
              else case RawDecode (parts ! 4) of
                None \<Rightarrow> False
              | Some want \<Rightarrow>
                  if want = [] then False else Pbkdf2 password salt (nat iterations) (length want) = want)"

text \<open>\<open>Sscanf(parts[3], "m=%d,t=%d,p=%d")\<close> into a \<open>uint32\<close> and two \<open>uint8\<close>.\<close>

definition scan_params :: "string \<Rightarrow> (nat \<times> nat \<times> nat) option" where
  "scan_params s =
     (case Option.bind (scan_literal ''m='' s) (ScanUint 32) of
        None \<Rightarrow> None
      | Some (m, r) \<Rightarrow>
          (case Option.bind (scan_literal '',t='' r) (ScanUint 8) of
             None \<Rightarrow> None
           | Some (t, r') \<Rightarrow>
               (case Option.bind (scan_literal '',p='' r') (ScanUint 8) of
                  None \<Rightarrow> None
                | Some (p, _) \<Rightarrow> Some (m, t, p))))"

definition VerifyPassword :: "argon \<Rightarrow> string \<Rightarrow> string \<Rightarrow> bool" where
  "VerifyPassword argon2 password encoded =
     (let parts = Split encoded (CHR ''$'')
      in if length parts < 2 then False
         else if parts ! 1 = ''pbkdf2-sha256'' then verifyPBKDF2 password parts
         else if length parts \<noteq> 6 \<or> parts ! 1 \<noteq> ''argon2id'' then False
         else case Option.bind (scan_literal ''v='' (parts ! 2)) ScanInt of
           None \<Rightarrow> False
         | Some (version, _) \<Rightarrow>
             if version \<noteq> int argon2_Version then False
             else case scan_params (parts ! 3) of
               None \<Rightarrow> False
             | Some (memory, timeCost, threads) \<Rightarrow>
                 if memory = 0 \<or> timeCost = 0 \<or> threads = 0 then False
                 else case RawDecode (parts ! 4) of
                   None \<Rightarrow> False
                 | Some salt \<Rightarrow>
                     if salt = [] then False
                     else case RawDecode (parts ! 5) of
                       None \<Rightarrow> False
                     | Some want \<Rightarrow>
                         if want = [] then False
                         else argon2 password salt timeCost memory threads (length want) = want)"

definition NeedsRehash :: "bool \<Rightarrow> string \<Rightarrow> bool" where
  "NeedsRehash fips encoded =
     (let want = ActiveKDF fips
      in if HasPrefix encoded ''$argon2id$'' then want \<noteq> KDFArgon2id
         else if HasPrefix encoded ''$pbkdf2-sha256$'' then want \<noteq> KDFPBKDF2
         else True)"

section \<open>One-time codes\<close>

definition TOTPPeriod :: int where "TOTPPeriod = 30"
definition TOTPDigits :: nat where "TOTPDigits = 6"
definition TOTPSkewSteps :: int where "TOTPSkewSteps = 1"

definition NewTOTPSecret :: "string option \<Rightarrow> string option" where
  "NewTOTPSecret rnd = map_option Base32 rnd"

definition TOTPCounter :: "int \<Rightarrow> int" where
  "TOTPCounter unixSeconds = go_div unixSeconds TOTPPeriod"

text \<open>The dynamic truncation of RFC 4226.\<close>

definition truncate_hmac :: "string \<Rightarrow> w32" where
  "truncate_hmac digest = be_word (take 4 (drop (byte (last digest) AND 15) digest)) AND 0x7FFFFFFF"

definition totpCode :: "string \<Rightarrow> int \<Rightarrow> string option" where
  "totpCode secret counter =
     (case DecodeBase32 (ToUpper (TrimSpace secret)) of
        None \<Rightarrow> None
      | Some key \<Rightarrow>
          if key = [] then None
          else
            let digest = Hmac Sum1 key (be_bytes 8 (of_int counter :: 64 word))
            in Some (pad TOTPDigits (itoa_nat (unat (truncate_hmac digest) mod 10 ^ TOTPDigits))))"

definition TOTPCodeAt :: "string \<Rightarrow> int \<Rightarrow> string option" where
  "TOTPCodeAt secret unixSeconds = totpCode secret (TOTPCounter unixSeconds)"

record TOTPResult =
  tr_Valid :: bool
  tr_Counter :: int

definition no_code :: TOTPResult where
  "no_code = \<lparr>tr_Valid = False, tr_Counter = 0\<rparr>"

text \<open>The loop over the steps, newest first.\<close>

fun totp_walk :: "string \<Rightarrow> string \<Rightarrow> int \<Rightarrow> int list \<Rightarrow> TOTPResult" where
  "totp_walk secret code lastUsedCounter [] = no_code"
| "totp_walk secret code lastUsedCounter (counter # cs) =
     (if counter \<le> lastUsedCounter then totp_walk secret code lastUsedCounter cs
      else case totpCode secret counter of
        None \<Rightarrow> no_code
      | Some want \<Rightarrow>
          if code = want then \<lparr>tr_Valid = True, tr_Counter = counter\<rparr>
          else totp_walk secret code lastUsedCounter cs)"

definition VerifyTOTP :: "string \<Rightarrow> string \<Rightarrow> int \<Rightarrow> int \<Rightarrow> TOTPResult" where
  "VerifyTOTP secret submitted nowUnix lastUsedCounter =
     (let code = TrimSpace submitted
      in if secret = [] \<or> length code \<noteq> TOTPDigits then no_code
         else if \<not> list_all isASCIIDigit code then no_code
         else
           let current = TOTPCounter nowUnix
           in totp_walk secret code lastUsedCounter
                [current + TOTPSkewSteps, current, current - TOTPSkewSteps])"

text \<open>The escapes of package net/url for a path segment and for a query component.\<close>

definition url_unreserved :: "char \<Rightarrow> bool" where
  "url_unreserved c \<longleftrightarrow> isRPMAlnum c \<or> c \<in> {CHR ''-'', CHR ''_'', CHR ''.'', CHR ''~''}"

definition percent :: "char \<Rightarrow> string" where
  "percent c = CHR ''%'' # ToUpper (EncodeToString [c])"

definition PathEscape :: "string \<Rightarrow> string" where
  "PathEscape s = concat (map (\<lambda>c.
     if url_unreserved c \<or> c \<in> {CHR ''$'', CHR ''&'', CHR ''+'', CHR '':'', CHR ''='', CHR 0x40} then [c]
     else percent c) s)"

definition QueryEscape :: "string \<Rightarrow> string" where
  "QueryEscape s = concat (map (\<lambda>c.
     if url_unreserved c then [c] else if c = CHR '' '' then ''+'' else percent c) s)"

definition TOTPEnrollmentURI :: "string \<Rightarrow> string \<Rightarrow> string \<Rightarrow> string" where
  "TOTPEnrollmentURI issuer acct secret =
     ''otpauth://totp/'' @ PathEscape (issuer @ '':'' @ acct) @ ''?'' @
     ''algorithm=SHA1&digits='' @ itoa_nat TOTPDigits @ ''&issuer='' @ QueryEscape issuer @
     ''&period='' @ Itoa TOTPPeriod @ ''&secret='' @ QueryEscape secret"

section \<open>The cryptographic posture\<close>

record FIPSStatus =
  fs_GoModuleEnabled :: bool
  fs_GoModuleEnforced :: bool
  fs_ApprovedAlgorithmsRequired :: bool
  fs_PasswordKDF :: KDF
  fs_Notes :: "string list"

definition fips_Status :: "bool \<Rightarrow> bool \<Rightarrow> string \<Rightarrow> FIPSStatus" where
  "fips_Status enabled enforced fips_env =
     (let required = fipsRequired enabled fips_env
      in \<lparr>fs_GoModuleEnabled = enabled, fs_GoModuleEnforced = enforced,
          fs_ApprovedAlgorithmsRequired = required, fs_PasswordKDF = ActiveKDF required,
          fs_Notes =
            [if required then ''Passwords are hashed with PBKDF2-HMAC-SHA256 (SP 800-132). Existing Argon2id hashes still verify, and are re-hashed on the owner'' @ [CHR 0x27] @ ''s next password change.''
             else ''Passwords are hashed with Argon2id, which resists offline cracking better than PBKDF2 but is not FIPS-approved. Set DEFENDSEC_FIPS_MODE=1, or run with GODEBUG=fips140=on, where validation is required.'',
             ''Second-factor codes use HMAC-SHA1, as every authenticator app expects. HMAC-SHA1 is approved for HMAC under SP 800-131A; Go'' @ [CHR 0x27] @ ''s fips140=only mode is stricter than the standard, so this one call runs outside enforcement.'',
             ''Command signatures (Ed25519), acknowledgement signatures (ECDSA P-256), the audit chain and its checkpoints (SHA-256) all use approved algorithms and were verified to work under GODEBUG=fips140=only.''] @
            (if enabled \<and> \<not> enforced then
               [''GODEBUG=fips140=on routes standard-library cryptography through the validated module but does not reject non-approved algorithms. Use =only to have them rejected.'']
             else [])\<rparr>)"

section \<open>Codes\<close>

lemma totp_walk_sound:
  "tr_Valid (totp_walk secret code lastUsed cs) \<Longrightarrow>
   (let c = tr_Counter (totp_walk secret code lastUsed cs)
    in c \<in> set cs \<and> lastUsed < c \<and> totpCode secret c = Some code)"
  by (induction cs) (auto simp: no_code_def Let_def split: if_splits option.splits)

lemma totp_walk_complete:
  "totpCode secret counter = Some code \<Longrightarrow> counter \<in> set cs \<Longrightarrow> lastUsed < counter \<Longrightarrow>
   tr_Valid (totp_walk secret code lastUsed cs)"
proof (induction cs)
  case (Cons c cs)
  have "totpCode secret c \<noteq> None"
    using Cons.prems(1) by (auto simp: totpCode_def Let_def split: option.splits if_splits)
  then show ?case
    using Cons by (auto split: option.splits)
qed simp

text \<open>An accepted code is the code of a step of the window above the last one used.\<close>

lemma VerifyTOTP_sound:
  assumes "tr_Valid (VerifyTOTP secret submitted now lastUsed)"
  shows "lastUsed < tr_Counter (VerifyTOTP secret submitted now lastUsed)"
    "\<bar>tr_Counter (VerifyTOTP secret submitted now lastUsed) - TOTPCounter now\<bar> \<le> TOTPSkewSteps"
    "totpCode secret (tr_Counter (VerifyTOTP secret submitted now lastUsed)) = Some (TrimSpace submitted)"
proof -
  let ?w = "totp_walk secret (TrimSpace submitted) lastUsed
    [TOTPCounter now + TOTPSkewSteps, TOTPCounter now, TOTPCounter now - TOTPSkewSteps]"
  have v: "VerifyTOTP secret submitted now lastUsed = ?w" "tr_Valid ?w"
    using assms by (auto simp: VerifyTOTP_def Let_def no_code_def split: if_splits)
  show "lastUsed < tr_Counter (VerifyTOTP secret submitted now lastUsed)"
    "\<bar>tr_Counter (VerifyTOTP secret submitted now lastUsed) - TOTPCounter now\<bar> \<le> TOTPSkewSteps"
    "totpCode secret (tr_Counter (VerifyTOTP secret submitted now lastUsed)) = Some (TrimSpace submitted)"
    using totp_walk_sound [OF v(2)] unfolding v(1) by (auto simp: Let_def TOTPSkewSteps_def)
qed

lemma length_itoa_nat: "n < 10 ^ Suc k \<Longrightarrow> length (itoa_nat n) \<le> Suc k"
proof (induction k arbitrary: n)
  case 0
  then show ?case
    by (simp add: itoa_nat.simps)
next
  case (Suc k)
  have "n div 10 < 10 ^ Suc k"
    using Suc.prems by (simp add: less_mult_imp_div_less)
  then show ?case
    using Suc.IH [of "n div 10"] by (subst itoa_nat.simps) simp
qed

lemma totpCode_shape: "totpCode secret counter = Some code \<Longrightarrow> length code = TOTPDigits \<and> list_all isASCIIDigit code"
proof -
  have "length (pad TOTPDigits (itoa_nat n)) = TOTPDigits \<and> list_all isASCIIDigit (pad TOTPDigits (itoa_nat n))"
    if "n < 1000000" for n
    using that length_itoa_nat [of n 5] itoa_nat_digits [of _ n]
    by (auto simp: TOTPDigits_def list_all_iff isASCIIDigit_def)
  then show "totpCode secret counter = Some code \<Longrightarrow> length code = TOTPDigits \<and> list_all isASCIIDigit code"
    by (auto simp: totpCode_def Let_def TOTPDigits_def simp del: pad.simps split: option.splits if_splits)
qed

lemma TrimSpace_digits: "list_all isASCIIDigit s \<Longrightarrow> TrimSpace s = s"
proof (cases "s = []")
  case False
  assume "list_all isASCIIDigit s"
  then have "isASCIIDigit (hd s)" "isASCIIDigit (last s)"
    using False by (simp_all add: list_all_iff)
  then show ?thesis
    using False by (intro TrimSpace_noop) (auto simp: isASCIIDigit_def is_space_def)
qed (simp add: TrimSpace_def)

text \<open>The code of an unspent step of the window is accepted.\<close>

lemma VerifyTOTP_complete:
  assumes "totpCode secret counter = Some code" "secret \<noteq> []" "lastUsed < counter"
    "\<bar>counter - TOTPCounter now\<bar> \<le> TOTPSkewSteps"
  shows "tr_Valid (VerifyTOTP secret code now lastUsed)"
proof -
  have "counter \<in> set [TOTPCounter now + TOTPSkewSteps, TOTPCounter now, TOTPCounter now - TOTPSkewSteps]"
    using assms(4) by (auto simp: TOTPSkewSteps_def abs_le_iff)
  from totp_walk_complete [OF assms(1) this assms(3)] show ?thesis
    using totpCode_shape [OF assms(1)] assms(2)
    by (simp add: VerifyTOTP_def TrimSpace_digits Let_def del: totp_walk.simps)
qed

lemma totpCode_total: "secret = ''GEZDGNBVGY3TQOJQGEZDGNBVGY3TQOJQ'' \<Longrightarrow> \<exists>code. totpCode secret counter = Some code"
proof -
  have "DecodeBase32 (ToUpper (TrimSpace ''GEZDGNBVGY3TQOJQGEZDGNBVGY3TQOJQ'')) = Some ''12345678901234567890''"
    by code_simp
  then show "secret = ''GEZDGNBVGY3TQOJQGEZDGNBVGY3TQOJQ'' \<Longrightarrow> \<exists>code. totpCode secret counter = Some code"
    by (simp add: totpCode_def Let_def)
qed

section \<open>A password and its hash\<close>

lemma Split_append: "c \<notin> set xs \<Longrightarrow> Split (xs @ c # ys) c = xs # Split ys c"
  by (induction xs) (auto split: list.splits)

lemma Split_single: "c \<notin> set xs \<Longrightarrow> Split xs c = [xs]"
  by (induction xs) (auto split: list.splits)

lemma dollar_itoa: "CHR ''$'' \<notin> set (itoa_nat n)"
  using itoa_nat_digits [of "CHR ''$''" n] by (auto simp: isASCIIDigit_def)

lemma RawBase64_empty_iff: "RawDecode (RawBase64 s) = Some s" "s = [] \<longleftrightarrow> RawBase64 s = []"
  by (simp, cases s rule: RawBase64.cases, simp_all)

lemma Split_encodePBKDF2:
  "Split (encodePBKDF2 password salt iterations) (CHR ''$'') =
     [[], ''pbkdf2-sha256'', ''i='' @ itoa_nat iterations, RawBase64 salt,
      RawBase64 (Pbkdf2 password salt iterations pbkdf2KeyLength)]"
proof -
  have "encodePBKDF2 password salt iterations =
      [] @ CHR ''$'' # ''pbkdf2-sha256'' @ CHR ''$'' # (''i='' @ itoa_nat iterations) @ CHR ''$'' # RawBase64 salt @
      CHR ''$'' # RawBase64 (Pbkdf2 password salt iterations pbkdf2KeyLength)"
    by (simp add: encodePBKDF2_def)
  then show ?thesis
    by (simp only:) ((subst Split_append Split_single, simp add: dollar_itoa dollar_RawBase64)+, rule refl)
qed

lemma Split_encodeHash:
  "Split (encodeHash argon2 password salt memory timeCost threads) (CHR ''$'') =
     [[], ''argon2id'', ''v='' @ itoa_nat argon2_Version,
      ''m='' @ itoa_nat memory @ '',t='' @ itoa_nat timeCost @ '',p='' @ itoa_nat threads, RawBase64 salt,
      RawBase64 (argon2 password salt timeCost memory threads argonKeyLength)]"
proof -
  have "encodeHash argon2 password salt memory timeCost threads =
      [] @ CHR ''$'' # ''argon2id'' @ CHR ''$'' # (''v='' @ itoa_nat argon2_Version) @ CHR ''$'' #
      (''m='' @ itoa_nat memory @ '',t='' @ itoa_nat timeCost @ '',p='' @ itoa_nat threads) @ CHR ''$'' #
      RawBase64 salt @ CHR ''$'' # RawBase64 (argon2 password salt timeCost memory threads argonKeyLength)"
    by (simp add: encodeHash_def)
  then show ?thesis
    by (simp only:) ((subst Split_append Split_single, simp add: dollar_itoa dollar_RawBase64)+, rule refl)
qed

lemma scan_params_encoded:
  "memory < 2 ^ 32 \<Longrightarrow> timeCost < 256 \<Longrightarrow> threads < 256 \<Longrightarrow>
   scan_params (''m='' @ itoa_nat memory @ '',t='' @ itoa_nat timeCost @ '',p='' @ itoa_nat threads) =
     Some (memory, timeCost, threads)"
  using ScanUint_itoa [of "[]" threads 8] ScanUint_itoa [of "'',p='' @ itoa_nat threads" timeCost 8]
    ScanUint_itoa [of "'',t='' @ itoa_nat timeCost @ '',p='' @ itoa_nat threads" memory 32]
  by (simp add: scan_params_def isASCIIDigit_def del: append_Cons append.simps)

lemma VerifyPassword_PBKDF2:
  assumes "salt \<noteq> []"
  shows "VerifyPassword argon2 password (encodePBKDF2 owner salt pbkdf2Iterations) \<longleftrightarrow>
    Pbkdf2 password salt pbkdf2Iterations pbkdf2KeyLength = Pbkdf2 owner salt pbkdf2Iterations pbkdf2KeyLength"
proof -
  have key: "Pbkdf2 owner salt pbkdf2Iterations pbkdf2KeyLength \<noteq> []"
    using length_Pbkdf2 [of owner salt pbkdf2Iterations pbkdf2KeyLength]
    by (metis list.size(3) pbkdf2KeyLength_def zero_neq_numeral)
  have "ScanInt (itoa_nat pbkdf2Iterations) = Some (int pbkdf2Iterations, [])"
    using ScanInt_itoa [of "[]" pbkdf2Iterations] by (simp add: pbkdf2Iterations_def max_int64_def)
  then show ?thesis
    using key assms
    by (simp add: VerifyPassword_def Split_encodePBKDF2 verifyPBKDF2_def Let_def del: append_Cons)
      (simp add: pbkdf2Iterations_def)
qed

lemma VerifyPassword_argon2id:
  assumes "salt \<noteq> []" "\<And>p s t m k n. length (argon2 p s t m k n) = n"
  shows "VerifyPassword argon2 password (encodeHash argon2 owner salt argonMemoryKiB argonTime argonThreads) \<longleftrightarrow>
    argon2 password salt argonTime argonMemoryKiB argonThreads argonKeyLength =
    argon2 owner salt argonTime argonMemoryKiB argonThreads argonKeyLength"
proof -
  have key: "argon2 owner salt argonTime argonMemoryKiB argonThreads argonKeyLength \<noteq> []"
    using assms(2) [of owner salt argonTime argonMemoryKiB argonThreads argonKeyLength]
    by (auto simp: argonKeyLength_def)
  have "ScanInt (itoa_nat argon2_Version) = Some (int argon2_Version, [])"
    using ScanInt_itoa [of "[]" argon2_Version] by (simp add: argon2_Version_def max_int64_def)
  moreover have "scan_params (''m='' @ itoa_nat argonMemoryKiB @ '',t='' @ itoa_nat argonTime @ '',p='' @ itoa_nat argonThreads) =
      Some (argonMemoryKiB, argonTime, argonThreads)"
    by (rule scan_params_encoded) (simp_all add: argonMemoryKiB_def argonTime_def argonThreads_def)
  moreover have "argonMemoryKiB \<noteq> 0" "argonTime \<noteq> 0" "argonThreads \<noteq> 0"
    by (simp_all add: argonMemoryKiB_def argonTime_def argonThreads_def)
  ultimately show ?thesis
    using key assms by (simp add: VerifyPassword_def Split_encodeHash Let_def del: append_Cons)
qed

text \<open>A password verifies against its own hash, whatever the mode it was hashed in, and another
  one only if the key derivation maps both to the same key.\<close>

theorem VerifyPassword_HashPassword:
  assumes "HashPassword argon2 fips (Some salt) owner = Some encoded" "salt \<noteq> []"
    "\<And>p s t m k n. length (argon2 p s t m k n) = n"
  shows "VerifyPassword argon2 owner encoded"
    "VerifyPassword argon2 password encoded \<Longrightarrow>
       (if fips then Pbkdf2 password salt pbkdf2Iterations pbkdf2KeyLength = Pbkdf2 owner salt pbkdf2Iterations pbkdf2KeyLength
        else argon2 password salt argonTime argonMemoryKiB argonThreads argonKeyLength =
             argon2 owner salt argonTime argonMemoryKiB argonThreads argonKeyLength)"
  using assms(1,2) VerifyPassword_PBKDF2 [OF assms(2)] VerifyPassword_argon2id [OF assms(2,3)]
  by (auto simp: HashPassword_def ActiveKDF_def split: if_splits)

text \<open>After a rehash in the present mode no further one is due.\<close>

lemma HashPassword_not_NeedsRehash:
  "HashPassword argon2 fips salt password = Some encoded \<Longrightarrow> \<not> NeedsRehash fips encoded"
  by (auto simp: HashPassword_def NeedsRehash_def ActiveKDF_def HasPrefix_def encodePBKDF2_def encodeHash_def Let_def
      split: if_splits option.splits)

section \<open>Names\<close>

lemma ValidUsername_char: "ValidUsername name = None \<Longrightarrow> c \<in> set name \<Longrightarrow> \<not> is_space c \<and> lower_char c = c"
  by (auto simp: ValidUsername_def list_all_iff username_char_def is_space_def lower_char_def isASCIIDigit_def
      split: if_splits)

lemma NormalizeUsername_valid:
  assumes "ValidUsername name = None"
  shows "NormalizeUsername name = name"
proof -
  have "name \<noteq> []"
    using assms by (auto simp: ValidUsername_def)
  then have "TrimSpace name = name"
    using ValidUsername_char [OF assms] by (intro TrimSpace_noop) auto
  then show ?thesis
    using ValidUsername_char [OF assms] by (simp add: NormalizeUsername_def ToLower_def map_idI)
qed

end
