(* ===== verification/Accounts.thy ===== *)
theory Accounts
  imports Identity Audit_Store
begin

text \<open>
  Accounts and sessions in the database: internal/storepg/users.go and sso.go over the tables of
  migrations 008, 018 and the single sign-on columns. A statement that fails (\<open>ae_down\<close>) returns
  an error and changes nothing, and a transaction with a failing statement is rolled back. Times
  are stored with microseconds; \<open>lower\<close> of SQL is on ASCII.
\<close>

section \<open>The tables\<close>

record account =
  ac_user :: User
  ac_sso_issuer :: string
  ac_sso_subject :: string

record invite =
  iv_token_hash :: string
  iv_expires_at :: time
  iv_used :: bool

record auth_db =
  ad_users :: "account list"
  ad_sessions :: "Session list"
  ad_invites :: "invite list"

definition no_accounts :: auth_db where
  "no_accounts = \<lparr>ad_users = [], ad_sessions = [], ad_invites = []\<rparr>"

datatype statement =
  SelectUser | InsertUser | UpdateUser | RecordFailure | SpendCode | Rehash | OpenSession | ReadBack
| SelectSession | DeleteExpired | DeleteSessions | ReadInvites | WriteInvite | SignIn

datatype auth_error =
  InvalidCredentials | AccountLocked | TOTPRequired | UsernameTaken | AccountsExist | InviteInvalid
| Refused string | Failed

text \<open>What an operation takes from outside: Argon2id, the FIPS mode, the random source (a salt, the
  bytes of a session token, an identifier), the database's clock and the failing statements.\<close>

record auth_env =
  ae_argon2 :: argon
  ae_fips :: bool
  ae_salt :: "string option"
  ae_rand :: "string option"
  ae_id :: "string option"
  ae_now :: time
  ae_down :: "statement \<Rightarrow> bool"

definition Clock :: "auth_env \<Rightarrow> time" where
  "Clock env = Microseconds (ae_now env)"

definition hash_password :: "auth_env \<Rightarrow> string \<Rightarrow> string option" where
  "hash_password env password = HashPassword (ae_argon2 env) (ae_fips env) (ae_salt env) password"

section \<open>Accounts\<close>

definition update_user :: "string \<Rightarrow> (User \<Rightarrow> User) \<Rightarrow> auth_db \<Rightarrow> auth_db" where
  "update_user uid f st =
     st\<lparr>ad_users := map (\<lambda>a. if us_ID (ac_user a) = uid then a\<lparr>ac_user := f (ac_user a)\<rparr> else a) (ad_users st)\<rparr>"

definition same_name :: "string \<Rightarrow> account \<Rightarrow> bool" where
  "same_name name a \<longleftrightarrow> ToLower (us_Username (ac_user a)) = ToLower name"

definition GetUserByUsername :: "auth_db \<Rightarrow> string \<Rightarrow> User option" where
  "GetUserByUsername st username = map_option ac_user (find (same_name (NormalizeUsername username)) (ad_users st))"

definition GetUser :: "auth_db \<Rightarrow> string \<Rightarrow> User option" where
  "GetUser st uid = map_option ac_user (find (\<lambda>a. us_ID (ac_user a) = uid) (ad_users st))"

definition without_secrets :: "User \<Rightarrow> User" where
  "without_secrets u = u\<lparr>us_PasswordHash := [], us_TOTPSecret := []\<rparr>"

definition ListUsers :: "auth_db \<Rightarrow> User list" where
  "ListUsers st =
     map without_secrets (go_sort (\<lambda>u v. us_Username u < us_Username v) (map ac_user (ad_users st)))"

definition CountUsers :: "auth_db \<Rightarrow> nat" where
  "CountUsers st = length (ad_users st)"

text \<open>A row as the INSERT leaves it, and the INSERT with the unique keys of the table.\<close>

definition new_account :: "auth_env \<Rightarrow> string \<Rightarrow> string \<Rightarrow> string \<Rightarrow> string \<Rightarrow> string \<Rightarrow> account" where
  "new_account env uid username displayName role hash =
     \<lparr>ac_user = \<lparr>us_ID = uid, us_Username = username, us_DisplayName = displayName, us_Role = role,
        us_Disabled = False, us_TOTPEnabled = False, us_CreatedAt = Clock env, us_LastLoginAt = None,
        us_PasswordHash = hash, us_TOTPSecret = [], us_TOTPLastCounter = 0, us_FailedAttempts = 0,
        us_LockedUntil = None\<rparr>,
      ac_sso_issuer = [], ac_sso_subject = []\<rparr>"

definition conflicts :: "account \<Rightarrow> account \<Rightarrow> bool" where
  "conflicts a b \<longleftrightarrow>
     us_ID (ac_user a) = us_ID (ac_user b) \<or>
     ac_sso_subject a \<noteq> [] \<and> ac_sso_issuer a = ac_sso_issuer b \<and> ac_sso_subject a = ac_sso_subject b"

definition insert_user :: "auth_env \<Rightarrow> account \<Rightarrow> auth_db \<Rightarrow> auth_error + auth_db" where
  "insert_user env a st =
     (if ae_down env InsertUser then Inl Failed
      else if list_ex (same_name (us_Username (ac_user a))) (ad_users st) then
        Inl (Refused (''username '' @ [CHR 0x22] @ us_Username (ac_user a) @ [CHR 0x22] @ '' is already taken''))
      else if list_ex (conflicts a) (ad_users st) then Inl Failed
      else Inr (st\<lparr>ad_users := ad_users st @ [a]\<rparr>))"

definition read_back :: "auth_env \<Rightarrow> auth_db \<Rightarrow> string \<Rightarrow> auth_error + User" where
  "read_back env st username =
     (if ae_down env ReadBack then Inl Failed
      else case GetUserByUsername st username of None \<Rightarrow> Inl Failed | Some u \<Rightarrow> Inr u)"

definition CreateUser ::
  "auth_env \<Rightarrow> auth_db \<Rightarrow> string \<Rightarrow> string \<Rightarrow> string \<Rightarrow> string \<Rightarrow> string \<Rightarrow> auth_db \<times> (auth_error + User)" where
  "CreateUser env st uid name displayName role password =
     (let username = NormalizeUsername name
      in case ValidUsername username of
           Some e \<Rightarrow> (st, Inl (Refused e))
         | None \<Rightarrow>
             if \<not> ValidRole role then (st, Inl (Refused (''unknown role '' @ role)))
             else case ValidPassword password of
               Some e \<Rightarrow> (st, Inl (Refused e))
             | None \<Rightarrow>
                 (case hash_password env password of
                    None \<Rightarrow> (st, Inl Failed)
                  | Some hash \<Rightarrow>
                      (case insert_user env (new_account env uid username displayName role hash) st of
                         Inl e \<Rightarrow> (st, Inl e)
                       | Inr st' \<Rightarrow> (st', read_back env st' username))))"

definition SetUserPassword :: "auth_env \<Rightarrow> auth_db \<Rightarrow> string \<Rightarrow> string \<Rightarrow> auth_db \<times> auth_error option" where
  "SetUserPassword env st uid password =
     (case ValidPassword password of
        Some e \<Rightarrow> (st, Some (Refused e))
      | None \<Rightarrow>
          (case hash_password env password of
             None \<Rightarrow> (st, Some Failed)
           | Some hash \<Rightarrow>
               if ae_down env UpdateUser then (st, Some Failed)
               else (update_user uid
                 (\<lambda>u. u\<lparr>us_PasswordHash := hash, us_FailedAttempts := 0, us_LockedUntil := None\<rparr>) st, None)))"

text \<open>One transaction: the flag, and with it the sessions.\<close>

definition SetUserDisabled :: "auth_env \<Rightarrow> auth_db \<Rightarrow> string \<Rightarrow> bool \<Rightarrow> auth_db \<times> auth_error option" where
  "SetUserDisabled env st uid disabled =
     (if ae_down env UpdateUser \<or> disabled \<and> ae_down env DeleteSessions then (st, Some Failed)
      else
        let st' = update_user uid (\<lambda>u. u\<lparr>us_Disabled := disabled\<rparr>) st
        in (if disabled then st'\<lparr>ad_sessions := filter (\<lambda>s. se_UserID s \<noteq> uid) (ad_sessions st')\<rparr> else st', None))"

definition EnrollTOTP :: "auth_env \<Rightarrow> auth_db \<Rightarrow> string \<Rightarrow> string \<Rightarrow> int \<Rightarrow> auth_db \<times> auth_error option" where
  "EnrollTOTP env st uid secret firstCounter =
     (if secret = [] then (st, Some (Refused ''totp secret must not be empty''))
      else if ae_down env UpdateUser then (st, Some Failed)
      else (update_user uid
        (\<lambda>u. u\<lparr>us_TOTPSecret := secret, us_TOTPEnabled := True, us_TOTPLastCounter := firstCounter\<rparr>) st, None))"

section \<open>Signing in\<close>

definition recordLoginFailure :: "auth_env \<Rightarrow> auth_db \<Rightarrow> User \<Rightarrow> time \<Rightarrow> auth_db" where
  "recordLoginFailure env st u now =
     (let attempts = us_FailedAttempts u + 1
      in if attempts \<ge> MaxFailedAttempts then
           update_user (us_ID u)
             (\<lambda>v. v\<lparr>us_FailedAttempts := attempts, us_LockedUntil := Some (Microseconds (now + LockoutDuration))\<rparr>) st
         else update_user (us_ID u) (\<lambda>v. v\<lparr>us_FailedAttempts := attempts\<rparr>) st)"

text \<open>What the row that was read says of the request: refuse it, count a failure, or accept it,
  spending the step of a one-time code.\<close>

datatype verdict = Refuse auth_error | Count | Accept "int option"

definition Unix :: "time \<Rightarrow> int" where
  "Unix t = t div Second"

definition check_login :: "auth_env \<Rightarrow> User \<Rightarrow> string \<Rightarrow> string \<Rightarrow> time \<Rightarrow> verdict" where
  "check_login env u password totp now =
     (if Locked u now then Refuse AccountLocked
      else if \<not> VerifyPassword (ae_argon2 env) password (us_PasswordHash u) then Count
      else if us_Disabled u then Refuse InvalidCredentials
      else if us_TOTPEnabled u then
        (if TrimSpace totp = [] then Refuse TOTPRequired
         else
           let res = VerifyTOTP (us_TOTPSecret u) totp (Unix now) (us_TOTPLastCounter u)
           in if \<not> tr_Valid res then Count else Accept (Some (tr_Counter res)))
      else Accept None)"

text \<open>\<open>UPDATE users SET totp_last_counter = $2 WHERE id = $1 AND totp_last_counter < $2\<close>: no error
  when the row does not qualify.\<close>

definition spend_code :: "auth_db \<Rightarrow> string \<Rightarrow> int option \<Rightarrow> auth_db" where
  "spend_code st uid c =
     (case c of
        None \<Rightarrow> st
      | Some k \<Rightarrow> update_user uid (\<lambda>u. if us_TOTPLastCounter u < k then u\<lparr>us_TOTPLastCounter := k\<rparr> else u) st)"

definition rehash :: "auth_env \<Rightarrow> auth_db \<Rightarrow> User \<Rightarrow> string \<Rightarrow> auth_db" where
  "rehash env st u password =
     (if NeedsRehash (ae_fips env) (us_PasswordHash u) then
        (case hash_password env password of
           None \<Rightarrow> st
         | Some h \<Rightarrow>
             if ae_down env Rehash then st else update_user (us_ID u) (\<lambda>v. v\<lparr>us_PasswordHash := h\<rparr>) st)
      else st)"

definition new_session :: "string \<Rightarrow> string \<Rightarrow> time \<Rightarrow> Session" where
  "new_session hash uid now =
     \<lparr>se_TokenHash = hash, se_UserID = uid, se_CreatedAt = Microseconds now,
      se_ExpiresAt = Microseconds (now + SessionTTL), se_Attributed = True\<rparr>"

definition has_session :: "auth_db \<Rightarrow> string \<Rightarrow> bool" where
  "has_session st hash \<longleftrightarrow> list_ex (\<lambda>s. se_TokenHash s = hash) (ad_sessions st)"

text \<open>The session and the account's reset counters, in one transaction.\<close>

definition open_session :: "auth_env \<Rightarrow> auth_db \<Rightarrow> User \<Rightarrow> int option \<Rightarrow> time \<Rightarrow> auth_db \<times> (auth_error + User \<times> string)" where
  "open_session env st u c now =
     (case NewSessionToken (ae_rand env) of
        None \<Rightarrow> (st, Inl Failed)
      | Some (token, hash) \<Rightarrow>
          if ae_down env OpenSession \<or> has_session st hash then (st, Inl Failed)
          else
            (update_user (us_ID u)
               (\<lambda>v. v\<lparr>us_FailedAttempts := 0, us_LockedUntil := None, us_LastLoginAt := Some (Microseconds now)\<rparr>)
               (st\<lparr>ad_sessions := ad_sessions st @ [new_session hash (us_ID u) now]\<rparr>),
             Inr (without_secrets
               (u\<lparr>us_FailedAttempts := 0, us_LockedUntil := None, us_LastLoginAt := Some now,
                  us_TOTPLastCounter := (case c of None \<Rightarrow> us_TOTPLastCounter u | Some k \<Rightarrow> k)\<rparr>), token)))"

definition Authenticate ::
  "auth_env \<Rightarrow> auth_db \<Rightarrow> string \<Rightarrow> string \<Rightarrow> string \<Rightarrow> time \<Rightarrow> auth_db \<times> (auth_error + User \<times> string)" where
  "Authenticate env st username password totp now =
     (if ae_down env SelectUser then (st, Inl Failed)
      else case GetUserByUsername st username of
        None \<Rightarrow> (st, Inl InvalidCredentials)
      | Some u \<Rightarrow>
          (case check_login env u password totp now of
             Refuse e \<Rightarrow> (st, Inl e)
           | Count \<Rightarrow>
               if ae_down env RecordFailure then (st, Inl Failed)
               else (recordLoginFailure env st u now, Inl InvalidCredentials)
           | Accept c \<Rightarrow>
               if c \<noteq> None \<and> ae_down env SpendCode then (st, Inl Failed)
               else open_session env (rehash env (spend_code st (us_ID u) c) u password) u c now))"

section \<open>Sessions\<close>

definition LookupSession :: "auth_env \<Rightarrow> auth_db \<Rightarrow> string \<Rightarrow> time \<Rightarrow> auth_db \<times> (auth_error + User \<times> Session)" where
  "LookupSession env st token now =
     (if token = [] then (st, Inl InvalidCredentials)
      else if ae_down env SelectSession then (st, Inl Failed)
      else case find (\<lambda>s. se_TokenHash s = HashSessionToken token) (ad_sessions st) of
        None \<Rightarrow> (st, Inl InvalidCredentials)
      | Some s \<Rightarrow>
          if Expired s now then
            (if ae_down env DeleteExpired then st
             else st\<lparr>ad_sessions := filter (\<lambda>r. se_TokenHash r \<noteq> se_TokenHash s) (ad_sessions st)\<rparr>, Inl InvalidCredentials)
          else if ae_down env SelectUser then (st, Inl InvalidCredentials)
          else case GetUser st (se_UserID s) of
            None \<Rightarrow> (st, Inl InvalidCredentials)
          | Some u \<Rightarrow> if us_Disabled u then (st, Inl InvalidCredentials) else (st, Inr (without_secrets u, s)))"

definition DeleteSession :: "auth_env \<Rightarrow> auth_db \<Rightarrow> string \<Rightarrow> auth_db \<times> auth_error option" where
  "DeleteSession env st token =
     (if ae_down env DeleteSessions then (st, Some Failed)
      else (st\<lparr>ad_sessions := filter (\<lambda>s. se_TokenHash s \<noteq> HashSessionToken token) (ad_sessions st)\<rparr>, None))"

definition PruneExpiredSessions :: "auth_env \<Rightarrow> auth_db \<Rightarrow> time \<Rightarrow> auth_db \<times> (auth_error + nat)" where
  "PruneExpiredSessions env st now =
     (if ae_down env DeleteExpired then (st, Inl Failed)
      else
        let old = filter (\<lambda>s. se_ExpiresAt s < Microseconds now) (ad_sessions st)
        in (st\<lparr>ad_sessions := filter (\<lambda>s. \<not> se_ExpiresAt s < Microseconds now) (ad_sessions st)\<rparr>, Inr (length old)))"

section \<open>The first administrator\<close>

definition invite_valid :: "auth_env \<Rightarrow> string \<Rightarrow> invite \<Rightarrow> bool" where
  "invite_valid env hash i \<longleftrightarrow> iv_token_hash i = hash \<and> \<not> iv_used i \<and> iv_expires_at i > Clock env"

definition CreateSetupInvite :: "auth_env \<Rightarrow> auth_db \<Rightarrow> string \<Rightarrow> time \<Rightarrow> auth_db \<times> auth_error option" where
  "CreateSetupInvite env st hash expires =
     (if ae_down env WriteInvite \<or> list_ex (\<lambda>i. iv_token_hash i = hash) (ad_invites st) then (st, Some Failed)
      else (st\<lparr>ad_invites := map (\<lambda>i. i\<lparr>iv_used := True\<rparr>) (ad_invites st) @
              [\<lparr>iv_token_hash = hash, iv_expires_at = Microseconds expires, iv_used = False\<rparr>]\<rparr>, None))"

definition SetupInviteValid :: "auth_env \<Rightarrow> auth_db \<Rightarrow> string \<Rightarrow> auth_error + bool" where
  "SetupInviteValid env st hash =
     (if ae_down env ReadInvites then Inl Failed else Inr (list_ex (invite_valid env hash) (ad_invites st)))"

definition use_invite :: "auth_env \<Rightarrow> auth_db \<Rightarrow> string \<Rightarrow> auth_db" where
  "use_invite env st hash =
     st\<lparr>ad_invites := map (\<lambda>i. if invite_valid env hash i then i\<lparr>iv_used := True\<rparr> else i) (ad_invites st)\<rparr>"

text \<open>The count, the invite and the insert are one transaction under an advisory lock.\<close>

definition CreateFirstUserWithInvite ::
  "auth_env \<Rightarrow> auth_db \<Rightarrow> string \<Rightarrow> string \<Rightarrow> string \<Rightarrow> string \<Rightarrow> string \<Rightarrow> auth_db \<times> (auth_error + User)" where
  "CreateFirstUserWithInvite env st uid name displayName password inviteHash =
     (let username = NormalizeUsername name
      in case ValidUsername username of
           Some e \<Rightarrow> (st, Inl (Refused e))
         | None \<Rightarrow>
             (case ValidPassword password of
                Some e \<Rightarrow> (st, Inl (Refused e))
              | None \<Rightarrow>
                  (case hash_password env password of
                     None \<Rightarrow> (st, Inl Failed)
                   | Some hash \<Rightarrow>
                       if ae_down env SelectUser then (st, Inl Failed)
                       else if CountUsers st > 0 then (st, Inl AccountsExist)
                       else if inviteHash \<noteq> [] \<and> ae_down env WriteInvite then (st, Inl Failed)
                       else if inviteHash \<noteq> [] \<and>
                         length (filter (invite_valid env inviteHash) (ad_invites st)) \<noteq> 1 then (st, Inl InviteInvalid)
                       else
                         let st1 = (if inviteHash \<noteq> [] then use_invite env st inviteHash else st)
                         in case insert_user env (new_account env uid username displayName RoleAdmin hash) st1 of
                              Inl e \<Rightarrow> (st, Inl e)
                            | Inr st2 \<Rightarrow> (st2, read_back env st2 username))))"

definition CreateFirstUser ::
  "auth_env \<Rightarrow> auth_db \<Rightarrow> string \<Rightarrow> string \<Rightarrow> string \<Rightarrow> string \<Rightarrow> auth_db \<times> (auth_error + User)" where
  "CreateFirstUser env st uid name displayName password =
     CreateFirstUserWithInvite env st uid name displayName password []"

section \<open>Single sign-on\<close>

definition SSOPasswordMarker :: string where "SSOPasswordMarker = ''!sso''"

record SSOIdentity =
  si_Issuer :: string
  si_Subject :: string
  si_Username :: string
  si_DisplayName :: string
  si_Role :: string

definition linked_to :: "SSOIdentity \<Rightarrow> account \<Rightarrow> bool" where
  "linked_to i a \<longleftrightarrow> ac_sso_issuer a = si_Issuer i \<and> ac_sso_subject a = si_Subject i"

text \<open>The account of the identity, provisioned or with its role and name rewritten: the part of the
  transaction before the session.\<close>

definition sso_account :: "auth_env \<Rightarrow> auth_db \<Rightarrow> SSOIdentity \<Rightarrow> auth_error + auth_db \<times> string" where
  "sso_account env st i =
     (case find (linked_to i) (ad_users st) of
        None \<Rightarrow>
          (let username = NormalizeUsername (si_Username i)
           in case ValidUsername username of
                Some e \<Rightarrow> Inl (Refused e)
              | None \<Rightarrow>
                  if list_ex (same_name username) (ad_users st) then Inl UsernameTaken
                  else case ae_id env of
                    None \<Rightarrow> Inl Failed
                  | Some uid \<Rightarrow>
                      map_sum id (\<lambda>st'. (st', uid))
                        (insert_user env
                          ((new_account env uid username (TrimSpace (si_DisplayName i)) (si_Role i) SSOPasswordMarker)
                            \<lparr>ac_sso_issuer := si_Issuer i, ac_sso_subject := si_Subject i\<rparr>) st))
      | Some a \<Rightarrow>
          if us_Disabled (ac_user a) then Inl InvalidCredentials
          else
            Inr (update_user (us_ID (ac_user a))
              (\<lambda>u. u\<lparr>us_Role := si_Role i,
                 us_DisplayName := (if TrimSpace (si_DisplayName i) = [] then us_DisplayName u
                                    else TrimSpace (si_DisplayName i))\<rparr>) st, us_ID (ac_user a)))"

definition SignInSSO :: "auth_env \<Rightarrow> auth_db \<Rightarrow> SSOIdentity \<Rightarrow> time \<Rightarrow> auth_db \<times> (auth_error + User \<times> string)" where
  "SignInSSO env st i now =
     (if si_Issuer i = [] \<or> si_Subject i = [] then
        (st, Inl (Refused ''an SSO identity needs an issuer and a subject''))
      else if \<not> ValidRole (si_Role i) then (st, Inl (Refused (''unknown role '' @ si_Role i)))
      else if ae_down env SignIn then (st, Inl Failed)
      else case sso_account env st i of
        Inl e \<Rightarrow> (st, Inl e)
      | Inr (st1, uid) \<Rightarrow>
          (case NewSessionToken (ae_rand env) of
             None \<Rightarrow> (st, Inl Failed)
           | Some (token, hash) \<Rightarrow>
               if has_session st1 hash then (st, Inl Failed)
               else
                 let st2 = update_user uid (\<lambda>u. u\<lparr>us_LastLoginAt := Some (Microseconds now)\<rparr>)
                       (st1\<lparr>ad_sessions := ad_sessions st1 @ [new_session hash uid now]\<rparr>)
                 in if ae_down env ReadBack then (st2, Inl Failed)
                    else case GetUser st2 uid of
                      None \<Rightarrow> (st2, Inl Failed)
                    | Some u \<Rightarrow> (st2, Inr (without_secrets u, token))))"

end
