(* ===== verification/Account_Server.thy ===== *)
theory Account_Server
  imports Accounts
begin

text \<open>
  The handlers over the accounts: internal/control/identity.go and setup.go, the tokens of
  commands.go, and single sign-on (internal/sso/sso.go, internal/control/sso.go). A request comes
  with its decoded body, \<open>None\<close> if it is not JSON; the server has a database. Exchanging a code
  and verifying the ID token are the OpenID library's, an argument (\<open>exchange\<close>). The ledger holds
  what the handlers give to \<open>Server.audit\<close>; theory Audit_Store stores it.
\<close>

section \<open>The server and its callers\<close>

record ledger_entry =
  le_actor :: string
  le_action :: string
  le_detail :: "(string \<times> string list) list"

record server =
  sv_db :: auth_db
  sv_ledger :: "ledger_entry list"
  sv_adminToken :: string
  sv_viewerToken :: string
  sv_setupOpenUntil :: "time option"

definition audit :: "string \<Rightarrow> string \<Rightarrow> (string \<times> string list) list \<Rightarrow> server \<Rightarrow> server" where
  "audit actor action detail sv =
     sv\<lparr>sv_ledger := sv_ledger sv @ [\<lparr>le_actor = actor, le_action = action, le_detail = detail\<rparr>]\<rparr>"

record header =
  hd_Authorization :: string
  hd_XAdmin :: string

definition TrimPrefix :: "string \<Rightarrow> string \<Rightarrow> string" where
  "TrimPrefix s p = (if HasPrefix s p then drop (length p) s else s)"

definition bearerToken :: "header \<Rightarrow> string" where
  "bearerToken h =
     (let got = TrimSpace (TrimPrefix (hd_Authorization h) ''Bearer '')
      in if got = [] then TrimSpace (hd_XAdmin h) else got)"

definition tokenRole :: "server \<Rightarrow> string \<Rightarrow> string" where
  "tokenRole sv got =
     (if got = [] \<or> sv_adminToken sv = [] then []
      else if Sum256 got = Sum256 (sv_adminToken sv) then ''admin''
      else if sv_viewerToken sv \<noteq> [] \<and> Sum256 got = Sum256 (sv_viewerToken sv) then ''viewer''
      else [])"

record Actor =
  at_Role :: string
  at_User :: "User option"
  at_Attributed :: bool

definition nobody :: Actor where
  "nobody = \<lparr>at_Role = [], at_User = None, at_Attributed = False\<rparr>"

definition actor_identity :: "Actor \<Rightarrow> string" where
  "actor_identity a = ActorIdentity (at_User a) (at_Attributed a)"

definition shared_actor :: "server \<Rightarrow> string \<Rightarrow> Actor" where
  "shared_actor sv token =
     (if tokenRole sv token = ''admin'' then \<lparr>at_Role = RoleAdmin, at_User = None, at_Attributed = False\<rparr>
      else if tokenRole sv token = ''viewer'' then \<lparr>at_Role = RoleViewer, at_User = None, at_Attributed = False\<rparr>
      else nobody)"

text \<open>A session first, then the shared tokens; not after an error of the database.\<close>

definition resolveActor :: "auth_env \<Rightarrow> server \<Rightarrow> header \<Rightarrow> time \<Rightarrow> server \<times> Actor" where
  "resolveActor env sv h now =
     (let token = bearerToken h
      in if token = [] then (sv, nobody)
         else case LookupSession env (sv_db sv) token now of
           (st, r) \<Rightarrow>
             (sv\<lparr>sv_db := st\<rparr>,
              case r of
                Inr (u, s) \<Rightarrow> \<lparr>at_Role = us_Role u, at_User = Some u, at_Attributed = se_Attributed s\<rparr>
              | Inl InvalidCredentials \<Rightarrow> shared_actor sv token
              | Inl _ \<Rightarrow> nobody))"

section \<open>Replies\<close>

record SetupStatus =
  ss_AccountsExist :: bool
  ss_SetupOpen :: bool
  ss_SecondsRemaining :: int
  ss_ViaInvite :: bool
  ss_InviteInvalid :: bool
  ss_Detail :: string

datatype payload =
  Text string
| Error string
| SecondFactor
| Session time User string
| Done
| Who string bool string "User option" "bool option"
| UserList "User list"
| Created User
| CreatedSigned User "string option"
| Secret string string
| Posture FIPSStatus
| Setup SetupStatus
| SSOState bool string
| SSOSigned string User

datatype reply = Reply nat payload

definition unauthorized :: reply where "unauthorized = Reply 401 (Text ''unauthorized'')"
definition bad_method :: reply where "bad_method = Reply 405 (Text ''method not allowed'')"
definition bad_json :: reply where "bad_json = Reply 400 (Text ''invalid json'')"

definition error_text :: "auth_error \<Rightarrow> string" where
  "error_text e = (case e of Refused s \<Rightarrow> s | InviteInvalid \<Rightarrow> ''this setup link is invalid, expired or already used; run defendsec-apid bootstrap-admin on the server for a new one'' | _ \<Rightarrow> ''error'')"

section \<open>Signing in and out\<close>

record login_body =
  lb_Username :: string
  lb_Password :: string
  lb_TOTPCode :: string

definition HandleLogin :: "auth_env \<Rightarrow> server \<Rightarrow> string \<Rightarrow> login_body option \<Rightarrow> time \<Rightarrow> server \<times> reply" where
  "HandleLogin env sv meth body now =
     (if meth \<noteq> ''POST'' then (sv, bad_method)
      else case body of
        None \<Rightarrow> (sv, bad_json)
      | Some req \<Rightarrow>
          (case Authenticate env (sv_db sv) (lb_Username req) (lb_Password req) (lb_TOTPCode req) now of
             (st, r) \<Rightarrow>
               (let sv' = sv\<lparr>sv_db := st\<rparr>; name = [(''username'', [NormalizeUsername (lb_Username req)])]
                in case r of
                     Inl TOTPRequired \<Rightarrow> (sv', Reply 401 SecondFactor)
                   | Inl AccountLocked \<Rightarrow>
                       (audit ''auth'' ''login_locked'' name sv', Reply 429 (Error ''account temporarily locked''))
                   | Inl InvalidCredentials \<Rightarrow>
                       (audit ''auth'' ''login_failed'' name sv', Reply 401 (Error ''invalid credentials''))
                   | Inl _ \<Rightarrow> (sv', Reply 500 (Text ''login failed''))
                   | Inr (u, token) \<Rightarrow>
                       (audit (''user:'' @ us_Username u) ''login'' [(''role'', [us_Role u])] sv',
                        Reply 200 (Session (now + SessionTTL) u token)))))"

definition HandleLogout :: "auth_env \<Rightarrow> server \<Rightarrow> string \<Rightarrow> header \<Rightarrow> time \<Rightarrow> server \<times> reply" where
  "HandleLogout env sv meth h now =
     (if meth \<noteq> ''POST'' then (sv, bad_method)
      else case resolveActor env sv h now of
        (sv1, actor) \<Rightarrow>
          (let sv2 = sv1\<lparr>sv_db := fst (DeleteSession env (sv_db sv1) (bearerToken h))\<rparr>
           in (if at_User actor \<noteq> None then audit (actor_identity actor) ''logout'' [] sv2 else sv2, Reply 200 Done)))"

definition HandleSession :: "auth_env \<Rightarrow> server \<Rightarrow> header \<Rightarrow> time \<Rightarrow> server \<times> reply" where
  "HandleSession env sv h now =
     (case resolveActor env sv h now of
        (sv1, actor) \<Rightarrow>
          if at_Role actor = [] then (sv1, Reply 401 (Error ''unauthorized''))
          else (sv1, Reply 200 (Who (at_Role actor) (at_Attributed actor) (actor_identity actor) (at_User actor)
            (if ae_down env ReadBack then None else Some (CountUsers (sv_db sv1) > 0)))))"

section \<open>Managing accounts\<close>

record user_body =
  ub_Username :: string
  ub_DisplayName :: string
  ub_Role :: string
  ub_Password :: string

definition HandleUsers :: "auth_env \<Rightarrow> server \<Rightarrow> string \<Rightarrow> header \<Rightarrow> user_body option \<Rightarrow> time \<Rightarrow> server \<times> reply" where
  "HandleUsers env sv meth h body now =
     (if meth = ''GET'' then
        (case resolveActor env sv h now of
           (sv1, actor) \<Rightarrow>
             if at_Role actor \<noteq> RoleAdmin then (sv1, unauthorized)
             else if ae_down env ReadBack then (sv1, Reply 500 (Text ''list users''))
             else (sv1, Reply 200 (UserList (ListUsers (sv_db sv1)))))
      else if meth = ''POST'' then
        (if ae_down env SelectUser then (sv, Reply 500 (Text ''count users''))
         else
           let count = CountUsers (sv_db sv)
           in case resolveActor env sv h now of
                (sv1, actor) \<Rightarrow>
                  if count \<noteq> 0 \<and> at_Role actor \<noteq> RoleAdmin then (sv1, unauthorized)
                  else if count = 0 \<and> at_Role actor = [] then (sv1, unauthorized)
                  else case body of
                    None \<Rightarrow> (sv1, bad_json)
                  | Some req \<Rightarrow>
                      (case ae_id env of
                         None \<Rightarrow> (sv1, Reply 500 (Text ''id''))
                       | Some uid \<Rightarrow>
                           (case CreateUser env (sv_db sv1) uid (ub_Username req) (ub_DisplayName req)
                                   (if ub_Role req = [] then RoleAdmin else ub_Role req) (ub_Password req) of
                              (st, Inl e) \<Rightarrow> (sv1\<lparr>sv_db := st\<rparr>, Reply 400 (Error (error_text e)))
                            | (st, Inr u) \<Rightarrow>
                                (audit (actor_identity actor) ''user_created''
                                   [(''username'', [us_Username u]), (''role'', [us_Role u]), (''firstAccount'', [FormatBool (count = 0)])]
                                   (sv1\<lparr>sv_db := st\<rparr>),
                                 Reply 201 (Created (u\<lparr>us_PasswordHash := []\<rparr>))))))
      else (sv, bad_method))"

record update_body =
  pb_UserID :: string
  pb_Password :: string
  pb_Disabled :: "bool option"

definition own_password :: "Actor \<Rightarrow> update_body \<Rightarrow> bool" where
  "own_password actor req \<longleftrightarrow>
     (case at_User actor of None \<Rightarrow> False | Some u \<Rightarrow> us_ID u = pb_UserID req) \<and> pb_Password req \<noteq> [] \<and> pb_Disabled req = None"

text \<open>The second part of an update: the flag, and the reply.\<close>

definition set_disabled :: "auth_env \<Rightarrow> server \<Rightarrow> Actor \<Rightarrow> User \<Rightarrow> update_body \<Rightarrow> server \<times> reply" where
  "set_disabled env sv actor target req =
     (case pb_Disabled req of
        None \<Rightarrow> (sv, Reply 200 Done)
      | Some d \<Rightarrow>
          if (case at_User actor of None \<Rightarrow> False | Some u \<Rightarrow> us_ID u = pb_UserID req) \<and> d then
            (sv, Reply 400 (Error ''you cannot disable your own account''))
          else case SetUserDisabled env (sv_db sv) (pb_UserID req) d of
            (st, Some _) \<Rightarrow> (sv\<lparr>sv_db := st\<rparr>, Reply 500 (Text ''update user''))
          | (st, None) \<Rightarrow>
              (audit (actor_identity actor) (if d then ''user_disabled'' else ''user_enabled'')
                 [(''username'', [us_Username target])] (sv\<lparr>sv_db := st\<rparr>), Reply 200 Done))"

definition HandleUserUpdate ::
  "auth_env \<Rightarrow> server \<Rightarrow> string \<Rightarrow> header \<Rightarrow> update_body option \<Rightarrow> time \<Rightarrow> server \<times> reply" where
  "HandleUserUpdate env sv meth h body now =
     (if meth \<noteq> ''POST'' then (sv, bad_method)
      else case resolveActor env sv h now of
        (sv1, actor) \<Rightarrow>
          (case body of
             None \<Rightarrow> (sv1, bad_json)
           | Some req \<Rightarrow>
               if TrimSpace (pb_UserID req) = [] then (sv1, Reply 400 (Text ''userId is required''))
               else if \<not> own_password actor req \<and> at_Role actor \<noteq> RoleAdmin then (sv1, unauthorized)
               else if ae_down env SelectUser then (sv1, Reply 404 (Text ''unknown user''))
               else case GetUser (sv_db sv1) (pb_UserID req) of
                 None \<Rightarrow> (sv1, Reply 404 (Text ''unknown user''))
               | Some target \<Rightarrow>
                   if pb_Password req = [] then set_disabled env sv1 actor target req
                   else case SetUserPassword env (sv_db sv1) (pb_UserID req) (pb_Password req) of
                     (st, Some e) \<Rightarrow> (sv1\<lparr>sv_db := st\<rparr>, Reply 400 (Error (error_text e)))
                   | (st, None) \<Rightarrow>
                       set_disabled env
                         (audit (actor_identity actor) ''user_password_changed'' [(''username'', [us_Username target])]
                           (sv1\<lparr>sv_db := st\<rparr>)) actor target req))"

record totp_body =
  tb_Step :: string
  tb_Secret :: string
  tb_Code :: string

definition HandleTOTP ::
  "auth_env \<Rightarrow> server \<Rightarrow> string \<Rightarrow> header \<Rightarrow> totp_body option \<Rightarrow> time \<Rightarrow> server \<times> reply" where
  "HandleTOTP env sv meth h body now =
     (if meth \<noteq> ''POST'' then (sv, bad_method)
      else case resolveActor env sv h now of
        (sv1, actor) \<Rightarrow>
          (case at_User actor of
             None \<Rightarrow> (sv1, unauthorized)
           | Some u \<Rightarrow>
               (case body of
                  None \<Rightarrow> (sv1, bad_json)
                | Some req \<Rightarrow>
                    if tb_Step req = ''begin'' then
                      (case NewTOTPSecret (ae_rand env) of
                         None \<Rightarrow> (sv1, Reply 500 (Text ''generate secret''))
                       | Some secret \<Rightarrow>
                           (sv1, Reply 200 (Secret secret (TOTPEnrollmentURI ''DefendSec'' (us_Username u) secret))))
                    else if tb_Step req = ''confirm'' then
                      (let res = VerifyTOTP (tb_Secret req) (tb_Code req) (Unix now) 0
                       in if \<not> tr_Valid res then
                            (sv1, Reply 400 (Error (''that code did not match '' @ emdash @ '' check the time on your device'')))
                          else case EnrollTOTP env (sv_db sv1) (us_ID u) (tb_Secret req) (tr_Counter res) of
                            (st, Some _) \<Rightarrow> (sv1\<lparr>sv_db := st\<rparr>, Reply 500 (Text ''enroll''))
                          | (st, None) \<Rightarrow>
                              (audit (actor_identity actor) ''totp_enrolled'' [(''username'', [us_Username u])]
                                 (sv1\<lparr>sv_db := st\<rparr>), Reply 200 Done))
                    else (sv1, Reply 400 (Text (''step must be '' @ [CHR 0x22] @ ''begin'' @ [CHR 0x22] @ '' or '' @ [CHR 0x22] @ ''confirm'' @ [CHR 0x22]))))))"

definition HandleCryptoPosture :: "auth_env \<Rightarrow> server \<Rightarrow> string \<Rightarrow> header \<Rightarrow> FIPSStatus \<Rightarrow> time \<Rightarrow> server \<times> reply" where
  "HandleCryptoPosture env sv meth h status now =
     (if meth \<noteq> ''GET'' then (sv, bad_method)
      else case resolveActor env sv h now of
        (sv1, actor) \<Rightarrow>
          if at_Role actor \<noteq> RoleAdmin then (sv1, unauthorized) else (sv1, Reply 200 (Posture status)))"

section \<open>First-run setup\<close>

definition OpenSetupWindow :: "server \<Rightarrow> time \<Rightarrow> duration \<Rightarrow> server" where
  "OpenSetupWindow sv now d = sv\<lparr>sv_setupOpenUntil := (if d \<le> 0 then None else Some (now + d))\<rparr>"

text \<open>Whether the invite of a request is valid: \<open>None\<close> when none is looked at.\<close>

definition invite_state :: "auth_env \<Rightarrow> server \<Rightarrow> string \<Rightarrow> auth_error + bool option" where
  "invite_state env sv invite =
     (if invite \<noteq> [] \<and> CountUsers (sv_db sv) = 0
      then map_sum id Some (SetupInviteValid env (sv_db sv) (HashSessionToken invite))
      else Inr None)"

definition window_open :: "server \<Rightarrow> time \<Rightarrow> int option" where
  "window_open sv now =
     (case sv_setupOpenUntil sv of
        None \<Rightarrow> None
      | Some t \<Rightarrow> if Before now t then Some (Sub t now div Second) else None)"

definition setupStatus :: "auth_env \<Rightarrow> server \<Rightarrow> time \<Rightarrow> string \<Rightarrow> auth_error + SetupStatus" where
  "setupStatus env sv now invite =
     (if ae_down env SelectUser then Inl Failed
      else case invite_state env sv (TrimSpace invite) of
        Inl e \<Rightarrow> Inl e
      | Inr ok \<Rightarrow>
          (let exist = CountUsers (sv_db sv) > 0;
               st = \<lparr>ss_AccountsExist = exist, ss_SetupOpen = False, ss_SecondsRemaining = 0, ss_ViaInvite = False,
                     ss_InviteInvalid = (ok = Some False), ss_Detail = []\<rparr>
           in Inr (if exist then st\<lparr>ss_Detail := ''Accounts exist. Sign in with yours.''\<rparr>
              else if ok = Some True then
                st\<lparr>ss_SetupOpen := True, ss_ViaInvite := True,
                   ss_Detail := ''This setup link was issued on the server. Create the first administrator.''\<rparr>
              else case window_open sv now of
                Some n \<Rightarrow>
                  st\<lparr>ss_SetupOpen := True, ss_SecondsRemaining := n,
                     ss_Detail := ''No accounts exist yet. Create the first administrator.''\<rparr>
              | None \<Rightarrow>
                  st\<lparr>ss_Detail := ''No accounts exist yet, and first-run setup has closed. Run defendsec-apid bootstrap-admin on the server for a one-time setup link.''\<rparr>)))"

record setup_body =
  sb_Username :: string
  sb_DisplayName :: string
  sb_Password :: string
  sb_ClientAddress :: string
  sb_Invite :: string

definition setupAuditDetail :: "bool \<Rightarrow> time option \<Rightarrow> string" where
  "setupAuditDetail viaInvite openUntil =
     (if viaInvite then ''Created with a one-time setup link printed on the server by bootstrap-admin. No shared token was used.''
      else ''Created through first-run setup, open until '' @
        (case openUntil of None \<Rightarrow> ''0001-01-01T00:00:00Z'' | Some t \<Rightarrow> FormatRFC3339 t) @ ''. No shared token was used.'')"

definition createFirstAdmin :: "auth_env \<Rightarrow> server \<Rightarrow> setup_body option \<Rightarrow> time \<Rightarrow> server \<times> reply" where
  "createFirstAdmin env sv body now =
     (case body of
        None \<Rightarrow> (sv, bad_json)
      | Some req \<Rightarrow>
          (case setupStatus env sv now (sb_Invite req) of
             Inl _ \<Rightarrow> (sv, Reply 500 (Text ''could not read setup status''))
           | Inr st \<Rightarrow>
               if \<not> ss_SetupOpen st then
                 (sv, Reply 403 (Error (if ss_InviteInvalid st then error_text InviteInvalid else ss_Detail st)))
               else case ae_id env of
                 None \<Rightarrow> (sv, Reply 500 (Text ''id''))
               | Some uid \<Rightarrow>
                   (case CreateFirstUserWithInvite env (sv_db sv) uid (sb_Username req) (TrimSpace (sb_DisplayName req))
                           (sb_Password req) (if ss_ViaInvite st then HashSessionToken (TrimSpace (sb_Invite req)) else []) of
                      (db, Inl InviteInvalid) \<Rightarrow> (sv\<lparr>sv_db := db\<rparr>, Reply 403 (Error (error_text InviteInvalid)))
                    | (db, Inl AccountsExist) \<Rightarrow>
                        (sv\<lparr>sv_db := db\<rparr>,
                         Reply 409 (Error ''An account was created a moment ago, so setup has closed. Sign in with that account.''))
                    | (db, Inl e) \<Rightarrow> (sv\<lparr>sv_db := db\<rparr>, Reply 400 (Error (error_text e)))
                    | (db, Inr u) \<Rightarrow>
                        (case Authenticate env db (us_Username u) (sb_Password req) [] now of
                           (db', Inl _) \<Rightarrow> (sv\<lparr>sv_db := db'\<rparr>, Reply 201 (CreatedSigned u None))
                         | (db', Inr (_, token)) \<Rightarrow>
                             (audit (''user:'' @ us_Username u) ''first_admin_created''
                                [(''via'', [if ss_ViaInvite st then ''one-time setup link from bootstrap-admin'' else ''first-run setup'']),
                                 (''clientAddress'', [TrimSpace (sb_ClientAddress req)]),
                                 (''detail'', [setupAuditDetail (ss_ViaInvite st) (sv_setupOpenUntil sv)])]
                                (sv\<lparr>sv_db := db'\<rparr>),
                              Reply 201 (CreatedSigned (u\<lparr>us_PasswordHash := []\<rparr>) (Some token)))))))"

definition HandleSetup ::
  "auth_env \<Rightarrow> server \<Rightarrow> string \<Rightarrow> string \<Rightarrow> setup_body option \<Rightarrow> time \<Rightarrow> server \<times> reply" where
  "HandleSetup env sv meth invite body now =
     (if meth = ''GET'' then
        (case setupStatus env sv now invite of
           Inl _ \<Rightarrow> (sv, Reply 500 (Text ''could not read setup status''))
         | Inr st \<Rightarrow> (sv, Reply 200 (Setup st)))
      else if meth = ''POST'' then createFirstAdmin env sv body now
      else (sv, bad_method))"

definition InviteTTL :: duration where "InviteTTL = Hour"

definition IssueSetupInvite :: "auth_env \<Rightarrow> auth_db \<Rightarrow> time \<Rightarrow> auth_db \<times> (auth_error + string \<times> time)" where
  "IssueSetupInvite env st now =
     (if ae_down env SelectUser then (st, Inl Failed)
      else if CountUsers st > 0 then (st, Inl AccountsExist)
      else case NewSessionToken (ae_rand env) of
        None \<Rightarrow> (st, Inl Failed)
      | Some (token, hash) \<Rightarrow>
          (case CreateSetupInvite env st hash (now + InviteTTL) of
             (st', Some e) \<Rightarrow> (st', Inl e)
           | (st', None) \<Rightarrow> (st', Inr (token, now + InviteTTL))))"

section \<open>Single sign-on\<close>

record sso_config =
  sc_Issuer :: string
  sc_ClientID :: string
  sc_RedirectURL :: string
  sc_GroupsClaim :: string
  sc_AdminGroups :: "string list"
  sc_ViewerGroups :: "string list"
  sc_DisplayName :: string

definition sso_Validate :: "sso_config \<Rightarrow> string option" where
  "sso_Validate c =
     (let missing = (if sc_Issuer c = [] then [''issuer''] else []) @ (if sc_ClientID c = [] then [''client id''] else []) @
            (if sc_RedirectURL c = [] then [''redirect URL''] else [])
      in if missing \<noteq> [] then Some (''SSO is partly configured; missing '' @ Join missing '', '')
         else if \<not> HasPrefix (sc_Issuer c) ''https://'' then Some ''the SSO issuer must be an https:// URL''
         else if sc_AdminGroups c = [] \<and> sc_ViewerGroups c = [] then
           Some ''SSO needs at least one admin or viewer group mapped, or nobody can sign in''
         else None)"

definition sso_New :: "sso_config \<Rightarrow> string + sso_config" where
  "sso_New c =
     (let c' = c\<lparr>sc_GroupsClaim := (if sc_GroupsClaim c = [] then ''groups'' else sc_GroupsClaim c),
                 sc_DisplayName := (if sc_DisplayName c = [] then ''single sign-on'' else sc_DisplayName c)\<rparr>
      in case sso_Validate c' of Some e \<Rightarrow> Inl e | None \<Rightarrow> Inr c')"

definition EqualFold :: "string \<Rightarrow> string \<Rightarrow> bool" where
  "EqualFold a b \<longleftrightarrow> ToLower a = ToLower b"

definition has_group :: "string list \<Rightarrow> string list \<Rightarrow> bool" where
  "has_group groups want \<longleftrightarrow> list_ex (\<lambda>g. list_ex (\<lambda>w. EqualFold (TrimSpace g) (TrimSpace w)) want) groups"

definition RoleFor :: "sso_config \<Rightarrow> string list \<Rightarrow> string" where
  "RoleFor c groups =
     (if has_group groups (sc_AdminGroups c) then RoleAdmin
      else if has_group groups (sc_ViewerGroups c) then RoleViewer else [])"

text \<open>A claim of the ID token, and the token as the library verified it.\<close>

datatype claim = CString string | CList "claim list" | COther

record id_token =
  it_Issuer :: string
  it_Subject :: string
  it_Nonce :: string
  it_Claims :: "(string \<Rightarrow> claim option) option"

definition stringList :: "claim option \<Rightarrow> string list" where
  "stringList v =
     (case v of
        Some (CList xs) \<Rightarrow> List.map_filter (\<lambda>x. case x of CString s \<Rightarrow> Some s | _ \<Rightarrow> None) xs
      | Some (CString s) \<Rightarrow> [s]
      | _ \<Rightarrow> [])"

fun firstString :: "(string \<Rightarrow> claim option) \<Rightarrow> string list \<Rightarrow> string" where
  "firstString claims [] = []"
| "firstString claims (k # ks) =
     (case claims k of
        Some (CString s) \<Rightarrow> if TrimSpace s \<noteq> [] then TrimSpace s else firstString claims ks
      | _ \<Rightarrow> firstString claims ks)"

datatype sso_outcome = SSOIdentified SSOIdentity "string list" | NoMappedGroup SSOIdentity "string list" | SSOFailed string

definition Finish ::
  "sso_config \<Rightarrow> (string \<Rightarrow> string \<Rightarrow> string + id_token) \<Rightarrow> string \<Rightarrow> string \<Rightarrow> string \<Rightarrow> sso_outcome" where
  "Finish c exchange code verifier nonce =
     (case exchange code verifier of
        Inl e \<Rightarrow> SSOFailed e
      | Inr idt \<Rightarrow>
          if nonce = [] \<or> it_Nonce idt \<noteq> nonce then
            SSOFailed (''the ID token'' @ [CHR 0x27] @ ''s nonce does not match this sign-in'')
          else case it_Claims idt of
            None \<Rightarrow> SSOFailed ''read claims''
          | Some claims \<Rightarrow>
              (let groups = stringList (claims (sc_GroupsClaim c));
                   i = \<lparr>si_Issuer = it_Issuer idt, si_Subject = it_Subject idt,
                        si_Username = NormalizeUsername (firstString claims [''preferred_username'', ''email'']),
                        si_DisplayName = firstString claims [''name''], si_Role = RoleFor c groups\<rparr>
               in if si_Role i = [] then NoMappedGroup i groups else SSOIdentified i groups))"

record sso_body =
  ob_Code :: string
  ob_Verifier :: string
  ob_Nonce :: string
  ob_ClientAddress :: string

definition ssoFinish ::
  "auth_env \<Rightarrow> server \<Rightarrow> (sso_config \<times> (string \<Rightarrow> string \<Rightarrow> string + id_token)) option \<Rightarrow> sso_body option \<Rightarrow> time \<Rightarrow>
   server \<times> reply" where
  "ssoFinish env sv sso body now =
     (case sso of
        None \<Rightarrow> (sv, Reply 404 (Error ''single sign-on is not configured''))
      | Some (c, exchange) \<Rightarrow>
          (case body of
             None \<Rightarrow> (sv, bad_json)
           | Some req \<Rightarrow>
               (case Finish c exchange (ob_Code req) (ob_Verifier req) (ob_Nonce req) of
                  NoMappedGroup i groups \<Rightarrow>
                    (audit ''auth'' ''sso_refused''
                       [(''issuer'', [si_Issuer i]), (''subject'', [si_Subject i]), (''username'', [si_Username i]),
                        (''groups'', groups), (''clientAddress'', [ob_ClientAddress req]),
                        (''reason'', [''not a member of any group mapped to a DefendSec role''])] sv,
                     Reply 403 (Error ''Your identity provider account is not in a group that has access to DefendSec. Ask an administrator to add you.''))
                | SSOFailed e \<Rightarrow>
                    (audit ''auth'' ''sso_failed'' [(''clientAddress'', [ob_ClientAddress req]), (''error'', [e])] sv,
                     Reply 401 (Error ''Single sign-on could not be verified. Try again.''))
                | SSOIdentified i groups \<Rightarrow>
                    (case SignInSSO env (sv_db sv) i now of
                       (st, Inl UsernameTaken) \<Rightarrow>
                         (audit ''auth'' ''sso_refused''
                            [(''issuer'', [si_Issuer i]), (''subject'', [si_Subject i]), (''username'', [si_Username i]),
                             (''reason'', [''username belongs to an existing account not linked to this identity''])]
                            (sv\<lparr>sv_db := st\<rparr>),
                          Reply 409 (Error (''A DefendSec account named '' @ si_Username i @
                            '' already exists and is not linked to your single sign-on identity. Accounts are never linked by name; an administrator must rename or remove the existing one.'')))
                     | (st, Inl InvalidCredentials) \<Rightarrow>
                         (sv\<lparr>sv_db := st\<rparr>, Reply 403 (Error ''This account is disabled in DefendSec.''))
                     | (st, Inl _) \<Rightarrow> (sv\<lparr>sv_db := st\<rparr>, Reply 500 (Error ''Could not open a session.''))
                     | (st, Inr (u, token)) \<Rightarrow>
                         (audit (''user:'' @ us_Username u) ''login''
                            [(''role'', [us_Role u]), (''method'', [''sso'']), (''issuer'', [si_Issuer i]), (''groups'', groups),
                             (''clientAddress'', [ob_ClientAddress req])] (sv\<lparr>sv_db := st\<rparr>),
                          Reply 200 (SSOSigned token u))))))"

end
