(* ===== verification/Account_Reach.thy ===== *)
theory Account_Reach
  imports Account_Server
begin

text \<open>
  What the accounts guarantee over any sequence of requests: the invariant of the tables, that a
  session belongs to an enabled account and ends after twelve hours, that a one-time code is spent,
  how many guesses a lockout leaves, who can change an account, and first-run setup. Each request
  is one step here; the last section takes the steps of a sign-in apart.
\<close>

section \<open>Requests and runs\<close>

datatype request =
  RLogin string "login_body option"
| RLogout string header
| RSession header
| RUsers string header "user_body option"
| RUpdate string header "update_body option"
| RTOTP string header "totp_body option"
| RPosture string header FIPSStatus
| RSetup string string "setup_body option"
| RSSO "(sso_config \<times> (string \<Rightarrow> string \<Rightarrow> string + id_token)) option" "sso_body option"
| RPrune
| RInvite

fun serve :: "auth_env \<Rightarrow> time \<Rightarrow> request \<Rightarrow> server \<Rightarrow> server" where
  "serve env now (RLogin m b) sv = fst (HandleLogin env sv m b now)"
| "serve env now (RLogout m h) sv = fst (HandleLogout env sv m h now)"
| "serve env now (RSession h) sv = fst (HandleSession env sv h now)"
| "serve env now (RUsers m h b) sv = fst (HandleUsers env sv m h b now)"
| "serve env now (RUpdate m h b) sv = fst (HandleUserUpdate env sv m h b now)"
| "serve env now (RTOTP m h b) sv = fst (HandleTOTP env sv m h b now)"
| "serve env now (RPosture m h s) sv = fst (HandleCryptoPosture env sv m h s now)"
| "serve env now (RSetup m i b) sv = fst (HandleSetup env sv m i b now)"
| "serve env now (RSSO sso b) sv = fst (ssoFinish env sv sso b now)"
| "serve env now RPrune sv = sv\<lparr>sv_db := fst (PruneExpiredSessions env (sv_db sv) now)\<rparr>"
| "serve env now RInvite sv = sv\<lparr>sv_db := fst (IssueSetupInvite env (sv_db sv) now)\<rparr>"

text \<open>Whose second factor a request enrolls, and the servers reached from a first one by requests
  that enroll no account outside \<open>E\<close>.\<close>

definition enrolls :: "auth_env \<Rightarrow> time \<Rightarrow> request \<Rightarrow> server \<Rightarrow> string \<Rightarrow> bool" where
  "enrolls env now r sv uid \<longleftrightarrow>
     (case r of
        RTOTP m h b \<Rightarrow> (case at_User (snd (resolveActor env sv h now)) of None \<Rightarrow> False | Some u \<Rightarrow> us_ID u = uid)
      | _ \<Rightarrow> False)"

inductive served :: "(string \<Rightarrow> bool) \<Rightarrow> server \<Rightarrow> server \<Rightarrow> bool" for E :: "string \<Rightarrow> bool" and first :: server where
  start: "served E first first"
| request: "served E first sv \<Longrightarrow> (\<And>uid. enrolls env now r sv uid \<Longrightarrow> E uid) \<Longrightarrow> served E first (serve env now r sv)"

section \<open>The operations on the tables\<close>

text \<open>Every request changes the tables through these operations only; \<open>auth_step\<close> lists them with
  the condition the handlers establish.\<close>

inductive auth_step :: "(string \<Rightarrow> bool) \<Rightarrow> auth_db \<Rightarrow> auth_db \<Rightarrow> bool" for E where
  stay: "auth_step E st st"
| create: "auth_step E st (fst (CreateUser env st uid name display role password))"
| password: "auth_step E st (fst (SetUserPassword env st uid password))"
| disable: "auth_step E st (fst (SetUserDisabled env st uid d))"
| enroll: "E uid \<Longrightarrow> tr_Valid (VerifyTOTP secret code unix 0) \<Longrightarrow>
    auth_step E st (fst (EnrollTOTP env st uid secret (tr_Counter (VerifyTOTP secret code unix 0))))"
| authenticate: "auth_step E st (fst (Authenticate env st name password totp now))"
| lookup: "auth_step E st (fst (LookupSession env st token now))"
| logout: "auth_step E st (fst (DeleteSession env st token))"
| prune: "auth_step E st (fst (PruneExpiredSessions env st now))"
| first: "auth_step E st (fst (CreateFirstUserWithInvite env st uid name display password hash))"
| invite: "auth_step E st (fst (CreateSetupInvite env st hash expires))"
| sso: "auth_step E st (fst (SignInSSO env st i now))"

lemma sv_db_audit [simp]: "sv_db (audit a b c sv) = sv_db sv"
  by (simp add: audit_def)

lemma audit_tokens [simp]: "sv_adminToken (audit a b c sv) = sv_adminToken sv"
  "sv_viewerToken (audit a b c sv) = sv_viewerToken sv" "sv_setupOpenUntil (audit a b c sv) = sv_setupOpenUntil sv"
  by (simp_all add: audit_def)

lemma auth_steps:
  "CreateUser env st uid name display role password = (st', c) \<Longrightarrow> auth_step E st st'"
  "SetUserPassword env st uid password = (st', e) \<Longrightarrow> auth_step E st st'"
  "SetUserDisabled env st uid d = (st', e) \<Longrightarrow> auth_step E st st'"
  "Authenticate env st name password totp now = (st', a) \<Longrightarrow> auth_step E st st'"
  "LookupSession env st token now = (st', l) \<Longrightarrow> auth_step E st st'"
  "PruneExpiredSessions env st now = (st', n) \<Longrightarrow> auth_step E st st'"
  "CreateFirstUserWithInvite env st uid name display password hash = (st', c) \<Longrightarrow> auth_step E st st'"
  "CreateSetupInvite env st hash expires = (st', e) \<Longrightarrow> auth_step E st st'"
  "SignInSSO env st i now = (st', a) \<Longrightarrow> auth_step E st st'"
  by (metis auth_step.intros fst_conv)+

lemma resolveActor_db: "resolveActor env sv h now = (sv', a) \<Longrightarrow> auth_step E (sv_db sv) (sv_db sv')"
  by (auto simp: resolveActor_def Let_def intro: auth_steps(5) auth_step.stay split: if_splits prod.splits)

lemma resolveActor_rest:
  "resolveActor env sv h now = (sv', a) \<Longrightarrow> sv_adminToken sv' = sv_adminToken sv \<and> sv_viewerToken sv' = sv_viewerToken sv \<and>
     sv_setupOpenUntil sv' = sv_setupOpenUntil sv \<and> sv_ledger sv' = sv_ledger sv"
  by (auto simp: resolveActor_def Let_def split: if_splits prod.splits)

lemma steps1: "auth_step E a b \<Longrightarrow> (auth_step E)\<^sup>*\<^sup>* a b"
  by (rule r_into_rtranclp)

lemma steps2: "auth_step E a b \<Longrightarrow> auth_step E b c \<Longrightarrow> (auth_step E)\<^sup>*\<^sup>* a c"
  by (meson r_into_rtranclp rtranclp.rtrancl_into_rtrancl)

lemma steps3: "auth_step E a b \<Longrightarrow> auth_step E b c \<Longrightarrow> auth_step E c d \<Longrightarrow> (auth_step E)\<^sup>*\<^sup>* a d"
  by (meson r_into_rtranclp rtranclp.rtrancl_into_rtrancl)

text \<open>Going through the branches of a handler.\<close>

definition leads :: "(string \<Rightarrow> bool) \<Rightarrow> auth_db \<Rightarrow> server \<times> 'r \<Rightarrow> bool" where
  "leads E st x \<longleftrightarrow> (auth_step E)\<^sup>*\<^sup>* st (sv_db (fst x))"

lemma leads_branches:
  "(b \<Longrightarrow> leads E st x) \<Longrightarrow> (\<not> b \<Longrightarrow> leads E st y) \<Longrightarrow> leads E st (if b then x else y)"
  "(v = None \<Longrightarrow> leads E st x) \<Longrightarrow> (\<And>w. v = Some w \<Longrightarrow> leads E st (f w)) \<Longrightarrow> leads E st (case v of None \<Rightarrow> x | Some w \<Rightarrow> f w)"
  "(\<And>u w. p = (u, w) \<Longrightarrow> leads E st (g u w)) \<Longrightarrow> leads E st (case p of (u, w) \<Rightarrow> g u w)"
  "(\<And>u. s = Inl u \<Longrightarrow> leads E st (h u)) \<Longrightarrow> (\<And>w. s = Inr w \<Longrightarrow> leads E st (k w)) \<Longrightarrow> leads E st (case s of Inl u \<Rightarrow> h u | Inr w \<Rightarrow> k w)"
  by (auto split: option.split prod.split sum.split)

lemma leads_here: "(auth_step E)\<^sup>*\<^sup>* st (sv_db sv) \<Longrightarrow> leads E st (sv, r)"
  by (simp add: leads_def)

lemma set_disabled_leads:
  assumes "(auth_step E)\<^sup>*\<^sup>* st (sv_db sv)"
  shows "leads E st (set_disabled env sv actor target req)"
  unfolding set_disabled_def
  by (intro leads_branches leads_here)
    (auto dest!: auth_steps(3) intro: assms rtranclp.rtrancl_into_rtrancl [OF assms])

lemma HandleLogin_leads: "leads E (sv_db sv) (HandleLogin env sv m b now)"
  unfolding HandleLogin_def Let_def
  by (intro leads_branches leads_here)
    (auto simp: leads_def dest!: auth_steps(4) intro: steps1 split: auth_error.splits)

lemma HandleLogout_leads: "leads E (sv_db sv) (HandleLogout env sv m h now)"
proof -
  obtain sv1 actor where r: "resolveActor env sv h now = (sv1, actor)"
    by (cases "resolveActor env sv h now")
  show ?thesis
    unfolding HandleLogout_def r Let_def
    by (auto simp: leads_def intro: steps2 [OF resolveActor_db [OF r] auth_step.logout])
qed

lemma HandleUsers_leads: "leads E (sv_db sv) (HandleUsers env sv m h b now)"
proof -
  obtain sv1 actor where r: "resolveActor env sv h now = (sv1, actor)"
    by (cases "resolveActor env sv h now")
  note r1 = resolveActor_db [OF r]
  show ?thesis
    unfolding HandleUsers_def r Let_def prod.case
    by (intro leads_branches) (auto dest!: auth_steps(1) intro!: leads_here steps1 [OF r1] intro: steps2 [OF r1])
qed

lemma HandleUserUpdate_leads: "leads E (sv_db sv) (HandleUserUpdate env sv m h b now)"
proof -
  obtain sv1 actor where r: "resolveActor env sv h now = (sv1, actor)"
    by (cases "resolveActor env sv h now")
  note r1 = resolveActor_db [OF r]
  show ?thesis
    unfolding HandleUserUpdate_def r Let_def prod.case
    by (intro leads_branches)
      (auto dest!: auth_steps(2) intro!: leads_here set_disabled_leads steps1 [OF r1] intro: steps2 [OF r1])
qed

lemma HandleTOTP_leads:
  assumes "\<And>uid. enrolls env now (RTOTP m h b) sv uid \<Longrightarrow> E uid"
  shows "leads E (sv_db sv) (HandleTOTP env sv m h b now)"
proof -
  obtain sv1 actor where r: "resolveActor env sv h now = (sv1, actor)"
    by (cases "resolveActor env sv h now")
  note r1 = resolveActor_db [OF r]
  have enroll: "auth_step E (sv_db sv1) st"
    if "EnrollTOTP env (sv_db sv1) (us_ID u) s (tr_Counter (VerifyTOTP s c (Unix now) 0)) = (st, e)"
      "tr_Valid (VerifyTOTP s c (Unix now) 0)" "at_User actor = Some u" for u s c st e
  proof -
    have "E (us_ID u)"
      using that(3) by (intro assms) (simp add: enrolls_def r)
    from auth_step.enroll [where E = E, OF this that(2), of "sv_db sv1" env] that(1) show ?thesis
      by simp
  qed
  show ?thesis
    unfolding HandleTOTP_def r Let_def prod.case
    by (intro leads_branches) (auto intro!: leads_here steps1 [OF r1] intro: steps2 [OF r1 enroll])
qed

lemma createFirstAdmin_leads: "leads E (sv_db sv) (createFirstAdmin env sv b now)"
  unfolding createFirstAdmin_def Let_def
  by (intro leads_branches leads_here)
    (auto simp: leads_def dest!: auth_steps(4,7) intro: steps1 steps2 split: auth_error.splits)

lemma ssoFinish_leads: "leads E (sv_db sv) (ssoFinish env sv sso b now)"
proof -
  have "leads E (sv_db sv) (case SignInSSO env (sv_db sv) i now of (st, Inl e) \<Rightarrow> f st e | (st, Inr (u, tk)) \<Rightarrow> g st u tk)"
    if "\<And>st e. sv_db (fst (f st e)) = st" "\<And>st u tk. sv_db (fst (g st u tk)) = st"
    for i and f :: "auth_db \<Rightarrow> auth_error \<Rightarrow> server \<times> reply" and g :: "auth_db \<Rightarrow> User \<Rightarrow> string \<Rightarrow> server \<times> reply"
    by (intro leads_branches) (auto simp: leads_def that dest!: auth_steps(9) intro: steps1)
  note sign_in = this
  have fin: "leads E (sv_db sv) (case Finish c ex code ver non of SSOIdentified i gs \<Rightarrow> x i gs | NoMappedGroup i gs \<Rightarrow> y i gs | SSOFailed e \<Rightarrow> z e)"
    if "\<And>i gs. leads E (sv_db sv) (x i gs)" "\<And>i gs. leads E (sv_db sv) (y i gs)" "\<And>e. leads E (sv_db sv) (z e)"
    for c ex code ver non and x y z :: "_ \<Rightarrow> _"
    using that by (auto split: sso_outcome.splits)
  show ?thesis
    unfolding ssoFinish_def
    by (intro leads_branches fin sign_in) (auto simp: leads_def split: auth_error.splits)
qed

lemma IssueSetupInvite_db: "auth_step E st (fst (IssueSetupInvite env st now))"
  unfolding IssueSetupInvite_def
  by (auto dest!: auth_steps(8) intro: auth_step.stay split: option.splits prod.splits)

lemma serve_steps:
  assumes "\<And>uid. enrolls env now r sv uid \<Longrightarrow> E uid"
  shows "(auth_step E)\<^sup>*\<^sup>* (sv_db sv) (sv_db (serve env now r sv))"
proof (cases r)
  case (RTOTP m h b)
  then show ?thesis
    using HandleTOTP_leads [of env now m h b sv E] assms by (simp add: leads_def)
next
  case (RSession h)
  then show ?thesis
    by (cases "resolveActor env sv h now") (auto simp: HandleSession_def intro: steps1 resolveActor_db)
next
  case (RPosture m h s)
  then show ?thesis
    by (cases "resolveActor env sv h now") (auto simp: HandleCryptoPosture_def intro: steps1 resolveActor_db)
next
  case (RSetup m i b)
  then show ?thesis
    using createFirstAdmin_leads [of E sv env b now] by (auto simp: HandleSetup_def leads_def split: sum.splits)
qed (simp_all add: HandleLogin_leads [unfolded leads_def] HandleLogout_leads [unfolded leads_def]
    HandleUsers_leads [unfolded leads_def] HandleUserUpdate_leads [unfolded leads_def]
    ssoFinish_leads [unfolded leads_def] steps1 [OF auth_step.prune] steps1 [OF IssueSetupInvite_db])

lemma served_steps: "served E start sv \<Longrightarrow> (auth_step E)\<^sup>*\<^sup>* (sv_db start) (sv_db sv)"
proof (induction rule: served.induct)
  case (request sv env now r)
  have "(auth_step E)\<^sup>*\<^sup>* (sv_db sv) (sv_db (serve env now r sv))"
    by (rule serve_steps) (rule request.hyps(2))
  with request.IH show ?case
    by (rule rtranclp_trans)
qed simp

section \<open>The invariant of the tables\<close>

definition user_ok :: "User \<Rightarrow> bool" where
  "user_ok u \<longleftrightarrow>
     ValidUsername (us_Username u) = None \<and> ValidRole (us_Role u) \<and> 0 \<le> us_FailedAttempts u \<and>
     (us_LockedUntil u = None \<longleftrightarrow> us_FailedAttempts u < MaxFailedAttempts) \<and>
     (us_TOTPEnabled u \<longrightarrow> us_TOTPSecret u \<noteq> [] \<and> 0 < us_TOTPLastCounter u)"

definition session_ok :: "auth_db \<Rightarrow> Session \<Rightarrow> bool" where
  "session_ok st s \<longleftrightarrow>
     (\<exists>a \<in> set (ad_users st). us_ID (ac_user a) = se_UserID s \<and> \<not> us_Disabled (ac_user a)) \<and>
     se_ExpiresAt s = se_CreatedAt s + SessionTTL \<and> se_Attributed s"

definition auth_ok :: "auth_db \<Rightarrow> bool" where
  "auth_ok st \<longleftrightarrow>
     distinct (map (us_ID \<circ> ac_user) (ad_users st)) \<and>
     distinct (map (ToLower \<circ> us_Username \<circ> ac_user) (ad_users st)) \<and>
     (\<forall>a \<in> set (ad_users st). user_ok (ac_user a)) \<and>
     distinct (map se_TokenHash (ad_sessions st)) \<and> (\<forall>s \<in> set (ad_sessions st). session_ok st s)"

lemma auth_ok_empty: "auth_ok no_accounts"
  by (simp add: auth_ok_def no_accounts_def)

lemma update_user_sessions [simp]: "ad_sessions (update_user uid f st) = ad_sessions st"
  "ad_invites (update_user uid f st) = ad_invites st"
  by (simp_all add: update_user_def)

lemma set_update_user:
  "set (ad_users (update_user uid f st)) =
     (\<lambda>a. if us_ID (ac_user a) = uid then a\<lparr>ac_user := f (ac_user a)\<rparr> else a) ` set (ad_users st)"
  by (simp add: update_user_def)

lemma CountUsers_update_user [simp]: "CountUsers (update_user uid f st) = CountUsers st"
  by (simp add: CountUsers_def update_user_def)

lemma session_ok_update_user:
  assumes "session_ok st s" "\<And>u. us_ID (f u) = us_ID u" "\<And>u. us_Disabled (f u) \<Longrightarrow> us_Disabled u"
  shows "session_ok (update_user uid f st) s"
proof -
  obtain a where a: "a \<in> set (ad_users st)" "us_ID (ac_user a) = se_UserID s" "\<not> us_Disabled (ac_user a)"
    using assms(1) unfolding session_ok_def by blast
  let ?a = "if us_ID (ac_user a) = uid then a\<lparr>ac_user := f (ac_user a)\<rparr> else a"
  have "?a \<in> set (ad_users (update_user uid f st))"
    using a(1) unfolding set_update_user by (rule imageI)
  moreover have "us_ID (ac_user ?a) = se_UserID s" "\<not> us_Disabled (ac_user ?a)"
    using a assms(2,3) by auto
  ultimately show ?thesis
    using assms(1) unfolding session_ok_def by blast
qed

lemma auth_ok_update_user:
  assumes "auth_ok st" "\<And>u. us_ID (f u) = us_ID u" "\<And>u. us_Username (f u) = us_Username u"
    "\<And>u. us_Disabled (f u) \<Longrightarrow> us_Disabled u"
    "\<And>a. a \<in> set (ad_users st) \<Longrightarrow> us_ID (ac_user a) = uid \<Longrightarrow> user_ok (ac_user a) \<Longrightarrow> user_ok (f (ac_user a))"
  shows "auth_ok (update_user uid f st)"
proof -
  have "map (us_ID \<circ> ac_user) (ad_users (update_user uid f st)) = map (us_ID \<circ> ac_user) (ad_users st)"
    "map (ToLower \<circ> us_Username \<circ> ac_user) (ad_users (update_user uid f st)) =
     map (ToLower \<circ> us_Username \<circ> ac_user) (ad_users st)"
    using assms(2,3) by (simp_all add: update_user_def)
  moreover have "user_ok (ac_user a)" if "a \<in> set (ad_users (update_user uid f st))" for a
    using that assms(1,5) by (auto simp: set_update_user auth_ok_def split: if_splits)
  moreover have "session_ok (update_user uid f st) s" if "s \<in> set (ad_sessions st)" for s
    using that assms(1,2,4) by (intro session_ok_update_user) (simp_all add: auth_ok_def)
  ultimately show ?thesis
    using assms(1) by (simp add: auth_ok_def)
qed

lemma auth_ok_sessions_subset:
  assumes "auth_ok st" "ad_users st' = ad_users st" "ad_sessions st' = filter P (ad_sessions st)"
  shows "auth_ok st'"
  using assms by (auto simp: auth_ok_def session_ok_def distinct_map_filter)

lemma auth_ok_invites: "auth_ok st \<Longrightarrow> ad_users st' = ad_users st \<Longrightarrow> ad_sessions st' = ad_sessions st \<Longrightarrow> auth_ok st'"
  by (rule auth_ok_sessions_subset [where P = "\<lambda>_. True"]) simp_all

lemma auth_ok_insert_user:
  assumes "auth_ok st" "insert_user env a st = Inr st'" "user_ok (ac_user a)"
  shows "auth_ok st'"
proof -
  have st': "st' = st\<lparr>ad_users := ad_users st @ [a]\<rparr>" "\<not> list_ex (same_name (us_Username (ac_user a))) (ad_users st)"
    "\<not> list_ex (conflicts a) (ad_users st)"
    using assms(2) by (auto simp: insert_user_def split: if_splits)
  then show ?thesis
    using assms(1,3) by (auto simp: auth_ok_def session_ok_def list_ex_iff same_name_def conflicts_def)
qed

lemma new_account_ok:
  "ValidUsername username = None \<Longrightarrow> ValidRole role \<Longrightarrow> user_ok (ac_user (new_account env uid username display role hash))"
  by (simp add: user_ok_def new_account_def MaxFailedAttempts_def)

lemma auth_ok_new_session:
  assumes "auth_ok st" "\<not> has_session st hash" "a \<in> set (ad_users st)" "us_ID (ac_user a) = uid" "\<not> us_Disabled (ac_user a)"
  shows "auth_ok (st\<lparr>ad_sessions := ad_sessions st @ [new_session hash uid now]\<rparr>)"
proof -
  have "Microseconds (now + SessionTTL) = Microseconds now + SessionTTL"
    using mod_mult_self1 [of now 43200000000 1000] by (simp add: Microseconds_def SessionTTL_def duration_defs)
  then have "session_ok st (new_session hash uid now)"
    using assms(3,4,5) by (auto simp: session_ok_def new_session_def)
  then show ?thesis
    using assms(1,2) by (auto simp: auth_ok_def session_ok_def has_session_def list_ex_iff new_session_def)
qed

text \<open>Rows that are read.\<close>

lemma find_user: "find P xs = Some a \<Longrightarrow> a \<in> set xs \<and> P a"
  by (induction xs) (auto split: if_splits)

lemma GetUserByUsername_row:
  "GetUserByUsername st name = Some u \<Longrightarrow> \<exists>a \<in> set (ad_users st). ac_user a = u"
  by (auto simp: GetUserByUsername_def dest: find_user)

lemma GetUser_row: "GetUser st uid = Some u \<Longrightarrow> \<exists>a \<in> set (ad_users st). ac_user a = u \<and> us_ID u = uid"
  by (auto simp: GetUser_def dest: find_user)

lemma same_row:
  "auth_ok st \<Longrightarrow> a \<in> set (ad_users st) \<Longrightarrow> b \<in> set (ad_users st) \<Longrightarrow> us_ID (ac_user a) = us_ID (ac_user b) \<Longrightarrow> a = b"
  unfolding auth_ok_def by (metis comp_apply distinct_map inj_onD)

text \<open>The operations keep the invariant.\<close>

lemma auth_ok_create: "auth_ok st \<Longrightarrow> auth_ok (fst (CreateUser env st uid name display role password))"
  by (auto simp: CreateUser_def Let_def intro: auth_ok_insert_user new_account_ok split: option.split sum.split)

lemma auth_ok_password: "auth_ok st \<Longrightarrow> auth_ok (fst (SetUserPassword env st uid password))"
  by (auto simp: SetUserPassword_def user_ok_def MaxFailedAttempts_def intro!: auth_ok_update_user split: option.split)

lemma auth_ok_enable: "auth_ok st \<Longrightarrow> auth_ok (update_user uid (\<lambda>u. u\<lparr>us_Disabled := False\<rparr>) st)"
  by (rule auth_ok_update_user) (simp_all add: user_ok_def)

lemma auth_ok_disable:
  assumes "auth_ok st"
  shows "auth_ok (update_user uid (\<lambda>u. u\<lparr>us_Disabled := True\<rparr>) st\<lparr>ad_sessions := filter (\<lambda>s. se_UserID s \<noteq> uid) (ad_sessions st)\<rparr>)"
    (is "auth_ok ?st'")
proof -
  have "map (us_ID \<circ> ac_user) (ad_users ?st') = map (us_ID \<circ> ac_user) (ad_users st)"
    "map (ToLower \<circ> us_Username \<circ> ac_user) (ad_users ?st') = map (ToLower \<circ> us_Username \<circ> ac_user) (ad_users st)"
    by (simp_all add: update_user_def)
  moreover have "user_ok (ac_user a)" if "a \<in> set (ad_users ?st')" for a
    using that assms by (auto simp: update_user_def auth_ok_def user_ok_def)
  moreover have "session_ok ?st' s" if "s \<in> set (ad_sessions st)" "se_UserID s \<noteq> uid" for s
    using assms that by (fastforce simp: auth_ok_def session_ok_def update_user_def)
  ultimately show ?thesis
    using assms by (auto simp: auth_ok_def distinct_map_filter)
qed

lemma auth_ok_set_disabled: "auth_ok st \<Longrightarrow> auth_ok (fst (SetUserDisabled env st uid d))"
  using auth_ok_disable [of st uid] auth_ok_enable [of st uid]
  by (cases d) (auto simp: SetUserDisabled_def Let_def)

lemma auth_ok_enroll:
  assumes "auth_ok st" "tr_Valid (VerifyTOTP secret code unix 0)"
  shows "auth_ok (fst (EnrollTOTP env st uid secret (tr_Counter (VerifyTOTP secret code unix 0))))"
  using assms VerifyTOTP_sound(1) [OF assms(2)]
  by (auto simp: EnrollTOTP_def user_ok_def intro!: auth_ok_update_user)

lemma auth_ok_failure:
  assumes "auth_ok st" "a \<in> set (ad_users st)" "ac_user a = u"
  shows "auth_ok (recordLoginFailure env st u now)"
proof -
  have rows: "b = a" if "b \<in> set (ad_users st)" "us_ID (ac_user b) = us_ID u" for b
    using same_row [OF assms(1) that(1) assms(2)] that(2) assms(3) by simp
  have u: "user_ok u"
    using assms by (auto simp: auth_ok_def)
  have counted: "auth_ok (update_user (us_ID u) f st)"
    if "user_ok (f u)" "\<And>v. us_ID (f v) = us_ID v \<and> us_Username (f v) = us_Username v \<and> us_Disabled (f v) = us_Disabled v" for f
    using that assms(3) by (intro auth_ok_update_user [OF assms(1)]) (auto dest!: rows)
  show ?thesis
    unfolding recordLoginFailure_def Let_def using u
    by (auto simp: user_ok_def intro!: counted)
qed

lemma auth_ok_spend: "auth_ok st \<Longrightarrow> auth_ok (spend_code st uid c)"
  by (auto simp: spend_code_def user_ok_def intro!: auth_ok_update_user split: option.split if_splits)

lemma auth_ok_rehash: "auth_ok st \<Longrightarrow> auth_ok (rehash env st u password)"
  by (auto simp: rehash_def user_ok_def intro!: auth_ok_update_user split: option.split)

text \<open>The row is still there, and enabled, when the session is opened.\<close>

definition enabled_row :: "auth_db \<Rightarrow> string \<Rightarrow> bool" where
  "enabled_row st uid \<longleftrightarrow> (\<exists>a \<in> set (ad_users st). us_ID (ac_user a) = uid \<and> \<not> us_Disabled (ac_user a))"

lemma enabled_row_update:
  assumes "enabled_row st uid" "\<And>u. us_ID (f u) = us_ID u" "\<And>u. us_Disabled (f u) = us_Disabled u"
  shows "enabled_row (update_user uid' f st) uid"
proof -
  obtain a where "a \<in> set (ad_users st)" "us_ID (ac_user a) = uid" "\<not> us_Disabled (ac_user a)"
    using assms(1) by (auto simp: enabled_row_def)
  then show ?thesis
    unfolding enabled_row_def set_update_user using assms(2,3) by (intro bexI [OF _ imageI]) auto
qed

lemma enabled_row_prepare: "enabled_row st uid \<Longrightarrow> enabled_row (rehash env (spend_code st uid' c) u password) uid"
  by (auto simp: rehash_def spend_code_def intro!: enabled_row_update split: option.split if_splits)

lemma auth_ok_open_session:
  assumes "auth_ok st" "enabled_row st (us_ID u)"
  shows "auth_ok (fst (open_session env st u c now))"
proof -
  obtain a where a: "a \<in> set (ad_users st)" "us_ID (ac_user a) = us_ID u" "\<not> us_Disabled (ac_user a)"
    using assms(2) unfolding enabled_row_def by blast
  have "auth_ok (update_user (us_ID u)
      (\<lambda>v. v\<lparr>us_FailedAttempts := 0, us_LockedUntil := None, us_LastLoginAt := Some (Microseconds now)\<rparr>)
      (st\<lparr>ad_sessions := ad_sessions st @ [new_session hash (us_ID u) now]\<rparr>))"
    if "\<not> has_session st hash" for hash
    using auth_ok_new_session [OF assms(1) that a]
    by (rule auth_ok_update_user) (simp_all add: user_ok_def MaxFailedAttempts_def)
  then show ?thesis
    using assms(1) by (auto simp: open_session_def split: option.split prod.split)
qed

lemma auth_ok_authenticate:
  assumes "auth_ok st"
  shows "auth_ok (fst (Authenticate env st name password totp now))"
proof (cases "GetUserByUsername st name")
  case None
  then show ?thesis
    using assms by (simp add: Authenticate_def)
next
  case (Some u)
  then obtain a where a: "a \<in> set (ad_users st)" "ac_user a = u"
    using GetUserByUsername_row by blast
  have failure: "auth_ok (recordLoginFailure env st u now)"
    by (rule auth_ok_failure [OF assms a])
  have accepted: "auth_ok (fst (open_session env (rehash env (spend_code st (us_ID u) c) u password) u c now))"
    if "check_login env u password totp now = Accept c" for c
  proof -
    have "\<not> us_Disabled u"
      using that by (auto simp: check_login_def Let_def split: if_splits)
    then have "enabled_row st (us_ID u)"
      using a by (auto simp: enabled_row_def)
    then show ?thesis
      using assms by (intro auth_ok_open_session auth_ok_rehash auth_ok_spend enabled_row_prepare)
  qed
  show ?thesis
    using assms failure accepted Some by (auto simp: Authenticate_def split: verdict.split)
qed

lemma map_sum_Inr: "map_sum f g s = Inr y \<longleftrightarrow> (\<exists>x. s = Inr x \<and> y = g x)"
  by (cases s) auto

lemma auth_ok_sso:
  assumes "auth_ok st"
  shows "auth_ok (fst (SignInSSO env st i now))"
proof -
  have account: "auth_ok st1 \<and> enabled_row st1 uid" if "sso_account env st i = Inr (st1, uid)" "ValidRole (si_Role i)" for st1 uid
  proof (cases "find (linked_to i) (ad_users st)")
    case None
    let ?name = "NormalizeUsername (si_Username i)"
    let ?a = "\<lambda>uid. (new_account env uid ?name (TrimSpace (si_DisplayName i)) (si_Role i) SSOPasswordMarker)
      \<lparr>ac_sso_issuer := si_Issuer i, ac_sso_subject := si_Subject i\<rparr>"
    have *: "insert_user env (?a uid) st = Inr st1" "ValidUsername ?name = None"
      using that(1) None
      by (auto simp: sso_account_def Let_def map_sum_Inr split: option.splits if_splits)
    have "user_ok (ac_user (?a uid))"
      using new_account_ok [OF *(2) that(2), of env uid "TrimSpace (si_DisplayName i)" SSOPasswordMarker] by simp
    moreover have "?a uid \<in> set (ad_users st1)"
      using *(1) by (auto simp: insert_user_def split: if_splits)
    moreover have "us_ID (ac_user (?a uid)) = uid" "\<not> us_Disabled (ac_user (?a uid))"
      by (simp_all add: new_account_def)
    ultimately show ?thesis
      using auth_ok_insert_user [OF assms *(1)] unfolding enabled_row_def by blast
  next
    case (Some a)
    have "a \<in> set (ad_users st)"
      using find_user [OF Some] by simp
    moreover have "\<not> us_Disabled (ac_user a)" "uid = us_ID (ac_user a)"
      using that(1) Some by (simp_all add: sso_account_def split: if_splits)
    ultimately have "enabled_row st uid"
      unfolding enabled_row_def by blast
    define f where "f = (\<lambda>u :: User. u\<lparr>us_Role := si_Role i,
      us_DisplayName := (if TrimSpace (si_DisplayName i) = [] then us_DisplayName u else TrimSpace (si_DisplayName i))\<rparr>)"
    have st1: "st1 = update_user (us_ID (ac_user a)) f st"
      using that(1) Some by (auto simp: sso_account_def f_def split: if_splits)
    have "auth_ok st1"
      unfolding st1 by (rule auth_ok_update_user [OF assms]) (simp_all add: f_def user_ok_def that(2))
    moreover have "enabled_row st1 uid"
      unfolding st1 by (rule enabled_row_update [OF \<open>enabled_row st uid\<close>]) (simp_all add: f_def)
    ultimately show ?thesis
      by simp
  qed
  have "auth_ok (update_user uid (\<lambda>u. u\<lparr>us_LastLoginAt := Some (Microseconds now)\<rparr>)
      (st1\<lparr>ad_sessions := ad_sessions st1 @ [new_session hash uid now]\<rparr>))"
    if "sso_account env st i = Inr (st1, uid)" "ValidRole (si_Role i)" "\<not> has_session st1 hash" for st1 uid hash
  proof -
    note free = that(3)
    note acc = account [OF that(1,2)]
    obtain a where "a \<in> set (ad_users st1)" "us_ID (ac_user a) = uid" "\<not> us_Disabled (ac_user a)"
      using acc by (auto simp: enabled_row_def)
    from auth_ok_new_session [OF _ free this] acc show ?thesis
      by (intro auth_ok_update_user) (simp_all add: user_ok_def)
  qed
  then show ?thesis
    using assms by (auto simp: SignInSSO_def Let_def split: sum.split option.split prod.split)
qed

lemma auth_ok_first: "auth_ok st \<Longrightarrow> auth_ok (fst (CreateFirstUserWithInvite env st uid name display password hash))"
proof -
  assume st: "auth_ok st"
  then have "auth_ok (use_invite env st hash)"
    by (rule auth_ok_invites) (simp_all add: use_invite_def)
  moreover have "ValidRole RoleAdmin"
    by (simp add: ValidRole_def)
  ultimately show ?thesis
    using st auth_ok_insert_user new_account_ok
    by (auto simp: CreateFirstUserWithInvite_def Let_def split: option.split sum.split)
qed

lemma auth_ok_lookup: "auth_ok st \<Longrightarrow> auth_ok (fst (LookupSession env st token now))"
  by (auto simp: LookupSession_def intro: auth_ok_sessions_subset split: option.split)

lemma auth_ok_step: "auth_step E st st' \<Longrightarrow> auth_ok st \<Longrightarrow> auth_ok st'"
proof (induction rule: auth_step.induct)
  case (logout st env token)
  then show ?case
    by (auto simp: DeleteSession_def intro: auth_ok_sessions_subset)
next
  case (prune st env now)
  then show ?case
    by (auto simp: PruneExpiredSessions_def Let_def intro: auth_ok_sessions_subset)
next
  case (invite st env hash expires)
  then show ?case
    by (auto simp: CreateSetupInvite_def intro: auth_ok_invites)
qed (simp_all add: auth_ok_create auth_ok_password auth_ok_set_disabled auth_ok_enroll auth_ok_authenticate auth_ok_lookup
    auth_ok_first auth_ok_sso)

lemma auth_ok_steps: "(auth_step E)\<^sup>*\<^sup>* st st' \<Longrightarrow> auth_ok st \<Longrightarrow> auth_ok st'"
  by (induction rule: rtranclp_induct) (simp_all add: auth_ok_step)

lemma auth_ok_served: "served E start sv \<Longrightarrow> auth_ok (sv_db start) \<Longrightarrow> auth_ok (sv_db sv)"
  using served_steps auth_ok_steps by blast

end
