(* ===== verification/Account_Safety.thy ===== *)
theory Account_Safety
  imports Account_Reach
begin

text \<open>
  The guarantees of the accounts over runs of requests: sessions, one-time codes, the lockout, who
  can change an account, the first administrator; and what interleaved sign-ins and a few paths
  through the handlers do to them.
\<close>

section \<open>Sessions\<close>

lemma LookupSession_found:
  assumes "LookupSession env st token now = (st', Inr (u, s))"
  shows "s \<in> set (ad_sessions st)" "se_TokenHash s = HashSessionToken token" "now \<le> se_ExpiresAt s"
    "\<exists>a \<in> set (ad_users st). us_ID (ac_user a) = se_UserID s \<and> \<not> us_Disabled (ac_user a) \<and> u = without_secrets (ac_user a)"
    "st' = st"
  using assms
  by (auto simp: LookupSession_def Expired_def After_def split: if_splits option.splits
      dest!: find_user GetUser_row)

text \<open>The state after which nothing has happened yet.\<close>

definition fresh :: "string \<Rightarrow> string \<Rightarrow> time option \<Rightarrow> server" where
  "fresh admin viewer open_until =
     \<lparr>sv_db = no_accounts, sv_ledger = [], sv_adminToken = admin, sv_viewerToken = viewer, sv_setupOpenUntil = open_until\<rparr>"

lemma auth_ok_fresh: "served E (fresh admin viewer w) sv \<Longrightarrow> auth_ok (sv_db sv)"
  using auth_ok_served [of E "fresh admin viewer w" sv] by (simp add: fresh_def auth_ok_empty)


section \<open>One-time codes\<close>

text \<open>What every operation does to each row.\<close>

definition rows_keep :: "(User \<Rightarrow> User \<Rightarrow> bool) \<Rightarrow> auth_db \<Rightarrow> auth_db \<Rightarrow> bool" where
  "rows_keep R st st' \<longleftrightarrow>
     (\<forall>a \<in> set (ad_users st). \<exists>b \<in> set (ad_users st'). us_ID (ac_user b) = us_ID (ac_user a) \<and> R (ac_user a) (ac_user b))"

lemma rows_keep_same: "(\<And>u. R u u) \<Longrightarrow> ad_users st' = ad_users st \<Longrightarrow> rows_keep R st st'"
  by (auto simp: rows_keep_def)

lemma rows_keep_update:
  assumes "\<And>u. us_ID (f u) = us_ID u" "\<And>u. R u u" "\<And>u. us_ID u = uid \<Longrightarrow> R u (f u)"
  shows "rows_keep R st (update_user uid f st)"
  unfolding rows_keep_def
proof
  fix a
  assume a: "a \<in> set (ad_users st)"
  let ?b = "if us_ID (ac_user a) = uid then a\<lparr>ac_user := f (ac_user a)\<rparr> else a"
  have "?b \<in> set (ad_users (update_user uid f st))"
    using a unfolding set_update_user by (rule imageI)
  then show "\<exists>b \<in> set (ad_users (update_user uid f st)). us_ID (ac_user b) = us_ID (ac_user a) \<and> R (ac_user a) (ac_user b)"
    using assms by (intro bexI [where x = ?b]) auto
qed

lemma rows_keep_trans:
  assumes "rows_keep R st st1" "rows_keep R st1 st2" "\<And>u v w. R u v \<Longrightarrow> R v w \<Longrightarrow> R u w"
  shows "rows_keep R st st2"
  unfolding rows_keep_def
proof
  fix a
  assume "a \<in> set (ad_users st)"
  then obtain b where b: "b \<in> set (ad_users st1)" "us_ID (ac_user b) = us_ID (ac_user a)" "R (ac_user a) (ac_user b)"
    using assms(1) unfolding rows_keep_def by blast
  then obtain c where "c \<in> set (ad_users st2)" "us_ID (ac_user c) = us_ID (ac_user b)" "R (ac_user b) (ac_user c)"
    using assms(2) unfolding rows_keep_def by blast
  then show "\<exists>c \<in> set (ad_users st2). us_ID (ac_user c) = us_ID (ac_user a) \<and> R (ac_user a) (ac_user c)"
    using b assms(3) by (intro bexI [where x = c]) auto
qed

lemma rows_keep_insert: "insert_user env a st = Inr st' \<Longrightarrow> (\<And>u. R u u) \<Longrightarrow> rows_keep R st st'"
  by (auto simp: insert_user_def rows_keep_def split: if_splits)

text \<open>The steps used up never become fewer, and the second factor stays on, unless it is enrolled again.\<close>

definition factor_kept :: "(string \<Rightarrow> bool) \<Rightarrow> User \<Rightarrow> User \<Rightarrow> bool" where
  "factor_kept E u v \<longleftrightarrow>
     us_ID v = us_ID u \<and> (\<not> E (us_ID u) \<longrightarrow> us_TOTPLastCounter u \<le> us_TOTPLastCounter v \<and> us_TOTPEnabled v = us_TOTPEnabled u)"

lemma factor_kept_refl: "factor_kept E u u"
  by (simp add: factor_kept_def)

lemma factor_kept_trans: "factor_kept E u v \<Longrightarrow> factor_kept E v w \<Longrightarrow> factor_kept E u w"
  by (auto simp: factor_kept_def)

lemmas factor_rows = rows_keep_same [where R = "factor_kept E" for E, OF factor_kept_refl]
lemmas factor_insert = rows_keep_insert [where R = "factor_kept E" for E, OF _ factor_kept_refl]

lemma factor_update:
  assumes "\<And>u. us_ID (f u) = us_ID u" "\<And>u. us_TOTPLastCounter u \<le> us_TOTPLastCounter (f u)"
    "\<And>u. us_TOTPEnabled (f u) = us_TOTPEnabled u"
  shows "rows_keep (factor_kept E) st (update_user uid f st)"
  by (rule rows_keep_update) (simp_all add: assms factor_kept_def)

lemma factor_spend: "rows_keep (factor_kept E) st (spend_code st uid c)"
  by (cases c) (auto simp: spend_code_def factor_rows intro!: factor_update split: if_splits)

lemma factor_rehash: "rows_keep (factor_kept E) st (rehash env st u password)"
  by (auto simp: rehash_def factor_rows intro!: factor_update split: option.split)

lemma factor_open: "rows_keep (factor_kept E) st (fst (open_session env st u c now))"
proof -
  have "rows_keep (factor_kept E) st (update_user uid
      (\<lambda>v. v\<lparr>us_FailedAttempts := 0, us_LockedUntil := None, us_LastLoginAt := l\<rparr>) (st\<lparr>ad_sessions := ss\<rparr>))" for uid l ss
    by (rule rows_keep_trans [where ?st1.0 = "st\<lparr>ad_sessions := ss\<rparr>", OF _ _ factor_kept_trans])
      (simp_all add: factor_rows factor_update)
  then show ?thesis
    by (auto simp: open_session_def factor_rows split: option.split prod.split)
qed

lemma factor_authenticate: "rows_keep (factor_kept E) st (fst (Authenticate env st name password totp now))"
proof -
  have "rows_keep (factor_kept E) st (recordLoginFailure env st u now)" for u
    by (auto simp: recordLoginFailure_def Let_def intro!: factor_update)
  moreover have "rows_keep (factor_kept E) st (fst (open_session env (rehash env (spend_code st uid c) u password) u c now))" for uid c u
    by (rule rows_keep_trans [OF rows_keep_trans [OF factor_spend factor_rehash] factor_open])
      (rule factor_kept_trans; assumption)+
  ultimately show ?thesis
    by (auto simp: Authenticate_def factor_rows split: option.split verdict.split)
qed

lemma factor_sso: "rows_keep (factor_kept E) st (fst (SignInSSO env st i now))"
proof -
  have account: "rows_keep (factor_kept E) st st1" if "sso_account env st i = Inr (st1, uid)" for st1 uid
    using that
    by (auto simp: sso_account_def Let_def map_sum_Inr intro: factor_insert intro!: factor_update split: option.splits if_splits)
  have "rows_keep (factor_kept E) st (update_user uid (\<lambda>u. u\<lparr>us_LastLoginAt := l\<rparr>) (st1\<lparr>ad_sessions := ss\<rparr>))"
    if "sso_account env st i = Inr (st1, uid)" for st1 uid l ss
  proof (rule rows_keep_trans [where R = "factor_kept E", OF account [OF that] _ factor_kept_trans])
    show "rows_keep (factor_kept E) st1 (update_user uid (\<lambda>u. u\<lparr>us_LastLoginAt := l\<rparr>) (st1\<lparr>ad_sessions := ss\<rparr>))"
      by (rule rows_keep_trans [where ?st1.0 = "st1\<lparr>ad_sessions := ss\<rparr>", OF _ _ factor_kept_trans])
        (simp_all add: factor_rows factor_update)
  qed
  then show ?thesis
    by (auto simp: SignInSSO_def Let_def factor_rows split: option.split sum.split prod.split)
qed

lemma factor_step: "auth_step E st st' \<Longrightarrow> rows_keep (factor_kept E) st st'"
proof (induction rule: auth_step.induct)
  case (enroll uid secret code unix st env)
  have "rows_keep (factor_kept E) st (update_user uid
      (\<lambda>u. u\<lparr>us_TOTPSecret := s, us_TOTPEnabled := True, us_TOTPLastCounter := c\<rparr>) st)" for s c
    by (rule rows_keep_update) (use enroll(1) in \<open>auto simp: factor_kept_def\<close>)
  then show ?case
    by (auto simp: EnrollTOTP_def factor_rows)
next
  case (first st env uid name display password hash)
  have "rows_keep (factor_kept E) (use_invite env st hash) st' \<Longrightarrow> rows_keep (factor_kept E) st st'" for st'
    by (simp add: rows_keep_def use_invite_def)
  then show ?case
    by (auto simp: CreateFirstUserWithInvite_def Let_def intro: factor_rows factor_insert split: option.split sum.split)
next
  case (create st env uid name display role password)
  then show ?case
    by (auto simp: CreateUser_def Let_def intro: factor_rows factor_insert split: option.split sum.split)
next
  case (password st env uid p)
  then show ?case
    by (auto simp: SetUserPassword_def factor_rows intro!: factor_update split: option.split)
next
  case (disable st env uid d)
  have "rows_keep (factor_kept E) st (update_user uid (\<lambda>u. u\<lparr>us_Disabled := d\<rparr>) st\<lparr>ad_sessions := ss\<rparr>)" for ss
    using factor_update [of "\<lambda>u. u\<lparr>us_Disabled := d\<rparr>" E st uid] by (simp add: rows_keep_def)
  then show ?case
    by (auto simp: SetUserDisabled_def Let_def factor_rows intro!: factor_update)
qed (auto simp: factor_authenticate factor_sso LookupSession_def DeleteSession_def PruneExpiredSessions_def CreateSetupInvite_def
    Let_def factor_rows split: option.split)

lemma factor_served: "served E start sv \<Longrightarrow> rows_keep (factor_kept E) (sv_db start) (sv_db sv)"
proof -
  have "rows_keep (factor_kept E) st st'" if "(auth_step E)\<^sup>*\<^sup>* st st'" for st st'
    using that
    by (induction rule: rtranclp_induct)
      (auto intro: factor_rows rows_keep_trans [OF _ factor_step factor_kept_trans])
  then show "served E start sv \<Longrightarrow> rows_keep (factor_kept E) (sv_db start) (sv_db sv)"
    using served_steps by blast
qed

text \<open>What a sign-in that succeeds has found and leaves behind.\<close>

lemma Authenticate_accepted:
  assumes "Authenticate env st name password totp now = (st', Inr (v, token))"
  obtains u c where "GetUserByUsername st name = Some u" "check_login env u password totp now = Accept c"
    "us_ID v = us_ID u" "us_TOTPEnabled v = us_TOTPEnabled u"
    "us_TOTPLastCounter v = (case c of None \<Rightarrow> us_TOTPLastCounter u | Some k \<Rightarrow> k)"
    "st' = fst (open_session env (rehash env (spend_code st (us_ID u) c) u password) u c now)"
proof -
  obtain u c where *: "GetUserByUsername st name = Some u" "check_login env u password totp now = Accept c"
      "open_session env (rehash env (spend_code st (us_ID u) c) u password) u c now = (st', Inr (v, token))"
    using assms by (auto simp: Authenticate_def split: if_splits option.splits verdict.splits)
  then have "us_ID v = us_ID u \<and> us_TOTPEnabled v = us_TOTPEnabled u \<and>
      us_TOTPLastCounter v = (case c of None \<Rightarrow> us_TOTPLastCounter u | Some k \<Rightarrow> k)"
    by (auto simp: open_session_def without_secrets_def split: option.splits if_splits prod.splits)
  then show thesis
    using that * by (metis fst_conv)
qed

lemma Authenticate_spends:
  assumes "Authenticate env st name password totp now = (st', Inr (v, token))" "us_TOTPEnabled v"
  obtains b where "b \<in> set (ad_users st')" "us_ID (ac_user b) = us_ID v" "us_TOTPLastCounter v \<le> us_TOTPLastCounter (ac_user b)"
    "us_TOTPEnabled (ac_user b)"
proof -
  from assms(1) obtain u c where u: "GetUserByUsername st name = Some u" "check_login env u password totp now = Accept c"
      "us_ID v = us_ID u" "us_TOTPEnabled v = us_TOTPEnabled u"
      "us_TOTPLastCounter v = (case c of None \<Rightarrow> us_TOTPLastCounter u | Some k \<Rightarrow> k)"
      "st' = fst (open_session env (rehash env (spend_code st (us_ID u) c) u password) u c now)"
    by (rule Authenticate_accepted)
  obtain k where k: "c = Some k"
    using u(2,4) assms(2) by (auto simp: check_login_def Let_def split: if_splits)
  obtain a where a: "a \<in> set (ad_users st)" "ac_user a = u"
    using GetUserByUsername_row [OF u(1)] by blast
  let ?f = "\<lambda>x. if us_TOTPLastCounter x < k then x\<lparr>us_TOTPLastCounter := k\<rparr> else x"
  let ?b = "a\<lparr>ac_user := ?f (ac_user a)\<rparr>"
  have spent: "?b \<in> set (ad_users (spend_code st (us_ID u) c))"
    unfolding k spend_code_def option.case set_update_user using a by (intro image_eqI [OF _ a(1)]) simp
  have "rows_keep (factor_kept (\<lambda>_. False)) (spend_code st (us_ID u) c) st'"
    unfolding u(6) by (rule rows_keep_trans [OF factor_rehash factor_open factor_kept_trans])
  then obtain b where "b \<in> set (ad_users st')" "us_ID (ac_user b) = us_ID (ac_user ?b)" "factor_kept (\<lambda>_. False) (ac_user ?b) (ac_user b)"
    using spent unfolding rows_keep_def by blast
  then show thesis
    using a u(3,4,5) k assms(2) by (intro that [of b]) (auto simp: factor_kept_def split: if_splits)
qed


text \<open>An account with a second factor, signed in to twice.\<close>

definition ex_argon :: argon where
  "ex_argon password salt timeCost memory threads n = take n (password @ replicate n (CHR ''.''))"

definition ex_env :: auth_env where
  "ex_env = \<lparr>ae_argon2 = ex_argon, ae_fips = False, ae_salt = Some ''pepper'', ae_rand = Some ''random'',
     ae_id = Some ''u1'', ae_now = 0, ae_down = (\<lambda>_. False)\<rparr>"

definition ex_secret :: string where
  "ex_secret = ''GEZDGNBVGY3TQOJQGEZDGNBVGY3TQOJQ''"

definition ex_hash :: string where
  "ex_hash = encodeHash ex_argon ''correct horse'' ''pepper'' argonMemoryKiB argonTime argonThreads"

definition ex_user :: User where
  "ex_user = \<lparr>us_ID = ''u1'', us_Username = ''alice'', us_DisplayName = [], us_Role = RoleAdmin, us_Disabled = False,
     us_TOTPEnabled = True, us_CreatedAt = 0, us_LastLoginAt = None, us_PasswordHash = ex_hash,
     us_TOTPSecret = ex_secret, us_TOTPLastCounter = 1, us_FailedAttempts = 0, us_LockedUntil = None\<rparr>"

definition ex_db :: auth_db where
  "ex_db = \<lparr>ad_users = [\<lparr>ac_user = ex_user, ac_sso_issuer = [], ac_sso_subject = []\<rparr>], ad_sessions = [], ad_invites = []\<rparr>"

definition ex_server :: server where
  "ex_server = (fresh ''root'' ''guest'' None)\<lparr>sv_db := ex_db\<rparr>"

definition ex_code :: "int \<Rightarrow> string" where
  "ex_code n = the (totpCode ex_secret n)"

definition ex_login :: "auth_db \<Rightarrow> int \<Rightarrow> time \<Rightarrow> auth_db \<times> (auth_error + User \<times> string)" where
  "ex_login st n now = Authenticate ex_env st ''alice'' ''correct horse'' (ex_code n) now"

lemma ex_code: "totpCode ex_secret n = Some (ex_code n)"
  using totpCode_total [OF ex_secret_def, of n] by (auto simp: ex_code_def)

lemma ex_HashPassword: "HashPassword ex_argon False (Some ''pepper'') ''correct horse'' = Some ex_hash"
  by (simp add: HashPassword_def ActiveKDF_def ex_hash_def)

lemma ex_verifies: "VerifyPassword ex_argon ''correct horse'' ex_hash"
  by (rule VerifyPassword_HashPassword(1) [OF ex_HashPassword]) (simp_all add: ex_argon_def)

lemma ex_db_ok: "auth_ok ex_db"
  by (simp add: auth_ok_def ex_db_def user_ok_def ex_user_def ValidUsername_def username_char_def isASCIIDigit_def
      ValidRole_def MaxFailedAttempts_def ex_secret_def)

lemma ex_alice: "NormalizeUsername ''alice'' = ''alice''"
  by (rule NormalizeUsername_valid) (simp add: ValidUsername_def username_char_def isASCIIDigit_def)

text \<open>Alice's row, with a step still free, and the tables around it.\<close>

definition ex_row :: "User \<Rightarrow> bool" where
  "ex_row u \<longleftrightarrow> us_ID u = ''u1'' \<and> us_Username u = ''alice'' \<and> us_PasswordHash u = ex_hash \<and> us_TOTPSecret u = ex_secret \<and>
     us_TOTPEnabled u \<and> \<not> us_Disabled u \<and> us_LockedUntil u = None"

definition ex_tables :: "User \<Rightarrow> Session list \<Rightarrow> auth_db" where
  "ex_tables u ss = \<lparr>ad_users = [\<lparr>ac_user = u, ac_sso_issuer = [], ac_sso_subject = []\<rparr>], ad_sessions = ss, ad_invites = []\<rparr>"

lemma ex_check:
  assumes "ex_row u" "us_TOTPLastCounter u < n" "0 \<le> n"
  obtains k where "check_login ex_env u ''correct horse'' (ex_code n) (n * 30 * Second) = Accept (Some k)"
    "us_TOTPLastCounter u < k" "k \<le> n + 1"
proof -
  let ?r = "VerifyTOTP ex_secret (ex_code n) (n * 30) (us_TOTPLastCounter u)"
  have now: "Unix (n * 30 * Second) = n * 30" "TOTPCounter (n * 30) = n"
    using assms(3) by (simp_all add: Unix_def TOTPCounter_def TOTPPeriod_def go_div_def Second_def)
  have valid: "tr_Valid ?r"
    using assms(2) now(2)
    by (intro VerifyTOTP_complete [OF ex_code]) (simp_all add: ex_secret_def TOTPSkewSteps_def)
  have "TrimSpace (ex_code n) \<noteq> []"
    using totpCode_shape [OF ex_code, of n] by (auto simp: TrimSpace_digits TOTPDigits_def)
  then have "check_login ex_env u ''correct horse'' (ex_code n) (n * 30 * Second) = Accept (Some (tr_Counter ?r))"
    using assms(1) valid now(1) ex_verifies by (simp add: check_login_def ex_row_def Locked_def ex_env_def Let_def)
  then show thesis
    using VerifyTOTP_sound(1,2) [OF valid] now(2) by (intro that) (auto simp: TOTPSkewSteps_def)
qed

lemma ex_login_accepted:
  assumes "ex_row u" "us_TOTPLastCounter u < n" "0 \<le> n"
  obtains v token u' s where "ex_login (ex_tables u []) n (n * 30 * Second) = (ex_tables u' [s], Inr (v, token))"
    "us_ID v = ''u1''" "us_TOTPEnabled v" "ex_row u'" "us_TOTPLastCounter u' \<le> n + 1"
    "se_ExpiresAt s = Microseconds (n * 30 * Second + SessionTTL)"
proof -
  obtain k where k: "check_login ex_env u ''correct horse'' (ex_code n) (n * 30 * Second) = Accept (Some k)"
      "us_TOTPLastCounter u < k" "k \<le> n + 1"
    using ex_check [OF assms] .
  let ?u = "u\<lparr>us_TOTPLastCounter := k, us_FailedAttempts := 0, us_LockedUntil := None,
    us_LastLoginAt := Some (Microseconds (n * 30 * Second))\<rparr>"
  let ?hash = "HashSessionToken (RawURLBase64 ''random'')"
  have "GetUserByUsername (ex_tables u []) ''alice'' = Some u"
    using assms(1) by (simp add: GetUserByUsername_def ex_tables_def same_name_def ex_alice ex_row_def)
  moreover have "\<not> NeedsRehash False ex_hash"
    by (rule HashPassword_not_NeedsRehash [OF ex_HashPassword])
  ultimately have result: "ex_login (ex_tables u []) n (n * 30 * Second) =
      (ex_tables ?u [new_session ?hash ''u1'' (n * 30 * Second)],
       Inr (without_secrets (u\<lparr>us_FailedAttempts := 0, us_LockedUntil := None, us_LastLoginAt := Some (n * 30 * Second),
         us_TOTPLastCounter := k\<rparr>), RawURLBase64 ''random''))"
    using assms(1) k(1,2)
    by (simp add: ex_login_def Authenticate_def ex_row_def ex_env_def spend_code_def rehash_def open_session_def
        NewSessionToken_def has_session_def ex_tables_def update_user_def Let_def)
  show thesis
    by (rule that [OF result]) (use assms(1) k in \<open>simp_all add: ex_row_def without_secrets_def new_session_def\<close>)
qed


text \<open>An operator of the group of administrators signs in through the identity provider.\<close>

definition ex_sso :: "(sso_config \<times> (string \<Rightarrow> string \<Rightarrow> string + id_token)) option" where
  "ex_sso = Some
     (\<lparr>sc_Issuer = ''https://idp'', sc_ClientID = ''console'', sc_RedirectURL = ''https://console/cb'',
       sc_GroupsClaim = ''groups'', sc_AdminGroups = [''admins''], sc_ViewerGroups = [], sc_DisplayName = []\<rparr>,
      \<lambda>_ _. Inr \<lparr>it_Issuer = ''https://idp'', it_Subject = ''s1'', it_Nonce = ''n'',
        it_Claims = Some [''groups'' \<mapsto> CList [CString ''admins''], ''preferred_username'' \<mapsto> CString ''bob'']\<rparr>)"

definition ex_sso_body :: sso_body where
  "ex_sso_body = \<lparr>ob_Code = ''c'', ob_Verifier = ''v'', ob_Nonce = ''n'', ob_ClientAddress = []\<rparr>"

definition ex_bob :: User where
  "ex_bob = \<lparr>us_ID = ''u1'', us_Username = ''bob'', us_DisplayName = [], us_Role = RoleAdmin, us_Disabled = False,
     us_TOTPEnabled = False, us_CreatedAt = 0, us_LastLoginAt = Some 0, us_PasswordHash = SSOPasswordMarker,
     us_TOTPSecret = [], us_TOTPLastCounter = 0, us_FailedAttempts = 0, us_LockedUntil = None\<rparr>"

definition ex_token :: string where
  "ex_token = RawURLBase64 ''random''"

definition ex_bob_db :: auth_db where
  "ex_bob_db = \<lparr>ad_users = [\<lparr>ac_user = ex_bob, ac_sso_issuer = ''https://idp'', ac_sso_subject = ''s1''\<rparr>],
     ad_sessions = [new_session (HashSessionToken ex_token) ''u1'' 0], ad_invites = []\<rparr>"

lemma ex_sso_role: "RoleFor (fst (the ex_sso)) [''admins''] = RoleAdmin"
  by code_simp

lemma ex_sso_name: "NormalizeUsername ''bob'' = ''bob''" "ValidUsername ''bob'' = None" "TrimSpace ''bob'' = ''bob''" "TrimSpace [] = []"
  by code_simp+

lemma ex_sso_served: "sv_db (serve ex_env 0 (RSSO ex_sso (Some ex_sso_body)) (fresh ''root'' ''guest'' None)) = ex_bob_db"
proof -
  have fin: "Finish (fst (the ex_sso)) (snd (the ex_sso)) ''c'' ''v'' ''n'' =
      SSOIdentified \<lparr>si_Issuer = ''https://idp'', si_Subject = ''s1'', si_Username = ''bob'', si_DisplayName = [], si_Role = RoleAdmin\<rparr> [''admins'']"
    using ex_sso_role
    by (simp add: Finish_def ex_sso_def Let_def stringList_def map_filter_simps ex_sso_name RoleAdmin_def)
  have sign: "SignInSSO ex_env no_accounts
      \<lparr>si_Issuer = ''https://idp'', si_Subject = ''s1'', si_Username = ''bob'', si_DisplayName = [], si_Role = RoleAdmin\<rparr> 0 =
      (ex_bob_db, Inr (without_secrets ex_bob, ex_token))"
    by (simp add: SignInSSO_def ValidRole_def sso_account_def ex_sso_name no_accounts_def ex_env_def insert_user_def
        NewSessionToken_def has_session_def GetUser_def update_user_def Let_def new_account_def ex_bob_db_def ex_bob_def
        ex_token_def Clock_def Microseconds_def)
  show ?thesis
    using fin sign by (simp add: ssoFinish_def ex_sso_def ex_sso_body_def fresh_def)
qed

lemma ex_token: "ex_token = ''cmFuZG9t''"
  unfolding ex_token_def by code_simp

lemma ex_bob_lookup: "0 \<le> now \<Longrightarrow> now \<le> SessionTTL \<Longrightarrow>
  LookupSession ex_env ex_bob_db ex_token now =
    (ex_bob_db, Inr (without_secrets ex_bob, new_session (HashSessionToken ex_token) ''u1'' 0))"
  by (simp add: LookupSession_def ex_token ex_env_def ex_bob_db_def new_session_def Expired_def After_def GetUser_def
      ex_bob_def Microseconds_def SessionTTL_def duration_defs)


end
