(* ===== verification/Account_Guard.thy ===== *)
theory Account_Guard
  imports Account_Safety
begin

text \<open>
  Guessing and rights: how many wrong passwords or codes the lockout lets through, who can change
  an account through the handlers, and what interleaved sign-ins and a few paths through the
  handlers make of these guarantees.
\<close>

section \<open>Guessing\<close>

record attempt =
  at_env :: auth_env
  at_name :: string
  at_password :: string
  at_code :: string
  at_now :: time

definition try_login :: "auth_db \<Rightarrow> attempt \<Rightarrow> auth_db \<times> (auth_error + User \<times> string)" where
  "try_login st x = Authenticate (at_env x) st (at_name x) (at_password x) (at_code x) (at_now x)"

text \<open>Whether an attempt is a wrong guess at the password or code of an account: it was compared
  and did not match. An attempt while the account is locked is refused unseen.\<close>

definition wrong_guess :: "string \<Rightarrow> auth_db \<Rightarrow> attempt \<Rightarrow> bool" where
  "wrong_guess uid st x \<longleftrightarrow>
     (case GetUserByUsername st (at_name x) of
        None \<Rightarrow> False
      | Some u \<Rightarrow> us_ID u = uid \<and> \<not> ae_down (at_env x) SelectUser \<and>
          check_login (at_env x) u (at_password x) (at_code x) (at_now x) = Count)"

definition signed_in :: "string \<Rightarrow> auth_db \<Rightarrow> attempt \<Rightarrow> bool" where
  "signed_in uid st x \<longleftrightarrow> (case snd (try_login st x) of Inr (u, _) \<Rightarrow> us_ID u = uid | Inl _ \<Rightarrow> False)"

text \<open>The wrong guesses among attempts made one after the other, up to the first that signs in.\<close>

fun wrong_guesses :: "string \<Rightarrow> auth_db \<Rightarrow> attempt list \<Rightarrow> nat" where
  "wrong_guesses uid st [] = 0"
| "wrong_guesses uid st (x # xs) =
     (if signed_in uid st x then 0
      else (if wrong_guess uid st x then 1 else 0) + wrong_guesses uid (fst (try_login st x)) xs)"

text \<open>What an attempt does to the counter and the lock of the account.\<close>

definition guard_of :: "string \<Rightarrow> auth_db \<Rightarrow> int \<Rightarrow> time option \<Rightarrow> bool" where
  "guard_of uid st attempts lock \<longleftrightarrow>
     (\<exists>a \<in> set (ad_users st). us_ID (ac_user a) = uid \<and> us_FailedAttempts (ac_user a) = attempts \<and> us_LockedUntil (ac_user a) = lock)"

definition guard_same :: "string \<Rightarrow> User \<Rightarrow> User \<Rightarrow> bool" where
  "guard_same uid u v \<longleftrightarrow>
     us_ID v = us_ID u \<and> (us_ID u = uid \<longrightarrow> us_FailedAttempts v = us_FailedAttempts u \<and> us_LockedUntil v = us_LockedUntil u)"

lemma guard_same_rows:
  "guard_of uid st attempts lock \<Longrightarrow> rows_keep (guard_same uid) st st' \<Longrightarrow> guard_of uid st' attempts lock"
  unfolding guard_of_def rows_keep_def guard_same_def by metis

lemma guard_same_update:
  "(\<And>u. us_ID (f u) = us_ID u) \<Longrightarrow>
   (\<And>u. uid' = uid \<Longrightarrow> us_FailedAttempts (f u) = us_FailedAttempts u \<and> us_LockedUntil (f u) = us_LockedUntil u) \<Longrightarrow>
   rows_keep (guard_same uid) st (update_user uid' f st)"
  by (rule rows_keep_update) (auto simp: guard_same_def)

lemma guard_same_refl: "ad_users st' = ad_users st \<Longrightarrow> rows_keep (guard_same uid) st st'"
  by (rule rows_keep_same) (auto simp: guard_same_def)

lemma guard_same_trans: "guard_same uid u v \<Longrightarrow> guard_same uid v w \<Longrightarrow> guard_same uid u w"
  by (auto simp: guard_same_def)

lemma guard_same_prepared: "rows_keep (guard_same uid) st (rehash env (spend_code st uid' c) u password)"
proof (rule rows_keep_trans [OF _ _ guard_same_trans])
  show "rows_keep (guard_same uid) st (spend_code st uid' c)"
    by (cases c) (auto simp: spend_code_def guard_same_refl intro!: guard_same_update)
  show "rows_keep (guard_same uid) (spend_code st uid' c) (rehash env (spend_code st uid' c) u password)"
    by (auto simp: rehash_def guard_same_refl intro!: guard_same_update split: option.split)
qed

lemma guard_same_open:
  assumes "us_ID u \<noteq> uid \<or> (\<exists>e. snd (open_session env st u c now) = Inl e)"
  shows "rows_keep (guard_same uid) st (fst (open_session env st u c now))"
proof -
  have "rows_keep (guard_same uid) st (update_user (us_ID u)
      (\<lambda>v. v\<lparr>us_FailedAttempts := 0, us_LockedUntil := None, us_LastLoginAt := l\<rparr>) (st\<lparr>ad_sessions := ss\<rparr>))"
    if "us_ID u \<noteq> uid" for l ss
  proof (rule rows_keep_trans [where R = "guard_same uid", OF _ _ guard_same_trans])
    show "rows_keep (guard_same uid) st (st\<lparr>ad_sessions := ss\<rparr>)"
      by (simp add: guard_same_refl)
    show "rows_keep (guard_same uid) (st\<lparr>ad_sessions := ss\<rparr>) (update_user (us_ID u)
        (\<lambda>v. v\<lparr>us_FailedAttempts := 0, us_LockedUntil := None, us_LastLoginAt := l\<rparr>) (st\<lparr>ad_sessions := ss\<rparr>))"
      by (rule guard_same_update) (use that in simp_all)
  qed
  then show ?thesis
    using assms by (auto simp: open_session_def guard_same_refl split: option.splits prod.splits if_splits)
qed

text \<open>An attempt that is no wrong guess at the account leaves its counter and lock, unless it signs in.\<close>

lemma guard_kept:
  assumes "auth_ok st" "guard_of uid st attempts lock" "\<not> signed_in uid st x" "\<not> wrong_guess uid st x"
  shows "guard_of uid (fst (try_login st x)) attempts lock"
proof -
  let ?env = "at_env x"
  have "rows_keep (guard_same uid) st (fst (try_login st x))"
  proof (cases "ae_down ?env SelectUser \<or> GetUserByUsername st (at_name x) = None")
    case True
    then show ?thesis
      by (auto simp: try_login_def Authenticate_def guard_same_refl)
  next
    case False
    then obtain u where u: "GetUserByUsername st (at_name x) = Some u" "\<not> ae_down ?env SelectUser"
      by auto
    show ?thesis
    proof (cases "check_login ?env u (at_password x) (at_code x) (at_now x)")
      case (Refuse e)
      then show ?thesis
        using u by (simp add: try_login_def Authenticate_def guard_same_refl)
    next
      case Count
      then have "us_ID u \<noteq> uid"
        using assms(4) u by (simp add: wrong_guess_def)
      then show ?thesis
        using u Count
        by (auto simp: try_login_def Authenticate_def recordLoginFailure_def Let_def guard_same_refl intro!: guard_same_update)
    next
      case (Accept c)
      let ?st1 = "rehash ?env (spend_code st (us_ID u) c) u (at_password x)"
      have "us_ID u \<noteq> uid \<or> (\<exists>e. snd (open_session ?env ?st1 u c (at_now x)) = Inl e)" if "\<not> (c \<noteq> None \<and> ae_down ?env SpendCode)"
      proof (cases "snd (open_session ?env ?st1 u c (at_now x))")
        case (Inr r)
        then have "us_ID (fst r) = us_ID u"
          by (auto simp: open_session_def without_secrets_def split: option.splits prod.splits if_splits)
        moreover have "snd (try_login st x) = Inr r"
          using u Accept that Inr by (simp add: try_login_def Authenticate_def)
        ultimately show ?thesis
          using assms(3) by (auto simp: signed_in_def split: prod.splits)
      qed simp
      then show ?thesis
        using u Accept rows_keep_trans [OF guard_same_prepared guard_same_open guard_same_trans]
        by (auto simp: try_login_def Authenticate_def guard_same_refl)
    qed
  qed
  with assms(2) show ?thesis
    by (rule guard_same_rows)
qed

text \<open>A wrong guess finds the account unlocked and counts.\<close>

lemma guard_counts:
  assumes "auth_ok st" "guard_of uid st attempts lock" "wrong_guess uid st x" "\<not> ae_down (at_env x) RecordFailure"
  shows "lock = None \<or> (\<exists>t. lock = Some t \<and> t \<le> at_now x)"
    "guard_of uid (fst (try_login st x)) (attempts + 1)
       (if attempts + 1 \<ge> MaxFailedAttempts then Some (Microseconds (at_now x + LockoutDuration)) else lock)"
proof -
  obtain a where a: "a \<in> set (ad_users st)" "us_ID (ac_user a) = uid" "us_FailedAttempts (ac_user a) = attempts"
      "us_LockedUntil (ac_user a) = lock"
    using assms(2) unfolding guard_of_def by blast
  obtain u where u: "GetUserByUsername st (at_name x) = Some u" "us_ID u = uid" "\<not> ae_down (at_env x) SelectUser"
      "check_login (at_env x) u (at_password x) (at_code x) (at_now x) = Count"
    using assms(3) by (auto simp: wrong_guess_def split: option.splits)
  obtain b where b: "b \<in> set (ad_users st)" "ac_user b = u"
    using GetUserByUsername_row [OF u(1)] by blast
  have row: "ac_user a = u"
    using same_row [OF assms(1) b(1) a(1)] b(2) a(2) u(2) by simp
  show "lock = None \<or> (\<exists>t. lock = Some t \<and> t \<le> at_now x)"
    using u(4) a(4) row by (auto simp: check_login_def Locked_def Before_def split: if_splits option.splits)
  have "fst (try_login st x) = recordLoginFailure (at_env x) st u (at_now x)"
    using u assms(4) by (simp add: try_login_def Authenticate_def)
  moreover have "guard_of uid (update_user uid f st) (attempts + 1) l"
    if "us_ID (f u) = us_ID u" "us_FailedAttempts (f u) = attempts + 1" "us_LockedUntil (f u) = l" for f l
    unfolding guard_of_def set_update_user using that a u(2) row by (intro bexI [OF _ imageI [OF a(1)]]) simp
  ultimately show "guard_of uid (fst (try_login st x)) (attempts + 1)
       (if attempts + 1 \<ge> MaxFailedAttempts then Some (Microseconds (at_now x + LockoutDuration)) else lock)"
    using u(2) a(3,4) row by (auto simp: recordLoginFailure_def Let_def)
qed

text \<open>How many wrong guesses fit between \<open>t\<close> and \<open>e\<close>.\<close>

definition guess_interval :: duration where
  "guess_interval = LockoutDuration - 1000"

definition guess_bound :: "int \<Rightarrow> time option \<Rightarrow> time \<Rightarrow> time \<Rightarrow> int" where
  "guess_bound attempts lock t e =
     (if attempts < MaxFailedAttempts then MaxFailedAttempts - attempts + (e - t) div guess_interval
      else
        let s = (case lock of None \<Rightarrow> t | Some l \<Rightarrow> max t l)
        in if s \<le> e then 1 + (e - s) div guess_interval else 0)"

lemma guess_interval_pos: "0 < guess_interval"
  by (simp add: guess_interval_def LockoutDuration_def duration_defs)

lemma guess_bound_nonneg: "t \<le> e \<Longrightarrow> 0 \<le> guess_bound attempts lock t e"
  using guess_interval_pos by (auto simp: guess_bound_def Let_def pos_imp_zdiv_nonneg_iff split: option.split)

lemma guess_bound_later:
  assumes "t \<le> t'" "t' \<le> e"
  shows "guess_bound attempts lock t' e \<le> guess_bound attempts lock t e"
proof -
  have mono: "(e - b) div guess_interval \<le> (e - a) div guess_interval" if "a \<le> b" for a b
    using that guess_interval_pos by (intro zdiv_mono1) simp_all
  show ?thesis
    using assms mono [of t t'] mono [of "max t l" "max t' l" for l] guess_interval_pos
    by (auto simp: guess_bound_def Let_def pos_imp_zdiv_nonneg_iff split: option.split)
qed

lemma guess_bound_counts:
  assumes "t \<le> now" "now \<le> e" "lock = None \<or> (\<exists>l. lock = Some l \<and> l \<le> now)"
  shows "1 + guess_bound (attempts + 1)
      (if attempts + 1 \<ge> MaxFailedAttempts then Some (Microseconds (now + LockoutDuration)) else lock) now e
    \<le> guess_bound attempts lock t e"
proof -
  have mono: "(e - b) div guess_interval \<le> (e - a) div guess_interval" if "a \<le> b" for a b
    using that guess_interval_pos by (intro zdiv_mono1) simp_all
  show ?thesis
  proof (cases "attempts + 1 < MaxFailedAttempts")
    case True
    then show ?thesis
      using mono [OF assms(1)] by (simp add: guess_bound_def)
  next
    case False
    let ?l = "Microseconds (now + LockoutDuration)"
    have l: "now + guess_interval \<le> ?l"
      using pos_mod_bound [of 1000 "now + LockoutDuration"] by (simp add: Microseconds_def guess_interval_def)
    then have "(e - ?l) div guess_interval \<le> (e - (now + guess_interval)) div guess_interval"
      by (rule mono)
    also have "\<dots> = (e - now) div guess_interval - 1"
      using div_add_self2 [of guess_interval "e - now - guess_interval"] guess_interval_pos by (simp add: algebra_simps)
    finally have slot: "1 + (e - ?l) div guess_interval \<le> (e - now) div guess_interval"
      by simp
    have nonneg: "0 \<le> (e - now) div guess_interval"
      using assms(2) guess_interval_pos by (simp add: pos_imp_zdiv_nonneg_iff)
    have "guess_bound (attempts + 1) (Some ?l) now e \<le> (e - now) div guess_interval"
      using False l slot nonneg guess_interval_pos by (auto simp: guess_bound_def Let_def max_def)
    moreover have "1 + (e - now) div guess_interval \<le> guess_bound attempts lock t e"
    proof (cases "attempts < MaxFailedAttempts")
      case True
      then show ?thesis
        using mono [OF assms(1)] by (simp add: guess_bound_def)
    next
      case False
      then show ?thesis
        using assms mono [of t now] mono [of "max t l" now for l] by (auto simp: guess_bound_def Let_def)
    qed
    ultimately show ?thesis
      using False by simp
  qed
qed

lemma guess_bound_le:
  assumes "0 \<le> attempts" "t \<le> e"
  shows "guess_bound attempts lock t e \<le> MaxFailedAttempts + (e - t) div guess_interval"
proof -
  have "(e - max t l) div guess_interval \<le> (e - t) div guess_interval" for l
    using guess_interval_pos by (intro zdiv_mono1) simp_all
  note mono = this [of "the lock"]
  have "0 \<le> (e - t) div guess_interval"
    using assms(2) guess_interval_pos by (simp add: pos_imp_zdiv_nonneg_iff)
  then show ?thesis
    using assms(1) mono by (cases lock) (simp_all add: guess_bound_def Let_def MaxFailedAttempts_def)
qed

lemma wrong_guesses_bounded:
  assumes "auth_ok st" "guard_of uid st attempts lock" "sorted (map at_now xs)" "t \<le> e"
    "\<And>x. x \<in> set xs \<Longrightarrow> t \<le> at_now x \<and> at_now x \<le> e \<and> \<not> ae_down (at_env x) RecordFailure"
  shows "int (wrong_guesses uid st xs) \<le> guess_bound attempts lock t e"
  using assms
proof (induction xs arbitrary: st attempts lock t)
  case (Cons x xs)
  let ?st = "fst (try_login st x)"
  have x: "t \<le> at_now x" "at_now x \<le> e" "\<not> ae_down (at_env x) RecordFailure"
    using Cons.prems(5) [of x] by simp_all
  have rest: "at_now x \<le> at_now y \<and> at_now y \<le> e \<and> \<not> ae_down (at_env y) RecordFailure" if "y \<in> set xs" for y
    using that Cons.prems(3) Cons.prems(5) [of y] by simp
  have ok: "auth_ok ?st"
    unfolding try_login_def by (rule auth_ok_authenticate [OF Cons.prems(1)])
  have ih: "int (wrong_guesses uid ?st xs) \<le> guess_bound n l (at_now x) e" if "guard_of uid ?st n l" for n l
    by (rule Cons.IH [OF ok that]) (use Cons.prems(3) x rest in auto)
  consider "signed_in uid st x" | "\<not> signed_in uid st x" "wrong_guess uid st x" | "\<not> signed_in uid st x" "\<not> wrong_guess uid st x"
    by blast
  then show ?case
  proof cases
    case 1
    then show ?thesis
      using guess_bound_nonneg [OF Cons.prems(4)] by simp
  next
    case 2
    note counts = guard_counts [OF Cons.prems(1,2) 2(2) x(3)]
    show ?thesis
      using 2 ih [OF counts(2)] guess_bound_counts [OF x(1,2) counts(1), of attempts] by simp
  next
    case 3
    then show ?thesis
      using ih [OF guard_kept [OF Cons.prems(1,2) 3]] guess_bound_later [OF x(1,2), of attempts lock] by simp
  qed
qed (simp add: guess_bound_nonneg)

lemma sorted_ends:
  assumes "y \<in> set (x # xs)" "sorted (map f (x # xs))"
  shows "f x \<le> f y \<and> f y \<le> (f (last (x # xs)) :: 'b::linorder)"
proof -
  have "sorted (map f (butlast (x # xs)) @ [f (last (x # xs))])"
    using assms(2) append_butlast_last_id [of "x # xs"] by (metis list.distinct(1) list.simps(8,9) map_append)
  moreover have "y \<in> set (butlast (x # xs)) \<or> y = last (x # xs)"
    using assms(1) append_butlast_last_id [of "x # xs"] by (metis Un_iff empty_iff insert_iff list.distinct(1) list.set(1,2) set_append)
  ultimately have "f y \<le> f (last (x # xs))"
    by (auto simp: sorted_append)
  moreover have "f x \<le> f y"
    using assms by auto
  ultimately show ?thesis
    by simp
qed


text \<open>Nine attempts within a second at the account of the examples: eight are compared.\<close>

definition ex_guess :: "time \<Rightarrow> attempt" where
  "ex_guess now = \<lparr>at_env = ex_env, at_name = ''alice'', at_password = ''guess'', at_code = [], at_now = now\<rparr>"


section \<open>Rights\<close>

text \<open>Who a request comes from.\<close>

lemma resolveActor_role:
  assumes "resolveActor env sv h now = (sv', actor)" "at_Role actor \<noteq> []"
  shows "(\<exists>st u s. LookupSession env (sv_db sv) (bearerToken h) now = (st, Inr (u, s)) \<and> at_User actor = Some u \<and>
        at_Role actor = us_Role u) \<or>
    at_User actor = None \<and> at_Role actor = tokenRole sv (bearerToken h)"
  using assms
  by (auto simp: resolveActor_def shared_actor_def nobody_def RoleAdmin_def RoleViewer_def Let_def
      split: if_splits prod.splits sum.splits auth_error.splits)

lemma resolveActor_users: "resolveActor env sv h now = (sv', actor) \<Longrightarrow> ad_users (sv_db sv') = ad_users (sv_db sv)"
  by (auto simp: resolveActor_def LookupSession_def Let_def split: if_splits prod.splits option.splits)

text \<open>A caller with the rights of an administrator: a session of an enabled account with that role,
  or the shared token.\<close>

definition admin_caller :: "auth_env \<Rightarrow> server \<Rightarrow> header \<Rightarrow> time \<Rightarrow> bool" where
  "admin_caller env sv h now \<longleftrightarrow>
     tokenRole sv (bearerToken h) = ''admin'' \<or>
     (\<exists>s \<in> set (ad_sessions (sv_db sv)). se_TokenHash s = HashSessionToken (bearerToken h) \<and> now \<le> se_ExpiresAt s \<and>
        (\<exists>a \<in> set (ad_users (sv_db sv)). us_ID (ac_user a) = se_UserID s \<and> \<not> us_Disabled (ac_user a) \<and>
           us_Role (ac_user a) = RoleAdmin))"

lemma admin_actor:
  assumes "resolveActor env sv h now = (sv', actor)" "at_Role actor = RoleAdmin"
  shows "admin_caller env sv h now"
proof -
  consider st u s where "LookupSession env (sv_db sv) (bearerToken h) now = (st, Inr (u, s))" "us_Role u = RoleAdmin"
    | "tokenRole sv (bearerToken h) = ''admin''"
    using resolveActor_role [OF assms(1)] assms(2) by (auto simp: RoleAdmin_def)
  then show ?thesis
  proof cases
    case 1
    then show ?thesis
      using LookupSession_found [OF 1(1)] unfolding admin_caller_def without_secrets_def by fastforce
  qed (simp add: admin_caller_def)
qed

text \<open>A caller with a session of the account, and a change of that account's row that leaves its
  name, role and state alone.\<close>

definition own_caller :: "string \<Rightarrow> server \<Rightarrow> header \<Rightarrow> time \<Rightarrow> bool" where
  "own_caller uid sv h now \<longleftrightarrow>
     (\<exists>s \<in> set (ad_sessions (sv_db sv)). se_TokenHash s = HashSessionToken (bearerToken h) \<and> now \<le> se_ExpiresAt s \<and> se_UserID s = uid)"

definition own_change :: "string \<Rightarrow> auth_db \<Rightarrow> auth_db \<Rightarrow> bool" where
  "own_change uid st st' \<longleftrightarrow>
     (\<exists>f. ad_users st' = ad_users (update_user uid f st) \<and>
        (\<forall>u. us_ID (f u) = us_ID u \<and> us_Username (f u) = us_Username u \<and> us_Role (f u) = us_Role u \<and>
           us_Disabled (f u) = us_Disabled u))"

lemma own_actor:
  assumes "resolveActor env sv h now = (sv', actor)" "at_User actor = Some u"
  shows "own_caller (us_ID u) sv h now"
proof -
  obtain st s where "LookupSession env (sv_db sv) (bearerToken h) now = (st, Inr (u, s))"
    using assms by (auto simp: resolveActor_def shared_actor_def nobody_def Let_def
        split: if_splits prod.splits sum.splits auth_error.splits)
  from LookupSession_found [OF this] show ?thesis
    unfolding own_caller_def without_secrets_def by fastforce
qed

lemma update_user_users_cong: "ad_users st = ad_users st' \<Longrightarrow> ad_users (update_user uid f st) = ad_users (update_user uid f st')"
  by (simp add: update_user_def)

lemma HandleUsers_rights:
  assumes "0 < CountUsers (sv_db sv)"
    "ad_users (sv_db (fst (HandleUsers env sv meth h body now))) \<noteq> ad_users (sv_db sv)"
  shows "admin_caller env sv h now"
proof -
  obtain sv1 actor where r: "resolveActor env sv h now = (sv1, actor)"
    by (cases "resolveActor env sv h now")
  have "at_Role actor = RoleAdmin"
  proof (rule ccontr)
    assume "at_Role actor \<noteq> RoleAdmin"
    then have "ad_users (sv_db (fst (HandleUsers env sv meth h body now))) = ad_users (sv_db sv)"
      using assms(1) resolveActor_users [OF r] by (simp add: HandleUsers_def r Let_def)
    with assms(2) show False
      by simp
  qed
  with r show ?thesis
    by (rule admin_actor)
qed

lemma SetUserPassword_own: "own_change uid st (fst (SetUserPassword env st uid password)) \<or> fst (SetUserPassword env st uid password) = st"
  by (auto simp: SetUserPassword_def own_change_def split: option.split)

lemma EnrollTOTP_own: "own_change uid st (fst (EnrollTOTP env st uid secret n)) \<or> fst (EnrollTOTP env st uid secret n) = st"
  by (auto simp: EnrollTOTP_def own_change_def)

lemma HandleUserUpdate_rights:
  assumes "ad_users (sv_db (fst (HandleUserUpdate env sv meth h body now))) \<noteq> ad_users (sv_db sv)"
  shows "admin_caller env sv h now \<or>
    (\<exists>uid. own_caller uid sv h now \<and> own_change uid (sv_db sv) (sv_db (fst (HandleUserUpdate env sv meth h body now))))"
proof -
  obtain sv1 actor where r: "resolveActor env sv h now = (sv1, actor)"
    by (cases "resolveActor env sv h now")
  note users = resolveActor_users [OF r]
  show ?thesis
  proof (cases "at_Role actor = RoleAdmin")
    case True
    then show ?thesis
      using admin_actor [OF r] by simp
  next
    case False
    then obtain req where req: "body = Some req" "own_password actor req" "meth = ''POST''"
      using assms users by (auto simp: HandleUserUpdate_def r split: option.splits if_splits)
    then obtain u where u: "at_User actor = Some u" "us_ID u = pb_UserID req" "pb_Disabled req = None"
      by (auto simp: own_password_def split: option.splits)
    have "sv_db (fst (HandleUserUpdate env sv meth h body now)) \<in>
        {sv_db sv1, fst (SetUserPassword env (sv_db sv1) (pb_UserID req) (pb_Password req))}"
      using req u(3) by (auto simp: HandleUserUpdate_def r set_disabled_def split: option.splits prod.splits)
    then have "own_change (us_ID u) (sv_db sv1) (sv_db (fst (HandleUserUpdate env sv meth h body now)))"
      using SetUserPassword_own [of "pb_UserID req" "sv_db sv1" env "pb_Password req"] u(2) assms users by auto
    then have "own_change (us_ID u) (sv_db sv) (sv_db (fst (HandleUserUpdate env sv meth h body now)))"
      using update_user_users_cong [OF users] unfolding own_change_def by metis
    then show ?thesis
      using own_actor [OF r u(1)] by blast
  qed
qed

lemma HandleTOTP_rights:
  assumes "ad_users (sv_db (fst (HandleTOTP env sv meth h body now))) \<noteq> ad_users (sv_db sv)"
  shows "\<exists>uid. own_caller uid sv h now \<and> own_change uid (sv_db sv) (sv_db (fst (HandleTOTP env sv meth h body now)))"
proof -
  obtain sv1 actor where r: "resolveActor env sv h now = (sv1, actor)"
    by (cases "resolveActor env sv h now")
  note users = resolveActor_users [OF r]
  obtain u where u: "at_User actor = Some u"
    using assms users by (cases "at_User actor") (auto simp: HandleTOTP_def r split: if_splits)
  obtain s c where "sv_db (fst (HandleTOTP env sv meth h body now)) \<in> {sv_db sv, sv_db sv1, fst (EnrollTOTP env (sv_db sv1) (us_ID u) s c)}"
  proof (cases body)
    case None
    then show thesis
      by (intro that) (simp add: HandleTOTP_def r u)
  next
    case (Some req)
    then show thesis
      by (intro that [of "tb_Secret req" "tr_Counter (VerifyTOTP (tb_Secret req) (tb_Code req) (Unix now) 0)"])
        (auto simp: HandleTOTP_def r u Let_def split: option.split prod.split)
  qed
  then have "own_change (us_ID u) (sv_db sv1) (sv_db (fst (HandleTOTP env sv meth h body now)))"
    using EnrollTOTP_own [of "us_ID u" "sv_db sv1" env s c] assms users by auto
  then have "own_change (us_ID u) (sv_db sv) (sv_db (fst (HandleTOTP env sv meth h body now)))"
    using update_user_users_cong [OF users] unfolding own_change_def by metis
  then show ?thesis
    using own_actor [OF r u] by blast
qed

lemma HandleSetup_closed: "0 < CountUsers (sv_db sv) \<Longrightarrow> sv_db (fst (HandleSetup env sv meth invite body now)) = sv_db sv"
  by (auto simp: HandleSetup_def createFirstAdmin_def setupStatus_def invite_state_def Let_def split: option.splits sum.splits if_splits)

text \<open>The header of a request, and the requests that are sign-ins.\<close>

fun header_of :: "request \<Rightarrow> header option" where
  "header_of (RLogout m h) = Some h"
| "header_of (RSession h) = Some h"
| "header_of (RUsers m h b) = Some h"
| "header_of (RUpdate m h b) = Some h"
| "header_of (RTOTP m h b) = Some h"
| "header_of (RPosture m h s) = Some h"
| "header_of r = None"

fun is_sign_in :: "request \<Rightarrow> bool" where
  "is_sign_in (RLogin m b) \<longleftrightarrow> True"
| "is_sign_in (RSSO sso b) \<longleftrightarrow> True"
| "is_sign_in r \<longleftrightarrow> False"


text \<open>Bob sets a password of his own.\<close>

definition ex_header :: header where
  "ex_header = \<lparr>hd_Authorization = [], hd_XAdmin = ex_token\<rparr>"

definition ex_bob_server :: server where
  "ex_bob_server = (fresh ''root'' ''guest'' None)\<lparr>sv_db := ex_bob_db\<rparr>"

definition ex_new_password :: request where
  "ex_new_password = RUpdate ''POST'' ex_header
     (Some \<lparr>pb_UserID = ''u1'', pb_Password = ''correct horse'', pb_Disabled = None\<rparr>)"

definition ex_bob_password :: auth_db where
  "ex_bob_password = ex_bob_db\<lparr>ad_users := [\<lparr>ac_user = ex_bob\<lparr>us_PasswordHash := ex_hash\<rparr>,
     ac_sso_issuer = ''https://idp'', ac_sso_subject = ''s1''\<rparr>]\<rparr>"

lemma ex_header: "bearerToken ex_header = ex_token"
  unfolding ex_header_def ex_token by code_simp

lemma ex_bob_updated: "sv_db (serve ex_env Hour ex_new_password ex_bob_server) = ex_bob_password"
proof -
  have "(0::int) \<le> Hour" "Hour \<le> SessionTTL"
    by (simp_all add: SessionTTL_def duration_defs)
  note found = ex_bob_lookup [OF this]
  have "ex_token \<noteq> []"
    by (simp add: ex_token)
  with found have actor: "resolveActor ex_env ex_bob_server ex_header Hour =
      (ex_bob_server, \<lparr>at_Role = RoleAdmin, at_User = Some (without_secrets ex_bob), at_Attributed = True\<rparr>)"
    by (simp add: resolveActor_def ex_header ex_bob_server_def Let_def new_session_def) (simp add: without_secrets_def ex_bob_def)
  have valid: "ValidPassword ''correct horse'' = None" "TrimSpace ''u1'' = ''u1''"
    by code_simp+
  have hash: "hash_password ex_env ''correct horse'' = Some ex_hash"
    using ex_HashPassword by (simp add: hash_password_def ex_env_def)
  have "\<not> ae_down ex_env s" for s
    by (simp add: ex_env_def)
  moreover from this have "SetUserPassword ex_env ex_bob_db ''u1'' ''correct horse'' = (ex_bob_password, None)"
    by (simp add: SetUserPassword_def valid hash)
      (simp add: update_user_def ex_bob_db_def ex_bob_password_def ex_bob_def)
  moreover have "GetUser ex_bob_db ''u1'' = Some ex_bob"
    by (simp add: GetUser_def ex_bob_db_def ex_bob_def)
  moreover have "sv_db ex_bob_server = ex_bob_db"
    by (simp add: ex_bob_server_def fresh_def)
  ultimately show ?thesis
    by (simp add: ex_new_password_def HandleUserUpdate_def actor valid set_disabled_def)
qed


section \<open>Paths around the guarantees\<close>

text \<open>An account that the identity provider provisioned gets a password this way, and signs in with
  it from then on, without the provider.\<close>

theorem sso_account_signs_in_by_password:
  "\<exists>u token. snd (Authenticate ex_env (fst (PruneExpiredSessions ex_env ex_bob_password Day)) ''bob'' ''correct horse'' [] Day) =
     Inr (u, token) \<and> us_ID u = ''u1'' \<and> us_Role u = RoleAdmin"
proof -
  have "\<not> NeedsRehash False ex_hash"
    by (rule HashPassword_not_NeedsRehash [OF ex_HashPassword])
  moreover have "PruneExpiredSessions ex_env ex_bob_password Day = (ex_bob_password\<lparr>ad_sessions := []\<rparr>, Inr 1)"
    by (simp add: PruneExpiredSessions_def ex_env_def ex_bob_password_def ex_bob_db_def new_session_def Microseconds_def
        SessionTTL_def duration_defs)
  ultimately show ?thesis
    using ex_verifies
    by (simp add: Authenticate_def GetUserByUsername_def ex_sso_name same_name_def check_login_def ex_bob_password_def ex_bob_def
        Locked_def spend_code_def rehash_def open_session_def NewSessionToken_def has_session_def without_secrets_def Let_def
        ex_env_def)
qed

text \<open>While no account exists, the shared token that may only read creates the first administrator.\<close>

theorem viewer_token_creates_admin:
  assumes "ad_users (sv_db sv) = []" "ad_sessions (sv_db sv) = []" "tokenRole sv (bearerToken h) = ''viewer''"
    "\<not> ae_down env SelectUser" "\<not> ae_down env InsertUser" "\<not> ae_down env ReadBack" "\<not> ae_down env SelectSession"
    "ae_id env = Some uid" "hash_password env (ub_Password req) = Some hash" "ValidPassword (ub_Password req) = None"
    "ValidUsername (ub_Username req) = None" "ub_Role req = []"
  shows "\<exists>a. ad_users (sv_db (serve env now (RUsers ''POST'' h (Some req)) sv)) = [a] \<and> us_Role (ac_user a) = RoleAdmin \<and>
    us_Username (ac_user a) = ub_Username req"
proof -
  have "bearerToken h \<noteq> []"
    using assms(3) by (auto simp: tokenRole_def split: if_splits)
  then have actor: "resolveActor env sv h now = (sv, \<lparr>at_Role = RoleViewer, at_User = None, at_Attributed = False\<rparr>)"
    using assms by (simp add: resolveActor_def LookupSession_def shared_actor_def Let_def)
  have "ValidRole RoleAdmin" "RoleViewer \<noteq> []"
    by (simp_all add: ValidRole_def RoleViewer_def)
  then show ?thesis
    using assms NormalizeUsername_valid [OF assms(11)]
    by (simp add: HandleUsers_def actor CountUsers_def CreateUser_def insert_user_def read_back_def new_account_def
        GetUserByUsername_def same_name_def Let_def)
qed

text \<open>A hash of the other algorithm is replaced at the next sign-in, not at the next change of the
  password.\<close>

theorem rehashed_at_sign_in:
  assumes "NeedsRehash (ae_fips env) (us_PasswordHash u)" "hash_password env password = Some h" "\<not> ae_down env Rehash"
    "a \<in> set (ad_users st)" "ac_user a = u"
  shows "\<exists>b \<in> set (ad_users (rehash env st u password)). us_ID (ac_user b) = us_ID u \<and> us_PasswordHash (ac_user b) = h"
    "\<not> NeedsRehash (ae_fips env) h"
proof -
  show "\<not> NeedsRehash (ae_fips env) h"
    using assms(2) HashPassword_not_NeedsRehash unfolding hash_password_def by blast
  have eq: "rehash env st u password = update_user (us_ID u) (\<lambda>v. v\<lparr>us_PasswordHash := h\<rparr>) st"
    using assms(1-3) by (simp add: rehash_def)
  then show "\<exists>b \<in> set (ad_users (rehash env st u password)). us_ID (ac_user b) = us_ID u \<and> us_PasswordHash (ac_user b) = h"
    using assms(5) unfolding eq set_update_user by (intro bexI [OF _ imageI [OF assms(4)]]) simp_all
qed

section \<open>Interleaved sign-ins\<close>

text \<open>A sign-in is not one transaction: it reads the row, checks it and writes the failure or the
  spent step, and opens the session. Each is one step of a thread on the shared tables.\<close>

datatype phase = Reading | HaveRow User | Spent User "int option" | Answered "auth_error + User \<times> string"

fun advance :: "attempt \<Rightarrow> auth_db \<times> phase \<Rightarrow> auth_db \<times> phase" where
  "advance x (st, Reading) =
     (if ae_down (at_env x) SelectUser then (st, Answered (Inl Failed))
      else case GetUserByUsername st (at_name x) of
        None \<Rightarrow> (st, Answered (Inl InvalidCredentials))
      | Some u \<Rightarrow> (st, HaveRow u))"
| "advance x (st, HaveRow u) =
     (case check_login (at_env x) u (at_password x) (at_code x) (at_now x) of
        Refuse e \<Rightarrow> (st, Answered (Inl e))
      | Count \<Rightarrow>
          if ae_down (at_env x) RecordFailure then (st, Answered (Inl Failed))
          else (recordLoginFailure (at_env x) st u (at_now x), Answered (Inl InvalidCredentials))
      | Accept c \<Rightarrow>
          if c \<noteq> None \<and> ae_down (at_env x) SpendCode then (st, Answered (Inl Failed))
          else (spend_code st (us_ID u) c, Spent u c))"
| "advance x (st, Spent u c) =
     (case open_session (at_env x) (rehash (at_env x) st u (at_password x)) u c (at_now x) of (st', r) \<Rightarrow> (st', Answered r))"
| "advance x (st, Answered r) = (st, Answered r)"

text \<open>Alone, the three steps are a sign-in.\<close>

theorem advance_alone: "advance x (advance x (advance x (st, Reading))) = (fst (try_login st x), Answered (snd (try_login st x)))"
  by (auto simp: try_login_def Authenticate_def split: option.split verdict.split prod.split)

text \<open>Two threads in a schedule: \<open>True\<close> is a step of the first.\<close>

fun interleave :: "attempt \<Rightarrow> attempt \<Rightarrow> bool list \<Rightarrow> auth_db \<times> phase \<times> phase \<Rightarrow> auth_db \<times> phase \<times> phase" where
  "interleave x y [] s = s"
| "interleave x y (b # bs) (st, p, q) =
     interleave x y bs
       (if b then (case advance x (st, p) of (st', p') \<Rightarrow> (st', p', q))
        else (case advance y (st, q) of (st', q') \<Rightarrow> (st', p, q')))"

text \<open>Two requests with the same code, both of which read the row before one has written, are both
  let in: the update that finds the step spent already is not an error.\<close>

theorem one_code_two_sessions:
  assumes "GetUserByUsername st (at_name x) = Some u" "GetUserByUsername st (at_name y) = Some u"
    "check_login (at_env x) u (at_password x) (at_code x) (at_now x) = Accept (Some k)"
    "check_login (at_env y) u (at_password y) (at_code y) (at_now y) = Accept (Some k)"
    "\<And>s. \<not> ae_down (at_env x) s" "\<And>s. \<not> ae_down (at_env y) s"
    "ae_rand (at_env x) = Some r" "ae_rand (at_env y) = Some r'"
    "HashSessionToken (RawURLBase64 r) \<noteq> HashSessionToken (RawURLBase64 r')"
    "\<not> has_session st (HashSessionToken (RawURLBase64 r))" "\<not> has_session st (HashSessionToken (RawURLBase64 r'))"
  shows "\<exists>st' v token v' token'.
    interleave x y [True, False, True, False, True, False] (st, Reading, Reading) =
      (st', Answered (Inr (v, token)), Answered (Inr (v', token'))) \<and>
    us_TOTPLastCounter v = k \<and> us_TOTPLastCounter v' = k"
proof -
  have spend: "has_session (spend_code s uid c) h = has_session s h" for s uid c h
    by (cases c) (simp_all add: spend_code_def has_session_def)
  have hash: "has_session (rehash e s w p) h = has_session s h" for e s w p h
    by (simp add: rehash_def has_session_def split: option.split)
  have row: "has_session (update_user uid f s) h = has_session s h" for uid f s h
    by (simp add: has_session_def)
  have add: "has_session (s\<lparr>ad_sessions := ad_sessions s @ [new_session h' uid now]\<rparr>) h \<longleftrightarrow> has_session s h \<or> h' = h" for s h h' uid now
    by (auto simp: has_session_def new_session_def)
  show ?thesis
    using assms by (simp add: open_session_def NewSessionToken_def Let_def spend hash row add without_secrets_def)
qed

text \<open>Any number of wrong guesses that read the row at the same time count as one.\<close>

theorem parallel_guesses_count_once:
  assumes "a \<in> set (ad_users st)" "ac_user a = u" "xs \<noteq> []"
    "\<And>x. x \<in> set xs \<Longrightarrow> check_login (at_env x) u (at_password x) (at_code x) (at_now x) = Count \<and>
      \<not> ae_down (at_env x) RecordFailure"
  shows "\<exists>b \<in> set (ad_users (foldl (\<lambda>s x. fst (advance x (s, HaveRow u))) st xs)).
    us_ID (ac_user b) = us_ID u \<and> us_FailedAttempts (ac_user b) = us_FailedAttempts u + 1"
  using assms(3,4)
proof (induction xs rule: rev_induct)
  case (snoc x xs)
  let ?s = "foldl (\<lambda>s x. fst (advance x (s, HaveRow u))) st xs"
  obtain b where b: "b \<in> set (ad_users ?s)" "us_ID (ac_user b) = us_ID u"
    using snoc.IH snoc.prems(2) assms(1,2) by (cases "xs = []") auto
  have "fst (advance x (?s, HaveRow u)) = recordLoginFailure (at_env x) ?s u (at_now x)"
    using snoc.prems(2) [of x] by simp
  moreover have "\<exists>c \<in> set (ad_users (update_user (us_ID u) f ?s)). us_ID (ac_user c) = us_ID u \<and>
      us_FailedAttempts (ac_user c) = us_FailedAttempts u + 1"
    if "\<And>v. us_ID (f v) = us_ID v \<and> us_FailedAttempts (f v) = us_FailedAttempts u + 1" for f
    unfolding set_update_user using that b(2) by (intro bexI [OF _ imageI [OF b(1)]]) simp
  ultimately show ?case
    by (simp add: recordLoginFailure_def Let_def)
qed simp

end
