(* ===== verification/Spec2Isabelle.thy ===== *)
theory Spec2Isabelle
  imports Vuln_Windows Exposure_Rank Evidence_Bundle Anchor Ticket_Reach Account_Guard
begin

text \<open>
  A model of the deciding code of defendsec, the Go server that assesses hosts for missing
  security fixes, ranks what to fix first and keeps a tamper-evident record of what it did.
  Paths below are relative to src/.

  \<^bold>\<open>How the parts interact.\<close> Agents report installed packages and the state of their package
  repositories. The matcher (internal/vuln) judges a host against the advisory ranges of the
  store (internal/storepg), with the version orders of the distributions, the release calendar
  (internal/lifecycle) and the repository check (internal/repohealth). The exposure list
  (internal/exposure) orders what was found. Commands to hosts are signed (internal/sign) and
  every action is appended to a hash chain (internal/auditchain) kept in the database and tagged
  with framework controls (internal/controls). Checkpoints of the chain are signed and published
  outside the database (internal/anchor), and a range of it can be exported with its proofs and
  checked offline (internal/evidence). Open findings become tickets of a service
  desk (internal/autotask), each recorded in the same chain.

  \<^bold>\<open>Theories, in the order of their imports.\<close>

  \<^item> \<open>Prelude\<close>: Go's strings as lists of bytes, the used parts of packages strings, strconv and
    sort, three-way comparators and strict weak orders as locales (\<open>comparator\<close>,
    \<open>strict_weak\<close>) with the facts about sorting that hold for any sorting algorithm, maps in
    insertion order.
  \<^item> \<open>Go_Time\<close>, \<open>Go_Regex\<close>, \<open>Sha256\<close>, \<open>Go_Encoding\<close>: instants and their printed forms; a
    leftmost-first matcher for the regular expressions of the sources; SHA-256 and hex;
    length-prefixed fields and base64, with the round trips and injectivity the signed records
    rest on.
  \<^item> \<open>Dpkg_Version\<close>, \<open>Rpm_Version\<close>, \<open>Version_Compare\<close>: internal/vuln/dpkg.go, rpm.go and
    assess.go, package.go. The loops of \<open>dpkgVerRevCmp\<close> as recursions over indices, refined to
    the order of sort keys; \<open>rpmVerCmp\<close> refined to token lists; both orders are interpreted as
    comparators. A comparison that does not return is \<open>None\<close> (the NUL byte of dpkg versions).
  \<^item> \<open>Lifecycle_Map\<close>, \<open>Lifecycle_Assess\<close>: internal/lifecycle: the origin of a package, the
    product table, and the end-of-life judgement with its counters.
  \<^item> \<open>Repo_Health\<close>: internal/repohealth/types.go and assess.go: the problems of a host's package
    repositories and when its pending updates can be believed.
  \<^item> \<open>Vuln_Types\<close>, \<open>Vuln_Judge\<close>, \<open>Vuln_Match\<close>: internal/vuln/match.go, eol.go, repohealth.go:
    the data; \<open>judge\<close>, one advisory for one package, shown to be decided by the classes of the
    ranges; \<open>Match\<close>, with the interface of the advisory source as the locale
    \<open>range_source\<close> in which the facts about a match are proved.
  \<^item> \<open>Advisory_Store\<close>: internal/storepg/advisories.go, the queries of findings.go and the legacy
    write of store.go: the tables, their writes as a step relation (\<open>reachable\<close>), the invariant
    \<open>store_ok\<close>, and the interpretation of \<open>range_source\<close> on the tables, so that the facts about
    a match hold for the stored ranges.
  \<^item> \<open>Vuln_Windows\<close>: internal/vuln/windows.go: missing Windows updates against the store.
  \<^item> \<open>Exposure_Rank\<close>: internal/exposure/rank.go: the code implements the documented
    lexicographic rule; the rule is interpreted as a comparator.
  \<^item> \<open>Audit_Chain\<close>, \<open>Sign_Commands\<close>: internal/auditchain/chain.go and internal/sign: chains and
    checkpoints, what verification accepts, what two logs with one checkpoint have in common;
    the signed bytes and time window of commands.
  \<^item> \<open>Controls\<close>: internal/controls: identifiers, signals, the catalog and its crosswalks entry by
    entry, and the tagging of records.
  \<^item> \<open>Audit_Store\<close>: the audit part of internal/storepg/store.go: appends and checkpoints as a
    step relation (\<open>audit_reachable\<close>), paged verification and its equivalence with one pass.
  \<^item> \<open>Evidence_Surface\<close>, \<open>Evidence_Bundle\<close>: internal/evidence and \<open>ExportEvidence\<close> of
    storepg/store.go: the offline checks of a bundle, what a surface section that passes cannot
    have left out, and the composition with the log: an export verifies, and a bundle that
    verifies against a checkpoint of the log holds its entries.
  \<^item> \<open>Anchor\<close>: internal/anchor, storepg/anchors.go and control/anchors.go: publishing checkpoints
    and comparing them with the chain, as steps beside those of the log (\<open>anchor_reachable\<close>): no
    false alarms, no undetected rewriting, and every checkpoint is published in the end.
  \<^item> \<open>Ticket_Groups\<close>, \<open>Ticket_Render\<close>, \<open>Ticket_Client\<close>: internal/autotask/types.go, group.go,
    render.go and client: settings and actions, the texts of tickets, and the calls of the client
    with their retries over a network that is an argument. What the engine relies on is the
    locale \<open>ticket_desk\<close>; the client keeps it (\<open>sublocale\<close>) over every service that serves a
    request at most once (\<open>autotask_service\<close>), such as the one in memory used in examples.
  \<^item> \<open>Ticket_Engine\<close>, \<open>Ticket_Run\<close>, \<open>Ticket_Reach\<close>: internal/autotask/engine.go and the commits
    of storepg/autotask.go: a run, its steps (\<open>run_step\<close>), and the states runs can reach
    (\<open>ticket_reachable\<close>) with lost answers, failed commits and the outside world in between:
    who may write at all, no second ticket, what the table and the audit log say, and the limits.
  \<^item> \<open>Go_Hmac\<close>, \<open>Identity\<close>: internal/identity: passwords and their hashes, one-time codes, names;
    below them SHA-1, HMAC, PBKDF2, base32 and unpadded base64 of the standard library.
  \<^item> \<open>Accounts\<close>, \<open>Account_Server\<close>: internal/storepg/users.go and sso.go, and the handlers over them
    (internal/control/identity.go, setup.go, sso.go; internal/sso): accounts, sessions, invites.
  \<^item> \<open>Account_Reach\<close>, \<open>Account_Safety\<close>, \<open>Account_Guard\<close>: the states requests can reach (\<open>served\<close>) as steps of the
    store (\<open>auth_step\<close>), the invariant of the tables (\<open>auth_ok\<close>), and what follows for sessions,
    one-time codes, the lockout and the rights over accounts; the sign-in taken apart into the
    steps of threads (\<open>advance\<close>), with what interleavings let through.
  \<^bold>\<open>Conventions.\<close> A Go struct is a record with a two-letter prefix for its fields, a Go
  enumeration a datatype, an error its text or what its text names (\<open>Inl\<close>), a loop a fold or a
  structural recursion over the same sequence. A map that is walked in Go's unspecified order
  is a list in the order its keys were added; the theorems about results of such walks either
  do not depend on the order or say when it matters. Go's \<open>sort.Slice\<close> is an insertion sort by
  the same comparison. A \<open>float64\<close> score is a rational number. Strings are bytes; folding of
  letters and trimming of space are those of ASCII.

  \<^bold>\<open>Bounds and fuel.\<close> No fuel is used. Recursions that are not structural have a measure:
  positions in a string for the scanners, the number of rows left for paged verification. The
  only loop that may not end, that of \<open>dpkgVerRevCmp\<close>, is a \<open>partial_function (option)\<close>; it is
  proved to return on all versions without NUL, and a match is proved to return on them.
  \<open>strconv.Atoi\<close> has its 64-bit range check.

  \<^bold>\<open>Outside code.\<close> Ed25519 and ECDSA, the PEM and X.509 forms of keys, Postgres' printing of
  JSON, encoding/json, the transports to anchor targets, the release calendar and the clock are
  arguments of the definitions that use them; what is relied on of them is a named hypothesis
  (\<open>key_pair\<close>, \<open>jsonb_canonical\<close>, \<open>keeps_anchor\<close>, \<open>ticket_desk\<close>), and nothing assumes that a hash has no
  collisions.

  \<^bold>\<open>Not modelled.\<close> The HTTP and gRPC servers and handlers (internal/control, internal/transport,
  cmd), generated code (gen), the web console, the network clients and collectors
  (internal/feeds, internal/m365, internal/gws, internal/datto and others), the agent's probing
  of the operating system, and the parts of internal/storepg that only move rows between SQL
  and Go. They are I/O or glue around the parts above. PROJECT.json lists every package with
  its reason.
\<close>

end
